(* ===== verification/Prelude.thy ===== *)
theory Prelude
  imports Main "HOL-Library.Word" "HOL-Library.Product_Lexorder"
begin

text \<open>
  The prelude of the development: the collections of facts its proofs share, Go's 64-bit
  integers, and the few generic lemmas about lists that several components use.

  A Go \<^verbatim>\<open>int64\<close> is an \<open>int\<close>; every arithmetic operation of the source that could leave
  the 64-bit range is wrapped by \<open>i64\<close>, the two's complement reduction. Times and durations
  are integers too: nanoseconds, as in \<^verbatim>\<open>time.Time\<close> and \<^verbatim>\<open>time.Duration\<close>.
\<close>

named_theorems keeps_intro "composition rules for invariants of effectful programs"
named_theorems prog_defs "the combinators effectful programs are built from"

section \<open>Machine integers\<close>

definition i64 :: "int \<Rightarrow> int" where
  "i64 x = signed_take_bit 63 x"

definition is_i64 :: "int \<Rightarrow> bool" where
  "is_i64 x \<longleftrightarrow> - (2 ^ 63) \<le> x \<and> x < 2 ^ 63"

definition max_int64 :: int where
  "max_int64 = 9223372036854775807"

text \<open>Go's integer division and remainder truncate towards zero.\<close>

definition go_quot :: "int \<Rightarrow> int \<Rightarrow> int" where
  "go_quot a b = sgn a * sgn b * (\<bar>a\<bar> div \<bar>b\<bar>)"

definition go_rem :: "int \<Rightarrow> int \<Rightarrow> int" where
  "go_rem a b = a - b * go_quot a b"

lemma i64_id: "is_i64 x \<Longrightarrow> i64 x = x"
  by (simp add: i64_def is_i64_def signed_take_bit_int_eq_self)

lemma is_i64_i64 [simp]: "is_i64 (i64 x)"
  using signed_take_bit_int_greater_eq_minus_exp [of 63 x] signed_take_bit_int_less_exp [of 63 x]
  by (simp add: i64_def is_i64_def)

lemma is_i64_le_max: "0 \<le> x \<Longrightarrow> x \<le> max_int64 \<Longrightarrow> is_i64 x"
  by (simp add: is_i64_def max_int64_def)

lemma is_i64_iff: "is_i64 x \<longleftrightarrow> - max_int64 - 1 \<le> x \<and> x \<le> max_int64"
  by (auto simp: is_i64_def max_int64_def)

lemma go_quot_nonneg: "0 \<le> a \<Longrightarrow> 0 \<le> b \<Longrightarrow> go_quot a b = a div b"
  by (cases "a = 0"; cases "b = 0") (simp_all add: go_quot_def)

lemma go_rem_nonneg: "0 \<le> a \<Longrightarrow> 0 \<le> b \<Longrightarrow> go_rem a b = a mod b"
  by (simp add: go_rem_def go_quot_nonneg minus_mult_div_eq_mod)

text \<open>Units of time: \<^verbatim>\<open>time.Millisecond\<close>, \<^verbatim>\<open>time.Second\<close>, \<^verbatim>\<open>time.Minute\<close>.\<close>

abbreviation millisecond :: int where "millisecond \<equiv> 1000000"
abbreviation second :: int where "second \<equiv> 1000000000"
abbreviation minute :: int where "minute \<equiv> 60000000000"

text \<open>\<^verbatim>\<open>Time.UnixMilli\<close>, \<^verbatim>\<open>Time.Unix\<close> (both round down), \<^verbatim>\<open>Duration.Milliseconds\<close> (truncates),
  and the zero \<^verbatim>\<open>time.Time\<close> that \<^verbatim>\<open>IsZero\<close> recognises (1 January of year 1).\<close>

definition unix_milli :: "int \<Rightarrow> int" where "unix_milli t = t div millisecond"
definition unix_sec :: "int \<Rightarrow> int" where "unix_sec t = t div second"
definition dur_millis :: "int \<Rightarrow> int" where "dur_millis d = go_quot d millisecond"
definition zero_time :: int where "zero_time = - 62135596800000000000"

section \<open>Lists\<close>

lemma find_append: "find P (xs @ ys) = (case find P xs of None \<Rightarrow> find P ys | Some x \<Rightarrow> Some x)"
  by (induction xs) auto

lemma find_Some_in: "find P xs = Some x \<Longrightarrow> x \<in> set xs \<and> P x"
  by (induction xs) (auto split: if_splits)

lemma find_None_all: "find P xs = None \<longleftrightarrow> (\<forall>x \<in> set xs. \<not> P x)"
  by (induction xs) auto

lemma find_map_upd:
  "(\<And>x. P (f x) = P x) \<Longrightarrow> find P (map f xs) = map_option f (find P xs)"
  by (induction xs) auto

lemma find_unique:
  "distinct (map k xs) \<Longrightarrow> x \<in> set xs \<Longrightarrow> find (\<lambda>y. k y = k x) xs = Some x"
proof (induction xs)
  case (Cons y ys)
  then show ?case by (cases "x = y") (auto simp: image_iff)
qed simp

end
