(* ===== verification/Go_Errors.thy ===== *)
theory Go_Errors
  imports Prelude
begin

text \<open>
  Go errors as values. \<open>sentinel\<close> lists the package-level error variables the services
  compare against, prefixed by their package; \<open>go_err\<close> adds the other ways the source makes
  an error: \<^verbatim>\<open>errors.New\<close> (\<open>Plain\<close>), \<^verbatim>\<open>fmt.Errorf\<close> with \<^verbatim>\<open>%w\<close> (\<open>Wrap\<close>, which
  carries the complete text), the MySQL driver's numbered error, \<^verbatim>\<open>mq.Permanent\<close> and
  \<^verbatim>\<open>errors.Join\<close>. \<open>errors_is\<close> and \<open>is_permanent\<close> walk the chain as
  \<^verbatim>\<open>errors.Is\<close> and \<^verbatim>\<open>errors.As\<close> do.
\<close>

datatype sentinel =
    Sql_ErrNoRows
  | Redis_Nil
  | Room_ErrNotFound | Room_ErrNotLiving | Room_ErrForbidden | Room_ErrInvalidState
  | Room_ErrBanned | Room_ErrSelfModeration | Room_ErrInvalidInput | Room_ErrUserNotFound
  | Gift_ErrGiftNotFound | Gift_ErrGiftOffline | Gift_ErrInsufficientBalance
  | Gift_ErrOrderNotFound | Gift_ErrIdempotencyConflict | Gift_ErrInvalidCount
  | Gift_ErrInvalidRequestID | Gift_ErrOrderForbidden | Gift_ErrRateLimited
  | Wallet_ErrInvalidCredit | Wallet_ErrCreditDisabled
  | Danmaku_ErrRateLimited | Danmaku_ErrMuted | Danmaku_ErrSensitive | Danmaku_ErrInvalidContent
  | Like_ErrInvalidCount | Like_ErrRateLimited
  | Auth_ErrUserNotFound | Auth_ErrUsernameTaken | Auth_ErrInvalidCredentials
  | Auth_ErrUserDisabled | Auth_ErrInvalidInput
  | Dedup_ErrBusy

fun sentinel_text :: "sentinel \<Rightarrow> string" where
  "sentinel_text Sql_ErrNoRows = ''sql: no rows in result set''"
| "sentinel_text Redis_Nil = ''redis: nil''"
| "sentinel_text Room_ErrNotFound = ''room not found''"
| "sentinel_text Room_ErrNotLiving = ''room is not living''"
| "sentinel_text Room_ErrForbidden = ''forbidden''"
| "sentinel_text Room_ErrInvalidState = ''invalid room state''"
| "sentinel_text Room_ErrBanned = ''user is banned from room''"
| "sentinel_text Room_ErrSelfModeration = ''anchor cannot moderate self''"
| "sentinel_text Room_ErrInvalidInput = ''invalid room input''"
| "sentinel_text Room_ErrUserNotFound = ''target user not found''"
| "sentinel_text Gift_ErrGiftNotFound = ''gift not found''"
| "sentinel_text Gift_ErrGiftOffline = ''gift is offline''"
| "sentinel_text Gift_ErrInsufficientBalance = ''insufficient balance''"
| "sentinel_text Gift_ErrOrderNotFound = ''gift order not found''"
| "sentinel_text Gift_ErrIdempotencyConflict =
     ''idempotency key was already used for different request parameters''"
| "sentinel_text Gift_ErrInvalidCount = ''gift count is outside the allowed range''"
| "sentinel_text Gift_ErrInvalidRequestID = ''invalid idempotency key''"
| "sentinel_text Gift_ErrOrderForbidden = ''gift order does not belong to user''"
| "sentinel_text Gift_ErrRateLimited = ''gift request rate limited''"
| "sentinel_text Wallet_ErrInvalidCredit = ''credit amount must be between 1 and 100000000''"
| "sentinel_text Wallet_ErrCreditDisabled = ''development wallet credit is disabled''"
| "sentinel_text Danmaku_ErrRateLimited = ''danmaku rate limited''"
| "sentinel_text Danmaku_ErrMuted = ''user is muted''"
| "sentinel_text Danmaku_ErrSensitive = ''danmaku contains sensitive content''"
| "sentinel_text Danmaku_ErrInvalidContent = ''invalid danmaku content''"
| "sentinel_text Like_ErrInvalidCount = ''like count must be between 1 and 100''"
| "sentinel_text Like_ErrRateLimited = ''like rate limit exceeded''"
| "sentinel_text Auth_ErrUserNotFound = ''user not found''"
| "sentinel_text Auth_ErrUsernameTaken = ''username already exists''"
| "sentinel_text Auth_ErrInvalidCredentials = ''invalid credentials''"
| "sentinel_text Auth_ErrUserDisabled = ''user disabled''"
| "sentinel_text Auth_ErrInvalidInput = ''invalid auth input''"
| "sentinel_text Dedup_ErrBusy = ''event is being processed by another consumer''"

datatype go_err =
    Sentinel sentinel
  | Plain string
  | MySQLError nat string
  | Wrap string go_err
  | PermanentError go_err
  | Joined "go_err list"

text \<open>\<^verbatim>\<open>err.Error()\<close>; \<^verbatim>\<open>errors.Join\<close> puts one line per error.\<close>

fun join_lines :: "string list \<Rightarrow> string" where
  "join_lines [] = []"
| "join_lines [t] = t"
| "join_lines (t # ts) = t @ CHR 0x0A # join_lines ts"

primrec error_text :: "go_err \<Rightarrow> string" where
  "error_text (Sentinel s) = sentinel_text s"
| "error_text (Plain t) = t"
| "error_text (MySQLError n t) = t"
| "error_text (Wrap t e) = t"
| "error_text (PermanentError e) = error_text e"
| "error_text (Joined es) = join_lines (map error_text es)"

text \<open>\<^verbatim>\<open>errors.Is(err, target)\<close> for a sentinel target.\<close>

primrec errors_is :: "go_err \<Rightarrow> sentinel \<Rightarrow> bool" where
  "errors_is (Sentinel s) t = (s = t)"
| "errors_is (Plain m) t = False"
| "errors_is (MySQLError n m) t = False"
| "errors_is (Wrap m e) t = errors_is e t"
| "errors_is (PermanentError e) t = errors_is e t"
| "errors_is (Joined es) t = list_ex (\<lambda>f. f t) (map errors_is es)"

text \<open>\<^verbatim>\<open>mq.Permanent\<close> and \<^verbatim>\<open>mq.IsPermanent\<close>: the latter is \<^verbatim>\<open>errors.As\<close> on the chain.\<close>

definition Permanent :: "go_err \<Rightarrow> go_err" where
  "Permanent e = PermanentError e"

primrec IsPermanent :: "go_err \<Rightarrow> bool" where
  "IsPermanent (Sentinel s) = False"
| "IsPermanent (Plain m) = False"
| "IsPermanent (MySQLError n m) = False"
| "IsPermanent (Wrap m e) = IsPermanent e"
| "IsPermanent (PermanentError e) = True"
| "IsPermanent (Joined es) = list_ex id (map IsPermanent es)"

text \<open>\<^verbatim>\<open>fmt.Errorf("<prefix>: %w", err)\<close> and \<^verbatim>\<open>fmt.Errorf("%w: <suffix>", err)\<close>.\<close>

definition errorf_pre :: "string \<Rightarrow> go_err \<Rightarrow> go_err" where
  "errorf_pre p e = Wrap (p @ '': '' @ error_text e) e"

definition errorf_post :: "go_err \<Rightarrow> string \<Rightarrow> go_err" where
  "errorf_post e p = Wrap (error_text e @ '': '' @ p) e"

lemma errors_is_errorf [simp]:
  "errors_is (errorf_pre p e) t = errors_is e t"
  "errors_is (errorf_post e p) t = errors_is e t"
  by (simp_all add: errorf_pre_def errorf_post_def)

lemma errors_is_Permanent [simp]: "errors_is (Permanent e) t = errors_is e t"
  by (simp add: Permanent_def)

lemma IsPermanent_Permanent [simp]: "IsPermanent (Permanent e)"
  by (simp add: Permanent_def)

lemma IsPermanent_errorf [simp]:
  "IsPermanent (errorf_pre p e) = IsPermanent e"
  "IsPermanent (errorf_post e p) = IsPermanent e"
  by (simp_all add: errorf_pre_def errorf_post_def)

end
