(* ===== verification/Go_Text.thy ===== *)
theory Go_Text
  imports Prelude
begin

text \<open>
  Go strings and the parts of \<^verbatim>\<open>strings\<close>, \<^verbatim>\<open>strconv\<close> and \<^verbatim>\<open>unicode\<close> the source
  uses. A Go string is its list of bytes (\<open>string\<close>, a \<open>char\<close> per byte), so \<^verbatim>\<open>len(s)\<close> is
  \<open>length\<close>; ranging over a string or converting it to \<^verbatim>\<open>[]rune\<close> decodes UTF-8 with Go's
  rules (an invalid byte is U+FFFD of width one). Character classes below U+0080 are written
  out; above, the Unicode tables of the standard library are the fields of a record \<open>unicode\<close>.
\<close>

section \<open>UTF-8\<close>

definition byte :: "char \<Rightarrow> int" where
  "byte c = of_char c"

definition rune_error :: int where
  "rune_error = 65533"

definition is_cont :: "int \<Rightarrow> bool" where
  "is_cont b \<longleftrightarrow> 128 \<le> b \<and> b \<le> 191"

text \<open>The legal second byte depends on the first for three- and four-byte sequences.\<close>

definition second_ok :: "int \<Rightarrow> int \<Rightarrow> bool" where
  "second_ok b0 b1 \<longleftrightarrow>
     (if b0 = 224 then 160 \<le> b1 \<and> b1 \<le> 191
      else if b0 = 237 then 128 \<le> b1 \<and> b1 \<le> 159
      else if b0 = 240 then 144 \<le> b1 \<and> b1 \<le> 191
      else if b0 = 244 then 128 \<le> b1 \<and> b1 \<le> 143
      else is_cont b1)"

fun decode_rune :: "string \<Rightarrow> int \<times> nat" where
  "decode_rune [] = (rune_error, 0)"
| "decode_rune (c # cs) =
     (let b0 = byte c in
      if b0 < 128 then (b0, 1)
      else if 194 \<le> b0 \<and> b0 \<le> 223 then
        (case cs of
           c1 # _ \<Rightarrow>
             if is_cont (byte c1) then ((b0 - 192) * 64 + (byte c1 - 128), 2)
             else (rune_error, 1)
         | _ \<Rightarrow> (rune_error, 1))
      else if 224 \<le> b0 \<and> b0 \<le> 239 then
        (case cs of
           c1 # c2 # _ \<Rightarrow>
             if second_ok b0 (byte c1) \<and> is_cont (byte c2)
             then ((b0 - 224) * 4096 + (byte c1 - 128) * 64 + (byte c2 - 128), 3)
             else (rune_error, 1)
         | _ \<Rightarrow> (rune_error, 1))
      else if 240 \<le> b0 \<and> b0 \<le> 244 then
        (case cs of
           c1 # c2 # c3 # _ \<Rightarrow>
             if second_ok b0 (byte c1) \<and> is_cont (byte c2) \<and> is_cont (byte c3)
             then ((b0 - 240) * 262144 + (byte c1 - 128) * 4096
                    + (byte c2 - 128) * 64 + (byte c3 - 128), 4)
             else (rune_error, 1)
         | _ \<Rightarrow> (rune_error, 1))
      else (rune_error, 1))"

lemma decode_rune_width_pos: "s \<noteq> [] \<Longrightarrow> 0 < snd (decode_rune s)"
  by (cases s) (auto simp: Let_def split: list.splits)

text \<open>A string cut into runes, each with the bytes it was decoded from.\<close>

function rune_segs :: "string \<Rightarrow> (int \<times> string) list" where
  "rune_segs s =
     (if s = [] then []
      else (fst (decode_rune s), take (snd (decode_rune s)) s)
             # rune_segs (drop (snd (decode_rune s)) s))"
  by pat_completeness auto
termination
proof (relation "measure length", goal_cases)
  case 1
  show ?case by simp
next
  case (2 s)
  then have "0 < snd (decode_rune s)" and "0 < length s"
    by (auto intro: decode_rune_width_pos)
  then show ?case by simp
qed

declare rune_segs.simps [simp del]

lemma rune_segs_Nil [simp]: "rune_segs [] = []"
  by (simp add: rune_segs.simps)

lemma rune_segs_step:
  "s \<noteq> [] \<Longrightarrow> rune_segs s = (fst (decode_rune s), take (snd (decode_rune s)) s)
                            # rune_segs (drop (snd (decode_rune s)) s)"
  by (simp add: rune_segs.simps [of s])

lemma rune_segs_ascii: "byte c < 128 \<Longrightarrow> rune_segs (c # s) = (byte c, [c]) # rune_segs s"
  by (simp add: rune_segs_step)

lemma rune_segs_concat: "concat (map snd (rune_segs s)) = s"
proof (induction s rule: rune_segs.induct)
  case (1 s)
  then show ?case by (cases "s = []") (simp_all add: rune_segs_step)
qed

text \<open>\<^verbatim>\<open>[]rune(s)\<close>.\<close>

definition runes :: "string \<Rightarrow> int list" where
  "runes s = map fst (rune_segs s)"

lemma runes_Nil [simp]: "runes [] = []"
  by (simp add: runes_def)

definition utf8_encode :: "int \<Rightarrow> string" where
  "utf8_encode r0 =
     (let r = (if r0 < 0 \<or> 1114111 < r0 \<or> (55296 \<le> r0 \<and> r0 \<le> 57343) then rune_error else r0) in
      if r < 128 then [char_of r]
      else if r < 2048 then [char_of (192 + r div 64), char_of (128 + r mod 64)]
      else if r < 65536 then
        [char_of (224 + r div 4096), char_of (128 + (r div 64) mod 64), char_of (128 + r mod 64)]
      else
        [char_of (240 + r div 262144), char_of (128 + (r div 4096) mod 64),
         char_of (128 + (r div 64) mod 64), char_of (128 + r mod 64)])"

text \<open>
  Decoding does not look past an ASCII byte: a string cut before one decodes as its two
  halves do.
\<close>

lemma decode_rune_before_ascii:
  assumes "s \<noteq> []" and "byte a < 128"
  shows "decode_rune (s @ a # t) = decode_rune s"
    and "snd (decode_rune s) \<le> length s"
  using assms
  by (auto simp: neq_Nil_conv Let_def is_cont_def second_ok_def Cons_eq_append_conv
      split: list.splits)

lemma rune_segs_append_ascii:
  "byte a < 128 \<Longrightarrow> rune_segs (s @ a # t) = rune_segs s @ rune_segs (a # t)"
proof (induction s rule: rune_segs.induct)
  case (1 s)
  show ?case
  proof (cases "s = []")
    case False
    let ?n = "snd (decode_rune s)"
    have "?n \<le> length s" and d: "decode_rune (s @ a # t) = decode_rune s"
      using decode_rune_before_ascii [OF False 1(2)] by simp_all
    then have "take ?n (s @ a # t) = take ?n s" "drop ?n (s @ a # t) = drop ?n s @ a # t"
      by simp_all
    with 1 False d show ?thesis
      by (simp add: rune_segs_step [of "s @ a # t"] rune_segs_step [of s])
  qed simp
qed

section \<open>unicode and strings\<close>

record unicode =
  uni_letter :: "int \<Rightarrow> bool"
  uni_digit :: "int \<Rightarrow> bool"
  uni_lower :: "int \<Rightarrow> int"
  uni_upper :: "int \<Rightarrow> int"

text \<open>A table that knows no letters or digits beyond ASCII, for concrete instances.\<close>

definition ascii_only :: unicode where
  "ascii_only = \<lparr>uni_letter = (\<lambda>_. False), uni_digit = (\<lambda>_. False), uni_lower = id, uni_upper = id\<rparr>"

definition is_letter :: "unicode \<Rightarrow> int \<Rightarrow> bool" where
  "is_letter U r \<longleftrightarrow>
     (if r < 128 then (65 \<le> r \<and> r \<le> 90) \<or> (97 \<le> r \<and> r \<le> 122) else uni_letter U r)"

definition is_digit :: "unicode \<Rightarrow> int \<Rightarrow> bool" where
  "is_digit U r \<longleftrightarrow> (if r < 128 then 48 \<le> r \<and> r \<le> 57 else uni_digit U r)"

definition lower_rune :: "unicode \<Rightarrow> int \<Rightarrow> int" where
  "lower_rune U r = (if r < 128 then (if 65 \<le> r \<and> r \<le> 90 then r + 32 else r) else uni_lower U r)"

definition upper_rune :: "unicode \<Rightarrow> int \<Rightarrow> int" where
  "upper_rune U r = (if r < 128 then (if 97 \<le> r \<and> r \<le> 122 then r - 32 else r) else uni_upper U r)"

text \<open>\<^verbatim>\<open>unicode.IsSpace\<close>: the White_Space property, in full.\<close>

definition is_space :: "int \<Rightarrow> bool" where
  "is_space r \<longleftrightarrow>
     r \<in> {9, 10, 11, 12, 13, 32, 133, 160, 5760, 8232, 8233, 8239, 8287, 12288}
     \<or> (8192 \<le> r \<and> r \<le> 8202)"

definition ToLower :: "unicode \<Rightarrow> string \<Rightarrow> string" where
  "ToLower U s = concat (map (\<lambda>r. utf8_encode (lower_rune U r)) (runes s))"

definition ToUpper :: "unicode \<Rightarrow> string \<Rightarrow> string" where
  "ToUpper U s = concat (map (\<lambda>r. utf8_encode (upper_rune U r)) (runes s))"

definition TrimSpace :: "string \<Rightarrow> string" where
  "TrimSpace s =
     (let drop_space = dropWhile (\<lambda>seg. is_space (fst seg)) in
      concat (map snd (rev (drop_space (rev (drop_space (rune_segs s)))))))"

definition HasPrefix :: "string \<Rightarrow> string \<Rightarrow> bool" where
  "HasPrefix s p \<longleftrightarrow> take (length p) s = p"

definition HasSuffix :: "string \<Rightarrow> string \<Rightarrow> bool" where
  "HasSuffix s p \<longleftrightarrow> length p \<le> length s \<and> drop (length s - length p) s = p"

definition TrimPrefix :: "string \<Rightarrow> string \<Rightarrow> string" where
  "TrimPrefix s p = (if HasPrefix s p then drop (length p) s else s)"

fun Contains_str :: "string \<Rightarrow> string \<Rightarrow> bool" where
  "Contains_str [] p = (p = [])"
| "Contains_str (c # s) p = (HasPrefix (c # s) p \<or> Contains_str s p)"

lemma TrimSpace_Nil [simp]: "TrimSpace [] = []"
  by (simp add: TrimSpace_def)

lemma HasSuffix_append [simp]: "HasSuffix (s @ p) p"
  by (simp add: HasSuffix_def)

lemma Contains_str_prefix: "HasPrefix s p \<Longrightarrow> Contains_str s p"
  by (cases s) (simp_all add: HasPrefix_def)

lemma Contains_str_append: "Contains_str t p \<Longrightarrow> Contains_str (s @ t) p"
  by (induction s) auto

lemma Contains_str_mid: "Contains_str (s @ p @ t) p"
  by (intro Contains_str_append Contains_str_prefix) (simp add: HasPrefix_def)

lemma ToLower_append_ascii:
  "byte a < 128 \<Longrightarrow> ToLower U (s @ a # t) = ToLower U s @ ToLower U (a # t)"
  by (simp add: ToLower_def runes_def rune_segs_append_ascii)

lemma ToLower_ascii:
  "byte c < 128 \<Longrightarrow> ToLower U (c # s) = utf8_encode (lower_rune U (byte c)) @ ToLower U s"
  by (simp add: ToLower_def runes_def rune_segs_ascii)

lemma ToLower_Nil [simp]: "ToLower U [] = []"
  by (simp add: ToLower_def)

section \<open>strconv\<close>

definition digit_char :: "nat \<Rightarrow> char" where
  "digit_char d = char_of (48 + d)"

fun nat_digits :: "nat \<Rightarrow> string" where
  "nat_digits n =
     (if n < 10 then [digit_char n] else nat_digits (n div 10) @ [digit_char (n mod 10)])"

declare nat_digits.simps [simp del]

text \<open>\<^verbatim>\<open>strconv.FormatInt(v, 10)\<close>, also \<^verbatim>\<open>strconv.Itoa\<close> and the verb \<^verbatim>\<open>%d\<close>.\<close>

definition FormatInt :: "int \<Rightarrow> string" where
  "FormatInt v = (if v < 0 then CHR ''-'' # nat_digits (nat (- v)) else nat_digits (nat v))"

fun digits_value :: "nat \<Rightarrow> string \<Rightarrow> nat option" where
  "digits_value acc [] = Some acc"
| "digits_value acc (c # cs) =
     (let b = of_char c :: nat in
      if 48 \<le> b \<and> b \<le> 57 then digits_value (acc * 10 + (b - 48)) cs else None)"

text \<open>\<^verbatim>\<open>strconv.ParseInt(s, 10, 64)\<close>; \<open>None\<close> stands for the error.\<close>

definition ParseInt :: "string \<Rightarrow> int option" where
  "ParseInt s =
     (case s of
        [] \<Rightarrow> None
      | c # cs \<Rightarrow>
          let neg = (c = CHR ''-'');
              ds = (if c = CHR ''-'' \<or> c = CHR ''+'' then cs else s)
          in if ds = [] then None
             else case digits_value 0 ds of
                    None \<Rightarrow> None
                  | Some n \<Rightarrow>
                      let v = (if neg then - int n else int n)
                      in if is_i64 v then Some v else None)"

lemma digits_value_append:
  "digits_value a (xs @ ys) = (case digits_value a xs of None \<Rightarrow> None | Some b \<Rightarrow> digits_value b ys)"
  by (induction xs arbitrary: a) (auto simp: Let_def)

lemma digit_char_value: "d < 10 \<Longrightarrow> (of_char (digit_char d) :: nat) = 48 + d"
  by (simp add: digit_char_def)

lemma digits_value_nat_digits: "digits_value 0 (nat_digits n) = Some n"
proof (induction n rule: nat_digits.induct)
  case (1 n)
  show ?case
  proof (cases "n < 10")
    case True
    then show ?thesis by (simp add: nat_digits.simps digit_char_value)
  next
    case False
    with 1 have "digits_value 0 (nat_digits (n div 10)) = Some (n div 10)" by simp
    with False show ?thesis
      by (simp add: nat_digits.simps [of n] digits_value_append digit_char_value)
  qed
qed

lemma nat_digits_Cons: "\<exists>d cs. nat_digits n = digit_char d # cs \<and> d < 10"
proof (induction n rule: nat_digits.induct)
  case (1 n)
  show ?case
  proof (cases "n < 10")
    case False
    with 1 obtain d cs where "nat_digits (n div 10) = digit_char d # cs" and "d < 10" by auto
    with False have "nat_digits n = digit_char d # (cs @ [digit_char (n mod 10)])"
      by (simp add: nat_digits.simps [of n])
    with \<open>d < 10\<close> show ?thesis by blast
  next
    case True
    then have "nat_digits n = digit_char n # []" by (simp add: nat_digits.simps)
    with True show ?thesis by blast
  qed
qed

lemma digit_char_not_sign: "d < 10 \<Longrightarrow> digit_char d \<noteq> CHR ''-'' \<and> digit_char d \<noteq> CHR ''+''"
  using digit_char_value [of d] by auto

lemma ParseInt_FormatInt: "is_i64 v \<Longrightarrow> ParseInt (FormatInt v) = Some v"
proof -
  assume v: "is_i64 v"
  obtain d cs where nd: "nat_digits (nat v) = digit_char d # cs" and "d < 10"
    using nat_digits_Cons by blast
  obtain d' cs' where nd': "nat_digits (nat (- v)) = digit_char d' # cs'" and "d' < 10"
    using nat_digits_Cons by blast
  show ?thesis
  proof (cases "v < 0")
    case True
    with v nd' show ?thesis
      using digits_value_nat_digits [of "nat (- v)"]
      by (simp add: FormatInt_def ParseInt_def)
  next
    case False
    with v nd \<open>d < 10\<close> show ?thesis
      using digits_value_nat_digits [of "nat v"] digit_char_not_sign [of d]
      by (simp add: FormatInt_def ParseInt_def)
  qed
qed

end
