(* ===== verification/Json.thy ===== *)
theory Json
  imports Go_Text
begin

text \<open>
  The parts of \<^verbatim>\<open>encoding/json\<close> and \<^verbatim>\<open>time\<close> behind the messages the services exchange:
  documents, their compact text (\<^verbatim>\<open>json.Marshal\<close>, with its HTML-safe escapes and the
  replacement of invalid UTF-8), \<^verbatim>\<open>json.Compact\<close> for embedded raw messages, and the RFC 3339
  text of a UTC instant. Numbers keep their literal text, as \<^verbatim>\<open>json.Number\<close> does.
\<close>

section \<open>Documents and their text\<close>

datatype json =
    JNull
  | JBool bool
  | JNum string
  | JStr string
  | JArr "json list"
  | JObj "(string \<times> json) list"

abbreviation JInt :: "int \<Rightarrow> json" where
  "JInt n \<equiv> JNum (FormatInt n)"

definition dquote :: char where "dquote = CHR 0x22"
definition backslash :: char where "backslash = CHR 0x5C"

definition hex_digit :: "nat \<Rightarrow> char" where
  "hex_digit d = (if d < 10 then char_of (48 + d) else char_of (87 + d))"

definition u_escape :: "nat \<Rightarrow> string" where
  "u_escape n = [backslash, CHR ''u'', hex_digit (n div 4096 mod 16), hex_digit (n div 256 mod 16),
                 hex_digit (n div 16 mod 16), hex_digit (n mod 16)]"

text \<open>One rune of a string, given with the bytes it was decoded from.\<close>

definition escape_rune :: "int \<times> string \<Rightarrow> string" where
  "escape_rune seg = (case seg of (r, bs) \<Rightarrow>
     if r = 34 then [backslash, dquote]
     else if r = 92 then [backslash, backslash]
     else if r = 8 then [backslash, CHR ''b'']
     else if r = 12 then [backslash, CHR ''f'']
     else if r = 10 then [backslash, CHR ''n'']
     else if r = 13 then [backslash, CHR ''r'']
     else if r = 9 then [backslash, CHR ''t'']
     else if r < 32 \<or> r = 60 \<or> r = 62 \<or> r = 38 \<or> r = 8232 \<or> r = 8233
       then u_escape (nat r)
     else if r = rune_error \<and> length bs = 1 then u_escape 65533
     else bs)"

definition quote_str :: "string \<Rightarrow> string" where
  "quote_str s = dquote # concat (map escape_rune (rune_segs s)) @ [dquote]"

fun sep_by :: "string \<Rightarrow> string list \<Rightarrow> string" where
  "sep_by c [] = []"
| "sep_by c [t] = t"
| "sep_by c (t # ts) = t @ c @ sep_by c ts"

fun jprint :: "json \<Rightarrow> string" where
  "jprint JNull = ''null''"
| "jprint (JBool b) = (if b then ''true'' else ''false'')"
| "jprint (JNum n) = n"
| "jprint (JStr s) = quote_str s"
| "jprint (JArr vs) = ''['' @ sep_by '','' (map jprint vs) @ '']''"
| "jprint (JObj fs) =
     ''{'' @ sep_by '','' (map (\<lambda>f. quote_str (fst f) @ '':'' @ jprint (snd f)) fs) @ ''}''"

text \<open>
  \<^verbatim>\<open>json.Compact\<close> with HTML escaping, as \<^verbatim>\<open>Marshal\<close> applies it to a \<^verbatim>\<open>json.RawMessage\<close>:
  white space outside strings goes, \<open><\<close>, \<open>>\<close>, \<open>&\<close>, U+2028 and U+2029 are escaped. The
  flags say whether the scan is inside a string and behind a backslash.
\<close>

fun compact :: "bool \<Rightarrow> bool \<Rightarrow> string \<Rightarrow> string" where
  "compact q e [] = []"
| "compact q e (c # cs) =
     (if byte c \<in> {60, 62, 38} then u_escape (of_char c) @ compact q False cs
      else if take 3 (c # cs) = [CHR 0xE2, CHR 0x80, CHR 0xA8] then u_escape 8232 @ compact q False (drop 2 cs)
      else if take 3 (c # cs) = [CHR 0xE2, CHR 0x80, CHR 0xA9] then u_escape 8233 @ compact q False (drop 2 cs)
      else if q then c # compact (e \<or> c \<noteq> dquote) (\<not> e \<and> c = backslash) cs
      else if byte c \<in> {32, 9, 10, 13} then compact q False cs
      else c # compact (c = dquote) False cs)"

section \<open>Reading a document\<close>

fun skip_ws :: "string \<Rightarrow> string" where
  "skip_ws [] = []"
| "skip_ws (c # cs) = (if byte c \<in> {32, 9, 10, 13} then skip_ws cs else c # cs)"

text \<open>The rest of the text after the given literal, if it starts with it.\<close>

definition expect :: "string \<Rightarrow> string \<Rightarrow> string option" where
  "expect p s = (if HasPrefix s p then Some (drop (length p) s) else None)"

definition hex_value :: "char \<Rightarrow> nat option" where
  "hex_value c = (let b = of_char c :: nat in
     if 48 \<le> b \<and> b \<le> 57 then Some (b - 48)
     else if 97 \<le> b \<and> b \<le> 102 then Some (b - 87)
     else if 65 \<le> b \<and> b \<le> 70 then Some (b - 55) else None)"

fun hex4 :: "string \<Rightarrow> nat option" where
  "hex4 (a # b # c # d # _) =
     (case (hex_value a, hex_value b, hex_value c, hex_value d) of
        (Some w, Some x, Some y, Some z) \<Rightarrow> Some (w * 4096 + x * 256 + y * 16 + z)
      | _ \<Rightarrow> None)"
| "hex4 _ = None"

definition simple_escape :: "char \<Rightarrow> char option" where
  "simple_escape c =
     (if c = dquote \<or> c = backslash \<or> c = CHR ''/'' then Some c
      else if c = CHR ''b'' then Some (char_of (8 :: nat))
      else if c = CHR ''f'' then Some (char_of (12 :: nat))
      else if c = CHR ''n'' then Some (char_of (10 :: nat))
      else if c = CHR ''r'' then Some (char_of (13 :: nat))
      else if c = CHR ''t'' then Some (char_of (9 :: nat))
      else None)"

text \<open>The second half of a surrogate pair, as the escape that follows the first.\<close>

definition low_surrogate :: "string \<Rightarrow> nat option" where
  "low_surrogate s = (case expect [backslash, CHR ''u''] s of
       None \<Rightarrow> None
     | Some t \<Rightarrow> (case hex4 t of
           Some l \<Rightarrow> if 56320 \<le> l \<and> l \<le> 57343 then Some l else None
         | None \<Rightarrow> None))"

text \<open>The characters of a string behind its opening quote, up to the closing one.\<close>

function parse_chars :: "string \<Rightarrow> (string \<times> string) option" where
  "parse_chars [] = None"
| "parse_chars (c # cs) =
     (if c = dquote then Some ([], cs)
      else if c = backslash then
        (case cs of
           [] \<Rightarrow> None
         | d # ds \<Rightarrow>
             (if d = CHR ''u'' then
                (case hex4 ds of
                   None \<Rightarrow> None
                 | Some r \<Rightarrow>
                     (case (if 55296 \<le> r \<and> r \<le> 56319 then low_surrogate (drop 4 ds) else None) of
                        Some l \<Rightarrow>
                          map_option (apfst ((@) (utf8_encode (int ((r - 55296) * 1024 + (l - 56320) + 65536)))))
                            (parse_chars (drop 10 ds))
                      | None \<Rightarrow>
                          map_option (apfst ((@) (utf8_encode (int r)))) (parse_chars (drop 4 ds))))
              else (case simple_escape d of
                      None \<Rightarrow> None
                    | Some e \<Rightarrow> map_option (apfst ((#) e)) (parse_chars ds))))
      else if byte c < 32 then None
      else map_option (apfst ((@) (utf8_encode (fst (decode_rune (c # cs))))))
             (parse_chars (drop (snd (decode_rune (c # cs))) (c # cs))))"
  by pat_completeness auto
termination
proof (relation "measure length", goal_cases)
  case (5 c cs)
  then show ?case using decode_rune_width_pos [of "c # cs"] by (simp del: decode_rune.simps)
qed auto

definition span_digits :: "string \<Rightarrow> string \<times> string" where
  "span_digits s = (takeWhile (\<lambda>c. 48 \<le> byte c \<and> byte c \<le> 57) s, dropWhile (\<lambda>c. 48 \<le> byte c \<and> byte c \<le> 57) s)"

text \<open>The number literal at the head of a text: sign, integer part, fraction, exponent.\<close>

definition scan_sign :: "string \<Rightarrow> string \<Rightarrow> string \<times> string" where
  "scan_sign cs s = (case s of c # r \<Rightarrow> if c \<in> set cs then ([c], r) else ([], s) | [] \<Rightarrow> ([], []))"

definition scan_number :: "string \<Rightarrow> (string \<times> string) option" where
  "scan_number s =
     (case scan_sign ''-'' s of (sg, s1) \<Rightarrow>
      (case span_digits s1 of (ip, s2) \<Rightarrow>
       if ip = [] \<or> (hd ip = CHR ''0'' \<and> length ip > 1) then
         (if ip \<noteq> [] then Some (sg @ ''0'', tl ip @ s2) else None)
       else
         (case scan_sign ''.'' s2 of (dot, s3) \<Rightarrow>
          (case (if dot = [] then ([], s2) else span_digits s3) of (fp, s4) \<Rightarrow>
           if dot \<noteq> [] \<and> fp = [] then None
           else
             (case scan_sign ''eE'' s4 of (ex, s5) \<Rightarrow>
              if ex = [] then Some (sg @ ip @ dot @ fp, s4)
              else
                (case scan_sign ''+-'' s5 of (es, s6) \<Rightarrow>
                 (case span_digits s6 of (xp, s7) \<Rightarrow>
                  if xp = [] then None else Some (sg @ ip @ dot @ fp @ ex @ es @ xp, s7))))))))"

fun parse_value :: "nat \<Rightarrow> string \<Rightarrow> (json \<times> string) option"
  and parse_elems :: "nat \<Rightarrow> string \<Rightarrow> (json list \<times> string) option"
  and parse_members :: "nat \<Rightarrow> string \<Rightarrow> ((string \<times> json) list \<times> string) option" where
  "parse_value 0 s = None"
| "parse_value (Suc n) s0 =
     (let s = skip_ws s0 in
      case expect ''null'' s of Some r \<Rightarrow> Some (JNull, r) | None \<Rightarrow>
      case expect ''true'' s of Some r \<Rightarrow> Some (JBool True, r) | None \<Rightarrow>
      case expect ''false'' s of Some r \<Rightarrow> Some (JBool False, r) | None \<Rightarrow>
      case expect [dquote] s of Some r \<Rightarrow> map_option (apfst JStr) (parse_chars r) | None \<Rightarrow>
      case expect ''['' s of Some r \<Rightarrow>
        (case expect '']'' (skip_ws r) of Some t \<Rightarrow> Some (JArr [], t)
         | None \<Rightarrow> map_option (apfst JArr) (parse_elems n r)) | None \<Rightarrow>
      case expect ''{'' s of Some r \<Rightarrow>
        (case expect ''}'' (skip_ws r) of Some t \<Rightarrow> Some (JObj [], t)
         | None \<Rightarrow> map_option (apfst JObj) (parse_members n r)) | None \<Rightarrow>
      map_option (apfst JNum) (scan_number s))"
| "parse_elems 0 s = None"
| "parse_elems (Suc n) s =
     (case parse_value n s of None \<Rightarrow> None | Some (v, r) \<Rightarrow>
      case expect '']'' (skip_ws r) of Some t \<Rightarrow> Some ([v], t) | None \<Rightarrow>
      case expect '','' (skip_ws r) of
        Some t \<Rightarrow> map_option (apfst ((#) v)) (parse_elems n t) | None \<Rightarrow> None)"
| "parse_members 0 s = None"
| "parse_members (Suc n) s =
     (case expect [dquote] (skip_ws s) of None \<Rightarrow> None | Some s1 \<Rightarrow>
      case parse_chars s1 of None \<Rightarrow> None | Some (k, s2) \<Rightarrow>
      case expect '':'' (skip_ws s2) of None \<Rightarrow> None | Some s3 \<Rightarrow>
      case parse_value n s3 of None \<Rightarrow> None | Some (v, r) \<Rightarrow>
      case expect ''}'' (skip_ws r) of Some t \<Rightarrow> Some ([(k, v)], t) | None \<Rightarrow>
      case expect '','' (skip_ws r) of
        Some t \<Rightarrow> map_option (apfst ((#) (k, v))) (parse_members n t) | None \<Rightarrow> None)"

text \<open>
  A whole document, nothing but white space behind it. Every recursive call consumes a
  character or descends from an array or object to its first element, so twice the length
  bounds the calls in a row.
\<close>

definition json_parse :: "string \<Rightarrow> json option" where
  "json_parse s = (case parse_value (2 * length s + 2) s of
       Some (v, r) \<Rightarrow> if skip_ws r = [] then Some v else None
     | None \<Rightarrow> None)"

definition json_valid :: "string \<Rightarrow> bool" where
  "json_valid s \<longleftrightarrow> json_parse s \<noteq> None"

section \<open>Dates\<close>

text \<open>Days before the first of January of a year, and before a month of a year, from 0001-01-01.\<close>

definition days_before_year :: "int \<Rightarrow> int" where
  "days_before_year y = 365 * (y - 1) + (y - 1) div 4 - (y - 1) div 100 + (y - 1) div 400"

definition leap_year :: "int \<Rightarrow> bool" where
  "leap_year y \<longleftrightarrow> y mod 4 = 0 \<and> (y mod 100 \<noteq> 0 \<or> y mod 400 = 0)"

definition year_of_day :: "int \<Rightarrow> int" where
  "year_of_day d =
     (let y = (400 * d) div 146097 + 1 in
      if d < days_before_year y then y - 1
      else if days_before_year (y + 1) \<le> d then y + 1 else y)"

definition month_lengths :: "int \<Rightarrow> int list" where
  "month_lengths y = [31, if leap_year y then 29 else 28, 31, 30, 31, 30, 31, 31, 30, 31, 30, 31]"

text \<open>The month (from 1) and the day of the month (from 1) of a day of the year (from 0).\<close>

fun month_and_day :: "int list \<Rightarrow> int \<Rightarrow> int \<Rightarrow> int \<times> int" where
  "month_and_day [] m d = (m, d + 1)"
| "month_and_day (n # ns) m d = (if d < n then (m, d + 1) else month_and_day ns (m + 1) (d - n))"

definition pad_num :: "nat \<Rightarrow> int \<Rightarrow> string" where
  "pad_num n v = replicate (n - length (FormatInt v)) (CHR ''0'') @ FormatInt v"

definition epoch_day :: int where
  "epoch_day = 719162"

text \<open>\<^verbatim>\<open>t.Format(time.RFC3339Nano)\<close> for a UTC time within the years \<^verbatim>\<open>MarshalJSON\<close> accepts.\<close>

definition rfc3339 :: "int \<Rightarrow> string" where
  "rfc3339 t =
     (let d = t div (86400 * second) + epoch_day;
          y = year_of_day d;
          md = month_and_day (month_lengths y) 1 (d - days_before_year y);
          r = t mod (86400 * second);
          s = r div second;
          frac = rev (dropWhile (\<lambda>c. c = CHR ''0'') (rev (pad_num 9 (r mod second))))
      in pad_num 4 y @ ''-'' @ pad_num 2 (fst md) @ ''-'' @ pad_num 2 (snd md) @ ''T''
         @ pad_num 2 (s div 3600) @ '':'' @ pad_num 2 (s div 60 mod 60) @ '':'' @ pad_num 2 (s mod 60)
         @ (if frac = [] then [] else ''.'' @ frac) @ ''Z'')"

definition year_of_time :: "int \<Rightarrow> int" where
  "year_of_time t = year_of_day (t div (86400 * second) + epoch_day)"

text \<open>\<^verbatim>\<open>time.Time.MarshalJSON\<close>: the text, or an error outside the years 0 to 9999.\<close>

definition time_json :: "int \<Rightarrow> json option" where
  "time_json t = (if 0 \<le> year_of_time t \<and> year_of_time t \<le> 9999 then Some (JStr (rfc3339 t)) else None)"

end
