(* ===== verification/Effects.thy ===== *)
theory Effects
  imports Go_Errors Json
begin

text \<open>
  Effectful code as explicit state passing. A program of type \<open>('d, 'a) prog\<close> maps a state
  (the data \<open>'d\<close> of the stores it works on, and the world \<open>io\<close>) to a Go-style result, an
  error or a value, and the next state; the state survives an error, as it does in Go.

  The world holds the three clocks the code reads (the process's, the database server's and
  the Redis server's), the bytes the random source will deliver, and the outcomes of the
  calls to external services still to come: \<open>Done\<close> is a call that completes, \<open>Lost m\<close> one
  that fails without effect, \<open>Late m\<close> one that takes effect although the caller sees an
  error. A theorem about a program for every \<open>io\<close> is a theorem about every placement of
  such failures. One operation runs at one instant of each clock.
\<close>

section \<open>The world\<close>

datatype outcome = Done | Lost string | Late string

record io =
  faults :: "outcome list"
  go_now :: int
  db_now :: int
  rd_now :: int
  entropy :: "string option list"

type_synonym ('d, 'a) prog = "'d \<times> io \<Rightarrow> (go_err + 'a) \<times> ('d \<times> io)"

fun next_outcome :: "io \<Rightarrow> outcome \<times> io" where
  "next_outcome w = (case faults w of [] \<Rightarrow> (Done, w) | f # fs \<Rightarrow> (f, w\<lparr>faults := fs\<rparr>))"

section \<open>Combinators\<close>

definition ret :: "'a \<Rightarrow> ('d, 'a) prog" where
  "ret v = (\<lambda>s. (Inr v, s))"

definition fail :: "go_err \<Rightarrow> ('d, 'a) prog" where
  "fail e = (\<lambda>s. (Inl e, s))"

text \<open>A pure call that returns a value or an error.\<close>

definition lift :: "go_err + 'a \<Rightarrow> ('d, 'a) prog" where
  "lift r = (\<lambda>s. (r, s))"

text \<open>\<^verbatim>\<open>v, err := m; if err != nil { return err }; k(v)\<close>\<close>

definition bind :: "('d, 'a) prog \<Rightarrow> ('a \<Rightarrow> ('d, 'b) prog) \<Rightarrow> ('d, 'b) prog" where
  "bind m k = (\<lambda>s. case m s of (Inl e, s') \<Rightarrow> (Inl e, s') | (Inr v, s') \<Rightarrow> k v s')"

text \<open>\<^verbatim>\<open>v, err := m\<close> where the code goes on to inspect \<^verbatim>\<open>err\<close>.\<close>

definition attempt :: "('d, 'a) prog \<Rightarrow> ('d, go_err + 'a) prog" where
  "attempt m = (\<lambda>s. case m s of (r, s') \<Rightarrow> (Inr r, s'))"

text \<open>\<^verbatim>\<open>v, err := m; if err != nil { f(err) } else { g(v) }\<close>\<close>

definition handle ::
  "('d, 'a) prog \<Rightarrow> (go_err \<Rightarrow> ('d, 'b) prog) \<Rightarrow> ('a \<Rightarrow> ('d, 'b) prog) \<Rightarrow> ('d, 'b) prog" where
  "handle m f g = (\<lambda>s. case m s of (Inl e, s') \<Rightarrow> f e s' | (Inr v, s') \<Rightarrow> g v s')"

text \<open>\<^verbatim>\<open>_ = m\<close> and calls whose error is only logged.\<close>

definition ignore :: "('d, 'a) prog \<Rightarrow> ('d, unit) prog" where
  "ignore m = (\<lambda>s. case m s of (r, s') \<Rightarrow> (Inr (), s'))"

text \<open>A call to an external service, under the next outcome of the world.\<close>

definition ext :: "('d \<Rightarrow> io \<Rightarrow> (go_err + 'a) \<times> 'd) \<Rightarrow> ('d, 'a) prog" where
  "ext f = (\<lambda>(d, w). case next_outcome w of
       (Done, w') \<Rightarrow> (case f d w' of (r, d') \<Rightarrow> (r, (d', w')))
     | (Lost m, w') \<Rightarrow> (Inl (Plain m), (d, w'))
     | (Late m, w') \<Rightarrow> (Inl (Plain m), (snd (f d w'), w')))"

text \<open>A call that only reads.\<close>

definition read_ext :: "('d \<Rightarrow> io \<Rightarrow> go_err + 'a) \<Rightarrow> ('d, 'a) prog" where
  "read_ext f = ext (\<lambda>d w. (f d w, d))"

text \<open>\<^verbatim>\<open>time.Now()\<close>.\<close>

definition now :: "('d, int) prog" where
  "now = (\<lambda>(d, w). (Inr (go_now w), (d, w)))"

text \<open>Calls in a \<^verbatim>\<open>for\<close> loop whose body may return an error.\<close>

fun each :: "('a \<Rightarrow> ('d, unit) prog) \<Rightarrow> 'a list \<Rightarrow> ('d, unit) prog" where
  "each f [] = ret ()"
| "each f (x # xs) = bind (f x) (\<lambda>_. each f xs)"

fun map_prog :: "('a \<Rightarrow> ('d, 'b) prog) \<Rightarrow> 'a list \<Rightarrow> ('d, 'b list) prog" where
  "map_prog f [] = ret []"
| "map_prog f (x # xs) = bind (f x) (\<lambda>y. bind (map_prog f xs) (\<lambda>ys. ret (y # ys)))"

lemmas prog_simps =
  ret_def fail_def lift_def bind_def attempt_def handle_def ignore_def ext_def read_ext_def now_def
declare prog_simps [prog_defs]

lemma bind_ret [simp]: "bind (ret v) k = k v"
  by (simp add: bind_def ret_def)

lemma bind_fail [simp]: "bind (fail e) k = fail e"
  by (simp add: bind_def fail_def)

lemma bind_assoc: "bind (bind m k) h = bind m (\<lambda>v. bind (k v) h)"
  by (auto simp: bind_def fun_eq_iff split: prod.splits sum.splits)

lemma bind_Inr:
  "bind m k s = (Inr v, s') \<longleftrightarrow> (\<exists>u s1. m s = (Inr u, s1) \<and> k u s1 = (Inr v, s'))"
  by (auto simp: bind_def split: prod.splits sum.splits)

lemma ret_eq [simp]: "ret v s = (r, s') \<longleftrightarrow> r = Inr v \<and> s' = s"
  by (auto simp: ret_def)

lemma fail_eq [simp]: "fail e s = (r, s') \<longleftrightarrow> r = Inl e \<and> s' = s"
  by (auto simp: fail_def)

lemma attempt_eq: "attempt m s = (x, s') \<longleftrightarrow> (\<exists>r. x = Inr r \<and> m s = (r, s'))"
  by (auto simp: attempt_def split: prod.splits)

lemma handle_eq:
  "handle m f g s = (x, s') \<longleftrightarrow>
     (\<exists>e s1. m s = (Inl e, s1) \<and> f e s1 = (x, s')) \<or> (\<exists>v s1. m s = (Inr v, s1) \<and> g v s1 = (x, s'))"
  by (auto simp: handle_def split: prod.splits sum.splits)

lemma bind_eq:
  "bind m k s = (x, s') \<longleftrightarrow>
     (\<exists>e. m s = (Inl e, s') \<and> x = Inl e) \<or> (\<exists>v s1. m s = (Inr v, s1) \<and> k v s1 = (x, s'))"
  by (auto simp: bind_def split: prod.splits sum.splits)

text \<open>The clocks stand still while an operation runs.\<close>

definition clocks :: "io \<Rightarrow> int \<times> int \<times> int" where
  "clocks w = (go_now w, db_now w, rd_now w)"

lemma next_outcome_clocks: "next_outcome w = (f, w') \<Longrightarrow> clocks w' = clocks w"
  by (auto simp: clocks_def split: list.splits)

section \<open>Transactions\<close>

text \<open>
  \<^verbatim>\<open>tx.Commit()\<close> of the changes made since the state \<open>d0\<close>. A commit whose answer is lost
  may or may not have happened; the deferred \<^verbatim>\<open>tx.Rollback()\<close> of every other exit restores
  \<open>d0\<close>.
\<close>

definition commit :: "'d \<Rightarrow> ('d, unit) prog" where
  "commit d0 = (\<lambda>(d, w). case next_outcome w of
       (Done, w') \<Rightarrow> (Inr (), (d, w'))
     | (Lost m, w') \<Rightarrow> (Inl (Plain m), (d0, w'))
     | (Late m, w') \<Rightarrow> (Inl (Plain m), (d, w')))"

text \<open>
  \<open>transact body\<close>: \<^verbatim>\<open>BeginTx\<close>, the statements, and then \<^verbatim>\<open>Commit\<close> when the body answers
  \<open>Inr v\<close>, or \<^verbatim>\<open>Rollback\<close> when it answers \<open>Inl x\<close> or fails.
\<close>

definition begin_tx :: "('d, unit) prog" where
  "begin_tx = ext (\<lambda>d w. (Inr (), d))"

definition transact :: "('d, 'b + 'a) prog \<Rightarrow> ('d, 'b + 'a) prog" where
  "transact body = bind begin_tx (\<lambda>_ (d0, w0).
     case body (d0, w0) of
       (Inl e, (d, w)) \<Rightarrow> (Inl e, (d0, w))
     | (Inr (Inl x), (d, w)) \<Rightarrow> (Inr (Inl x), (d0, w))
     | (Inr (Inr v), (d, w)) \<Rightarrow> bind (commit d0) (\<lambda>_. ret (Inr v)) (d, w))"

definition in_tx :: "('d, 'a) prog \<Rightarrow> ('d, 'a) prog" where
  "in_tx body = bind (transact (bind body (\<lambda>v. ret (Inr v)))) (\<lambda>r. case r of Inl v \<Rightarrow> ret v | Inr v \<Rightarrow> ret v)"

lemma begin_tx_cases:
  "begin_tx (d, w) = (r, (d', w')) \<Longrightarrow>
     d' = d \<and> clocks w' = clocks w \<and> (r = Inr () \<or> (\<exists>m. r = Inl (Plain m)))"
  using next_outcome_clocks [of w]
  by (cases "fst (next_outcome w)") (auto simp: begin_tx_def ext_def split: prod.splits)

lemma commit_cases:
  "commit d0 (d, w) = (r, (d', w')) \<Longrightarrow>
     (r = Inr () \<and> d' = d) \<or> (\<exists>m. r = Inl (Plain m) \<and> (d' = d0 \<or> d' = d))"
  by (cases "fst (next_outcome w)") (auto simp: commit_def split: prod.splits)

text \<open>
  What a transaction can do to the data: nothing, or exactly what its body did in a run that
  reached the commit. It reports success only in the latter case.
\<close>

lemma transact_cases:
  assumes "transact body (d0, w0) = (r, (d, w))"
  obtains (rolled_back) "d = d0" and "\<nexists>v. r = Inr (Inr v)"
      and "(\<exists>m. r = Inl (Plain m)) \<or> (\<exists>w1 d1 w2. clocks w1 = clocks w0 \<and> body (d0, w1) = (r, (d1, w2)))"
  | (committed) v w1 w2 where "clocks w1 = clocks w0" and "body (d0, w1) = (Inr (Inr v), (d, w2))"
      and "r = Inr (Inr v) \<or> (\<exists>m. r = Inl (Plain m))"
proof -
  obtain rb db wb where bt: "begin_tx (d0, w0) = (rb, (db, wb))" by (metis prod.collapse)
  from begin_tx_cases [OF bt] have db: "db = d0" and wb: "clocks wb = clocks w0"
    and rb: "rb = Inr () \<or> (\<exists>m. rb = Inl (Plain m))" by simp_all
  show thesis
  proof (cases rb)
    case (Inl e)
    with assms bt db rb show thesis
      by (intro rolled_back) (auto simp: transact_def bind_def)
  next
    case (Inr u)
    obtain r1 d1 w1 where body: "body (d0, wb) = (r1, (d1, w1))" by (metis prod.collapse)
    show thesis
    proof (cases "\<exists>v. r1 = Inr (Inr v)")
      case False
      with assms bt db Inr body have "d = d0" "r = r1"
        by (auto simp: transact_def bind_def split: sum.splits)
      with False body wb db show thesis by (intro rolled_back) auto
    next
      case True
      then obtain v where r1: "r1 = Inr (Inr v)" ..
      obtain rc dc wc where c: "commit d0 (d1, w1) = (rc, (dc, wc))" by (metis prod.collapse)
      with assms bt db Inr body r1 have
        "d = dc" "r = (case rc of Inl e \<Rightarrow> Inl e | Inr _ \<Rightarrow> Inr (Inr v))"
        by (auto simp: transact_def bind_def ret_def split: sum.splits)
      with commit_cases [OF c] body r1 wb db rolled_back committed show thesis
        by auto
    qed
  qed
qed

lemma in_tx_cases:
  assumes "in_tx body (d0, w0) = (r, (d, w))"
  obtains (rolled_back) "d = d0" and "\<nexists>v. r = Inr v"
      and "(\<exists>m. r = Inl (Plain m)) \<or> (\<exists>w1 d1 w2. clocks w1 = clocks w0 \<and> body (d0, w1) = (r, (d1, w2)))"
  | (committed) v w1 w2 where "clocks w1 = clocks w0" and "body (d0, w1) = (Inr v, (d, w2))"
      and "r = Inr v \<or> (\<exists>m. r = Inl (Plain m))"
proof -
  let ?b = "bind body (\<lambda>v. ret (Inr v)) :: ('b, 'a + 'a) prog"
  obtain r1 d1 w1 where t: "transact ?b (d0, w0) = (r1, (d1, w1))" by (metis prod.collapse)
  with assms have r: "d = d1" "r = (case r1 of Inl e \<Rightarrow> Inl e | Inr (Inl v) \<Rightarrow> Inr v | Inr (Inr v) \<Rightarrow> Inr v)"
    by (auto simp: in_tx_def bind_def ret_def split: sum.splits)
  from t have no_left: "\<nexists>x. r1 = Inr (Inl x)"
    by (auto simp: transact_def bind_def ret_def split: sum.splits prod.splits)
  from t show thesis
  proof (cases rule: transact_cases)
    case rolled_back
    then have "(\<exists>m. r1 = Inl (Plain m)) \<or> (\<exists>w1 d1 w2. clocks w1 = clocks w0 \<and> body (d0, w1) = (r, (d1, w2)))"
      using r no_left by (auto simp: bind_eq)
    with rolled_back r no_left show thesis
      by (intro that(1)) (auto split: sum.splits)
  next
    case (committed v w1 w2)
    then have "body (d0, w1) = (Inr v, (d1, w2))"
      by (auto simp: bind_Inr ret_def)
    with committed(1,3) r show thesis
      by (intro that(2) [of w1 v w2]) auto
  qed
qed

section \<open>Runs without failures\<close>

lemma ext_quiet: "faults w = [] \<Longrightarrow> ext f (d, w) = (case f d w of (r, d') \<Rightarrow> (r, (d', w)))"
  by (simp add: ext_def)

lemma read_ext_quiet: "faults w = [] \<Longrightarrow> read_ext f (d, w) = (f d w, (d, w))"
  by (simp add: read_ext_def ext_quiet)

lemma transact_quiet:
  "faults w = [] \<Longrightarrow> body (d, w) = (R, (d', w)) \<Longrightarrow>
   transact body (d, w) = (R, (case R of Inr (Inr _) \<Rightarrow> d' | _ \<Rightarrow> d, w))"
  by (auto simp: transact_def bind_def begin_tx_def ext_quiet commit_def ret_def split: prod.splits sum.splits)

lemma in_tx_quiet:
  "faults w = [] \<Longrightarrow> body (d, w) = (Inr v, (d', w)) \<Longrightarrow> in_tx body (d, w) = (Inr v, (d', w))"
  by (simp add: in_tx_def bind_def transact_quiet [where R = "Inr (Inr v)" and d' = d'] ret_def)

section \<open>Invariants of the data\<close>

text \<open>
  \<open>keeps I m\<close>: the program takes states whose data satisfy \<open>I\<close> to such states, whatever it
  returns and wherever a call fails. The rules compose it along the combinators.
\<close>

definition keeps :: "('d \<Rightarrow> bool) \<Rightarrow> ('d, 'a) prog \<Rightarrow> bool" where
  "keeps I m \<longleftrightarrow> (\<forall>d w. I d \<longrightarrow> I (fst (snd (m (d, w)))))"

lemma keepsD: "keeps I m \<Longrightarrow> I d \<Longrightarrow> m (d, w) = (r, (d', w')) \<Longrightarrow> I d'"
  unfolding keeps_def by (metis fst_conv snd_conv)

lemma keepsI: "(\<And>d w r d' w'. I d \<Longrightarrow> m (d, w) = (r, (d', w')) \<Longrightarrow> I d') \<Longrightarrow> keeps I m"
  unfolding keeps_def by (metis prod.collapse)

lemma keeps_ret [keeps_intro]: "keeps I (ret v)"
  by (simp add: keeps_def ret_def)

lemma keeps_fail [keeps_intro]: "keeps I (fail e)"
  by (simp add: keeps_def fail_def)

lemma keeps_lift [keeps_intro]: "keeps I (lift r)"
  by (simp add: keeps_def lift_def)

lemma keeps_const: "keeps (\<lambda>_. P) m"
  by (simp add: keeps_def)

lemma keeps_now [keeps_intro]: "keeps I now"
  by (simp add: keeps_def now_def)

lemma keeps_bind [keeps_intro]:
  assumes "keeps I m" and "\<And>v. keeps I (k v)"
  shows "keeps I (bind m k)"
proof (rule keepsI)
  fix d w r d' w'
  assume "I d" and eq: "bind m k (d, w) = (r, (d', w'))"
  obtain r1 d1 w1 where m: "m (d, w) = (r1, (d1, w1))" by (metis prod.collapse)
  with assms(1) \<open>I d\<close> have "I d1" by (auto dest: keepsD)
  with m eq assms(2) show "I d'"
    by (cases r1) (auto simp: bind_def dest: keepsD)
qed

lemma keeps_handle [keeps_intro]:
  assumes "keeps I m" and "\<And>e. keeps I (f e)" and "\<And>v. keeps I (g v)"
  shows "keeps I (handle m f g)"
  using assms by (intro keepsI) (auto simp: handle_eq dest!: keepsD)

lemma keeps_attempt [keeps_intro]: "keeps I m \<Longrightarrow> keeps I (attempt m)"
  by (simp add: keeps_def attempt_def split: prod.splits) (metis fst_conv snd_conv)

lemma keeps_ignore [keeps_intro]: "keeps I m \<Longrightarrow> keeps I (ignore m)"
  by (simp add: keeps_def ignore_def split: prod.splits) (metis fst_conv snd_conv)

lemma ext_cases:
  "ext f (d, w) = (r, (d', w')) \<Longrightarrow>
     (f d w' = (r, d')) \<or> (\<exists>m. r = Inl (Plain m) \<and> (d' = d \<or> d' = snd (f d w')))"
  by (cases "fst (next_outcome w)") (auto simp: ext_def split: prod.splits)

text \<open>A call that answers a value took effect, on the data it found.\<close>

lemma ext_InrE:
  assumes "ext f (d, w) = (Inr v, (d', w'))"
  obtains "f d w' = (Inr v, d')" and "clocks w' = clocks w"
  using assms next_outcome_clocks [of w]
  by (cases "fst (next_outcome w)") (auto simp: ext_def split: prod.splits)

lemma ext_D: "ext f (d, w) = (r, (d', w')) \<Longrightarrow> clocks w' = clocks w
    \<and> (f d w' = (r, d') \<or> (\<exists>m. r = Inl (Plain m) \<and> (d' = d \<or> d' = snd (f d w'))))"
  using next_outcome_clocks [of w]
  by (cases "fst (next_outcome w)") (auto simp: ext_def split: prod.splits)

lemma read_ext_InrE:
  assumes "read_ext f (d, w) = (Inr v, (d', w'))"
  obtains "f d w' = Inr v" and "d' = d" and "clocks w' = clocks w"
  using assms by (auto simp: read_ext_def elim: ext_InrE)

lemma read_ext_D: "read_ext f (d, w) = (r, (d', w')) \<Longrightarrow> d' = d \<and> clocks w' = clocks w \<and> (r = f d w' \<or> (\<exists>m. r = Inl (Plain m)))"
  using next_outcome_clocks [of w]
  by (cases "fst (next_outcome w)") (auto simp: read_ext_def ext_def split: prod.splits)

lemma keeps_ext: "(\<And>d w. I d \<Longrightarrow> I (snd (f d w))) \<Longrightarrow> keeps I (ext f)"
  by (rule keepsI, drule ext_cases) (auto, metis snd_conv)

lemma keeps_read_ext [keeps_intro]: "keeps I (read_ext f)"
  unfolding read_ext_def by (rule keeps_ext) simp

lemma keeps_transact:
  "keeps I body \<Longrightarrow> keeps I (transact body)"
  by (rule keepsI, erule transact_cases) (auto dest: keepsD)

lemma keeps_in_tx:
  "keeps I body \<Longrightarrow> keeps I (in_tx body)"
  by (rule keepsI, erule in_tx_cases) (auto dest: keepsD)

lemma keeps_each [keeps_intro]: "(\<And>x. keeps I (f x)) \<Longrightarrow> keeps I (each f xs)"
  by (induction xs) (auto intro: keeps_intro)

lemma keeps_map_prog [keeps_intro]: "(\<And>x. keeps I (f x)) \<Longrightarrow> keeps I (map_prog f xs)"
  by (induction xs) (auto intro!: keeps_intro)

lemma keeps_if [keeps_intro]:
  "keeps I m \<Longrightarrow> keeps I n \<Longrightarrow> keeps I (if b then m else n)"
  by simp

lemma keeps_case_sum [keeps_intro]:
  "(\<And>x. keeps I (f x)) \<Longrightarrow> (\<And>y. keeps I (g y)) \<Longrightarrow> keeps I (case r of Inl x \<Rightarrow> f x | Inr y \<Rightarrow> g y)"
  by (cases r) simp_all

lemma keeps_case_option [keeps_intro]:
  "keeps I f \<Longrightarrow> (\<And>y. keeps I (g y)) \<Longrightarrow> keeps I (case r of None \<Rightarrow> f | Some y \<Rightarrow> g y)"
  by (cases r) simp_all

lemma keeps_case_prod [keeps_intro]:
  "(\<And>x y. keeps I (f x y)) \<Longrightarrow> keeps I (case r of (x, y) \<Rightarrow> f x y)"
  by (cases r) simp

text \<open>A program that never changes the data at all.\<close>

definition reads_only :: "('d, 'a) prog \<Rightarrow> bool" where
  "reads_only m \<longleftrightarrow> (\<forall>d. keeps (\<lambda>d'. d' = d) m)"

section \<open>Working on one store of several\<close>

definition zoom :: "('w \<Rightarrow> 'd) \<Rightarrow> ('d \<Rightarrow> 'w \<Rightarrow> 'w) \<Rightarrow> ('d, 'a) prog \<Rightarrow> ('w, 'a) prog" where
  "zoom get put m = (\<lambda>(x, w). case m (get x, w) of (r, (d, w')) \<Rightarrow> (r, (put d x, w')))"

lemma zoom_eq:
  "zoom get put m (x, w) = (r, (x', w')) \<longleftrightarrow> (\<exists>d. m (get x, w) = (r, (d, w')) \<and> x' = put d x)"
  by (auto simp: zoom_def split: prod.splits)

lemma keeps_zoom:
  assumes "\<And>d x. I x \<Longrightarrow> keeps (\<lambda>d. I (put d x)) m" and "\<And>x. put (get x) x = x"
  shows "keeps I (zoom get put m)"
proof (rule keepsI)
  fix d w r d' w'
  assume I: "I d" and eq: "zoom get put m (d, w) = (r, (d', w'))"
  then obtain e where "m (get d, w) = (r, (e, w'))" and "d' = put e d"
    by (auto simp: zoom_def split: prod.splits)
  with I assms(1) [OF I] assms(2) show "I d'"
    using keepsD [of "\<lambda>e. I (put e d)" m "get d"] by auto
qed

section \<open>Identifiers\<close>

text \<open>
  \<^verbatim>\<open>idgen.New\<close>: twelve random bytes in hexadecimal, or the process clock in decimal when
  the random source fails.
\<close>

definition hex_encode :: "string \<Rightarrow> string" where
  "hex_encode bs = concat (map (\<lambda>c. [hex_digit (of_char c div 16), hex_digit (of_char c mod 16)]) bs)"

definition idgen_New :: "('d, string) prog" where
  "idgen_New = (\<lambda>(d, w). case entropy w of
       Some b # es \<Rightarrow> (Inr (hex_encode b), (d, w\<lparr>entropy := es\<rparr>))
     | None # es \<Rightarrow> (Inr (FormatInt (go_now w)), (d, w\<lparr>entropy := es\<rparr>))
     | [] \<Rightarrow> (Inr (FormatInt (go_now w)), (d, w)))"

declare idgen_New_def [prog_defs]

lemma keeps_idgen_New [keeps_intro]: "keeps I idgen_New"
  by (auto simp: keeps_def idgen_New_def split: list.splits option.splits)

lemma idgen_D: "idgen_New (d, w) = (r, (d', w')) \<Longrightarrow> d' = d \<and> clocks w' = clocks w \<and> (\<exists>i. r = Inr i)"
  by (auto simp: idgen_New_def clocks_def split: list.splits option.splits)

section \<open>SQL statements\<close>

text \<open>
  A table is the list of its rows in insertion order. \<open>sql_update p f\<close> is
  \<^verbatim>\<open>UPDATE t SET f WHERE p\<close>; the number it returns is what the driver's
  \<^verbatim>\<open>RowsAffected\<close> reports, the rows whose contents changed.
\<close>

definition sql_update :: "('r \<Rightarrow> bool) \<Rightarrow> ('r \<Rightarrow> 'r) \<Rightarrow> 'r list \<Rightarrow> nat \<times> 'r list" where
  "sql_update p f rows =
     (length (filter (\<lambda>r. p r \<and> f r \<noteq> r) rows), map (\<lambda>r. if p r then f r else r) rows)"

text \<open>\<^verbatim>\<open>INSERT ... ON DUPLICATE KEY UPDATE\<close> with the key test \<open>p\<close>.\<close>

definition sql_upsert :: "('r \<Rightarrow> bool) \<Rightarrow> ('r \<Rightarrow> 'r) \<Rightarrow> 'r \<Rightarrow> 'r list \<Rightarrow> 'r list" where
  "sql_upsert p f row rows =
     (if list_ex p rows then map (\<lambda>r. if p r then f r else r) rows else rows @ [row])"

text \<open>\<^verbatim>\<open>ORDER BY key DESC LIMIT n\<close> and \<^verbatim>\<open>ORDER BY key LIMIT n\<close>.\<close>

definition order_desc :: "('r \<Rightarrow> 'k::linorder) \<Rightarrow> 'r list \<Rightarrow> 'r list" where
  "order_desc k rows = rev (sort_key k rows)"

lemma set_order_desc [simp]: "set (order_desc k rows) = set rows"
  by (simp add: order_desc_def)

text \<open>Text the server puts in a unique-key violation (error 1062).\<close>

definition dup_entry :: "string \<Rightarrow> string \<Rightarrow> go_err" where
  "dup_entry v key = MySQLError 1062 (''Duplicate entry '' @ [CHR 0x27] @ v @ [CHR 0x27]
     @ '' for key '' @ [CHR 0x27] @ key @ [CHR 0x27])"

lemma sql_update_set: "(n, rows') = sql_update p f rows \<Longrightarrow>
    set rows' = {if p r then f r else r |r. r \<in> set rows}"
  by (auto simp: sql_update_def)

lemma sql_update_keys:
  "(\<And>r. k (f r) = k r) \<Longrightarrow> map k (snd (sql_update p f rows)) = map k rows"
  by (induction rows) (auto simp: sql_update_def)

text \<open>What an upsert on a two-column key makes of the rows with that key, and of the others.\<close>

lemma upsert_hit:
  assumes "\<And>r. k1 r = a \<Longrightarrow> k2 r = b \<Longrightarrow> k1 (f r) = a \<and> k2 (f r) = b \<and> q (f r) = q row"
    and "k1 row = a" and "k2 row = b"
  shows "list_ex (\<lambda>r. k1 r = a \<and> k2 r = b \<and> q r) (sql_upsert (\<lambda>r. k1 r = a \<and> k2 r = b) f row rows) = q row"
proof (cases "list_ex (\<lambda>r. k1 r = a \<and> k2 r = b) rows")
  case True
  then obtain r where r: "r \<in> set rows" "k1 r = a" "k2 r = b" by (auto simp: list_ex_iff)
  have "list_ex (\<lambda>r. k1 r = a \<and> k2 r = b \<and> q r) (map (\<lambda>r. if k1 r = a \<and> k2 r = b then f r else r) rows) = q row"
    (is "list_ex ?P ?m = _")
  proof
    assume "list_ex ?P ?m"
    then obtain x where "x \<in> set rows" "?P (if k1 x = a \<and> k2 x = b then f x else x)"
      unfolding list_ex_iff by auto
    with assms(1) [of x] show "q row" by (cases "k1 x = a \<and> k2 x = b") auto
  next
    assume "q row"
    with assms(1) [of r] r have "?P (f r)" and "f r \<in> set ?m" by force+
    then show "list_ex ?P ?m" unfolding list_ex_iff by blast
  qed
  with True show ?thesis by (simp add: sql_upsert_def)
next
  case False
  then show ?thesis using assms(2,3) by (auto simp: sql_upsert_def list_ex_iff)
qed

lemma upsert_miss:
  assumes "\<And>r. k1 r = a \<Longrightarrow> k2 r = b \<Longrightarrow> k1 (f r) = a \<and> k2 (f r) = b"
    and "k1 row = a" and "k2 row = b" and "(a', b') \<noteq> (a, b)"
  shows "list_ex (\<lambda>r. k1 r = a' \<and> k2 r = b' \<and> q r) (sql_upsert (\<lambda>r. k1 r = a \<and> k2 r = b) f row rows)
    = list_ex (\<lambda>r. k1 r = a' \<and> k2 r = b' \<and> q r) rows"
proof -
  have "(k1 (if k1 x = a \<and> k2 x = b then f x else x) = a' \<and> k2 (if k1 x = a \<and> k2 x = b then f x else x) = b'
      \<and> q (if k1 x = a \<and> k2 x = b then f x else x)) = (k1 x = a' \<and> k2 x = b' \<and> q x)" for x
    using assms(1) [of x] assms(4) by auto
  note same = this
  have "list_ex (\<lambda>r. k1 r = a' \<and> k2 r = b' \<and> q r) (map (\<lambda>r. if k1 r = a \<and> k2 r = b then f r else r) rows)
      = list_ex (\<lambda>r. k1 r = a' \<and> k2 r = b' \<and> q r) rows"
    by (induction rows) (simp_all only: list.map list_ex_Nil_iff list_ex_Cons_iff same)
  then show ?thesis using assms(2-4) by (auto simp: sql_upsert_def)
qed

lemmas upsert_hit_key = upsert_hit [where q = "\<lambda>_. True", simplified]
lemmas upsert_miss_key = upsert_miss [where q = "\<lambda>_. True", simplified]

end
