(* ===== verification/Commerce_Schema.thy ===== *)
theory Commerce_Schema
  imports Effects
begin

text \<open>
  The commerce database (\<^verbatim>\<open>migrations/003_m4.sql\<close>, \<^verbatim>\<open>004_m5.sql\<close>): gifts, wallets, wallet
  transactions, gift orders and the outbox table, and the statements several repositories
  share. Tables are lists of rows in the order of their auto-increment keys; \<open>wallets\<close> is a
  map from its primary key. Text columns compare under the collation key \<open>ck\<close>.
\<close>

section \<open>Tables\<close>

record Gift =
  gift_id :: int
  gift_name :: string
  gift_price :: int
  gift_status :: int

record wallet_row =
  w_balance :: int
  w_version :: int
  w_updated_at :: int

record wallet_tx =
  transaction_no :: string
  tx_user :: int
  biz_type :: string
  biz_id :: string
  amount :: int
  balance_before :: int
  balance_after :: int
  tx_created_at :: int

record order_row =
  o_order_no :: string
  o_request_id :: string
  o_user_id :: int
  o_anchor_id :: int
  o_room_id :: int
  o_gift_id :: int
  o_gift_count :: int
  o_unit_price :: int
  o_total_amount :: int
  o_status :: int
  o_created_at :: int
  o_updated_at :: int

record outbox_row =
  ob_id :: int
  ob_event_id :: string
  ob_aggregate_type :: string
  ob_aggregate_id :: string
  ob_event_type :: string
  ob_topic :: string
  ob_partition_key :: string
  ob_payload :: string
  ob_status :: int
  ob_retry_count :: int
  ob_next_retry_at :: "int option"
  ob_locked_by :: "string option"
  ob_locked_at :: "int option"
  ob_last_error :: "string option"
  ob_created_at :: int
  ob_published_at :: "int option"

record commerce_db =
  gifts :: "Gift list"
  wallets :: "int \<Rightarrow> wallet_row option"
  wallet_transactions :: "wallet_tx list"
  gift_orders :: "order_row list"
  outbox_events :: "outbox_row list"

section \<open>Columns\<close>

text \<open>
  \<^verbatim>\<open>NOW(3)\<close>: the server's clock, cut to milliseconds; and a time argument stored in a
  \<^verbatim>\<open>DATETIME(3)\<close> column, which the driver sends in microseconds and the server rounds.
\<close>

definition NOW3 :: "io \<Rightarrow> int" where
  "NOW3 w = db_now w div millisecond * millisecond"

definition datetime3 :: "int \<Rightarrow> int" where
  "datetime3 t = (t div 1000 * 1000 + 500000) div millisecond * millisecond"

lemma clocksD: "clocks w = clocks w' \<Longrightarrow> NOW3 w = NOW3 w' \<and> go_now w = go_now w'"
  by (simp add: clocks_def NOW3_def)

definition out_of_range :: go_err where
  "out_of_range = MySQLError 1690 ''BIGINT value is out of range''"

definition check_violated :: "string \<Rightarrow> go_err" where
  "check_violated c = MySQLError 3819 (''Check constraint '' @ [CHR 0x27] @ c @ [CHR 0x27] @ '' is violated.'')"

text \<open>The next auto-increment key: one above the largest in use.\<close>

definition next_id :: "('r \<Rightarrow> int) \<Rightarrow> 'r list \<Rightarrow> int" where
  "next_id key rows = fold (\<lambda>r m. max m (key r)) rows 0 + 1"

lemma fold_max_ge: "\<forall>x \<in> set xs. f x \<le> fold (\<lambda>r m. max m (f r)) xs (a :: int)"
  "a \<le> fold (\<lambda>r m. max m (f r)) xs a"
proof (induction xs arbitrary: a)
  case (Cons x xs)
  case 1
  from Cons(1) [of "max a (f x)"] Cons(2) [of "max a (f x)"] show ?case by auto
next
  case (Cons x xs)
  case 2
  from Cons(2) [of "max a (f x)"] show ?case by auto
qed simp_all

lemma next_id_fresh: "r \<in> set rows \<Longrightarrow> key r < next_id key rows"
  using fold_max_ge(1) [of rows key 0] by (auto simp: next_id_def)

section \<open>Statements\<close>

text \<open>
  \<^verbatim>\<open>INSERT INTO wallets ... VALUES (?, 0, 0, NOW(3)) ON DUPLICATE KEY UPDATE user_id=user_id\<close>
\<close>

definition wallet_ensure :: "int \<Rightarrow> (commerce_db, unit) prog" where
  "wallet_ensure u = ext (\<lambda>db w.
     (Inr (), case wallets db u of
        Some _ \<Rightarrow> db
      | None \<Rightarrow> db\<lparr>wallets := (wallets db)(u \<mapsto> \<lparr>w_balance = 0, w_version = 0, w_updated_at = NOW3 w\<rparr>)\<rparr>))"

text \<open>
  \<^verbatim>\<open>UPDATE wallets SET balance=balance+?, version=version+1, updated_at=NOW(3) WHERE user_id=?\<close>
  with a condition on the current balance; the table's check keeps balances non-negative.
  The result is the number of rows changed (the version always changes).
\<close>

definition wallet_add :: "int \<Rightarrow> int \<Rightarrow> (int \<Rightarrow> bool) \<Rightarrow> (commerce_db, nat) prog" where
  "wallet_add u a cond = ext (\<lambda>db w.
     (case wallets db u of
        None \<Rightarrow> (Inr 0, db)
      | Some row \<Rightarrow>
          if \<not> cond (w_balance row) then (Inr 0, db)
          else if \<not> is_i64 (w_balance row + a) then (Inl out_of_range, db)
          else if w_balance row + a < 0 then (Inl (check_violated ''wallets_chk_1''), db)
          else (Inr 1, db\<lparr>wallets := (wallets db)(u \<mapsto>
                 \<lparr>w_balance = w_balance row + a, w_version = w_version row + 1, w_updated_at = NOW3 w\<rparr>)\<rparr>)))"

text \<open>\<^verbatim>\<open>SELECT balance FROM wallets WHERE user_id=?\<close> with \<^verbatim>\<open>Scan\<close>.\<close>

definition wallet_balance :: "int \<Rightarrow> (commerce_db, int) prog" where
  "wallet_balance u = read_ext (\<lambda>db _.
     case wallets db u of None \<Rightarrow> Inl (Sentinel Sql_ErrNoRows) | Some row \<Rightarrow> Inr (w_balance row))"

text \<open>\<^verbatim>\<open>INSERT INTO wallet_transactions\<close>, whose transaction number is unique.\<close>

definition wallet_tx_insert :: "(string \<Rightarrow> string) \<Rightarrow> (int \<Rightarrow> wallet_tx) \<Rightarrow> (commerce_db, unit) prog" where
  "wallet_tx_insert ck mk = ext (\<lambda>db w.
     (let t = mk (NOW3 w) in
      if list_ex (\<lambda>t'. ck (transaction_no t') = ck (transaction_no t)) (wallet_transactions db)
      then (Inl (dup_entry (transaction_no t) ''wallet_transactions.uk_wallet_transactions_no''), db)
      else (Inr (), db\<lparr>wallet_transactions := wallet_transactions db @ [t]\<rparr>)))"

lemmas statement_defs = wallet_ensure_def wallet_add_def wallet_balance_def wallet_tx_insert_def

end
