(* ===== verification/Wallet.thy ===== *)
theory Wallet
  imports Commerce_Schema
begin

text \<open>
  \<^verbatim>\<open>internal/wallet\<close>: the repository's balance, credit and transaction list, and the service
  above it.
\<close>

section \<open>Repository\<close>

record Balance =
  bal_user_id :: int
  bal_balance :: int

definition Repo_Balance :: "int \<Rightarrow> (commerce_db, Balance) prog" where
  "Repo_Balance userID =
     bind (wallet_ensure userID) (\<lambda>_.
     bind (wallet_balance userID) (\<lambda>b.
     ret \<lparr>bal_user_id = userID, bal_balance = b\<rparr>))"

definition Credit ::
  "(string \<Rightarrow> string) \<Rightarrow> int \<Rightarrow> int \<Rightarrow> string \<Rightarrow> string \<Rightarrow> (commerce_db, Balance) prog" where
  "Credit ck userID amt transactionNo bizID = in_tx (
     bind (wallet_ensure userID) (\<lambda>_.
     bind (wallet_add userID amt (\<lambda>_. True)) (\<lambda>_.
     bind (wallet_balance userID) (\<lambda>after.
     let before = i64 (after - amt) in
     bind (wallet_tx_insert ck (\<lambda>t.
       \<lparr>transaction_no = transactionNo, tx_user = userID, biz_type = ''DEV_CREDIT'', biz_id = bizID,
        amount = amt, balance_before = before, balance_after = after, tx_created_at = t\<rparr>)) (\<lambda>_.
     ret \<lparr>bal_user_id = userID, bal_balance = after\<rparr>)))))"

text \<open>\<^verbatim>\<open>ORDER BY id DESC LIMIT ?\<close>\<close>

definition Transactions :: "int \<Rightarrow> nat \<Rightarrow> (commerce_db, wallet_tx list) prog" where
  "Transactions userID limit = read_ext (\<lambda>db _.
     Inr (take limit (rev (filter (\<lambda>t. tx_user t = userID) (wallet_transactions db)))))"

section \<open>Service\<close>

record WalletService =
  devCreditEnabled :: bool

definition Wallet_NewService :: "bool \<Rightarrow> WalletService" where
  "Wallet_NewService e = \<lparr>devCreditEnabled = e\<rparr>"

definition Service_Balance :: "int \<Rightarrow> (commerce_db, Balance) prog" where
  "Service_Balance userID = Repo_Balance userID"

definition Service_Transactions :: "int \<Rightarrow> (commerce_db, wallet_tx list) prog" where
  "Service_Transactions userID = Transactions userID 50"

definition DevCredit ::
  "(string \<Rightarrow> string) \<Rightarrow> WalletService \<Rightarrow> int \<Rightarrow> int \<Rightarrow> (commerce_db, Balance) prog" where
  "DevCredit ck s userID amt =
     (if \<not> devCreditEnabled s then fail (Sentinel Wallet_ErrCreditDisabled)
      else if amt < 1 \<or> amt > 100000000 then fail (Sentinel Wallet_ErrInvalidCredit)
      else bind idgen_New (\<lambda>i. Credit ck userID amt (''WT'' @ i) (''DEV'' @ i)))"

section \<open>The ledger\<close>

text \<open>
  A user's transactions, in order, are a run from balance 0 to the wallet's balance: each
  starts where the one before ended, adds its amount, and never goes below zero. The
  version counts them.
\<close>

definition txs_of :: "int \<Rightarrow> commerce_db \<Rightarrow> wallet_tx list" where
  "txs_of u db = filter (\<lambda>t. tx_user t = u) (wallet_transactions db)"

fun ledger_run :: "int \<Rightarrow> wallet_tx list \<Rightarrow> int \<Rightarrow> bool" where
  "ledger_run b [] c \<longleftrightarrow> b = c"
| "ledger_run b (t # ts) c \<longleftrightarrow>
     balance_before t = b \<and> balance_after t = b + amount t \<and> 0 \<le> balance_after t
     \<and> ledger_run (balance_after t) ts c"

definition balance_of :: "int \<Rightarrow> commerce_db \<Rightarrow> int" where
  "balance_of u db = (case wallets db u of None \<Rightarrow> 0 | Some r \<Rightarrow> w_balance r)"

definition ledger_at :: "int \<Rightarrow> wallet_row option \<Rightarrow> wallet_tx list \<Rightarrow> bool" where
  "ledger_at u row ts \<longleftrightarrow>
     (case row of
        None \<Rightarrow> ts = []
      | Some r \<Rightarrow> is_i64 (w_balance r) \<and> ledger_run 0 ts (w_balance r) \<and> w_version r = int (length ts))"

definition ledger_ok :: "commerce_db \<Rightarrow> bool" where
  "ledger_ok db \<longleftrightarrow> (\<forall>u. ledger_at u (wallets db u) (txs_of u db))"

lemma ledger_run_snoc:
  "ledger_run b (ts @ [t]) c \<longleftrightarrow>
     (\<exists>m. ledger_run b ts m \<and> balance_before t = m \<and> balance_after t = m + amount t
        \<and> 0 \<le> balance_after t \<and> c = balance_after t)"
  by (induction ts arbitrary: b) auto

lemma ledger_run_sum: "ledger_run b ts c \<Longrightarrow> c = b + sum_list (map amount ts)"
proof (induction ts arbitrary: b)
  case (Cons t ts)
  from Cons.IH [of "balance_after t"] Cons.prems show ?case by auto
qed simp

lemma ledger_run_nonneg: "ledger_run b ts c \<Longrightarrow> 0 \<le> b \<Longrightarrow> 0 \<le> c"
  by (induction ts arbitrary: b) auto

lemma ledger_ok_balance:
  assumes "ledger_ok db"
  shows "0 \<le> balance_of u db" and "is_i64 (balance_of u db)" and "ledger_run 0 (txs_of u db) (balance_of u db)"
proof -
  from assms have "ledger_at u (wallets db u) (txs_of u db)" by (simp add: ledger_ok_def)
  then show "0 \<le> balance_of u db" "is_i64 (balance_of u db)" "ledger_run 0 (txs_of u db) (balance_of u db)"
    using ledger_run_nonneg [of 0 "txs_of u db" "balance_of u db"]
    by (auto simp: ledger_at_def balance_of_def is_i64_def split: option.splits)
qed

text \<open>The one way the ledger moves: a posting of \<open>a\<close> to \<open>u\<close>, wallet and transaction together.\<close>

definition posting :: "wallet_tx \<Rightarrow> int \<Rightarrow> commerce_db \<Rightarrow> commerce_db" where
  "posting t nw db =
     db\<lparr>wallets := (wallets db)(tx_user t \<mapsto>
          \<lparr>w_balance = balance_after t,
           w_version = (case wallets db (tx_user t) of None \<Rightarrow> 1 | Some r \<Rightarrow> w_version r + 1),
           w_updated_at = nw\<rparr>),
        wallet_transactions := wallet_transactions db @ [t]\<rparr>"

lemma posting_simps [simp]:
  "txs_of u (posting t nw db) = txs_of u db @ (if tx_user t = u then [t] else [])"
  "balance_of u (posting t nw db) = (if tx_user t = u then balance_after t else balance_of u db)"
  "gift_orders (posting t nw db) = gift_orders db" "gifts (posting t nw db) = gifts db"
  "outbox_events (posting t nw db) = outbox_events db"
  "wallet_transactions (posting t nw db) = wallet_transactions db @ [t]"
  "wallets (posting t nw db) = (wallets db)(tx_user t \<mapsto>
     \<lparr>w_balance = balance_after t,
      w_version = (case wallets db (tx_user t) of None \<Rightarrow> 1 | Some r \<Rightarrow> w_version r + 1),
      w_updated_at = nw\<rparr>)"
  by (simp_all add: posting_def txs_of_def balance_of_def)

lemma posting_ledger_ok:
  assumes "ledger_ok db" and "balance_before t = balance_of (tx_user t) db"
    and "balance_after t = balance_before t + amount t" and "0 \<le> balance_after t"
    and "is_i64 (balance_after t)"
  shows "ledger_ok (posting t nw db)"
  unfolding ledger_ok_def
proof
  fix u
  from assms(1) have l: "ledger_at u (wallets db u) (txs_of u db)" by (simp add: ledger_ok_def)
  show "ledger_at u (wallets (posting t nw db) u) (txs_of u (posting t nw db))"
  proof (cases "u = tx_user t")
    case True
    with ledger_ok_balance(3) [OF assms(1), of u] l assms(2-) show ?thesis
      by (auto simp: ledger_at_def ledger_run_snoc split: option.splits)
  next
    case False
    with l show ?thesis by simp
  qed
qed

text \<open>What a committed credit did.\<close>

definition credit_tx :: "int \<Rightarrow> int \<Rightarrow> string \<Rightarrow> string \<Rightarrow> int \<Rightarrow> int \<Rightarrow> wallet_tx" where
  "credit_tx u a no biz b nw =
     \<lparr>transaction_no = no, tx_user = u, biz_type = ''DEV_CREDIT'', biz_id = biz, amount = a,
      balance_before = b, balance_after = b + a, tx_created_at = nw\<rparr>"

lemma Credit_cases:
  assumes "Credit ck u a no biz (db, w) = (r, (db', w'))" and "is_i64 (balance_of u db)"
  obtains (unchanged) "db' = db" and "\<nexists>v. r = Inr v"
  | (posted) "db' = posting (credit_tx u a no biz (balance_of u db) (NOW3 w)) (NOW3 w) db"
      and "0 \<le> balance_of u db + a" and "is_i64 (balance_of u db + a)"
      and "r = Inr \<lparr>bal_user_id = u, bal_balance = balance_of u db + a\<rparr> \<or> (\<exists>m. r = Inl (Plain m))"
  using assms(1) unfolding Credit_def
proof (cases rule: in_tx_cases)
  case rolled_back
  from rolled_back(1,2) show thesis by (rule unchanged)
next
  case (committed v w1 w2)
  from committed(2) show thesis
    using committed(1,3) assms(2)
    by (auto simp: bind_Inr statement_defs read_ext_def ret_def Let_def balance_of_def posting_def credit_tx_def i64_id
        elim!: ext_InrE dest!: clocksD split: option.splits if_splits intro!: posted)
qed

end
