(* ===== verification/Json_Roundtrip.thy ===== *)
theory Json_Roundtrip
  imports Json
begin

text \<open>
  What is printed is read back: \<open>json_parse (jprint v) = Some v\<close> for every document whose
  strings are valid UTF-8 and whose numbers are integer literals, the documents the services
  produce. First UTF-8 (a multi-byte rune is re-encoded as it was), then escapes, strings,
  numbers and whole documents.
\<close>

section \<open>Bytes, runes and strings\<close>

lemma byte_range: "0 \<le> byte c" "byte c < 256"
proof -
  have "(of_char c :: int) < 256" by (cases c) (auto simp: of_char_def)
  moreover have "0 \<le> (of_char c :: int)" by (cases c) (auto simp: of_char_def)
  ultimately show "0 \<le> byte c" "byte c < 256" by (simp_all add: byte_def)
qed

lemma char_of_byte [simp]: "char_of (byte c) = c"
  by (simp add: byte_def)

lemma div_mod_block:
  "0 \<le> b \<Longrightarrow> b < k \<Longrightarrow> (a * k + b) div k = a \<and> (a * k + b) mod k = (b :: int)"
  by simp

lemma hex_value_digit: "d < 16 \<Longrightarrow> hex_value (hex_digit d) = Some d"
  by (auto simp: hex_value_def hex_digit_def Let_def)

lemma hex4_u_escape: "n < 65536 \<Longrightarrow> hex4 (drop 2 (u_escape n) @ t) = Some n"
proof -
  assume n: "n < 65536"
  define a b c where "a = n div 16" and "b = n div 16 div 16" and "c = n div 16 div 16 div 16"
  define a0 b0 n0 where "a0 = n div 16 mod 16" and "b0 = n div 16 div 16 mod 16" and "n0 = n mod 16"
  have e: "n = 16 * a + n0" "a = 16 * b + a0" "b = 16 * c + b0"
    by (simp_all only: a_def b_def c_def a0_def b0_def n0_def mult_div_mod_eq)
  have "c < 16" using n by (simp add: c_def div_mult2_eq [symmetric])
  moreover have "n div 256 = b" "n div 4096 = c" "n div 16 = a"
    by (simp_all add: a_def b_def c_def div_mult2_eq [symmetric])
  moreover have "b mod 16 = b0" "a mod 16 = a0" "n mod 16 = n0"
    by (simp_all only: a_def b_def a0_def b0_def n0_def)
  ultimately show ?thesis using e by (simp add: u_escape_def hex_value_digit)
qed

lemma decode_rune_two:
  assumes "194 \<le> byte c" "byte c \<le> 223" "is_cont (byte d)"
  shows "decode_rune (c # d # t) = ((byte c - 192) * 64 + (byte d - 128), 2)"
    and "utf8_encode ((byte c - 192) * 64 + (byte d - 128)) = [c, d]"
proof -
  show "decode_rune (c # d # t) = ((byte c - 192) * 64 + (byte d - 128), 2)"
    using assms by simp
  have "((byte c - 192) * 64 + (byte d - 128)) div 64 = byte c - 192"
    "((byte c - 192) * 64 + (byte d - 128)) mod 64 = byte d - 128"
    using assms(3) div_mod_block [of "byte d - 128" 64 "byte c - 192"] by (auto simp: is_cont_def)
  with assms show "utf8_encode ((byte c - 192) * 64 + (byte d - 128)) = [c, d]"
    by (simp add: utf8_encode_def is_cont_def)
qed

lemma decode_rune_three:
  assumes "224 \<le> byte c" "byte c \<le> 239" "second_ok (byte c) (byte d)" "is_cont (byte e)"
  defines "r \<equiv> (byte c - 224) * 4096 + (byte d - 128) * 64 + (byte e - 128)"
  shows "decode_rune (c # d # e # t) = (r, 3)" and "utf8_encode r = [c, d, e]"
proof -
  show "decode_rune (c # d # e # t) = (r, 3)"
    using assms by simp
  have d: "128 \<le> byte d" "byte d \<le> 191"
    using assms(3) by (auto simp: second_ok_def is_cont_def split: if_splits)
  from assms(4) have e: "128 \<le> byte e" "byte e \<le> 191" by (auto simp: is_cont_def)
  have q: "r div 64 = (byte c - 224) * 64 + (byte d - 128)" "r mod 64 = byte e - 128"
    using div_mod_block [of "byte e - 128" 64 "(byte c - 224) * 64 + (byte d - 128)"] e
    by (simp_all add: r_def algebra_simps)
  have "r div 4096 = (r div 64) div 64" by (simp add: zdiv_zmult2_eq [of 64 r 64, simplified])
  also have "\<dots> = byte c - 224" unfolding q using div_mod_block [of "byte d - 128" 64 "byte c - 224"] d by simp
  finally have p: "r div 4096 = byte c - 224" .
  have p': "(r div 64) mod 64 = byte d - 128"
    unfolding q using div_mod_block [of "byte d - 128" 64 "byte c - 224"] d by simp
  have lo: "2048 \<le> r" unfolding r_def using assms(1,3) d e
    by (cases "byte c = 224") (auto simp: second_ok_def)
  have hi: "r < 65536" unfolding r_def using assms(2) d e by (simp add: algebra_simps)
  have "\<not> (55296 \<le> r \<and> r \<le> 57343)"
  proof (cases "byte c = 237")
    case True
    then show ?thesis unfolding r_def using assms(3) e by (auto simp: second_ok_def)
  next
    case False
    then consider "byte c \<le> 236" | "238 \<le> byte c" by linarith
    then show ?thesis unfolding r_def using d e by cases (auto simp: algebra_simps)
  qed
  with lo hi have b: "(r < 0 \<or> 1114111 < r \<or> 55296 \<le> r \<and> r \<le> 57343) = False"
    "(r < 128) = False" "(r < 2048) = False" "(r < 65536) = True" by simp_all
  have "224 + (byte c - 224) = byte c" "128 + (byte d - 128) = byte d"
    "128 + (byte e - 128) = byte e" by simp_all
  then show "utf8_encode r = [c, d, e]"
    unfolding utf8_encode_def Let_def b if_False if_True p p' q(2) by (simp only: char_of_byte)
qed

lemma decode_rune_four:
  assumes "240 \<le> byte c" "byte c \<le> 244" "second_ok (byte c) (byte d)" "is_cont (byte e)" "is_cont (byte f)"
  defines "r \<equiv> (byte c - 240) * 262144 + (byte d - 128) * 4096 + (byte e - 128) * 64 + (byte f - 128)"
  shows "decode_rune (c # d # e # f # t) = (r, 4)" and "utf8_encode r = [c, d, e, f]"
proof -
  show "decode_rune (c # d # e # f # t) = (r, 4)"
    using assms by simp
  have d: "128 \<le> byte d" "byte d \<le> 191"
    using assms(3) by (auto simp: second_ok_def is_cont_def split: if_splits)
  from assms(4,5) have e: "128 \<le> byte e" "byte e \<le> 191" "128 \<le> byte f" "byte f \<le> 191"
    by (auto simp: is_cont_def)
  have q: "r div 64 = (byte c - 240) * 4096 + (byte d - 128) * 64 + (byte e - 128)"
    "r mod 64 = byte f - 128"
    using div_mod_block [of "byte f - 128" 64 "(byte c - 240) * 4096 + (byte d - 128) * 64 + (byte e - 128)"] e
    by (simp_all add: r_def algebra_simps)
  note b2 = div_mod_block [of "byte e - 128" 64 "(byte c - 240) * 64 + (byte d - 128)"]
  note b3 = div_mod_block [of "byte d - 128" 64 "byte c - 240"]
  have q': "r div 64 = ((byte c - 240) * 64 + (byte d - 128)) * 64 + (byte e - 128)"
    unfolding q by (simp add: algebra_simps)
  have "r div 4096 = (r div 64) div 64" by (simp add: zdiv_zmult2_eq [of 64 r 64, simplified])
  also have "\<dots> = (byte c - 240) * 64 + (byte d - 128)" unfolding q' using b2 e by simp
  finally have p: "r div 4096 = (byte c - 240) * 64 + (byte d - 128)" .
  have q2: "(r div 64) mod 64 = byte e - 128" unfolding q' using b2 e by simp
  have "r div 262144 = (r div 4096) div 64" by (simp add: zdiv_zmult2_eq [of 64 r 4096, simplified])
  also have "\<dots> = byte c - 240" unfolding p using b3 d by simp
  finally have p2: "r div 262144 = byte c - 240" .
  have p3: "(r div 4096) mod 64 = byte d - 128" unfolding p using b3 d by simp
  have lo: "65536 \<le> r" unfolding r_def using assms(1,3) d e
    by (cases "byte c = 240") (auto simp: second_ok_def)
  have hi: "r \<le> 1114111" unfolding r_def using assms(2,3) d e
    by (cases "byte c = 244") (auto simp: second_ok_def)
  from lo hi have b: "(r < 0 \<or> 1114111 < r \<or> 55296 \<le> r \<and> r \<le> 57343) = False"
    "(r < 128) = False" "(r < 2048) = False" "(r < 65536) = False" by simp_all
  have "240 + (byte c - 240) = byte c" "128 + (byte d - 128) = byte d"
    "128 + (byte e - 128) = byte e" "128 + (byte f - 128) = byte f" by simp_all
  then show "utf8_encode r = [c, d, e, f]"
    unfolding utf8_encode_def Let_def b if_False p2 p3 q2 q(2) by (simp only: char_of_byte)
qed

lemma decode_rune_high:
  assumes "128 \<le> byte c" and "decode_rune (c # cs) = (r, n)" and "\<not> (r = rune_error \<and> n = 1)"
  shows "n \<le> length (c # cs) \<and> 2 \<le> n \<and> 128 \<le> r \<and> decode_rune (take n (c # cs) @ t) = (r, n)
    \<and> utf8_encode r = take n (c # cs)"
proof -
  consider (two) d ds where "cs = d # ds" "194 \<le> byte c" "byte c \<le> 223" "is_cont (byte d)"
    | (three) d e ds where "cs = d # e # ds" "224 \<le> byte c" "byte c \<le> 239"
        "second_ok (byte c) (byte d)" "is_cont (byte e)"
    | (four) d e f ds where "cs = d # e # f # ds" "240 \<le> byte c" "byte c \<le> 244"
        "second_ok (byte c) (byte d)" "is_cont (byte e)" "is_cont (byte f)"
    using assms by (auto simp: Let_def split: if_splits list.splits)
  then show ?thesis
  proof cases
    case two
    then show ?thesis
      using assms decode_rune_two [of c d] by (auto simp: is_cont_def)
  next
    case three
    from three(4) have d: "128 \<le> byte d"
      by (auto simp: second_ok_def is_cont_def split: if_splits)
    have "128 \<le> (byte c - 224) * 4096 + (byte d - 128) * 64 + (byte e - 128)"
    proof (cases "byte c = 224")
      case True with three d show ?thesis by (auto simp: second_ok_def is_cont_def)
    next
      case False with three d show ?thesis by (auto simp: is_cont_def)
    qed
    with three show ?thesis
      using assms decode_rune_three [of c d e] by (auto simp del: decode_rune.simps)
  next
    case four
    from four(4) have d: "128 \<le> byte d"
      by (auto simp: second_ok_def is_cont_def split: if_splits)
    have "128 \<le> (byte c - 240) * 262144 + (byte d - 128) * 4096 + (byte e - 128) * 64 + (byte f - 128)"
    proof (cases "byte c = 240")
      case True with four d show ?thesis by (auto simp: second_ok_def is_cont_def)
    next
      case False with four d show ?thesis by (auto simp: is_cont_def)
    qed
    with four show ?thesis
      using assms decode_rune_four [of c d e f] by (auto simp del: decode_rune.simps)
  qed
qed

lemma append_single: "(@) [x] = (#) x"
  by (simp add: fun_eq_iff)

lemma char_codes: "char_of (34 :: int) = CHR 0x22" "char_of (92 :: int) = CHR 0x5C"
  "char_of (8 :: int) = char_of (8 :: nat)" "char_of (12 :: int) = char_of (12 :: nat)"
  "char_of (10 :: int) = char_of (10 :: nat)" "char_of (13 :: int) = char_of (13 :: nat)"
  "char_of (9 :: int) = char_of (9 :: nat)"
  by (simp_all add: char_of_def bit_Suc_0_iff)

lemma parse_chars_u_escape:
  assumes "n < 65536" and "\<not> (55296 \<le> n \<and> n \<le> 56319)"
  shows "parse_chars (u_escape n @ t) = map_option (apfst ((@) (utf8_encode (int n)))) (parse_chars t)"
proof -
  obtain a b c d where u: "u_escape n = [backslash, CHR ''u'', a, b, c, d]"
    by (simp add: u_escape_def)
  then have "hex4 (a # b # c # d # t) = Some n"
    using hex4_u_escape [OF assms(1), of t] by simp
  with assms(2) show ?thesis
    unfolding u by (auto simp: dquote_def backslash_def del: hex4.simps)
qed

lemma parse_chars_escape_rune:
  assumes "s \<noteq> []" and "decode_rune s = (r, n)" and ok: "\<not> (r = rune_error \<and> n = 1)"
  shows "parse_chars (escape_rune (r, take n s) @ t) =
    map_option (apfst ((@) (take n s))) (parse_chars t)"
proof -
  obtain c cs where s: "s = c # cs" using assms(1) by (cases s) auto
  show ?thesis
  proof (cases "byte c < 128")
    case True
    with assms(2) s have r: "r = byte c" "n = 1" by auto
    have ch: "take n s = [c]" by (simp add: r s)
    have enc: "utf8_encode (byte c) = [c]"
      using True byte_range [of c] by (simp add: utf8_encode_def)
    show ?thesis
    proof (cases "byte c < 32 \<or> byte c \<in> {34, 92, 60, 62, 38}")
      case False
      then have "parse_chars (c # t) = map_option (apfst ((@) [c])) (parse_chars t)"
        using True enc by (auto simp: dquote_def backslash_def byte_def)
      moreover have "escape_rune (r, take n s) = [c]"
        using False True by (auto simp: escape_rune_def r s rune_error_def)
      ultimately show ?thesis by (simp add: ch)
    next
      case special: True
      consider "byte c = 34" | "byte c = 92" | "byte c = 8" | "byte c = 12" | "byte c = 10"
        | "byte c = 13" | "byte c = 9" | "byte c \<notin> {34, 92, 8, 12, 10, 13, 9}" by blast
      then show ?thesis
      proof cases
        case 8
        with special have "escape_rune (r, take n s) = u_escape (nat (byte c))"
          by (auto simp: escape_rune_def r)
        moreover have "nat (byte c) < 128" using True by simp
        ultimately show ?thesis
          using parse_chars_u_escape [of "nat (byte c)" t] byte_range [of c] enc
          by (simp add: ch)
      qed (use char_of_byte [of c] in \<open>auto simp: escape_rune_def r s append_single char_codes dquote_def backslash_def
             simple_escape_def simp del: char_of_byte\<close>)
    qed
  next
    case False
    from decode_rune_high [of c cs r n t] False assms(2) ok s
    have h: "n \<le> length s" "2 \<le> n" "128 \<le> r" "decode_rune (take n s @ t) = (r, n)"
      "utf8_encode r = take n s" by auto
    show ?thesis
    proof (cases "r = 8232 \<or> r = 8233")
      case True
      then have "escape_rune (r, take n s) = u_escape (nat r)" by (auto simp: escape_rune_def)
      with True h(5) show ?thesis using parse_chars_u_escape [of "nat r" t] by auto
    next
      case other: False
      have e: "escape_rune (r, take n s) = take n s"
        using h other by (auto simp: escape_rune_def)
      have hd: "take n s @ t = c # (take (n - 1) cs @ t)" using h(2) s by (cases n) auto
      have "c \<noteq> dquote" "c \<noteq> backslash" "\<not> byte c < 32"
        using False by (auto simp: dquote_def backslash_def byte_def)
      moreover have "drop n (take n s @ t) = t" using h(1) by simp
      ultimately show ?thesis
        using h(4,5) unfolding e hd by (simp del: decode_rune.simps)
    qed
  qed
qed

definition utf8_ok :: "string \<Rightarrow> bool" where
  "utf8_ok s \<longleftrightarrow> list_all (\<lambda>(r, bs). r \<noteq> rune_error \<or> length bs \<noteq> 1) (rune_segs s)"

lemma parse_chars_quoted:
  "utf8_ok s \<Longrightarrow> parse_chars (concat (map escape_rune (rune_segs s)) @ dquote # t) = Some (s, t)"
proof (induction s rule: rune_segs.induct)
  case (1 s)
  show ?case
  proof (cases "s = []")
    case False
    obtain r n where d: "decode_rune s = (r, n)" by (cases "decode_rune s")
    have segs: "rune_segs s = (r, take n s) # rune_segs (drop n s)"
      using False d by (simp add: rune_segs_step)
    have "\<not> (r = rune_error \<and> n = 1)" and tl: "utf8_ok (drop n s)"
      using 1(2) False by (auto simp: utf8_ok_def segs neq_Nil_conv)
    moreover from 1(1) [OF False] tl d
    have "parse_chars (concat (map escape_rune (rune_segs (drop n s))) @ dquote # t) = Some (drop n s, t)"
      by simp
    ultimately show ?thesis
      using parse_chars_escape_rune [OF False d] by (simp add: segs)
  qed simp
qed

section \<open>Numbers\<close>

definition int_literal :: "string \<Rightarrow> bool" where
  "int_literal s \<longleftrightarrow> (case ParseInt s of None \<Rightarrow> False | Some i \<Rightarrow> FormatInt i = s)"

definition delim :: "string \<Rightarrow> bool" where
  "delim t \<longleftrightarrow> t = [] \<or> hd t \<in> {CHR '','', CHR '']'', CHR ''}'', CHR 0x0A}"

lemma byte_digit_char: "d < 10 \<Longrightarrow> byte (digit_char d) = 48 + int d"
  using digit_char_value [of d] of_nat_of_char [of "digit_char d", where 'a = int]
  by (simp add: byte_def)

lemma nat_digits_all: "\<forall>c \<in> set (nat_digits n). 48 \<le> byte c \<and> byte c \<le> 57"
proof (induction n rule: nat_digits.induct)
  case (1 n)
  then show ?case
    by (cases "n < 10") (auto simp: nat_digits.simps [of n] byte_digit_char)
qed

lemma nat_digits_no_zero: "0 < n \<Longrightarrow> hd (nat_digits n) \<noteq> CHR ''0''"
proof (induction n rule: nat_digits.induct)
  case (1 n)
  show ?case
  proof (cases "n < 10")
    case True
    moreover have "byte (CHR ''0'') = 48" by (simp add: byte_def)
    ultimately have "digit_char n \<noteq> CHR ''0''"
      using 1(2) byte_digit_char [of n] by auto
    with True show ?thesis by (auto simp: nat_digits.simps)
  next
    case False
    moreover have "nat_digits (n div 10) \<noteq> []" using nat_digits_Cons by (metis list.distinct(1))
    ultimately show ?thesis using 1 by (simp add: nat_digits.simps [of n])
  qed
qed

lemma span_digits_nat:
  assumes "delim t"
  shows "span_digits (nat_digits n @ t) = (nat_digits n, t)"
proof -
  have t: "t = [] \<or> \<not> (48 \<le> byte (hd t) \<and> byte (hd t) \<le> 57)"
    using assms by (auto simp: delim_def byte_def)
  have "takeWhile (\<lambda>c. 48 \<le> byte c \<and> byte c \<le> 57) t = []"
    "dropWhile (\<lambda>c. 48 \<le> byte c \<and> byte c \<le> 57) t = t"
    using t by (cases t; auto)+
  then show ?thesis
    using nat_digits_all [of n] by (simp add: span_digits_def takeWhile_append2 dropWhile_append2)
qed

lemma scan_number_nat:
  assumes "delim t"
  shows "scan_number (nat_digits n @ t) = Some (nat_digits n, t)"
    and "scan_number (CHR ''-'' # nat_digits n @ t) = Some (CHR ''-'' # nat_digits n, t)"
proof -
  obtain d ds where nd: "nat_digits n = digit_char d # ds" and d: "d < 10"
    using nat_digits_Cons by blast
  have m: "digit_char d \<noteq> CHR ''-''" using digit_char_not_sign [OF d] by simp
  have z: "\<not> (hd (nat_digits n) = CHR ''0'' \<and> length (nat_digits n) > 1)"
    using nat_digits_no_zero [of n] by (cases "n = 0") (auto simp: nat_digits.simps [of 0])
  have t: "scan_sign ''.'' t = ([], t)" "scan_sign ''eE'' t = ([], t)"
    using assms by (auto simp: scan_sign_def delim_def split: list.splits)
  have ne: "nat_digits n \<noteq> []" using nd by simp
  have s: "scan_sign ''-'' (nat_digits n @ t) = ([], nat_digits n @ t)"
    using nd m by (simp add: scan_sign_def)
  from z ne have z: "(nat_digits n = [] \<or> hd (nat_digits n) = CHR ''0'' \<and> 1 < length (nat_digits n)) = False"
    by simp
  show "scan_number (nat_digits n @ t) = Some (nat_digits n, t)"
    unfolding scan_number_def s using span_digits_nat [OF assms, of n] t
    by (simp only: prod.case z if_False) simp
  show "scan_number (CHR ''-'' # nat_digits n @ t) = Some (CHR ''-'' # nat_digits n, t)"
  proof -
    have s': "scan_sign ''-'' (CHR ''-'' # nat_digits n @ t) = (''-'', nat_digits n @ t)"
      by (simp add: scan_sign_def)
    show ?thesis
      unfolding scan_number_def s' using span_digits_nat [OF assms, of n] t
      by (simp only: prod.case z if_False) simp
  qed
qed

lemma scan_number_int: "delim t \<Longrightarrow> scan_number (FormatInt i @ t) = Some (FormatInt i, t)"
  by (simp add: FormatInt_def scan_number_nat)

section \<open>Documents\<close>

fun doc_ok :: "json \<Rightarrow> bool" where
  "doc_ok (JNum n) = int_literal n"
| "doc_ok (JStr s) = utf8_ok s"
| "doc_ok (JArr vs) = list_all doc_ok vs"
| "doc_ok (JObj fs) = list_all (\<lambda>f. utf8_ok (fst f) \<and> doc_ok (snd f)) fs"
| "doc_ok _ = True"

lemma FormatInt_head:
  "\<exists>c cs. FormatInt i = c # cs \<and> (c = CHR ''-'' \<or> (48 \<le> byte c \<and> byte c \<le> 57))"
proof -
  obtain d ds where "nat_digits (nat i) = digit_char d # ds" and "d < 10"
    using nat_digits_Cons by blast
  then show ?thesis by (auto simp: FormatInt_def byte_digit_char)
qed

lemma expect_Cons: "expect (p # ps) (c # cs) = (if p = c then expect ps cs else None)"
  by (simp add: expect_def HasPrefix_def)

lemma expect_Nil [simp]: "expect [] s = Some s"
  by (simp add: expect_def HasPrefix_def)

declare skip_ws.simps(2) [simp del] parse_value.simps(2) [simp del]

lemma skip_ws_id: "byte c \<notin> {32, 9, 10, 13} \<Longrightarrow> skip_ws (c # s) = c # s"
  by (simp add: skip_ws.simps)

lemma skip_ws_struct [simp]:
  "skip_ws (CHR ''['' # s) = CHR ''['' # s" "skip_ws (CHR ''{'' # s) = CHR ''{'' # s"
  "skip_ws (CHR '']'' # s) = CHR '']'' # s" "skip_ws (CHR ''}'' # s) = CHR ''}'' # s"
  "skip_ws (CHR '','' # s) = CHR '','' # s" "skip_ws (CHR '':'' # s) = CHR '':'' # s"
  "skip_ws (CHR ''n'' # s) = CHR ''n'' # s" "skip_ws (CHR ''t'' # s) = CHR ''t'' # s"
  "skip_ws (CHR ''f'' # s) = CHR ''f'' # s" "skip_ws (dquote # s) = dquote # s"
  by (simp_all add: byte_def dquote_def skip_ws_id)

lemma parse_value_step [simp]:
  "parse_value (Suc n) (dquote # r) = map_option (apfst JStr) (parse_chars r)"
  "parse_value (Suc n) (CHR ''['' # r) = (case expect '']'' (skip_ws r) of Some t \<Rightarrow> Some (JArr [], t)
     | None \<Rightarrow> map_option (apfst JArr) (parse_elems n r))"
  "parse_value (Suc n) (CHR ''{'' # r) = (case expect ''}'' (skip_ws r) of Some t \<Rightarrow> Some (JObj [], t)
     | None \<Rightarrow> map_option (apfst JObj) (parse_members n r))"
  "parse_value (Suc n) (CHR ''n'' # CHR ''u'' # CHR ''l'' # CHR ''l'' # r) = Some (JNull, r)"
  "parse_value (Suc n) (CHR ''t'' # CHR ''r'' # CHR ''u'' # CHR ''e'' # r) = Some (JBool True, r)"
  "parse_value (Suc n) (CHR ''f'' # CHR ''a'' # CHR ''l'' # CHR ''s'' # CHR ''e'' # r) = Some (JBool False, r)"
  by (simp_all add: parse_value.simps Let_def expect_Cons)
    (simp_all add: dquote_def expect_Cons)

lemma parse_value_number:
  assumes "delim t"
  shows "parse_value (Suc n) (FormatInt i @ t) = Some (JNum (FormatInt i), t)"
proof -
  obtain c cs where i: "FormatInt i = c # cs" and c: "c = CHR ''-'' \<or> (48 \<le> byte c \<and> byte c \<le> 57)"
    using FormatInt_head by blast
  have ne: "CHR ''n'' \<noteq> c" "CHR ''t'' \<noteq> c" "CHR ''f'' \<noteq> c" "dquote \<noteq> c" "CHR ''['' \<noteq> c" "CHR ''{'' \<noteq> c"
    using c by (auto simp: byte_def dquote_def)
  have "skip_ws (c # cs @ t) = c # cs @ t"
    using c by (intro skip_ws_id) (auto simp: byte_def)
  with ne show ?thesis
    using scan_number_int [OF assms, of i] by (simp add: i Let_def expect_Cons parse_value.simps)
qed

lemma jprint_head: "doc_ok v \<Longrightarrow> \<exists>c cs. jprint v = c # cs \<and> c \<noteq> CHR '']'' \<and> c \<noteq> CHR ''}'' \<and> byte c \<notin> {32, 9, 10, 13}"
proof (cases v)
  case (JNum n)
  moreover assume "doc_ok v"
  ultimately obtain i where "n = FormatInt i" by (auto simp: int_literal_def split: option.splits)
  with JNum FormatInt_head [of i] show ?thesis by (auto simp: byte_def)
qed (auto simp: byte_def quote_str_def dquote_def)

definition reads_back :: "json \<Rightarrow> bool" where
  "reads_back v \<longleftrightarrow> (\<forall>n t. delim t \<longrightarrow> 2 * length (jprint v) \<le> n \<longrightarrow>
     parse_value n (jprint v @ t) = Some (v, t))"

lemma reads_backD:
  "reads_back v \<Longrightarrow> delim t \<Longrightarrow> 2 * length (jprint v) \<le> n \<Longrightarrow> parse_value n (jprint v @ t) = Some (v, t)"
  by (simp add: reads_back_def)

lemma delim_simps [simp]: "delim []" "delim (CHR 0x0A # t)" "delim (CHR '','' # t)" "delim (CHR '']'' # t)" "delim (CHR ''}'' # t)"
  by (simp_all add: delim_def)

lemma reads_backI:
  assumes "jprint v \<noteq> []"
    and "\<And>m t. delim t \<Longrightarrow> 2 * length (jprint v) \<le> Suc m \<Longrightarrow> parse_value (Suc m) (jprint v @ t) = Some (v, t)"
  shows "reads_back v"
  unfolding reads_back_def
proof (intro allI impI)
  fix n t
  assume "delim t" and n: "2 * length (jprint v) \<le> n"
  moreover from n assms(1) obtain m where "n = Suc m" by (cases n) auto
  ultimately show "parse_value n (jprint v @ t) = Some (v, t)" using assms(2) by simp
qed

lemma parse_elems_print:
  assumes "vs \<noteq> []" and "list_all doc_ok vs" and "list_all reads_back vs"
    and "2 * length (sep_by '','' (map jprint vs)) + 1 \<le> n"
  shows "parse_elems n (sep_by '','' (map jprint vs) @ CHR '']'' # t) = Some (vs, t)"
  using assms
proof (induction vs arbitrary: n rule: list_nonempty_induct)
  case (single v)
  then obtain m where n: "n = Suc m" "2 * length (jprint v) \<le> m" by (cases n) auto
  with single have "parse_value m (jprint v @ CHR '']'' # t) = Some (v, CHR '']'' # t)"
    by (intro reads_backD) simp_all
  then show ?case by (simp add: n expect_Cons)
next
  case (cons v vs)
  let ?r = "sep_by '','' (map jprint vs)"
  obtain m where n: "n = Suc m" using cons.prems by (cases n) auto
  have sep: "sep_by '','' (jprint v # map jprint vs) = jprint v @ CHR '','' # ?r"
    using cons.hyps by (cases vs) auto
  have "parse_value m (jprint v @ CHR '','' # ?r @ CHR '']'' # t)
      = Some (v, CHR '','' # ?r @ CHR '']'' # t)"
    using cons.prems by (intro reads_backD) (simp_all add: sep n)
  moreover have "parse_elems m (?r @ CHR '']'' # t) = Some (vs, t)"
    using cons.prems cons.IH by (simp add: sep n)
  ultimately show ?case by (simp add: n sep expect_Cons)
qed

lemma quote_str_steps [simp]:
  "expect [dquote] (skip_ws (quote_str s @ t)) = Some (tl (quote_str s) @ t)"
  "expect ''}'' (skip_ws (quote_str s @ t)) = None"
  by (simp_all add: quote_str_def expect_Cons dquote_def [symmetric])
    (simp add: dquote_def)

lemma parse_chars_quote_str [simp]: "utf8_ok s \<Longrightarrow> parse_chars (tl (quote_str s) @ t) = Some (s, t)"
  by (simp add: quote_str_def parse_chars_quoted)

abbreviation member_text :: "string \<times> json \<Rightarrow> string" where
  "member_text f \<equiv> quote_str (fst f) @ CHR '':'' # jprint (snd f)"

lemma parse_members_print:
  assumes "fs \<noteq> []" and "list_all (\<lambda>f. utf8_ok (fst f) \<and> reads_back (snd f)) fs"
    and "2 * length (sep_by '','' (map member_text fs)) + 1 \<le> n"
  shows "parse_members n (sep_by '','' (map member_text fs) @ CHR ''}'' # t) = Some (fs, t)"
  using assms
proof (induction fs arbitrary: n rule: list_nonempty_induct)
  case (single f)
  then obtain m where n: "n = Suc m" "2 * length (jprint (snd f)) \<le> m" by (cases n) auto
  with single have "parse_value m (jprint (snd f) @ CHR ''}'' # t) = Some (snd f, CHR ''}'' # t)"
    by (simp add: reads_back_def delim_def)
  with single show ?case
    by (simp add: n expect_Cons)
next
  case (cons f fs)
  let ?r = "sep_by '','' (map member_text fs)"
  obtain m where n: "n = Suc m" using cons.prems by (cases n) auto
  have sep: "sep_by '','' (member_text f # map member_text fs) = member_text f @ CHR '','' # ?r"
    using cons.hyps by (cases fs) auto
  have "parse_value m (jprint (snd f) @ CHR '','' # ?r @ CHR ''}'' # t)
      = Some (snd f, CHR '','' # ?r @ CHR ''}'' # t)"
    using cons.prems by (intro reads_backD) (simp_all add: sep n)
  moreover have "parse_members m (?r @ CHR ''}'' # t) = Some (fs, t)"
    using cons.prems cons.IH by (simp add: sep n)
  ultimately show ?case
    using cons.prems by (simp add: n sep expect_Cons)
qed

lemma jprint_reads_back: "doc_ok v \<Longrightarrow> reads_back v"
proof (induction v rule: jprint.induct)
  case (3 n)
  then obtain i where "n = FormatInt i" by (auto simp: int_literal_def split: option.splits)
  show ?case
    using FormatInt_head [of i] parse_value_number [of _ _ i] \<open>n = FormatInt i\<close>
    by (intro reads_backI) auto
next
  case (4 s)
  then show ?case
    by (intro reads_backI) (auto simp: quote_str_def parse_chars_quoted)
next
  case (5 vs)
  then have rb: "list_all reads_back vs" by (auto simp: list_all_iff)
  show ?case
  proof (cases "vs = []")
    case True
    then show ?thesis by (intro reads_backI) (auto simp: expect_Cons)
  next
    case False
    obtain c cs where c: "sep_by '','' (map jprint vs) = c # cs" "c \<noteq> CHR '']''" "byte c \<notin> {32, 9, 10, 13}"
      using jprint_head [of "hd vs"] False 5(2) by (cases vs; cases "tl vs") auto
    have "expect '']'' (skip_ws (sep_by '','' (map jprint vs) @ CHR '']'' # t)) = None" for t
      using c by (simp add: expect_Cons skip_ws_id)
    then show ?thesis
      using parse_elems_print [OF False] rb 5(2)
      by (intro reads_backI) (auto simp: expect_Cons)
  qed
next
  case (6 fs)
  then have rb: "list_all (\<lambda>f. utf8_ok (fst f) \<and> reads_back (snd f)) fs"
    by (auto simp: list_all_iff)
  show ?case
  proof (cases "fs = []")
    case True
    then show ?thesis by (intro reads_backI) (auto simp: expect_Cons)
  next
    case False
    obtain k cs where c: "sep_by '','' (map member_text fs) = quote_str k @ cs"
      using False by (cases fs; cases "tl fs") auto
    have "expect ''}'' (skip_ws (sep_by '','' (map member_text fs) @ CHR ''}'' # t)) = None" for t
      using c by simp
    then show ?thesis
      using parse_members_print [OF False rb]
      by (intro reads_backI) (auto simp: expect_Cons)
  qed
qed (auto intro!: reads_backI split: if_splits)

lemma json_parse_print: "doc_ok v \<Longrightarrow> json_parse (jprint v) = Some v"
  using jprint_reads_back [of v] by (simp add: json_parse_def reads_back_def delim_def)

end
