(* ===== verification/Json_Struct.thy ===== *)
theory Json_Struct
  imports Json_Roundtrip
begin

text \<open>
  \<^verbatim>\<open>json.Unmarshal\<close> into a struct. The members of the object are taken in order; a member
  goes to the field of its name, or of a name equal to it up to letter case, and a later
  member overwrites an earlier one; \<^verbatim>\<open>null\<close> leaves a field as it is; a member of the wrong
  type makes the whole call fail. A field sees the text of its value, so a
  \<^verbatim>\<open>json.RawMessage\<close> keeps it byte for byte. Also the RFC 3339 reader of \<^verbatim>\<open>time.Time\<close>.
\<close>

section \<open>Members with the text of their values\<close>

definition consumed :: "string \<Rightarrow> string \<Rightarrow> string" where
  "consumed s r = (let t = skip_ws s in take (length t - length r) t)"

fun raw_members :: "nat \<Rightarrow> string \<Rightarrow> ((string \<times> string) list \<times> string) option" where
  "raw_members 0 s = None"
| "raw_members (Suc n) s =
     (case expect [dquote] (skip_ws s) of None \<Rightarrow> None | Some s1 \<Rightarrow>
      case parse_chars s1 of None \<Rightarrow> None | Some (k, s2) \<Rightarrow>
      case expect '':'' (skip_ws s2) of None \<Rightarrow> None | Some s3 \<Rightarrow>
      case parse_value n s3 of None \<Rightarrow> None | Some (v, r) \<Rightarrow>
      case expect ''}'' (skip_ws r) of Some t \<Rightarrow> Some ([(k, consumed s3 r)], t) | None \<Rightarrow>
      case expect '','' (skip_ws r) of
        Some t \<Rightarrow> map_option (apfst ((#) (k, consumed s3 r))) (raw_members n t) | None \<Rightarrow> None)"

definition object_members :: "string \<Rightarrow> (string \<times> string) list option" where
  "object_members s =
     (case expect ''{'' (skip_ws s) of
        None \<Rightarrow> None
      | Some r \<Rightarrow> if expect ''}'' (skip_ws r) \<noteq> None then Some []
                  else map_option fst (raw_members (2 * length s + 2) r))"

section \<open>Fields\<close>

text \<open>The caseless form of a name: ASCII letters, and the two other runes that fold to them.\<close>

definition json_fold :: "string \<Rightarrow> int list" where
  "json_fold s = map (\<lambda>r. if 97 \<le> r \<and> r \<le> 122 then r - 32 else if r = 383 then 83
                          else if r = 8490 then 75 else r) (runes s)"

type_synonym 'r fields = "(string \<times> (string \<Rightarrow> 'r \<Rightarrow> 'r option)) list"

definition field_for :: "'r fields \<Rightarrow> string \<Rightarrow> (string \<Rightarrow> 'r \<Rightarrow> 'r option) option" where
  "field_for fs k =
     (case map_of fs k of
        Some f \<Rightarrow> Some f
      | None \<Rightarrow> map_option snd (find (\<lambda>(name, _). json_fold name = json_fold k) fs))"

fun decode_members :: "'r fields \<Rightarrow> (string \<times> string) list \<Rightarrow> 'r \<Rightarrow> 'r option" where
  "decode_members fs [] r = Some r"
| "decode_members fs ((k, raw) # ms) r =
     (case field_for fs k of
        None \<Rightarrow> decode_members fs ms r
      | Some f \<Rightarrow> (case f raw r of None \<Rightarrow> None | Some r' \<Rightarrow> decode_members fs ms r'))"

definition unmarshal :: "'r fields \<Rightarrow> 'r \<Rightarrow> string \<Rightarrow> 'r option" where
  "unmarshal fs zero s =
     (case json_parse s of
        None \<Rightarrow> None
      | Some JNull \<Rightarrow> Some zero
      | Some _ \<Rightarrow> (case object_members s of
           None \<Rightarrow> None
         | Some ms \<Rightarrow> decode_members fs ms zero))"

text \<open>A field decoded from a document, and one that keeps its raw text.\<close>

definition value_field :: "(json \<Rightarrow> 'v option) \<Rightarrow> ('v \<Rightarrow> 'r \<Rightarrow> 'r) \<Rightarrow> string \<Rightarrow> 'r \<Rightarrow> 'r option" where
  "value_field dec put raw r =
     (case json_parse raw of
        None \<Rightarrow> None
      | Some v \<Rightarrow> if v = JNull then Some r else map_option (\<lambda>x. put x r) (dec v))"

definition raw_field :: "(string \<Rightarrow> 'r \<Rightarrow> 'r) \<Rightarrow> string \<Rightarrow> 'r \<Rightarrow> 'r option" where
  "raw_field put raw r = Some (put raw r)"

fun as_string :: "json \<Rightarrow> string option" where
  "as_string (JStr s) = Some s"
| "as_string _ = None"

fun as_int64 :: "json \<Rightarrow> int option" where
  "as_int64 (JNum n) = ParseInt n"
| "as_int64 _ = None"

definition in_range :: "int \<Rightarrow> int \<Rightarrow> int option \<Rightarrow> int option" where
  "in_range lo hi v = (case v of Some i \<Rightarrow> if lo \<le> i \<and> i \<le> hi then Some i else None | None \<Rightarrow> None)"

fun as_string_map :: "json \<Rightarrow> (string \<times> string) list option" where
  "as_string_map (JObj fs) =
     (if list_all (\<lambda>f. as_string (snd f) \<noteq> None \<or> snd f = JNull) fs
      then Some (map (\<lambda>f. (fst f, case as_string (snd f) of Some s \<Rightarrow> s | None \<Rightarrow> [])) fs) else None)"
| "as_string_map _ = None"

section \<open>Times\<close>

text \<open>A field of exactly \<open>n\<close> decimal digits.\<close>

definition take_num :: "nat \<Rightarrow> string \<Rightarrow> (int \<times> string) option" where
  "take_num n s = (if length s < n then None
     else case digits_value 0 (take n s) of
            None \<Rightarrow> None | Some v \<Rightarrow> Some (int v, drop n s))"

definition day_of_date :: "int \<Rightarrow> int \<Rightarrow> int \<Rightarrow> int" where
  "day_of_date y m d = days_before_year y + sum_list (take (nat (m - 1)) (month_lengths y)) + (d - 1)"

text \<open>The optional fraction of a second, cut to nanoseconds.\<close>

definition take_fraction :: "string \<Rightarrow> (int \<times> string) option" where
  "take_fraction s =
     (case expect ''.'' s of
        None \<Rightarrow> Some (0, s)
      | Some t \<Rightarrow> (case span_digits t of (ds, r) \<Rightarrow>
          if ds = [] then None
          else map_option (\<lambda>v. (int v, r))
                 (digits_value 0 (take 9 (ds @ replicate 9 (CHR ''0''))))))"

definition take_zone :: "string \<Rightarrow> int option" where
  "take_zone s =
     (if s = ''Z'' then Some 0
      else case s of
        [] \<Rightarrow> None
      | c # r \<Rightarrow>
          if c = CHR ''+'' \<or> c = CHR ''-'' then
            (case take_num 2 r of None \<Rightarrow> None | Some (h, r1) \<Rightarrow>
             case expect '':'' r1 of None \<Rightarrow> None | Some r2 \<Rightarrow>
             case take_num 2 r2 of None \<Rightarrow> None | Some (m, r3) \<Rightarrow>
             if r3 = [] \<and> h \<le> 23 \<and> m \<le> 59
             then Some ((if c = CHR ''-'' then - 1 else 1) * (h * 3600 + m * 60)) else None)
          else None)"

definition parse_rfc3339 :: "string \<Rightarrow> int option" where
  "parse_rfc3339 s =
     Option.bind (take_num 4 s) (\<lambda>(y, s1).
      Option.bind (expect ''-'' s1) (\<lambda>s2.
      Option.bind (take_num 2 s2) (\<lambda>(mo, s3).
      Option.bind (expect ''-'' s3) (\<lambda>s4.
      Option.bind (take_num 2 s4) (\<lambda>(d, s5).
      Option.bind (expect ''T'' s5) (\<lambda>s6.
      Option.bind (take_num 2 s6) (\<lambda>(h, s7).
      Option.bind (expect '':'' s7) (\<lambda>s8.
      Option.bind (take_num 2 s8) (\<lambda>(mi, s9).
      Option.bind (expect '':'' s9) (\<lambda>s10.
      Option.bind (take_num 2 s10) (\<lambda>(se, s11).
      Option.bind (take_fraction s11) (\<lambda>(ns, s12).
      Option.bind (take_zone s12) (\<lambda>off.
      if 1 \<le> mo \<and> mo \<le> 12 \<and> 1 \<le> d \<and> d \<le> month_lengths y ! nat (mo - 1)
         \<and> h \<le> 23 \<and> mi \<le> 59 \<and> se \<le> 59
      then Some (((day_of_date y mo d - epoch_day) * 86400 + h * 3600 + mi * 60 + se - off) * second + ns)
      else None)))))))))))))"

fun as_time :: "json \<Rightarrow> int option" where
  "as_time (JStr s) = parse_rfc3339 s"
| "as_time _ = None"

section \<open>Printed objects\<close>

text \<open>The members of a printed object are its own, with their printed values.\<close>

lemma consumed_printed: "doc_ok v \<Longrightarrow> consumed (jprint v @ t) t = jprint v"
proof -
  assume "doc_ok v"
  then obtain c cs where "jprint v = c # cs" and "byte c \<notin> {32, 9, 10, 13}"
    using jprint_head by blast
  then show ?thesis by (simp add: consumed_def skip_ws_id)
qed

lemma raw_members_print:
  assumes "fs \<noteq> []" and "list_all (\<lambda>f. utf8_ok (fst f) \<and> doc_ok (snd f)) fs"
    and "2 * length (sep_by '','' (map member_text fs)) + 1 \<le> n"
  shows "raw_members n (sep_by '','' (map member_text fs) @ CHR ''}'' # t) =
    Some (map (\<lambda>f. (fst f, jprint (snd f))) fs, t)"
  using assms
proof (induction fs arbitrary: n rule: list_nonempty_induct)
  case (single f)
  then obtain m where n: "n = Suc m" "2 * length (jprint (snd f)) \<le> m" by (cases n) auto
  with single have "parse_value m (jprint (snd f) @ CHR ''}'' # t) = Some (snd f, CHR ''}'' # t)"
    by (intro reads_backD jprint_reads_back) simp_all
  with single show ?case
    by (simp add: n expect_Cons consumed_printed)
next
  case (cons f fs)
  let ?r = "sep_by '','' (map member_text fs)"
  obtain m where n: "n = Suc m" using cons.prems by (cases n) auto
  have sep: "sep_by '','' (member_text f # map member_text fs) = member_text f @ CHR '','' # ?r"
    using cons.hyps by (cases fs) auto
  have "parse_value m (jprint (snd f) @ CHR '','' # ?r @ CHR ''}'' # t)
      = Some (snd f, CHR '','' # ?r @ CHR ''}'' # t)"
    using cons.prems by (intro reads_backD jprint_reads_back) (simp_all add: sep n)
  moreover have "raw_members m (?r @ CHR ''}'' # t) = Some (map (\<lambda>f. (fst f, jprint (snd f))) fs, t)"
    using cons.prems cons.IH by (simp add: sep n)
  moreover have "consumed (jprint (snd f) @ CHR '','' # ?r @ CHR ''}'' # t) (CHR '','' # ?r @ CHR ''}'' # t)
      = jprint (snd f)"
    using cons.prems by (intro consumed_printed) simp
  ultimately show ?case
    using cons.prems by (simp add: n sep expect_Cons)
qed

lemma object_members_print:
  assumes "doc_ok (JObj fs)"
  shows "object_members (jprint (JObj fs)) = Some (map (\<lambda>f. (fst f, jprint (snd f))) fs)"
proof (cases "fs = []")
  case True
  then show ?thesis by (simp add: object_members_def expect_Cons)
next
  case False
  obtain k cs where c: "sep_by '','' (map member_text fs) = quote_str k @ cs"
    using False by (cases fs; cases "tl fs") auto
  have "expect ''}'' (skip_ws (sep_by '','' (map member_text fs) @ CHR ''}'' # t)) = None" for t
    using c by simp
  then show ?thesis
    using raw_members_print [OF False] assms
    by (simp add: object_members_def expect_Cons del: raw_members.simps)
qed

lemma unmarshal_print:
  assumes "doc_ok (JObj fs)"
  shows "unmarshal F z (jprint (JObj fs)) = decode_members F (map (\<lambda>f. (fst f, jprint (snd f))) fs) z"
  using assms json_parse_print [OF assms] object_members_print [OF assms]
  by (simp add: unmarshal_def del: jprint.simps doc_ok.simps)

lemma value_field_print:
  "doc_ok v \<Longrightarrow> v \<noteq> JNull \<Longrightarrow> value_field dec put (jprint v) r = map_option (\<lambda>x. put x r) (dec v)"
  by (simp add: value_field_def json_parse_print)

lemma int_literal_FormatInt [simp]: "is_i64 i \<Longrightarrow> int_literal (FormatInt i)"
  by (simp add: int_literal_def ParseInt_FormatInt)

lemma as_int64_JInt [simp]: "is_i64 i \<Longrightarrow> as_int64 (JInt i) = Some i"
  by (simp add: ParseInt_FormatInt)

end
