(* ===== verification/Json_Time.thy ===== *)
theory Json_Time
  imports Json_Struct
begin

text \<open>
  The text of an instant is read back: \<open>parse_rfc3339 (rfc3339 t) = Some t\<close> for every instant
  of the years the format can hold. Every event and dead letter carries such a time.
\<close>

section \<open>Years and months\<close>

lemma year_bounds:
  fixes d a :: int
  assumes "a = (400 * d) div 146097"
  shows "days_before_year (a + 1) \<le> d" and "d < days_before_year (a + 3)"
proof -
  have a: "146097 * a \<le> 400 * d" "400 * d < 146097 * a + 146097"
    using assms by (simp_all add: minus_mod_eq_mult_div [symmetric] pos_mod_bound)
  have q: "4 * (x div 4) \<le> x" "x < 4 * (x div 4) + 4" "100 * (x div 100) \<le> x" "x < 100 * (x div 100) + 100"
    "400 * (x div 400) \<le> x" "x < 400 * (x div 400) + 400" for x :: int
    by presburger+
  show "days_before_year (a + 1) \<le> d"
    using a q [of a] by (simp add: days_before_year_def)
  show "d < days_before_year (a + 3)"
    using a q [of "a + 2"] by (simp add: days_before_year_def)
qed

lemma div_pred:
  fixes y n :: int
  assumes "0 < n"
  shows "y div n = (y - 1) div n + (if y mod n = 0 then 1 else 0)"
proof -
  have y: "y = n * (y div n) + y mod n" "0 \<le> y mod n" "y mod n < n" using assms by simp_all
  show ?thesis
  proof (cases "y mod n = 0")
    case True
    then have "(y - 1) div n = y div n - 1"
      using y(1) assms by (intro int_div_pos_eq [where r = "n - 1"]) (simp_all add: algebra_simps)
    with True show ?thesis by simp
  next
    case False
    then have "(y - 1) div n = y div n"
      using y by (intro int_div_pos_eq [where r = "y mod n - 1"]) simp_all
    with False show ?thesis by simp
  qed
qed

lemma year_length: "days_before_year (y + 1) = days_before_year y + (if leap_year y then 366 else 365)"
proof -
  note d4 = div_pred [of 4 y, simplified] and d100 = div_pred [of 100 y, simplified]
    and d400 = div_pred [of 400 y, simplified]
  have "y mod 100 = 0 \<Longrightarrow> y mod 4 = 0" "y mod 400 = 0 \<Longrightarrow> y mod 100 = 0" by presburger+
  then show ?thesis
    unfolding days_before_year_def leap_year_def add_diff_cancel_right' d4 d100 d400
    by (cases "y mod 4 = 0"; cases "y mod 100 = 0"; cases "y mod 400 = 0") (simp_all only: simp_thms if_True if_False, simp_all)
qed

lemma year_of_day_bounds:
  "days_before_year (year_of_day d) \<le> d \<and> d < days_before_year (year_of_day d + 1)"
proof -
  define a where "a = (400 * d) div 146097"
  have lo: "days_before_year (a + 1) \<le> d" and hi: "d < days_before_year (a + 3)"
    using year_bounds [OF a_def] by simp_all
  have "year_of_day d = (if days_before_year (a + 2) \<le> d then a + 2 else a + 1)"
    using lo by (simp add: year_of_day_def a_def [symmetric] Let_def add.commute)
  then show ?thesis using lo hi by (auto simp: add.commute)
qed

lemma month_and_day_inverse:
  assumes "0 \<le> d" "d < sum_list ns"
  shows "\<exists>k < length ns. month_and_day ns m d = (m + int k, d - sum_list (take k ns) + 1)
    \<and> sum_list (take k ns) \<le> d \<and> d < sum_list (take k ns) + ns ! k"
  using assms
proof (induction ns arbitrary: m d)
  case (Cons n ns)
  show ?case
  proof (cases "d < n")
    case True
    with Cons.prems show ?thesis by (intro exI [of _ 0]) simp
  next
    case False
    with Cons.prems Cons.IH [of "d - n" "m + 1"] obtain k where
      "k < length ns" "month_and_day ns (m + 1) (d - n) = (m + 1 + int k, d - n - sum_list (take k ns) + 1)"
      "sum_list (take k ns) \<le> d - n" "d - n < sum_list (take k ns) + ns ! k" by auto
    with False show ?thesis by (intro exI [of _ "Suc k"]) simp
  qed
qed simp

lemma date_inverse:
  fixes d :: int
  defines "y \<equiv> year_of_day d"
  defines "md \<equiv> month_and_day (month_lengths y) 1 (d - days_before_year y)"
  shows "1 \<le> fst md" "fst md \<le> 12" "1 \<le> snd md" "snd md \<le> month_lengths y ! nat (fst md - 1)"
    "snd md \<le> 31" "day_of_date y (fst md) (snd md) = d"
proof -
  have len: "length (month_lengths y) = 12" and s: "sum_list (month_lengths y) = (if leap_year y then 366 else 365)"
    by (simp_all add: month_lengths_def)
  from year_of_day_bounds [of d, folded y_def] year_length [of y] have "0 \<le> d - days_before_year y"
    "d - days_before_year y < sum_list (month_lengths y)" by (simp_all add: s split: if_splits)
  from month_and_day_inverse [OF this, of 1] obtain k where k: "k < 12" "md = (1 + int k, d - days_before_year y - sum_list (take k (month_lengths y)) + 1)"
    "sum_list (take k (month_lengths y)) \<le> d - days_before_year y"
    "d - days_before_year y < sum_list (take k (month_lengths y)) + month_lengths y ! k"
    unfolding md_def len by auto
  then show "1 \<le> fst md" "fst md \<le> 12" "1 \<le> snd md" "snd md \<le> month_lengths y ! nat (fst md - 1)"
    "day_of_date y (fst md) (snd md) = d" by (simp_all add: day_of_date_def)
  have "\<forall>x \<in> set (month_lengths y). x \<le> 31" by (simp add: month_lengths_def)
  with k(1) len have "month_lengths y ! k \<le> 31" by (metis nth_mem)
  with k show "snd md \<le> 31" by simp
qed

section \<open>Fields of digits\<close>

lemma nat_digits_length: "n < 10 ^ k \<Longrightarrow> 0 < k \<Longrightarrow> length (nat_digits n) \<le> k"
proof (induction k arbitrary: n)
  case (Suc k)
  show ?case
  proof (cases "n < 10")
    case True
    then show ?thesis by (simp add: nat_digits.simps)
  next
    case False
    with Suc.prems have "0 < k" by (cases k) auto
    moreover have "n div 10 < 10 ^ k" using Suc.prems by (simp add: less_mult_imp_div_less mult.commute)
    ultimately have "length (nat_digits (n div 10)) \<le> k" using Suc.IH by blast
    with False show ?thesis by (simp add: nat_digits.simps [of n])
  qed
qed simp

lemma digits_value_zeros: "digits_value 0 (replicate k (CHR ''0'') @ s) = digits_value 0 s"
  by (induction k) (simp_all add: Let_def)

lemma pad_num_value:
  assumes "0 \<le> v" "v < 10 ^ n" "0 < n"
  shows "length (pad_num n v) = n" "digits_value 0 (pad_num n v) = Some (nat v)"
    "\<forall>c \<in> set (pad_num n v). 48 \<le> byte c \<and> byte c \<le> 57"
proof -
  have "nat v < 10 ^ n" using assms by (simp add: nat_less_iff)
  then have "length (nat_digits (nat v)) \<le> n" using assms nat_digits_length by blast
  then show "length (pad_num n v) = n" using assms by (simp add: pad_num_def FormatInt_def)
  show "digits_value 0 (pad_num n v) = Some (nat v)"
    using assms by (simp add: pad_num_def FormatInt_def digits_value_zeros digits_value_nat_digits)
  show "\<forall>c \<in> set (pad_num n v). 48 \<le> byte c \<and> byte c \<le> 57"
    using assms nat_digits_all by (auto simp: pad_num_def FormatInt_def byte_def)
qed

lemma take_num_pad:
  assumes "0 \<le> v" "v < 10 ^ n" "0 < n"
  shows "take_num n (pad_num n v @ t) = Some (v, t)"
  using pad_num_value [OF assms] assms(1) by (simp add: take_num_def)

lemma stripped_zeros:
  assumes "length p = 9" "fr = rev (dropWhile (\<lambda>c. c = CHR ''0'') (rev p))"
  shows "take 9 (fr @ replicate 9 (CHR ''0'')) = p"
proof -
  let ?z = "takeWhile (\<lambda>c. c = CHR ''0'') (rev p)"
  have "rev p = ?z @ dropWhile (\<lambda>c. c = CHR ''0'') (rev p)" by simp
  then have p: "p = fr @ rev ?z" by (metis assms(2) rev_append rev_rev_ident)
  have "?z = replicate (length ?z) (CHR ''0'')"
    by (intro replicate_eqI) (auto dest: set_takeWhileD)
  then have z: "rev ?z = replicate (length ?z) (CHR ''0'')" by (metis rev_replicate)
  have l: "length fr + length ?z = 9" using p assms(1) by (metis length_append length_rev)
  then have "replicate 9 (CHR ''0'') = replicate (length ?z) (CHR ''0'') @ replicate (length fr) (CHR ''0'')"
    by (metis add.commute replicate_add)
  have "take 9 (fr @ replicate 9 (CHR ''0'')) = fr @ replicate (9 - length fr) (CHR ''0'')" using l by simp
  also have "9 - length fr = length ?z" using l by simp
  finally show ?thesis using p z by metis
qed

lemma take_fraction_print:
  assumes "0 \<le> ns" "ns < 10 ^ 9"
    and "fr = rev (dropWhile (\<lambda>c. c = CHR ''0'') (rev (pad_num 9 ns)))"
  shows "take_fraction ((if fr = [] then [] else ''.'' @ fr) @ ''Z'') = Some (ns, ''Z'')"
proof -
  note p = pad_num_value [of ns 9, OF assms(1,2)]
  have t: "take 9 (fr @ replicate 9 (CHR ''0'')) = pad_num 9 ns"
    using stripped_zeros assms(3) p(1) by simp
  have d: "\<forall>c \<in> set fr. 48 \<le> byte c \<and> byte c \<le> 57"
    using p(3) assms(3) by (auto dest!: set_dropWhileD)
  show ?thesis
  proof (cases "fr = []")
    case True
    then have "digits_value 0 (pad_num 9 ns) = Some 0"
      using t digits_value_zeros [of 9 "[]"] by simp
    with p(2) assms(1) have "ns = 0" by simp
    with True show ?thesis by (simp add: take_fraction_def expect_Cons)
  next
    case False
    have "span_digits (fr @ ''Z'') = (fr, ''Z'')"
      using d by (simp add: span_digits_def takeWhile_append dropWhile_append byte_def)
    with False t p(2) assms(1) show ?thesis
      by (simp add: take_fraction_def expect_Cons)
  qed
qed

section \<open>Instants\<close>

lemma parse_rfc3339_fields:
  assumes "0 \<le> y" "y < 10 ^ 4" "1 \<le> mo" "mo \<le> 12" "1 \<le> d" "d \<le> month_lengths y ! nat (mo - 1)" "d \<le> 31"
    and "0 \<le> h" "h \<le> 23" "0 \<le> mi" "mi \<le> 59" "0 \<le> se" "se \<le> 59"
    and "take_fraction z = Some (ns, ''Z'')"
  shows "parse_rfc3339 (pad_num 4 y @ ''-'' @ pad_num 2 mo @ ''-'' @ pad_num 2 d @ ''T'' @ pad_num 2 h @ '':''
      @ pad_num 2 mi @ '':'' @ pad_num 2 se @ z)
    = Some (((day_of_date y mo d - epoch_day) * 86400 + h * 3600 + mi * 60 + se) * second + ns)"
proof -
  have two: "take_num 2 (pad_num 2 v @ t) = Some (v, t)" if "0 \<le> v" "v \<le> 59" for v t
    using that by (intro take_num_pad) simp_all
  have sep: "expect (c # []) ((c # []) @ t) = Some t" for c t by (simp add: expect_Cons)
  have zone: "take_zone ''Z'' = Some 0" by (simp add: take_zone_def)
  have ok: "1 \<le> mo \<and> mo \<le> 12 \<and> 1 \<le> d \<and> d \<le> month_lengths y ! nat (mo - 1) \<and> h \<le> 23 \<and> mi \<le> 59 \<and> se \<le> 59"
    using assms by simp
  have b: "0 \<le> mo" "mo \<le> 59" "0 \<le> d" "d \<le> 59" "h \<le> 59" using assms by simp_all
  show ?thesis
    unfolding parse_rfc3339_def
    by (simp only: take_num_pad [OF assms(1,2)] two [OF b(1,2)] two [OF b(3,4)] two [OF assms(8) b(5)]
        two [OF assms(10,11)] two [OF assms(12,13)] sep zone assms(14) bind.simps prod.case ok if_True simp_thms
        diff_zero zero_less_numeral)
qed

text \<open>What the code prints as a time, it reads back as the same time.\<close>

lemma parse_rfc3339_print:
  assumes "0 \<le> year_of_time t" "year_of_time t \<le> 9999"
  shows "parse_rfc3339 (rfc3339 t) = Some t"
proof -
  define d where "d = t div (86400 * second) + epoch_day"
  define y where "y = year_of_day d"
  define md where "md = month_and_day (month_lengths y) 1 (d - days_before_year y)"
  define r where "r = t mod (86400 * second)"
  define s where "s = r div second"
  define fr where "fr = rev (dropWhile (\<lambda>c. c = CHR ''0'') (rev (pad_num 9 (r mod second))))"
  note date = date_inverse [of d, folded y_def, folded md_def]
  have y: "0 \<le> y" "y < 10 ^ 4" using assms by (simp_all add: year_of_time_def y_def d_def)
  have m: "0 \<le> fst md" "fst md < 10 ^ 2" "0 \<le> snd md" "snd md < 10 ^ 2" using date by simp_all
  have r: "0 \<le> r" "r < 86400 * second" by (simp_all add: r_def)
  then have s: "0 \<le> s" "s < 86400" by (simp_all add: s_def)
  have hms: "0 \<le> s div 3600" "s div 3600 < 10 ^ 2" "s div 3600 \<le> 23" "0 \<le> s div 60 mod 60" "s div 60 mod 60 < 10 ^ 2"
    "s div 60 mod 60 \<le> 59" "0 \<le> s mod 60" "s mod 60 < 10 ^ 2" "s mod 60 \<le> 59"
    using s pos_mod_bound [of 60 "s div 60"] pos_mod_bound [of 60 s] by simp_all
  have fr: "take_fraction ((if fr = [] then [] else ''.'' @ fr) @ ''Z'') = Some (r mod second, ''Z'')"
    by (rule take_fraction_print [OF _ _ fr_def]) simp_all
  have printed: "rfc3339 t = pad_num 4 y @ ''-'' @ pad_num 2 (fst md) @ ''-'' @ pad_num 2 (snd md) @ ''T''
         @ pad_num 2 (s div 3600) @ '':'' @ pad_num 2 (s div 60 mod 60) @ '':'' @ pad_num 2 (s mod 60)
         @ ((if fr = [] then [] else ''.'' @ fr) @ ''Z'')"
    unfolding rfc3339_def Let_def d_def y_def md_def r_def s_def fr_def by (simp only: append_assoc)
  have "s div 3600 * 3600 + s div 60 mod 60 * 60 + s mod 60 = s"
  proof -
    have "60 * (s div 3600) + s div 60 mod 60 = s div 60"
      using mult_div_mod_eq [of 60 "s div 60"] by (simp add: zdiv_zmult2_eq [symmetric])
    moreover have "60 * (s div 60) + s mod 60 = s" by simp
    ultimately show ?thesis by linarith
  qed
  moreover have "r = s * second + r mod second" by (simp add: s_def)
  moreover have "t = (d - epoch_day) * (86400 * second) + r" by (simp add: d_def r_def)
  ultimately have v: "((day_of_date y (fst md) (snd md) - epoch_day) * 86400 + s div 3600 * 3600
      + s div 60 mod 60 * 60 + s mod 60 - 0) * second + r mod second = t"
    using date(6) by (simp add: algebra_simps)
  have "parse_rfc3339 (rfc3339 t) = Some (((day_of_date y (fst md) (snd md) - epoch_day) * 86400 + s div 3600 * 3600
      + s div 60 mod 60 * 60 + s mod 60) * second + r mod second)"
    unfolding printed using y date hms fr by (intro parse_rfc3339_fields) assumption+
  also have "\<dots> = Some t" using v by (simp only: diff_zero)
  finally show ?thesis .
qed

lemma time_json_read: "time_json t = Some j \<Longrightarrow> as_time j = Some t \<and> j \<noteq> JNull"
  by (auto simp: time_json_def parse_rfc3339_print split: if_splits)


section \<open>Plain text\<close>

lemma ascii_utf8_ok: "\<forall>c \<in> set s. byte c < 128 \<Longrightarrow> utf8_ok s"
  by (induction s) (auto simp: utf8_ok_def rune_segs_ascii rune_error_def)

lemma FormatInt_ascii: "c \<in> set (FormatInt i) \<Longrightarrow> byte c < 128"
  using nat_digits_all by (fastforce simp: FormatInt_def byte_def split: if_splits)

lemma rfc3339_ascii: "utf8_ok (rfc3339 t)"
proof (rule ascii_utf8_ok)
  have pad: "\<forall>c \<in> set (pad_num n v). byte c < 128" for n v
    using FormatInt_ascii by (auto simp: pad_num_def byte_def)
  then have fr: "\<forall>c \<in> set (rev (dropWhile (\<lambda>c. c = CHR ''0'') (rev (pad_num n v)))). byte c < 128" for n v
    by (auto dest: set_dropWhileD)
  have opt: "\<forall>c \<in> set s. byte c < 128 \<Longrightarrow> \<forall>c \<in> set (if b then [] else ''.'' @ s). byte c < 128" for s b
    by (auto simp: byte_def)
  have lits: "(\<forall>c \<in> set ''-''. byte c < 128) = True" "(\<forall>c \<in> set ''T''. byte c < 128) = True"
    "(\<forall>c \<in> set '':''. byte c < 128) = True" "(\<forall>c \<in> set ''Z''. byte c < 128) = True"
    by (simp_all add: byte_def)
  show "\<forall>c \<in> set (rfc3339 t). byte c < 128"
    unfolding rfc3339_def Let_def
    by (simp only: set_append ball_Un lits simp_thms) (intro conjI pad opt fr)
qed

lemma time_json_doc: "time_json t = Some j \<Longrightarrow> doc_ok j"
  by (auto simp: time_json_def rfc3339_ascii split: if_splits)

end
