(* ===== verification/Json_Compact.thy ===== *)
theory Json_Compact
  imports Json_Struct
begin

text \<open>
  A document that was printed is already compact: embedding it as a \<^verbatim>\<open>json.RawMessage\<close> in
  another one leaves its text as it is.
\<close>

section \<open>Compacting what was printed\<close>

lemma compact_plain:
  "byte c \<notin> {60, 62, 38, 226} \<Longrightarrow> c \<noteq> dquote \<Longrightarrow> c \<noteq> backslash \<Longrightarrow>
   compact True False (c # s) = c # compact True False s"
  by (auto simp: byte_def)

lemma compact_escape:
  "byte x \<notin> {60, 62, 38, 226} \<Longrightarrow>
   compact True False (backslash # x # s) = backslash # x # compact True False s"
  by (auto simp: byte_def backslash_def dquote_def)

lemma not_marks: "byte c \<noteq> 34 \<Longrightarrow> c \<noteq> dquote" "byte c \<noteq> 92 \<Longrightarrow> c \<noteq> backslash"
  by (auto simp: byte_def dquote_def backslash_def)

lemma byte_hex_digit: "d < 16 \<Longrightarrow> byte (hex_digit d) = (if d < 10 then 48 + int d else 87 + int d)"
  using of_nat_of_char [of "hex_digit d", where 'a = int, symmetric] by (simp add: hex_digit_def byte_def)

lemma compact_u_escape: "compact True False (u_escape n @ t) = u_escape n @ compact True False t"
proof -
  have h: "compact True False (hex_digit (m mod 16) # s) = hex_digit (m mod 16) # compact True False s" for m s
    using byte_hex_digit [of "m mod 16"] by (intro compact_plain not_marks) (auto split: if_splits)
  have u: "compact True False (backslash # CHR ''u'' # s) = backslash # CHR ''u'' # compact True False s" for s
    by (rule compact_escape) (simp add: byte_def)
  show ?thesis unfolding u_escape_def append.simps by (simp only: u h append.simps)
qed

lemma compact_high: "128 \<le> byte c \<Longrightarrow> byte c \<noteq> 226 \<Longrightarrow> compact True False (c # s) = c # compact True False s"
  by (rule compact_plain) (auto simp: dquote_def backslash_def byte_def)

lemma compact_rune_bytes:
  assumes "128 \<le> byte c" and "decode_rune (c # cs) = (r, n)" and "\<not> (r = rune_error \<and> n = 1)"
    and "r \<noteq> 8232" "r \<noteq> 8233"
  shows "compact True False (take n (c # cs) @ t) = take n (c # cs) @ compact True False t"
proof -
  consider (two) d ds where "cs = d # ds" "194 \<le> byte c" "byte c \<le> 223" "is_cont (byte d)" "n = 2"
    | (three) d e ds where "cs = d # e # ds" "224 \<le> byte c" "byte c \<le> 239" "n = 3"
        "second_ok (byte c) (byte d)" "is_cont (byte e)" "r = (byte c - 224) * 4096 + (byte d - 128) * 64 + (byte e - 128)"
    | (four) d e f ds where "cs = d # e # f # ds" "240 \<le> byte c" "byte c \<le> 244" "n = 4"
        "second_ok (byte c) (byte d)" "is_cont (byte e)" "is_cont (byte f)"
    using assms(1-3) by (auto simp: Let_def split: if_splits list.splits)
  then show ?thesis
  proof cases
    case two
    then have "128 \<le> byte c" "byte c \<noteq> 226" "128 \<le> byte d" "byte d \<noteq> 226" by (auto simp: is_cont_def)
    then show ?thesis using two by (simp add: compact_high del: compact.simps)
  next
    case three
    then have d: "128 \<le> byte d" "byte d \<le> 191" "128 \<le> byte e" "byte e \<le> 191"
      by (auto simp: second_ok_def is_cont_def split: if_splits)
    then have de: "compact True False (d # e # t) = d # e # compact True False t"
      by (simp add: compact_high del: compact.simps)
    have "byte (CHR 0xE2) = 226" "byte (CHR 0x80) = 128" "byte (CHR 0xA8) = 168" "byte (CHR 0xA9) = 169"
      by (simp_all add: byte_def)
    then have "[c, d, e] \<noteq> [CHR 0xE2, CHR 0x80, CHR 0xA8]" "[c, d, e] \<noteq> [CHR 0xE2, CHR 0x80, CHR 0xA9]"
      using assms(4,5) three(7) by auto
    moreover have "c \<noteq> dquote" "c \<noteq> backslash" "byte c \<notin> {60, 62, 38}"
      using three(2) by (auto simp: dquote_def backslash_def byte_def)
    ultimately have "compact True False (c # d # e # t) = c # compact True False (d # e # t)"
      unfolding compact.simps(2) [of True False c] by (auto simp del: compact.simps)
    with three de show ?thesis by (simp del: compact.simps)
  next
    case four
    then have "128 \<le> byte d" "byte d \<noteq> 226" "128 \<le> byte e" "byte e \<noteq> 226" "128 \<le> byte f" "byte f \<noteq> 226"
      "128 \<le> byte c" "byte c \<noteq> 226"
      by (auto simp: second_ok_def is_cont_def split: if_splits)
    then show ?thesis using four by (simp add: compact_high del: compact.simps)
  qed
qed

lemma compact_escape_rune:
  assumes "s \<noteq> []" and "decode_rune s = (r, n)" and ok: "\<not> (r = rune_error \<and> n = 1)"
  shows "compact True False (escape_rune (r, take n s) @ t) = escape_rune (r, take n s) @ compact True False t"
proof -
  obtain c cs where s: "s = c # cs" using assms(1) by (cases s) auto
  show ?thesis
  proof (cases "byte c < 128")
    case True
    with assms(2) s have r: "r = byte c" "n = 1" by auto
    show ?thesis
    proof (cases "byte c < 32 \<or> byte c \<in> {34, 92, 60, 62, 38}")
      case False
      then have "compact True False (c # t) = c # compact True False t"
        using True by (intro compact_plain) (auto simp: dquote_def backslash_def byte_def)
      moreover have "escape_rune (r, take n s) = [c]"
        using False True by (auto simp: escape_rune_def r s rune_error_def)
      ultimately show ?thesis by simp
    next
      case special: True
      have e: "compact True False ([backslash, x] @ t) = [backslash, x] @ compact True False t"
        if "x \<in> {dquote, backslash, CHR ''b'', CHR ''f'', CHR ''n'', CHR ''r'', CHR ''t''}" for x
      proof -
        have "byte x \<notin> {60, 62, 38, 226}" using that by (auto simp: byte_def dquote_def backslash_def)
        then show ?thesis unfolding append.simps by (rule compact_escape)
      qed
      from special show ?thesis
        by (auto simp: escape_rune_def r compact_u_escape e simp del: compact.simps append.simps)
    qed
  next
    case False
    show ?thesis
    proof (cases "r = 8232 \<or> r = 8233")
      case True
      then have "escape_rune (r, take n s) = u_escape (nat r)" by (auto simp: escape_rune_def)
      then show ?thesis by (simp add: compact_u_escape del: compact.simps)
    next
      case other: False
      from decode_rune_high [of c cs r n t] False assms(2) ok s have h: "2 \<le> n" "128 \<le> r" "n \<le> length s" by auto
      then have "escape_rune (r, take n s) = take n s"
        using other by (auto simp: escape_rune_def)
      with compact_rune_bytes [of c cs r n t] False assms(2) ok other s show ?thesis by simp
    qed
  qed
qed

lemma compact_quoted:
  "utf8_ok s \<Longrightarrow> compact True False (concat (map escape_rune (rune_segs s)) @ dquote # t)
    = concat (map escape_rune (rune_segs s)) @ dquote # compact False False t"
proof (induction s rule: rune_segs.induct)
  case (1 s)
  show ?case
  proof (cases "s = []")
    case True
    then show ?thesis by (simp add: dquote_def backslash_def byte_def)
  next
    case False
    obtain r n where d: "decode_rune s = (r, n)" by (cases "decode_rune s")
    have segs: "rune_segs s = (r, take n s) # rune_segs (drop n s)"
      using False d by (simp add: rune_segs_step)
    have "\<not> (r = rune_error \<and> n = 1)" and tl: "utf8_ok (drop n s)"
      using 1(2) False by (auto simp: utf8_ok_def segs neq_Nil_conv)
    with 1(1) [OF False] d show ?thesis
      by (simp add: segs compact_escape_rune [OF False d] del: compact.simps)
  qed
qed

lemma compact_quote_str: "utf8_ok s \<Longrightarrow> compact False False (quote_str s @ t) = quote_str s @ compact False False t"
proof -
  assume u: "utf8_ok s"
  have "compact False False (dquote # x) = dquote # compact True False x" for x
    by (simp add: dquote_def byte_def)
  then show ?thesis using compact_quoted [OF u] by (simp add: quote_str_def del: compact.simps)
qed

lemma compact_outside:
  "\<forall>c \<in> set s. byte c \<notin> {60, 62, 38, 226, 32, 9, 10, 13, 34} \<Longrightarrow> compact False False (s @ t) = s @ compact False False t"
proof (induction s)
  case (Cons c s)
  then have "compact False False (c # s @ t) = c # compact False False (s @ t)"
    using not_marks(1) [of c] by (auto simp: byte_def [of "CHR 0xE2"])
  with Cons show ?case by (simp del: compact.simps)
qed simp

lemma FormatInt_chars: "c \<in> set (FormatInt i) \<Longrightarrow> c = CHR ''-'' \<or> (48 \<le> byte c \<and> byte c \<le> 57)"
  using nat_digits_all by (auto simp: FormatInt_def split: if_splits)

lemma compact_sep_by:
  assumes "\<And>x t. x \<in> set xs \<Longrightarrow> compact False False (f x @ t) = f x @ compact False False t"
  shows "compact False False (sep_by '','' (map f xs) @ t) = sep_by '','' (map f xs) @ compact False False t"
  using assms
proof (induction xs)
  case (Cons x xs)
  have comma: "compact False False ('','' @ t) = '','' @ compact False False t" for t
    by (simp add: byte_def dquote_def)
  show ?case
  proof (cases xs)
    case Nil
    then show ?thesis using Cons.prems by simp
  next
    case (Cons y ys)
    then have "sep_by '','' (map f (x # xs)) = f x @ '','' @ sep_by '','' (map f xs)" by simp
    then show ?thesis
      using Cons.IH Cons.prems comma by (simp only: append_assoc list.set_intros)
  qed
qed simp

lemma compact_jprint: "doc_ok v \<Longrightarrow> compact False False (jprint v @ t) = jprint v @ compact False False t"
proof (induction v arbitrary: t rule: jprint.induct)
  case (3 n)
  then obtain i where "n = FormatInt i" by (auto simp: int_literal_def split: option.splits)
  then show ?case
    by (intro compact_outside) (auto dest!: FormatInt_chars simp: byte_def)
next
  case (4 s)
  then show ?case by (simp add: compact_quote_str)
next
  case (5 vs)
  have "compact False False (sep_by '','' (map jprint vs) @ t) = sep_by '','' (map jprint vs) @ compact False False t" for t
    using 5 by (intro compact_sep_by) (auto simp: list_all_iff)
  then show ?case by (simp add: byte_def dquote_def)
next
  case (6 fs)
  have "compact False False (member_text f @ t) = member_text f @ compact False False t" if "f \<in> set fs" for f t
  proof -
    have "compact False False (CHR '':'' # x) = CHR '':'' # compact False False x" for x
      by (simp add: byte_def dquote_def)
    then show ?thesis
      using 6 that by (auto simp: list_all_iff compact_quote_str simp del: compact.simps)
  qed
  then have "compact False False (sep_by '','' (map member_text fs) @ t)
      = sep_by '','' (map member_text fs) @ compact False False t" for t
    by (rule compact_sep_by)
  then show ?case by (simp add: byte_def dquote_def)
qed (auto simp: byte_def dquote_def)

lemma compact_print: "doc_ok v \<Longrightarrow> compact False False (jprint v) = jprint v"
  using compact_jprint [of v "[]"] by simp

end
