(* ===== verification/Mq_Message.thy ===== *)
theory Mq_Message
  imports Effects Json_Time Json_Compact "HOL-Library.List_Lexorder" "HOL-Library.Char_ord"
begin

text \<open>
  The event envelope of \<^verbatim>\<open>internal/mq/message.go\<close>, the unit every Kafka topic carries: how
  it is built, encoded, decoded, validated, and how a producer writes the current trace into
  it. The trace context is the list of the carrier's entries (the propagator of the tracing
  library reads and writes them; here they are an argument).
\<close>

section \<open>Envelopes\<close>

definition EventTypeDanmakuSent :: string where "EventTypeDanmakuSent = ''danmaku.sent''"
definition EventTypeGiftSent :: string where "EventTypeGiftSent = ''gift.sent''"

record Envelope =
  EventID :: string
  EventType :: string
  RoomID :: int
  CreatedAt :: int
  Trace :: "(string \<times> string) list"
  Payload :: string

definition zero_envelope :: Envelope where
  "zero_envelope = \<lparr>EventID = [], EventType = [], RoomID = 0, CreatedAt = zero_time, Trace = [], Payload = []\<rparr>"

definition envelope_fields :: "Envelope fields" where
  "envelope_fields =
    [(''event_id'', value_field as_string (\<lambda>x. EventID_update (\<lambda>_. x))),
     (''event_type'', value_field as_string (\<lambda>x. EventType_update (\<lambda>_. x))),
     (''room_id'', value_field as_int64 (\<lambda>x. RoomID_update (\<lambda>_. x))),
     (''created_at'', value_field as_time (\<lambda>x. CreatedAt_update (\<lambda>_. x))),
     (''trace'', value_field as_string_map (\<lambda>x. Trace_update (\<lambda>_. x))),
     (''payload'', raw_field (\<lambda>x. Payload_update (\<lambda>_. x)))]"

text \<open>\<^verbatim>\<open>json.Unmarshal(raw, &e)\<close>.\<close>

definition unmarshal_envelope :: "string \<Rightarrow> Envelope option" where
  "unmarshal_envelope raw = unmarshal envelope_fields zero_envelope raw"

text \<open>
  \<^verbatim>\<open>json.Marshal(e)\<close>: the fields in declaration order, \<^verbatim>\<open>room_id\<close> and \<^verbatim>\<open>trace\<close> left out
  when empty, the trace in key order, the payload compacted; it fails for a year the time
  format cannot hold and for a payload that is not JSON.
\<close>

definition map_json :: "(string \<times> string) list \<Rightarrow> json" where
  "map_json m = JObj (map (\<lambda>(k, v). (k, JStr v)) (sort_key fst m))"

definition raw_message :: "string \<Rightarrow> string option" where
  "raw_message p = (if p = [] then Some ''null'' else if json_valid p then Some (compact False False p) else None)"

definition marshal_envelope :: "Envelope \<Rightarrow> go_err + string" where
  "marshal_envelope e =
     (case (time_json (CreatedAt e), raw_message (Payload e)) of
        (Some t, Some p) \<Rightarrow>
          Inr (''{'' @ sep_by '',''
            ([quote_str ''event_id'' @ '':'' @ quote_str (EventID e),
              quote_str ''event_type'' @ '':'' @ quote_str (EventType e)]
             @ (if RoomID e = 0 then [] else [quote_str ''room_id'' @ '':'' @ FormatInt (RoomID e)])
             @ [quote_str ''created_at'' @ '':'' @ jprint t]
             @ (if Trace e = [] then [] else [quote_str ''trace'' @ '':'' @ jprint (map_json (Trace e))])
             @ [quote_str ''payload'' @ '':'' @ p]) @ ''}'')
      | _ \<Rightarrow> Inl (Plain ''json: error calling MarshalJSON''))"

definition ValidateRoomEnvelope :: "Envelope \<Rightarrow> go_err option" where
  "ValidateRoomEnvelope e =
     (if TrimSpace (EventID e) = [] then Some (Plain ''event_id is required'')
      else if TrimSpace (EventType e) = [] then Some (Plain ''event_type is required'')
      else if RoomID e \<le> 0 then Some (Plain ''room_id must be positive'')
      else if CreatedAt e = zero_time then Some (Plain ''created_at is required'')
      else if Payload e = [] \<or> \<not> json_valid (Payload e) then Some (Plain ''payload must be valid JSON'')
      else None)"

text \<open>\<^verbatim>\<open>NewEnvelopeContext\<close> for a payload of integers and strings, which always encodes.\<close>

definition NewEnvelopeContext ::
  "(string \<times> string) list \<Rightarrow> string \<Rightarrow> string \<Rightarrow> int \<Rightarrow> json \<Rightarrow> ('d, Envelope) prog" where
  "NewEnvelopeContext trace eventID eventType roomID payload =
     bind now (\<lambda>t. ret \<lparr>EventID = eventID, EventType = eventType, RoomID = roomID,
                        CreatedAt = t, Trace = trace, Payload = jprint payload\<rparr>)"

definition NewEnvelope :: "string \<Rightarrow> string \<Rightarrow> int \<Rightarrow> json \<Rightarrow> ('d, Envelope) prog" where
  "NewEnvelope = NewEnvelopeContext []"

text \<open>The entries a consumer extracts its parent trace from.\<close>

definition ContextFromEnvelope :: "(string \<times> string) list \<Rightarrow> string \<Rightarrow> (string \<times> string) list" where
  "ContextFromEnvelope parent raw =
     (case unmarshal_envelope raw of
        None \<Rightarrow> parent
      | Some e \<Rightarrow> if Trace e = [] then parent else Trace e)"

definition InjectTrace :: "string \<Rightarrow> (string \<times> string) list \<Rightarrow> string" where
  "InjectTrace raw trace =
     (case unmarshal_envelope raw of
        None \<Rightarrow> raw
      | Some e \<Rightarrow>
          if TrimSpace (EventID e) = [] \<or> TrimSpace (EventType e) = [] \<or> CreatedAt e = zero_time
             \<or> Payload e = []
          then raw
          else (case marshal_envelope (e\<lparr>Trace := trace\<rparr>) of Inl _ \<Rightarrow> raw | Inr out \<Rightarrow> out))"

lemma keeps_NewEnvelopeContext [keeps_intro]: "keeps I (NewEnvelopeContext tr i ty r p)"
  unfolding NewEnvelopeContext_def by (intro keeps_intro)

section \<open>What was encoded is decoded\<close>

lemma marshal_envelope_doc:
  assumes "Payload e = jprint v" and "doc_ok v" and "0 \<le> year_of_time (CreatedAt e)" and "year_of_time (CreatedAt e) \<le> 9999"
  shows "\<exists>out. marshal_envelope e = Inr out"
  using assms json_parse_print [OF assms(2)]
  by (auto simp: marshal_envelope_def time_json_def raw_message_def json_valid_def)

text \<open>The document of an envelope whose payload is a document.\<close>

definition envelope_json :: "Envelope \<Rightarrow> json \<Rightarrow> json \<Rightarrow> json" where
  "envelope_json e t v = JObj
     ([(''event_id'', JStr (EventID e)), (''event_type'', JStr (EventType e))]
      @ (if RoomID e = 0 then [] else [(''room_id'', JInt (RoomID e))])
      @ [(''created_at'', t)]
      @ (if Trace e = [] then [] else [(''trace'', map_json (Trace e))])
      @ [(''payload'', v)])"

definition envelope_ok :: "Envelope \<Rightarrow> json \<Rightarrow> bool" where
  "envelope_ok e v \<longleftrightarrow> Payload e = jprint v \<and> doc_ok v \<and> utf8_ok (EventID e) \<and> utf8_ok (EventType e)
     \<and> is_i64 (RoomID e) \<and> time_json (CreatedAt e) \<noteq> None
     \<and> list_all (\<lambda>(k, v). utf8_ok k \<and> utf8_ok v) (Trace e)"

lemma jprint_not_Nil: "doc_ok v \<Longrightarrow> jprint v \<noteq> []"
  using jprint_head [of v] by auto

lemma raw_message_print: "doc_ok v \<Longrightarrow> raw_message (jprint v) = Some (jprint v)"
  by (simp add: raw_message_def json_valid_def json_parse_print compact_print jprint_not_Nil)

lemma marshal_envelope_print:
  assumes "envelope_ok e v" and "time_json (CreatedAt e) = Some t"
  shows "marshal_envelope e = Inr (jprint (envelope_json e t v))"
  using assms
  by (cases "RoomID e = 0"; cases "Trace e = []")
    (simp_all add: marshal_envelope_def envelope_json_def envelope_ok_def raw_message_print)

lemma map_json_ok:
  "list_all (\<lambda>(k, v). utf8_ok k \<and> utf8_ok v) m \<Longrightarrow>
     doc_ok (map_json m) \<and> map_json m \<noteq> JNull \<and> as_string_map (map_json m) = Some (sort_key fst m)"
  by (auto simp: map_json_def list_all_iff split_beta comp_def)

lemma envelope_keys_ok:
  "utf8_ok ''event_id''" "utf8_ok ''event_type''" "utf8_ok ''room_id''" "utf8_ok ''created_at''" "utf8_ok ''trace''"
  "utf8_ok ''payload''"
  by (rule ascii_utf8_ok, simp add: byte_def)+

lemma envelope_json_ok:
  "envelope_ok e v \<Longrightarrow> time_json (CreatedAt e) = Some t \<Longrightarrow> doc_ok (envelope_json e t v)"
  by (simp add: envelope_json_def envelope_ok_def envelope_keys_ok time_json_doc map_json_ok)

text \<open>\<^verbatim>\<open>json.Unmarshal\<close> inverts \<^verbatim>\<open>json.Marshal\<close>, the trace coming back in key order.\<close>

lemma unmarshal_marshal_envelope:
  assumes "envelope_ok e v" and "marshal_envelope e = Inr raw"
  shows "unmarshal_envelope raw = Some (e\<lparr>Trace := sort_key fst (Trace e)\<rparr>)"
proof -
  obtain t where t: "time_json (CreatedAt e) = Some t"
    using assms(1) by (auto simp: envelope_ok_def)
  have raw: "raw = jprint (envelope_json e t v)"
    using assms marshal_envelope_print [OF assms(1) t] by simp
  have ok: "doc_ok (JObj ([(''event_id'', JStr (EventID e)), (''event_type'', JStr (EventType e))]
      @ (if RoomID e = 0 then [] else [(''room_id'', JInt (RoomID e))]) @ [(''created_at'', t)]
      @ (if Trace e = [] then [] else [(''trace'', map_json (Trace e))]) @ [(''payload'', v)]))"
    using envelope_json_ok [OF assms(1) t] by (simp only: envelope_json_def)
  note td = time_json_read [OF t] time_json_doc [OF t]
  note e = assms(1) [unfolded envelope_ok_def]
  have fields: "value_field as_string p (jprint (JStr s)) r = Some (p s r)" if "utf8_ok s" for p s and r :: Envelope
    using that by (subst value_field_print) simp_all
  have num: "value_field as_int64 p (jprint (JInt i)) r = Some (p i r)" if "is_i64 i" for p i and r :: Envelope
    using that by (subst value_field_print) (simp_all add: ParseInt_FormatInt)
  have time: "value_field as_time p (jprint t) r = Some (p (CreatedAt e) r)" for p and r :: Envelope
    using td by (subst value_field_print) simp_all
  have tr: "value_field as_string_map p (jprint (map_json (Trace e))) r = Some (p (sort_key fst (Trace e)) r)"
    for p and r :: Envelope
    using e map_json_ok [of "Trace e"] by (subst value_field_print) simp_all
  show ?thesis
    unfolding unmarshal_envelope_def raw envelope_json_def unmarshal_print [OF ok]
    using e
    by (cases "RoomID e = 0"; cases "Trace e = []")
      (simp_all add: field_for_def envelope_fields_def fields num time tr raw_field_def zero_envelope_def
        del: jprint.simps)
qed

end
