(* ===== verification/Gift_Repo.thy ===== *)
theory Gift_Repo
  imports Wallet Mq_Message
begin

text \<open>
  \<^verbatim>\<open>internal/gift/model.go\<close> and \<^verbatim>\<open>repository.go\<close>: the gift catalogue, orders, and
  \<open>Create\<close>, the transaction that places an order, debits the wallet, writes the ledger and
  queues the event.
\<close>

section \<open>Model\<close>

definition messageID :: "string \<Rightarrow> string" where
  "messageID orderNo = ''gift:'' @ TrimSpace orderNo"

record Order =
  OrderNo :: string
  RequestID :: string
  UserID :: int
  AnchorID :: int
  Order_RoomID :: int
  GiftID :: int
  GiftName :: string
  GiftCount :: int
  UnitPrice :: int
  TotalAmount :: int
  Order_Status :: string
  Order_CreatedAt :: int

record SendResult =
  sr_order :: Order
  IdempotentReplay :: bool
  EventQueued :: bool

record CreateParams =
  p_OrderNo :: string
  p_RequestID :: string
  p_TransactionNo :: string
  p_EventID :: string
  p_GiftTopic :: string
  p_UserID :: int
  p_AnchorID :: int
  p_RoomID :: int
  p_GiftID :: int
  p_Count :: int

section \<open>Queries\<close>

definition ListActive :: "(commerce_db, Gift list) prog" where
  "ListActive = read_ext (\<lambda>db _. Inr (sort_key gift_id (filter (\<lambda>g. gift_status g = 1) (gifts db))))"

definition gift_by_id :: "int \<Rightarrow> commerce_db \<Rightarrow> Gift option" where
  "gift_by_id i db = find (\<lambda>g. gift_id g = i) (gifts db)"

text \<open>A row of \<^verbatim>\<open>orderSelect\<close>: the order joined with its gift.\<close>

definition order_view :: "commerce_db \<Rightarrow> order_row \<Rightarrow> Order option" where
  "order_view db ro =
     map_option (\<lambda>g. \<lparr>OrderNo = o_order_no ro, RequestID = o_request_id ro, UserID = o_user_id ro,
        AnchorID = o_anchor_id ro, Order_RoomID = o_room_id ro, GiftID = o_gift_id ro,
        GiftName = gift_name g, GiftCount = o_gift_count ro, UnitPrice = o_unit_price ro,
        TotalAmount = o_total_amount ro,
        Order_Status = (if o_status ro = 1 then ''SUCCESS'' else ''PENDING''),
        Order_CreatedAt = o_created_at ro\<rparr>) (gift_by_id (o_gift_id ro) db)"

definition select_order :: "(order_row \<Rightarrow> bool) \<Rightarrow> commerce_db \<Rightarrow> go_err + Order" where
  "select_order p db =
     (case List.map_filter (order_view db) (filter p (gift_orders db)) of
        [] \<Rightarrow> Inl (Sentinel Gift_ErrOrderNotFound)
      | v # _ \<Rightarrow> Inr v)"

definition ByOrderNo :: "(string \<Rightarrow> string) \<Rightarrow> string \<Rightarrow> (commerce_db, Order) prog" where
  "ByOrderNo ck orderNo = read_ext (\<lambda>db _. select_order (\<lambda>ro. ck (o_order_no ro) = ck orderNo) db)"

definition ByRequestID :: "(string \<Rightarrow> string) \<Rightarrow> string \<Rightarrow> (commerce_db, Order) prog" where
  "ByRequestID ck requestID = read_ext (\<lambda>db _. select_order (\<lambda>ro. ck (o_request_id ro) = ck requestID) db)"

section \<open>Placing an order\<close>

text \<open>\<^verbatim>\<open>errors.As(err, &mysqlErr)\<close>.\<close>

fun mysql_error :: "go_err \<Rightarrow> (nat \<times> string) option" where
  "mysql_error (MySQLError n m) = Some (n, m)"
| "mysql_error (Wrap t e) = mysql_error e"
| "mysql_error (PermanentError e) = mysql_error e"
| "mysql_error (Joined []) = None"
| "mysql_error (Joined (e # es)) = (case mysql_error e of None \<Rightarrow> mysql_error (Joined es) | Some x \<Rightarrow> Some x)"
| "mysql_error _ = None"

definition isDuplicateRequest :: "unicode \<Rightarrow> go_err \<Rightarrow> bool" where
  "isDuplicateRequest U err =
     (case mysql_error err of
        None \<Rightarrow> False
      | Some (n, m) \<Rightarrow>
          if n \<noteq> 1062 then False
          else let msg = ToLower U m in
               Contains_str msg ''uk_gift_orders_request_id'' \<or> Contains_str msg ''request_id'')"

definition select_gift :: "int \<Rightarrow> (commerce_db, Gift) prog" where
  "select_gift i = read_ext (\<lambda>db _. case gift_by_id i db of
     None \<Rightarrow> Inl (Sentinel Sql_ErrNoRows) | Some g \<Rightarrow> Inr g)"

text \<open>
  \<^verbatim>\<open>INSERT INTO gift_orders\<close> in status 0. The unique keys on the order number and the
  request identifier are checked in the order the table declares them.
\<close>

definition order_insert :: "(string \<Rightarrow> string) \<Rightarrow> (int \<Rightarrow> order_row) \<Rightarrow> (commerce_db, unit) prog" where
  "order_insert ck mk = ext (\<lambda>db w.
     (let ro = mk (NOW3 w) in
      if list_ex (\<lambda>x. ck (o_order_no x) = ck (o_order_no ro)) (gift_orders db)
      then (Inl (dup_entry (o_order_no ro) ''gift_orders.uk_gift_orders_order_no''), db)
      else if list_ex (\<lambda>x. ck (o_request_id x) = ck (o_request_id ro)) (gift_orders db)
      then (Inl (dup_entry (o_request_id ro) ''gift_orders.uk_gift_orders_request_id''), db)
      else (Inr (), db\<lparr>gift_orders := gift_orders db @ [ro]\<rparr>)))"

text \<open>\<^verbatim>\<open>UPDATE gift_orders SET status=1, updated_at=NOW(3) WHERE order_no=?\<close>\<close>

definition order_succeed :: "(string \<Rightarrow> string) \<Rightarrow> string \<Rightarrow> (commerce_db, unit) prog" where
  "order_succeed ck no = ext (\<lambda>db w.
     (Inr (), db\<lparr>gift_orders := snd (sql_update (\<lambda>ro. ck (o_order_no ro) = ck no)
        (\<lambda>ro. ro\<lparr>o_status := 1, o_updated_at := NOW3 w\<rparr>) (gift_orders db))\<rparr>))"

text \<open>\<^verbatim>\<open>INSERT INTO outbox_events\<close>, whose event identifier is unique.\<close>

definition outbox_insert ::
  "(string \<Rightarrow> string) \<Rightarrow> (int \<Rightarrow> int \<Rightarrow> outbox_row) \<Rightarrow> (commerce_db, unit) prog" where
  "outbox_insert ck mk = ext (\<lambda>db w.
     (let e = mk (next_id ob_id (outbox_events db)) (NOW3 w) in
      if list_ex (\<lambda>x. ck (ob_event_id x) = ck (ob_event_id e)) (outbox_events db)
      then (Inl (dup_entry (ob_event_id e) ''outbox_events.uk_outbox_event_id''), db)
      else (Inr (), db\<lparr>outbox_events := outbox_events db @ [e]\<rparr>)))"

text \<open>The payload of the event: a Go map, whose keys are printed in order.\<close>

definition gift_payload :: "CreateParams \<Rightarrow> Gift \<Rightarrow> int \<Rightarrow> json" where
  "gift_payload p g tot = JObj
     [(''anchor_id'', JInt (p_AnchorID p)), (''count'', JInt (p_Count p)),
      (''gift_id'', JInt (p_GiftID p)), (''gift_name'', JStr (gift_name g)),
      (''message_id'', JStr (messageID (p_OrderNo p))), (''order_no'', JStr (p_OrderNo p)),
      (''total_amount'', JInt tot), (''unit_price'', JInt (gift_price g)),
      (''user_id'', JInt (p_UserID p))]"

definition pending_order :: "CreateParams \<Rightarrow> Gift \<Rightarrow> int \<Rightarrow> int \<Rightarrow> order_row" where
  "pending_order p g tot t =
     \<lparr>o_order_no = p_OrderNo p, o_request_id = p_RequestID p, o_user_id = p_UserID p,
      o_anchor_id = p_AnchorID p, o_room_id = p_RoomID p, o_gift_id = p_GiftID p,
      o_gift_count = p_Count p, o_unit_price = gift_price g, o_total_amount = tot,
      o_status = 0, o_created_at = t, o_updated_at = t\<rparr>"

definition gift_event :: "CreateParams \<Rightarrow> string \<Rightarrow> int \<Rightarrow> int \<Rightarrow> outbox_row" where
  "gift_event p payload i t =
     \<lparr>ob_id = i, ob_event_id = p_EventID p, ob_aggregate_type = ''GIFT_ORDER'',
      ob_aggregate_id = p_OrderNo p, ob_event_type = EventTypeGiftSent, ob_topic = p_GiftTopic p,
      ob_partition_key = FormatInt (p_RoomID p), ob_payload = payload, ob_status = 0,
      ob_retry_count = 0, ob_next_retry_at = Some t, ob_locked_by = None, ob_locked_at = None,
      ob_last_error = None, ob_created_at = t, ob_published_at = None\<rparr>"

text \<open>
  The transaction after the order row is in: wallet, ledger, status, event. \<open>tot\<close> is the
  amount charged.
\<close>

definition charge_order ::
  "(string \<Rightarrow> string) \<Rightarrow> (string \<times> string) list \<Rightarrow> CreateParams \<Rightarrow> Gift \<Rightarrow> int \<Rightarrow> (commerce_db, unit) prog" where
  "charge_order ck trace p g tot =
     bind (wallet_ensure (p_UserID p)) (\<lambda>_.
     bind (wallet_add (p_UserID p) (- tot) (\<lambda>b. tot \<le> b)) (\<lambda>n.
     if n \<noteq> 1 then fail (Sentinel Gift_ErrInsufficientBalance)
     else
     bind (wallet_balance (p_UserID p)) (\<lambda>balanceAfter.
     let balanceBefore = i64 (balanceAfter + tot) in
     bind (wallet_tx_insert ck (\<lambda>t.
       \<lparr>transaction_no = p_TransactionNo p, tx_user = p_UserID p, biz_type = ''GIFT'',
        biz_id = p_OrderNo p, amount = - tot, balance_before = balanceBefore,
        balance_after = balanceAfter, tx_created_at = t\<rparr>)) (\<lambda>_.
     bind (order_succeed ck (p_OrderNo p)) (\<lambda>_.
     if p_EventID p = [] \<or> p_GiftTopic p = []
     then fail (Plain ''gift outbox event configuration is required'')
     else
     bind (NewEnvelopeContext trace (p_EventID p) EventTypeGiftSent (p_RoomID p) (gift_payload p g tot)) (\<lambda>e.
     bind (lift (marshal_envelope e)) (\<lambda>payload.
     outbox_insert ck (gift_event p payload))))))))"

text \<open>
  The whole of \<^verbatim>\<open>Create\<close>. The transaction's body answers \<open>Inl ()\<close> when the insert hits the
  request identifier's unique key: the code rolls back and looks the request up.
\<close>

definition create_tx ::
  "unicode \<Rightarrow> (string \<Rightarrow> string) \<Rightarrow> (string \<times> string) list \<Rightarrow> CreateParams \<Rightarrow> (commerce_db, unit + unit) prog" where
  "create_tx U ck trace p =
     handle (select_gift (p_GiftID p))
       (\<lambda>err. fail (if errors_is err Sql_ErrNoRows then Sentinel Gift_ErrGiftNotFound else err))
       (\<lambda>g.
         if gift_status g \<noteq> 1 then fail (Sentinel Gift_ErrGiftOffline)
         else if p_Count p \<le> 0 \<or> gift_price g < 0
                 \<or> (p_Count p > 0 \<and> gift_price g > go_quot max_int64 (p_Count p))
         then fail (Plain ''gift amount overflow'')
         else let tot = i64 (gift_price g * p_Count p) in
           handle (order_insert ck (pending_order p g tot))
             (\<lambda>err. if isDuplicateRequest U err then ret (Inl ()) else fail err)
             (\<lambda>_. bind (charge_order ck trace p g tot) (\<lambda>_. ret (Inr ()))))"

definition Create ::
  "unicode \<Rightarrow> (string \<Rightarrow> string) \<Rightarrow> (string \<times> string) list \<Rightarrow> CreateParams \<Rightarrow> (commerce_db, Order \<times> bool) prog" where
  "Create U ck trace p =
     bind (transact (create_tx U ck trace p)) (\<lambda>r. case r of
       Inl _ \<Rightarrow>
         bind (ByRequestID ck (p_RequestID p)) (\<lambda>existing.
         if UserID existing \<noteq> p_UserID p \<or> Order_RoomID existing \<noteq> p_RoomID p
            \<or> GiftID existing \<noteq> p_GiftID p \<or> GiftCount existing \<noteq> p_Count p
         then fail (Sentinel Gift_ErrIdempotencyConflict)
         else ret (existing, True))
     | Inr _ \<Rightarrow> bind (ByOrderNo ck (p_OrderNo p)) (\<lambda>created. ret (created, False)))"

end
