(* ===== verification/Gift_Ledger.thy ===== *)
theory Gift_Ledger
  imports Gift_Repo
begin

text \<open>
  What \<open>Create\<close> does to the commerce database, for every placement of failures: nothing, or
  the whole order at once (order row, wallet debit, ledger entry, outbox event), at most once
  per request identifier.
\<close>

section \<open>What an order does\<close>

definition gift_tx :: "CreateParams \<Rightarrow> int \<Rightarrow> int \<Rightarrow> int \<Rightarrow> wallet_tx" where
  "gift_tx p tot b nw =
     \<lparr>transaction_no = p_TransactionNo p, tx_user = p_UserID p, biz_type = ''GIFT'',
      biz_id = p_OrderNo p, amount = - tot, balance_before = b, balance_after = b - tot,
      tx_created_at = nw\<rparr>"

definition gift_envelope :: "(string \<times> string) list \<Rightarrow> CreateParams \<Rightarrow> Gift \<Rightarrow> int \<Rightarrow> int \<Rightarrow> Envelope" where
  "gift_envelope trace p g tot t =
     \<lparr>EventID = p_EventID p, EventType = EventTypeGiftSent, RoomID = p_RoomID p, CreatedAt = t,
      Trace = trace, Payload = jprint (gift_payload p g tot)\<rparr>"

definition charged :: "CreateParams \<Rightarrow> int \<Rightarrow> string \<Rightarrow> int \<Rightarrow> commerce_db \<Rightarrow> commerce_db" where
  "charged p tot payload nw db =
     (posting (gift_tx p tot (balance_of (p_UserID p) db) nw) nw db)
       \<lparr>outbox_events := outbox_events db @ [gift_event p payload (next_id ob_id (outbox_events db)) nw]\<rparr>"

lemma charge_order_Inr:
  assumes "charge_order ck trace p g tot (db, w1) = (Inr v, (db', w2))"
    and "is_i64 (balance_of (p_UserID p) db)" and "0 \<le> tot"
  shows "\<exists>payload.
    marshal_envelope (gift_envelope trace p g tot (go_now w1)) = Inr payload
    \<and> tot \<le> balance_of (p_UserID p) db \<and> p_EventID p \<noteq> [] \<and> p_GiftTopic p \<noteq> []
    \<and> db' = charged p tot payload (NOW3 w1)
       (db\<lparr>gift_orders := snd (sql_update (\<lambda>ro. ck (o_order_no ro) = ck (p_OrderNo p))
          (\<lambda>ro. ro\<lparr>o_status := 1, o_updated_at := NOW3 w1\<rparr>) (gift_orders db))\<rparr>)
    \<and> (\<forall>x \<in> set (outbox_events db). ck (ob_event_id x) \<noteq> ck (p_EventID p))"
  using assms unfolding charge_order_def
  by (auto simp: bind_Inr statement_defs order_succeed_def outbox_insert_def read_ext_def ret_def fail_def lift_def Let_def
        balance_of_def NewEnvelopeContext_def now_def i64_id charged_def posting_def gift_tx_def gift_envelope_def gift_event_def
        list_ex_iff
        elim!: ext_InrE dest!: clocksD split: option.splits if_splits sum.splits)


lemma isDuplicateRequest_request:
  "isDuplicateRequest U (dup_entry v ''gift_orders.uk_gift_orders_request_id'')"
proof -
  let ?k = "CHR 0x27 # '' for key '' @ [CHR 0x27] @ ''gift_orders.uk_gift_orders_request_id'' @ [CHR 0x27]"
  have lit: "ToLower U ?k = ?k"
    by (simp add: ToLower_ascii byte_def lower_rune_def utf8_encode_def char_of_def bit_Suc_0_iff)
  have "Contains_str ((CHR 0x27 # '' for key '' @ [CHR 0x27] @ ''gift_orders.'')
          @ ''uk_gift_orders_request_id'' @ [CHR 0x27]) ''uk_gift_orders_request_id''"
    by (rule Contains_str_mid)
  then have "Contains_str ?k ''uk_gift_orders_request_id''" by simp
  moreover have "ToLower U ((''Duplicate entry '' @ [CHR 0x27] @ v) @ ?k) =
      ToLower U (''Duplicate entry '' @ [CHR 0x27] @ v) @ ?k"
    by (subst ToLower_append_ascii) (simp_all add: byte_def lit del: append.simps append_assoc)
  ultimately show ?thesis
    by (simp add: isDuplicateRequest_def dup_entry_def Contains_str_append Let_def)
qed


definition success_order :: "CreateParams \<Rightarrow> Gift \<Rightarrow> int \<Rightarrow> int \<Rightarrow> order_row" where
  "success_order p g tot nw = (pending_order p g tot nw)\<lparr>o_status := 1\<rparr>"

definition order_placed :: "CreateParams \<Rightarrow> Gift \<Rightarrow> int \<Rightarrow> string \<Rightarrow> int \<Rightarrow> commerce_db \<Rightarrow> commerce_db" where
  "order_placed p g tot payload nw db =
     charged p tot payload nw (db\<lparr>gift_orders := gift_orders db @ [success_order p g tot nw]\<rparr>)"

text \<open>The conditions under which an order is placed, as the code checks them.\<close>

definition orderable :: "(string \<Rightarrow> string) \<Rightarrow> CreateParams \<Rightarrow> Gift \<Rightarrow> commerce_db \<Rightarrow> bool" where
  "orderable ck p g db \<longleftrightarrow>
     gift_by_id (p_GiftID p) db = Some g \<and> gift_status g = 1 \<and> 0 < p_Count p \<and> 0 \<le> gift_price g
     \<and> gift_price g * p_Count p \<le> max_int64
     \<and> gift_price g * p_Count p \<le> balance_of (p_UserID p) db
     \<and> (\<forall>ro \<in> set (gift_orders db). ck (o_order_no ro) \<noteq> ck (p_OrderNo p) \<and> ck (o_request_id ro) \<noteq> ck (p_RequestID p))
     \<and> (\<forall>e \<in> set (outbox_events db). ck (ob_event_id e) \<noteq> ck (p_EventID p))
     \<and> p_EventID p \<noteq> [] \<and> p_GiftTopic p \<noteq> []"

lemma overflow_guard:
  assumes "0 < c" and "0 \<le> p" and "\<not> (p > go_quot max_int64 c)"
  shows "p * c \<le> max_int64" and "i64 (p * c) = p * c" and "0 \<le> p * c"
proof -
  have "go_quot max_int64 c = max_int64 div c"
    using assms(1) by (intro go_quot_nonneg) (auto simp: max_int64_def)
  with assms have "p * c \<le> (max_int64 div c) * c" by (simp add: mult_right_mono)
  also have "\<dots> \<le> max_int64"
    using assms(1) by (metis div_mult_mod_eq le_add_same_cancel1 pos_mod_sign)
  finally show le: "p * c \<le> max_int64" .
  show "0 \<le> p * c" using assms by simp
  with le show "i64 (p * c) = p * c" by (intro i64_id is_i64_le_max)
qed

lemma succeed_only_new:
  assumes "\<forall>x \<in> set rows. ck (o_order_no x) \<noteq> ck (p_OrderNo p)"
  shows "snd (sql_update (\<lambda>ro. ck (o_order_no ro) = ck (p_OrderNo p))
       (\<lambda>ro. ro\<lparr>o_status := 1, o_updated_at := nw\<rparr>) (rows @ [pending_order p g tot nw]))
     = rows @ [success_order p g tot nw]"
  using assms by (auto simp: sql_update_def pending_order_def success_order_def map_idI)

lemma create_tx_committed:
  assumes "create_tx U ck trace p (db, w1) = (Inr (Inr v), (db', w2))"
    and "is_i64 (balance_of (p_UserID p) db)"
  shows "\<exists>g payload. orderable ck p g db
     \<and> marshal_envelope (gift_envelope trace p g (gift_price g * p_Count p) (go_now w1)) = Inr payload
     \<and> db' = order_placed p g (gift_price g * p_Count p) payload (NOW3 w1) db"
proof -
  let ?t = "\<lambda>g. i64 (gift_price g * p_Count p)"
  have "\<exists>g wb. gift_by_id (p_GiftID p) db = Some g \<and> gift_status g = 1 \<and> 0 < p_Count p
      \<and> 0 \<le> gift_price g \<and> \<not> (gift_price g > go_quot max_int64 (p_Count p))
      \<and> (\<forall>ro \<in> set (gift_orders db). ck (o_order_no ro) \<noteq> ck (p_OrderNo p) \<and> ck (o_request_id ro) \<noteq> ck (p_RequestID p))
      \<and> NOW3 wb = NOW3 w1 \<and> go_now wb = go_now w1
      \<and> charge_order ck trace p g (?t g)
        (db\<lparr>gift_orders := gift_orders db @ [pending_order p g (?t g) (NOW3 w1)]\<rparr>, wb) = (Inr (), (db', w2))"
    using assms(1) unfolding create_tx_def
    by (auto simp: bind_Inr handle_eq select_gift_def Let_def order_insert_def list_ex_iff pending_order_def
       elim!: ext_InrE read_ext_InrE dest!: clocksD split: sum.splits if_splits option.splits)
  then obtain g wb where g: "gift_by_id (p_GiftID p) db = Some g" "gift_status g = 1" "0 < p_Count p"
      "0 \<le> gift_price g" "\<not> (gift_price g > go_quot max_int64 (p_Count p))"
    and fresh: "\<forall>ro \<in> set (gift_orders db). ck (o_order_no ro) \<noteq> ck (p_OrderNo p) \<and> ck (o_request_id ro) \<noteq> ck (p_RequestID p)"
    and c: "NOW3 wb = NOW3 w1" "go_now wb = go_now w1"
    and ch: "charge_order ck trace p g (?t g)
        (db\<lparr>gift_orders := gift_orders db @ [pending_order p g (?t g) (NOW3 w1)]\<rparr>, wb) = (Inr (), (db', w2))"
    by blast
  note t = overflow_guard [OF g(3,4,5)]
  have "is_i64 (balance_of (p_UserID p)
      (db\<lparr>gift_orders := gift_orders db @ [pending_order p g (?t g) (NOW3 w1)]\<rparr>))"
    using assms(2) by (simp add: balance_of_def)
  from charge_order_Inr [OF ch this] t(2,3) obtain payload where
    "marshal_envelope (gift_envelope trace p g (gift_price g * p_Count p) (go_now w1)) = Inr payload"
    "gift_price g * p_Count p \<le> balance_of (p_UserID p) db" "p_EventID p \<noteq> []" "p_GiftTopic p \<noteq> []"
    "\<forall>x \<in> set (outbox_events db). ck (ob_event_id x) \<noteq> ck (p_EventID p)"
    "db' = order_placed p g (gift_price g * p_Count p) payload (NOW3 w1) db"
    using succeed_only_new [of "gift_orders db" ck p "NOW3 w1" g "gift_price g * p_Count p"] fresh c
    by (auto simp: order_placed_def balance_of_def)
  with g fresh t show ?thesis
    unfolding orderable_def by blast
qed


lemma select_order_Inr:
  "select_order P db = Inr v \<Longrightarrow> \<exists>ro g. ro \<in> set (gift_orders db) \<and> P ro
     \<and> gift_by_id (o_gift_id ro) db = Some g \<and> order_view db ro = Some v"
proof -
  assume "select_order P db = Inr v"
  then obtain vs where "List.map_filter (order_view db) (filter P (gift_orders db)) = v # vs"
    by (auto simp: select_order_def split: list.splits)
  then have "v \<in> set (List.map_filter (order_view db) (filter P (gift_orders db)))" by simp
  then show ?thesis by (fastforce simp: map_filter_def order_view_def)
qed

text \<open>The order a client sees when its request is placed.\<close>

definition placed_view :: "CreateParams \<Rightarrow> Gift \<Rightarrow> int \<Rightarrow> Order" where
  "placed_view p g nw =
     \<lparr>OrderNo = p_OrderNo p, RequestID = p_RequestID p, UserID = p_UserID p, AnchorID = p_AnchorID p,
      Order_RoomID = p_RoomID p, GiftID = p_GiftID p, GiftName = gift_name g, GiftCount = p_Count p,
      UnitPrice = gift_price g, TotalAmount = gift_price g * p_Count p, Order_Status = ''SUCCESS'',
      Order_CreatedAt = nw\<rparr>"

lemma order_placed_simps [simp]:
  "gifts (order_placed p g tot payload nw db) = gifts db"
  "gift_orders (order_placed p g tot payload nw db) = gift_orders db @ [success_order p g tot nw]"
  "wallet_transactions (order_placed p g tot payload nw db) =
     wallet_transactions db @ [gift_tx p tot (balance_of (p_UserID p) db) nw]"
  "outbox_events (order_placed p g tot payload nw db) =
     outbox_events db @ [gift_event p payload (next_id ob_id (outbox_events db)) nw]"
  "balance_of u (order_placed p g tot payload nw db) =
     (if u = p_UserID p then balance_of u db - tot else balance_of u db)"
  by (auto simp: order_placed_def charged_def posting_def gift_tx_def balance_of_def)

lemma select_placed:
  assumes "orderable ck p g db"
  shows "select_order (\<lambda>ro. ck (o_order_no ro) = ck (p_OrderNo p))
      (order_placed p g (gift_price g * p_Count p) payload nw db) = Inr (placed_view p g nw)"
proof -
  let ?db = "order_placed p g (gift_price g * p_Count p) payload nw db"
  have "filter (\<lambda>ro. ck (o_order_no ro) = ck (p_OrderNo p)) (gift_orders db) = []"
    using assms by (auto simp: orderable_def filter_empty_conv)
  moreover have "order_view ?db (success_order p g (gift_price g * p_Count p) nw) = Some (placed_view p g nw)"
    using assms by (simp add: orderable_def order_view_def gift_by_id_def success_order_def
        pending_order_def placed_view_def)
  ultimately show ?thesis
    by (simp add: select_order_def success_order_def pending_order_def map_filter_simps)
qed

lemma Create_cases:
  assumes "Create U ck trace p (db, w) = (r, (db', w'))" and "is_i64 (balance_of (p_UserID p) db)"
  obtains (unchanged) "db' = db"
      and "\<And>v b. r = Inr (v, b) \<Longrightarrow> b \<and> (\<exists>ro \<in> set (gift_orders db). ck (o_request_id ro) = ck (p_RequestID p)
             \<and> order_view db ro = Some v) \<and> UserID v = p_UserID p \<and> Order_RoomID v = p_RoomID p
             \<and> GiftID v = p_GiftID p \<and> GiftCount v = p_Count p"
  | (placed) g payload where "orderable ck p g db"
      and "marshal_envelope (gift_envelope trace p g (gift_price g * p_Count p) (go_now w)) = Inr payload"
      and "db' = order_placed p g (gift_price g * p_Count p) payload (NOW3 w) db"
      and "\<And>v b. r = Inr (v, b) \<Longrightarrow> \<not> b \<and> v = placed_view p g (NOW3 w)"
proof -
  obtain r1 d1 w1 where t: "transact (create_tx U ck trace p) (db, w) = (r1, (d1, w1))"
    by (metis prod.collapse)
  consider (err) e where "r1 = Inl e" | (dup) "r1 = Inr (Inl ())" | (ok) "r1 = Inr (Inr ())"
    by (cases r1; cases "projr r1") auto
  note r1 = this
  from t show thesis
  proof (cases rule: transact_cases)
    case rolled_back
    from r1 show thesis
    proof cases
      case err
      with t assms(1) rolled_back(1,2) show thesis
        by (intro unchanged) (auto simp: Create_def bind_eq)
    next
      case dup
      with t assms(1) rolled_back(1,2) show thesis
        by (intro unchanged)
          (auto simp: Create_def bind_eq ByRequestID_def read_ext_def
            dest!: ext_cases select_order_Inr split: if_splits)
    next
      case ok
      with rolled_back show thesis by simp
    qed
  next
    case (committed v wa wb)
    from create_tx_committed [OF committed(2) assms(2)] obtain g payload where p: "orderable ck p g db"
      "marshal_envelope (gift_envelope trace p g (gift_price g * p_Count p) (go_now w)) = Inr payload"
      "d1 = order_placed p g (gift_price g * p_Count p) payload (NOW3 w) db"
      using clocksD [OF committed(1)] by auto
    from r1 show thesis
    proof cases
      case err
      with t assms(1) p show thesis
        by (intro placed [OF p(1,2)]) (auto simp: Create_def bind_eq)
    next
      case dup
      with committed show thesis by simp
    next
      case ok
      with t assms(1) p select_placed [OF p(1)] show thesis
        by (intro placed [OF p(1,2)])
          (auto simp: Create_def bind_eq ByOrderNo_def read_ext_def dest!: ext_cases)
    qed
  qed
qed

lemma order_placed_ledger_ok:
  assumes "ledger_ok db" and "orderable ck p g db"
  shows "ledger_ok (order_placed p g (gift_price g * p_Count p) payload nw db)"
proof -
  let ?tot = "gift_price g * p_Count p"
  let ?t = "gift_tx p ?tot (balance_of (p_UserID p) db) nw"
  note b = ledger_ok_balance [OF assms(1), of "p_UserID p"]
  have "0 \<le> ?tot" "?tot \<le> balance_of (p_UserID p) db" using assms(2) by (auto simp: orderable_def)
  then have "is_i64 (balance_of (p_UserID p) db - ?tot)" using b by (auto simp: is_i64_def)
  then have "ledger_ok (posting ?t nw db)"
    using assms b \<open>?tot \<le> _\<close> by (intro posting_ledger_ok) (simp_all add: gift_tx_def)
  then show ?thesis
    by (simp add: ledger_ok_def txs_of_def order_placed_def charged_def posting_def balance_of_def gift_tx_def)
qed


section \<open>The order book\<close>

text \<open>
  Order numbers and request identifiers are unique; every order is complete, and has exactly
  one ledger entry and one outbox event of its own, in the same order.
\<close>

definition order_book_ok :: "(string \<Rightarrow> string) \<Rightarrow> commerce_db \<Rightarrow> bool" where
  "order_book_ok ck db \<longleftrightarrow>
     distinct (map (\<lambda>ro. ck (o_order_no ro)) (gift_orders db))
     \<and> distinct (map (\<lambda>ro. ck (o_request_id ro)) (gift_orders db))
     \<and> list_all (\<lambda>ro. o_status ro = 1 \<and> 0 < o_gift_count ro
          \<and> o_total_amount ro = o_unit_price ro * o_gift_count ro) (gift_orders db)
     \<and> map (\<lambda>t. (biz_id t, tx_user t, amount t)) (filter (\<lambda>t. biz_type t = ''GIFT'') (wallet_transactions db))
         = map (\<lambda>ro. (o_order_no ro, o_user_id ro, - o_total_amount ro)) (gift_orders db)
     \<and> map ob_aggregate_id (filter (\<lambda>e. ob_aggregate_type e = ''GIFT_ORDER'') (outbox_events db))
         = map o_order_no (gift_orders db)"

definition commerce_ok :: "(string \<Rightarrow> string) \<Rightarrow> commerce_db \<Rightarrow> bool" where
  "commerce_ok ck db \<longleftrightarrow> ledger_ok db \<and> order_book_ok ck db"

lemma order_placed_book:
  assumes "order_book_ok ck db" and "orderable ck p g db"
  shows "order_book_ok ck (order_placed p g (gift_price g * p_Count p) payload nw db)"
  using assms
  by (auto simp: order_book_ok_def orderable_def success_order_def pending_order_def gift_tx_def gift_event_def)

lemma posting_book:
  "order_book_ok ck db \<Longrightarrow> biz_type t \<noteq> ''GIFT'' \<Longrightarrow> order_book_ok ck (posting t nw db)"
  by (simp add: order_book_ok_def)

lemma keeps_Create: "keeps (commerce_ok ck) (Create U ck trace p)"
proof (rule keepsI)
  fix db w r db' w'
  assume "commerce_ok ck db" and eq: "Create U ck trace p (db, w) = (r, (db', w'))"
  then have l: "ledger_ok db" "order_book_ok ck db" by (simp_all add: commerce_ok_def)
  from eq ledger_ok_balance(2) [OF l(1)] show "commerce_ok ck db'"
    by (cases rule: Create_cases)
      (simp_all add: commerce_ok_def l order_placed_ledger_ok [OF l(1)] order_placed_book [OF l(2)])
qed

lemma keeps_Credit: "keeps (commerce_ok ck) (Credit ck u a no biz)"
proof (rule keepsI)
  fix db w r db' w'
  assume "commerce_ok ck db" and eq: "Credit ck u a no biz (db, w) = (r, (db', w'))"
  then have l: "ledger_ok db" "order_book_ok ck db" by (simp_all add: commerce_ok_def)
  from eq ledger_ok_balance(2) [OF l(1)] show "commerce_ok ck db'"
  proof (cases rule: Credit_cases)
    case posted
    then show ?thesis
      unfolding commerce_ok_def posted(1)
      by (intro conjI posting_ledger_ok posting_book l) (simp_all add: credit_tx_def)
  qed (simp add: commerce_ok_def l)
qed

lemma keeps_wallet_ensure: "keeps (commerce_ok ck) (wallet_ensure u)"
  unfolding wallet_ensure_def
proof (rule keeps_ext)
  fix db w
  assume ok: "commerce_ok ck db"
  show "commerce_ok ck (snd (Inr (), case wallets db u of
      Some x \<Rightarrow> db | None \<Rightarrow> db\<lparr>wallets := (wallets db)(u \<mapsto>
        \<lparr>w_balance = 0, w_version = 0, w_updated_at = NOW3 w\<rparr>)\<rparr>))"
  proof (cases "wallets db u")
    case None
    with ok have "txs_of u db = []"
      by (auto simp: commerce_ok_def ledger_ok_def ledger_at_def split: option.splits elim: allE [of _ u])
    with ok None show ?thesis
      by (auto simp: commerce_ok_def ledger_ok_def ledger_at_def order_book_ok_def txs_of_def is_i64_def)
  qed (use ok in simp)
qed

lemma keeps_Balance: "keeps (commerce_ok ck) (Repo_Balance u)"
  unfolding Repo_Balance_def wallet_balance_def by (intro keeps_intro keeps_wallet_ensure)

lemma keeps_DevCredit: "keeps (commerce_ok ck) (DevCredit ck s u a)"
  unfolding DevCredit_def by (intro keeps_intro keeps_Credit)

section \<open>Which answer a request gets\<close>

text \<open>The decision \<open>Create\<close> takes when every call completes, in the order of its checks.\<close>

definition create_outcome :: "(string \<Rightarrow> string) \<Rightarrow> CreateParams \<Rightarrow> commerce_db \<Rightarrow> int \<Rightarrow> go_err + (Order \<times> bool)" where
  "create_outcome ck p db nw =
     (case gift_by_id (p_GiftID p) db of
        None \<Rightarrow> Inl (Sentinel Gift_ErrGiftNotFound)
      | Some g \<Rightarrow>
          if gift_status g \<noteq> 1 then Inl (Sentinel Gift_ErrGiftOffline)
          else if p_Count p \<le> 0 \<or> gift_price g < 0 \<or> max_int64 < gift_price g * p_Count p
          then Inl (Plain ''gift amount overflow'')
          else if list_ex (\<lambda>ro. ck (o_request_id ro) = ck (p_RequestID p)) (gift_orders db) then
            (case select_order (\<lambda>ro. ck (o_request_id ro) = ck (p_RequestID p)) db of
               Inl e \<Rightarrow> Inl e
             | Inr v \<Rightarrow> if UserID v = p_UserID p \<and> Order_RoomID v = p_RoomID p
                         \<and> GiftID v = p_GiftID p \<and> GiftCount v = p_Count p
                       then Inr (v, True) else Inl (Sentinel Gift_ErrIdempotencyConflict))
          else if balance_of (p_UserID p) db < gift_price g * p_Count p
          then Inl (Sentinel Gift_ErrInsufficientBalance)
          else Inr (placed_view p g nw, False))"

text \<open>Identifiers drawn afresh, and an event that can be encoded.\<close>

definition fresh_ids :: "(string \<Rightarrow> string) \<Rightarrow> CreateParams \<Rightarrow> commerce_db \<Rightarrow> bool" where
  "fresh_ids ck p db \<longleftrightarrow>
     (\<forall>ro \<in> set (gift_orders db). ck (o_order_no ro) \<noteq> ck (p_OrderNo p))
     \<and> (\<forall>t \<in> set (wallet_transactions db). ck (transaction_no t) \<noteq> ck (p_TransactionNo p))
     \<and> (\<forall>e \<in> set (outbox_events db). ck (ob_event_id e) \<noteq> ck (p_EventID p))
     \<and> p_EventID p \<noteq> [] \<and> p_GiftTopic p \<noteq> []"

lemma overflow_guard_iff:
  assumes "0 < c"
  shows "p > go_quot max_int64 c \<longleftrightarrow> max_int64 < p * c"
proof -
  have "go_quot max_int64 c = max_int64 div c"
    using assms by (intro go_quot_nonneg) (auto simp: max_int64_def)
  moreover have "max_int64 div c < p \<longleftrightarrow> max_int64 < p * c"
  proof
    assume "max_int64 div c < p"
    then have "(max_int64 div c + 1) * c \<le> p * c" using assms by (intro mult_right_mono) auto
    then have "max_int64 div c * c + c \<le> p * c" by (simp only: distrib_right mult_1)
    moreover have "max_int64 = max_int64 div c * c + max_int64 mod c" by simp
    moreover have "max_int64 mod c < c" using assms by simp
    ultimately show "max_int64 < p * c" by linarith
  next
    assume a: "max_int64 < p * c"
    show "max_int64 div c < p"
    proof (rule ccontr)
      assume "\<not> max_int64 div c < p"
      then have "p * c \<le> max_int64 div c * c" using assms by (intro mult_right_mono) auto
      moreover have "max_int64 = max_int64 div c * c + max_int64 mod c" by simp
      moreover have "0 \<le> max_int64 mod c" using assms by simp
      ultimately show False using a by linarith
    qed
  qed
  ultimately show ?thesis by simp
qed

text \<open>The transaction in a run without failures.\<close>

lemma charge_order_quiet:
  assumes w: "faults w = []" and tot: "0 \<le> tot" "tot \<le> max_int64" and b: "is_i64 (balance_of (p_UserID p) db)"
    "0 \<le> balance_of (p_UserID p) db"
    and f: "\<forall>t \<in> set (wallet_transactions db). ck (transaction_no t) \<noteq> ck (p_TransactionNo p)"
      "\<forall>e \<in> set (outbox_events db). ck (ob_event_id e) \<noteq> ck (p_EventID p)" "p_EventID p \<noteq> []" "p_GiftTopic p \<noteq> []"
    and m: "marshal_envelope (gift_envelope trace p g tot (go_now w)) = Inr payload"
  shows "\<exists>d'. charge_order ck trace p g tot (db, w) =
    (if balance_of (p_UserID p) db < tot then Inl (Sentinel Gift_ErrInsufficientBalance) else Inr (), (d', w))"
proof -
  have i: "tot \<le> x \<Longrightarrow> is_i64 x \<Longrightarrow> is_i64 (x - tot)" for x
    using tot by (auto simp: is_i64_def)
  show ?thesis
    using assms i unfolding charge_order_def
    by (cases "wallets db (p_UserID p)")
      (auto simp: bind_def statement_defs order_succeed_def outbox_insert_def read_ext_quiet ext_quiet ret_def fail_def
        lift_def Let_def balance_of_def NewEnvelopeContext_def now_def gift_envelope_def gift_event_def list_ex_iff)
qed

definition tx_outcome :: "(string \<Rightarrow> string) \<Rightarrow> CreateParams \<Rightarrow> commerce_db \<Rightarrow> go_err + (unit + unit)" where
  "tx_outcome ck p db =
     (case gift_by_id (p_GiftID p) db of
        None \<Rightarrow> Inl (Sentinel Gift_ErrGiftNotFound)
      | Some g \<Rightarrow>
          if gift_status g \<noteq> 1 then Inl (Sentinel Gift_ErrGiftOffline)
          else if p_Count p \<le> 0 \<or> gift_price g < 0 \<or> max_int64 < gift_price g * p_Count p
          then Inl (Plain ''gift amount overflow'')
          else if list_ex (\<lambda>ro. ck (o_request_id ro) = ck (p_RequestID p)) (gift_orders db) then Inr (Inl ())
          else if balance_of (p_UserID p) db < gift_price g * p_Count p
          then Inl (Sentinel Gift_ErrInsufficientBalance)
          else Inr (Inr ()))"

lemma create_tx_quiet:
  assumes w: "faults w = []" and l: "ledger_ok db" and f: "fresh_ids ck p db"
    and m: "\<And>g. gift_by_id (p_GiftID p) db = Some g \<Longrightarrow>
       \<exists>payload. marshal_envelope (gift_envelope trace p g (gift_price g * p_Count p) (go_now w)) = Inr payload"
  shows "\<exists>d'. create_tx U ck trace p (db, w) = (tx_outcome ck p db, (d', w))"
proof (cases "gift_by_id (p_GiftID p) db")
  case None
  then show ?thesis
    using w by (simp add: create_tx_def handle_def select_gift_def read_ext_quiet tx_outcome_def fail_def)
next
  case (Some g)
  have sel: "select_gift (p_GiftID p) (db, w) = (Inr g, (db, w))"
    using w Some by (simp add: select_gift_def read_ext_quiet)
  show ?thesis
  proof (cases "gift_status g \<noteq> 1 \<or> p_Count p \<le> 0 \<or> gift_price g < 0 \<or> max_int64 < gift_price g * p_Count p")
    case True
    then show ?thesis
      using Some overflow_guard_iff [of "p_Count p" "gift_price g"]
      by (auto simp: create_tx_def handle_def sel tx_outcome_def fail_def)
  next
    case False
    then have pos: "0 < p_Count p" "0 \<le> gift_price g" and st: "gift_status g = 1"
      and le: "gift_price g * p_Count p \<le> max_int64" by auto
    note t = overflow_guard [OF pos]
    have ng: "\<not> gift_price g > go_quot max_int64 (p_Count p)"
      using overflow_guard_iff [OF pos(1)] le by simp
    let ?tot = "gift_price g * p_Count p"
    show ?thesis
    proof (cases "list_ex (\<lambda>ro. ck (o_request_id ro) = ck (p_RequestID p)) (gift_orders db)")
      case True
      then have "order_insert ck (pending_order p g ?tot) (db, w)
          = (Inl (dup_entry (p_RequestID p) ''gift_orders.uk_gift_orders_request_id''), (db, w))"
        using w f by (auto simp: order_insert_def ext_quiet pending_order_def fresh_ids_def list_ex_iff Let_def)
      with True show ?thesis
        using Some st pos le ng t(2) [OF ng]
        by (simp add: create_tx_def handle_def sel tx_outcome_def isDuplicateRequest_request Let_def ret_def)
    next
      case fresh: False
      let ?db = "db\<lparr>gift_orders := gift_orders db @ [pending_order p g ?tot (NOW3 w)]\<rparr>"
      have ins: "order_insert ck (pending_order p g ?tot) (db, w) = (Inr (), (?db, w))"
        using w f fresh by (auto simp: order_insert_def ext_quiet pending_order_def fresh_ids_def list_ex_iff Let_def)
      have b: "balance_of (p_UserID p) ?db = balance_of (p_UserID p) db" by (simp add: balance_of_def)
      from m [OF Some] obtain payload where "marshal_envelope (gift_envelope trace p g ?tot (go_now w)) = Inr payload" ..
      from charge_order_quiet [OF w t(3) [OF ng] le _ _ _ _ _ _ this, of ?db ck] ledger_ok_balance [OF l, of "p_UserID p"] f
      obtain d' where "charge_order ck trace p g ?tot (?db, w) =
        (if balance_of (p_UserID p) db < ?tot then Inl (Sentinel Gift_ErrInsufficientBalance) else Inr (), (d', w))"
        by (auto simp: b fresh_ids_def)
      then show ?thesis
        using Some st pos le ng t(2) [OF ng] fresh
        by (simp add: create_tx_def handle_def sel tx_outcome_def Let_def ret_def ins bind_def)
    qed
  qed
qed

lemma Create_quiet:
  assumes w: "faults w = []" and l: "ledger_ok db" and f: "fresh_ids ck p db"
    and m: "\<And>g. gift_by_id (p_GiftID p) db = Some g \<Longrightarrow>
       \<exists>payload. marshal_envelope (gift_envelope trace p g (gift_price g * p_Count p) (go_now w)) = Inr payload"
  shows "fst (Create U ck trace p (db, w)) = create_outcome ck p db (NOW3 w)"
proof -
  from create_tx_quiet [OF assms] obtain d' where
    c: "create_tx U ck trace p (db, w) = (tx_outcome ck p db, (d', w))" by auto
  note t = transact_quiet [where body = "create_tx U ck trace p" and d = db, OF w c]
  show ?thesis
  proof (cases "tx_outcome ck p db = Inr (Inr ())")
    case True
    from create_tx_committed [OF c [unfolded True]] ledger_ok_balance(2) [OF l]
    obtain g payload where o: "orderable ck p g db"
      and d': "d' = order_placed p g (gift_price g * p_Count p) payload (NOW3 w) db" by blast
    from select_placed [OF o] True t w o show ?thesis
      by (auto simp: Create_def bind_def ByOrderNo_def read_ext_quiet d' ret_def create_outcome_def tx_outcome_def
         orderable_def split: option.splits if_splits)
  next
    case False
    then show ?thesis
      using t w
      by (auto simp: Create_def bind_def ByRequestID_def read_ext_quiet ret_def fail_def create_outcome_def tx_outcome_def
         split: option.splits if_splits sum.splits)
  qed
qed

section \<open>Accepted, without failures\<close>

lemma orderable_outcome:
  assumes "orderable ck p g db"
  shows "create_outcome ck p db nw = Inr (placed_view p g nw, False)"
  using assms by (auto simp: orderable_def create_outcome_def list_ex_iff)

lemma accepted_order:
  assumes "faults w = []" and "ledger_ok db" and "fresh_ids ck p db" and o: "orderable ck p g db"
    and m: "marshal_envelope (gift_envelope trace p g (gift_price g * p_Count p) (go_now w)) = Inr raw"
  shows "\<exists>w1. Create U ck trace p (db, w) = (Inr (placed_view p g (NOW3 w), False),
    (order_placed p g (gift_price g * p_Count p) raw (NOW3 w) db, w1))"
proof -
  have g: "gift_by_id (p_GiftID p) db = Some g" using o by (simp add: orderable_def)
  obtain r db1 w1 where c: "Create U ck trace p (db, w) = (r, (db1, w1))" by (metis prod.collapse)
  have r: "r = Inr (placed_view p g (NOW3 w), False)"
    using Create_quiet [OF assms(1-3), of trace U] c g m orderable_outcome [OF o] by auto
  from c ledger_ok_balance(2) [OF assms(2)] show ?thesis
  proof (cases rule: Create_cases)
    case unchanged
    from unchanged(2) [OF r] show ?thesis by simp
  next
    case (placed g' payload)
    then have "g' = g" using g by (simp add: orderable_def)
    with placed m r c show ?thesis by auto
  qed
qed


section \<open>Encoding the event\<close>

definition event_encodable :: "CreateParams \<Rightarrow> Gift \<Rightarrow> io \<Rightarrow> bool" where
  "event_encodable p g w \<longleftrightarrow>
     doc_ok (gift_payload p g (gift_price g * p_Count p))
     \<and> 0 \<le> year_of_time (go_now w) \<and> year_of_time (go_now w) \<le> 9999"

lemma event_encodable_marshal:
  "event_encodable p g w \<Longrightarrow>
   \<exists>out. marshal_envelope (gift_envelope trace p g (gift_price g * p_Count p) (go_now w)) = Inr out"
  unfolding event_encodable_def gift_envelope_def by (rule marshal_envelope_doc) auto

section \<open>Properties\<close>

text \<open>A shop with one gift and one customer, for concrete instances.\<close>

definition sample_gift :: Gift where
  "sample_gift = \<lparr>gift_id = 1, gift_name = ''Rose'', gift_price = 100, gift_status = 1\<rparr>"

definition sample_shop :: commerce_db where
  "sample_shop = posting (credit_tx 7 500 ''WT0'' ''DEV0'' 0 0) 0
     \<lparr>gifts = [sample_gift], wallets = (\<lambda>_. None), wallet_transactions = [], gift_orders = [], outbox_events = []\<rparr>"

definition sample_request :: CreateParams where
  "sample_request = \<lparr>p_OrderNo = ''Gab'', p_RequestID = ''req-0001'', p_TransactionNo = ''WTab'',
     p_EventID = ''ev'', p_GiftTopic = ''gift'', p_UserID = 7, p_AnchorID = 3, p_RoomID = 5,
     p_GiftID = 1, p_Count = 2\<rparr>"

definition quiet_world :: io where
  "quiet_world = \<lparr>faults = [], go_now = 0, db_now = 0, rd_now = 0, entropy = []\<rparr>"

lemma sample_shop_ok: "ledger_ok sample_shop"
  unfolding sample_shop_def
  by (rule posting_ledger_ok)
    (auto simp: ledger_ok_def ledger_at_def txs_of_def credit_tx_def balance_of_def is_i64_def)

text \<open>
  C2. Placing an order is all or nothing. Wherever calls fail, and whatever the caller is
  told, the database after \<open>Create\<close> is either the one before it or that one with the complete
  order: the order row in its final status, the wallet debited by price times count (never
  below zero, the product not overflowing), one ledger entry, and one outbox event carrying
  the encoded envelope. A new order is reported only in the latter case, a replay or no order
  only in the former.
\<close>

theorem gift_create_atomic:
  assumes "ledger_ok db" and "Create U ck trace p (db, w) = (r, (db', w'))"
  shows "(db' = db \<and> (\<nexists>v. r = Inr (v, False)))
    \<or> (\<exists>g payload. orderable ck p g db
        \<and> marshal_envelope (gift_envelope trace p g (gift_price g * p_Count p) (go_now w)) = Inr payload
        \<and> db' = order_placed p g (gift_price g * p_Count p) payload (NOW3 w) db
        \<and> ledger_ok db'
        \<and> (\<forall>v b. r = Inr (v, b) \<longrightarrow> \<not> b \<and> v = placed_view p g (NOW3 w)))"
  using assms(2) ledger_ok_balance(2) [OF assms(1)]
proof (cases rule: Create_cases)
  case (placed g payload)
  with order_placed_ledger_ok [OF assms(1) placed(1)] show ?thesis by blast
qed auto

theorem gift_create_atomic_witness:
  "\<exists>r db' w'. Create ascii_only id [] sample_request (sample_shop, quiet_world) = (r, (db', w'))
    \<and> (db' = sample_shop \<or> gift_orders db' \<noteq> [])"
proof -
  obtain r db' w' where c: "Create ascii_only id [] sample_request (sample_shop, quiet_world) = (r, (db', w'))"
    by (metis prod.collapse)
  from gift_create_atomic [OF sample_shop_ok c] have "db' = sample_shop \<or> gift_orders db' \<noteq> []"
    by auto
  with c show ?thesis by blast
qed

text \<open>
  A request is charged at most once. When an order with the same request identifier
  exists (under the collation of the column), \<open>Create\<close> changes nothing at all, and the only
  order it can answer with is that one, flagged as a replay and only if user, room, gift and
  count agree.
\<close>

theorem gift_request_charged_once:
  assumes "ledger_ok db" and "Create U ck trace p (db, w) = (r, (db', w'))"
    and "ro \<in> set (gift_orders db)" and "ck (o_request_id ro) = ck (p_RequestID p)"
  shows "db' = db \<and> (\<forall>v b. r = Inr (v, b) \<longrightarrow>
     b \<and> ck (RequestID v) = ck (p_RequestID p) \<and> UserID v = p_UserID p \<and> Order_RoomID v = p_RoomID p
     \<and> GiftID v = p_GiftID p \<and> GiftCount v = p_Count p)"
  using assms(2) ledger_ok_balance(2) [OF assms(1)]
proof (cases rule: Create_cases)
  case unchanged
  then show ?thesis by (fastforce simp: order_view_def)
next
  case (placed g payload)
  with assms(3,4) show ?thesis by (auto simp: orderable_def)
qed

definition sample_shop_sold :: commerce_db where
  "sample_shop_sold = order_placed sample_request sample_gift 200 ''{}'' 0 sample_shop"

lemma sample_orderable: "orderable id sample_request sample_gift sample_shop"
  by (simp add: orderable_def sample_request_def sample_shop_def sample_gift_def gift_by_id_def max_int64_def
      credit_tx_def)

lemma sample_shop_sold_ok: "ledger_ok sample_shop_sold"
  using order_placed_ledger_ok [OF sample_shop_ok sample_orderable, of "''{}''" 0]
  by (simp add: sample_shop_sold_def sample_gift_def sample_request_def)

theorem gift_request_charged_once_witness:
  "fst (snd (Create ascii_only id [] (sample_request\<lparr>p_OrderNo := ''Gcd''\<rparr>) (sample_shop_sold, quiet_world)))
    = sample_shop_sold"
proof -
  let ?p = "sample_request\<lparr>p_OrderNo := ''Gcd''\<rparr>"
  obtain r db' w' where c: "Create ascii_only id [] ?p (sample_shop_sold, quiet_world) = (r, (db', w'))"
    by (metis prod.collapse)
  have "success_order sample_request sample_gift 200 0 \<in> set (gift_orders sample_shop_sold)"
    by (simp add: sample_shop_sold_def)
  moreover have "id (o_request_id (success_order sample_request sample_gift 200 0)) = id (p_RequestID ?p)"
    by (simp add: success_order_def pending_order_def)
  ultimately have "db' = sample_shop_sold"
    using gift_request_charged_once [OF sample_shop_sold_ok c] by blast
  with c show ?thesis by simp
qed

text \<open>
  C4. The answer to a gift request, when every call completes: unknown gift, offline gift,
  amount overflow (exactly when price times count exceeds the 64-bit range), replay or
  conflict for a known request identifier, insufficient balance, and otherwise the placed
  order, in this order of precedence.
\<close>

theorem gift_create_decides:
  assumes "faults w = []" and "ledger_ok db" and "fresh_ids ck p db"
    and "\<And>g. gift_by_id (p_GiftID p) db = Some g \<Longrightarrow> event_encodable p g w"
  shows "fst (Create U ck trace p (db, w)) = create_outcome ck p db (NOW3 w)"
  using assms by (intro Create_quiet event_encodable_marshal)

lemma sample_text_ok:
  "utf8_ok ''Rose'' \<and> utf8_ok (messageID ''Gab'') \<and> utf8_ok ''Gab'' \<and> utf8_ok ''anchor_id'' \<and> utf8_ok ''count''
   \<and> utf8_ok ''gift_id'' \<and> utf8_ok ''gift_name'' \<and> utf8_ok ''message_id'' \<and> utf8_ok ''order_no''
   \<and> utf8_ok ''total_amount'' \<and> utf8_ok ''unit_price'' \<and> utf8_ok ''user_id''"
  by (simp add: utf8_ok_def rune_segs_ascii byte_def rune_error_def messageID_def TrimSpace_def is_space_def Let_def)

lemma sample_encodable: "event_encodable sample_request sample_gift quiet_world"
  by (simp add: event_encodable_def gift_payload_def sample_request_def sample_gift_def sample_text_ok is_i64_def
      year_of_time_def quiet_world_def year_of_day_def epoch_day_def days_before_year_def)

theorem gift_create_decides_witness:
  "fst (Create ascii_only id [] sample_request (sample_shop, quiet_world))
    = Inr (placed_view sample_request sample_gift 0, False)"
proof -
  have "fresh_ids id sample_request sample_shop"
    by (simp add: fresh_ids_def sample_shop_def sample_request_def credit_tx_def)
  moreover have g: "gift_by_id (p_GiftID sample_request) sample_shop = Some sample_gift"
    by (simp add: gift_by_id_def sample_shop_def sample_request_def sample_gift_def)
  ultimately have "fst (Create ascii_only id [] sample_request (sample_shop, quiet_world))
      = create_outcome id sample_request sample_shop (NOW3 quiet_world)"
    using sample_encodable sample_shop_ok
    by (intro gift_create_decides) (auto simp: quiet_world_def)
  also have "\<dots> = Inr (placed_view sample_request sample_gift 0, False)"
    unfolding create_outcome_def g
    by (simp add: sample_gift_def sample_request_def max_int64_def sample_shop_def credit_tx_def NOW3_def quiet_world_def)
  finally show ?thesis .
qed

text \<open>
  A development credit changes the database only when credits are enabled and the amount is
  between 1 and 100000000, and then by exactly one posting of that amount to that user; the
  balance it reports is the one the wallet has.
\<close>

theorem dev_credit_posts_once:
  assumes "ledger_ok db" and "DevCredit ck s u a (db, w) = (r, (db', w'))"
  shows "(db' = db \<and> (\<nexists>v. r = Inr v))
    \<or> (devCreditEnabled s \<and> 1 \<le> a \<and> a \<le> 100000000
        \<and> (\<exists>i. db' = posting (credit_tx u a (''WT'' @ i) (''DEV'' @ i) (balance_of u db) (NOW3 w)) (NOW3 w) db)
        \<and> balance_of u db' = balance_of u db + a
        \<and> (\<forall>v. r = Inr v \<longrightarrow> v = \<lparr>bal_user_id = u, bal_balance = balance_of u db'\<rparr>))"
proof (cases "devCreditEnabled s \<and> 1 \<le> a \<and> a \<le> 100000000")
  case False
  with assms(2) show ?thesis by (auto simp: DevCredit_def split: if_splits)
next
  case True
  then obtain i w1 where c: "Credit ck u a (''WT'' @ i) (''DEV'' @ i) (db, w1) = (r, (db', w'))"
    and n: "NOW3 w1 = NOW3 w"
    using assms(2)
    by (auto simp: DevCredit_def bind_eq idgen_New_def NOW3_def split: list.splits option.splits)
  from c ledger_ok_balance(2) [OF assms(1)] show ?thesis
  proof (cases rule: Credit_cases)
    case posted
    with True n show ?thesis by (auto simp: credit_tx_def)
  qed auto
qed

theorem dev_credit_posts_once_witness:
  "\<exists>r db' w'. DevCredit id (Wallet_NewService True) 7 100 (sample_shop, quiet_world) = (r, (db', w'))
     \<and> (db' = sample_shop \<or> balance_of 7 db' = 600)"
proof -
  obtain r db' w' where c: "DevCredit id (Wallet_NewService True) 7 100 (sample_shop, quiet_world) = (r, (db', w'))"
    by (metis prod.collapse)
  have "balance_of 7 sample_shop = 500" by (simp add: sample_shop_def credit_tx_def)
  with dev_credit_posts_once [OF sample_shop_ok c] c show ?thesis by auto
qed

end
