(* ===== verification/Dedup.thy ===== *)
theory Dedup
  imports Commerce_Schema
begin

text \<open>
  \<^verbatim>\<open>internal/eventdedup/store.go\<close>: which events a consumer group has processed. A row is
  locked by the consumer working on the event and falls free when its lease runs out; the
  lease is measured on the process's clock against a lock time written by the server's.
\<close>

section \<open>The store\<close>

record proc_row =
  pe_status :: int
  pe_locked_at :: "int option"
  pe_processed_at :: "int option"
  pe_last_error :: "string option"
  pe_created_at :: int

type_synonym dedup_db = "string \<times> string \<Rightarrow> proc_row option"

text \<open>\<^verbatim>\<open>SELECT status, locked_at ... FOR UPDATE\<close>, \<^verbatim>\<open>INSERT\<close>, \<^verbatim>\<open>UPDATE\<close> on the primary key.\<close>

definition proc_select :: "(string \<Rightarrow> string) \<Rightarrow> string \<Rightarrow> string \<Rightarrow> (dedup_db, proc_row option) prog" where
  "proc_select ck grp eventID = read_ext (\<lambda>db _. Inr (db (ck grp, ck eventID)))"

definition proc_insert :: "(string \<Rightarrow> string) \<Rightarrow> string \<Rightarrow> string \<Rightarrow> (dedup_db, unit) prog" where
  "proc_insert ck grp eventID = ext (\<lambda>db w.
     case db (ck grp, ck eventID) of
       Some _ \<Rightarrow> (Inl (dup_entry (grp @ ''-'' @ eventID) ''processed_events.PRIMARY''), db)
     | None \<Rightarrow> (Inr (), db((ck grp, ck eventID) \<mapsto> \<lparr>pe_status = 0, pe_locked_at = Some (NOW3 w),
          pe_processed_at = None, pe_last_error = None, pe_created_at = NOW3 w\<rparr>)))"

definition proc_update ::
  "(string \<Rightarrow> string) \<Rightarrow> string \<Rightarrow> string \<Rightarrow> (proc_row \<Rightarrow> bool) \<Rightarrow> (int \<Rightarrow> proc_row \<Rightarrow> proc_row) \<Rightarrow> (dedup_db, nat) prog" where
  "proc_update ck grp eventID cond f = ext (\<lambda>db w.
     case db (ck grp, ck eventID) of
       None \<Rightarrow> (Inr 0, db)
     | Some row \<Rightarrow>
         if \<not> cond row then (Inr 0, db)
         else (Inr (if f (NOW3 w) row = row then 0 else 1), db((ck grp, ck eventID) \<mapsto> f (NOW3 w) row)))"

definition Dedup_Begin :: "(string \<Rightarrow> string) \<Rightarrow> string \<Rightarrow> string \<Rightarrow> int \<Rightarrow> (dedup_db, bool) prog" where
  "Dedup_Begin ck grp eventID lease = in_tx (
     bind (proc_select ck grp eventID) (\<lambda>row. case row of
       None \<Rightarrow> bind (proc_insert ck grp eventID) (\<lambda>_. ret False)
     | Some row \<Rightarrow>
         if pe_status row = 1 then ret True
         else bind now (\<lambda>t.
           if (case pe_locked_at row of None \<Rightarrow> False | Some l \<Rightarrow> l > t - lease) then fail (Sentinel Dedup_ErrBusy)
           else bind (proc_update ck grp eventID (\<lambda>_. True)
                        (\<lambda>nw r. r\<lparr>pe_locked_at := Some nw, pe_last_error := None\<rparr>)) (\<lambda>_. ret False))))"

definition Dedup_Done :: "(string \<Rightarrow> string) \<Rightarrow> string \<Rightarrow> string \<Rightarrow> (dedup_db, unit) prog" where
  "Dedup_Done ck grp eventID = in_tx (
     bind (proc_update ck grp eventID (\<lambda>_. True)
       (\<lambda>nw r. r\<lparr>pe_status := 1, pe_processed_at := Some nw, pe_locked_at := None, pe_last_error := None\<rparr>)) (\<lambda>n.
     if n \<noteq> 1 then fail (Plain ''processed event lock lost'') else ret ()))"

definition Dedup_Fail :: "(string \<Rightarrow> string) \<Rightarrow> string \<Rightarrow> string \<Rightarrow> go_err option \<Rightarrow> (dedup_db, unit) prog" where
  "Dedup_Fail ck grp eventID cause =
     (let msg = (case cause of None \<Rightarrow> [] | Some e \<Rightarrow> take 512 (error_text e)) in
      in_tx (
        bind (proc_update ck grp eventID (\<lambda>r. pe_status r = 0)
          (\<lambda>_ r. r\<lparr>pe_locked_at := None, pe_last_error := Some msg\<rparr>)) (\<lambda>n.
        if n \<noteq> 1 then fail (Plain ''processed event lock lost'') else ret ())))"

section \<open>Processed events and leases\<close>

definition processed :: "(string \<Rightarrow> string) \<Rightarrow> dedup_db \<Rightarrow> string \<Rightarrow> string \<Rightarrow> bool" where
  "processed ck db g e \<longleftrightarrow> (\<exists>r. db (ck g, ck e) = Some r \<and> pe_status r = 1)"

text \<open>Locked at a time of the process's clock, for a given lease.\<close>

definition leased :: "(string \<Rightarrow> string) \<Rightarrow> dedup_db \<Rightarrow> string \<Rightarrow> string \<Rightarrow> int \<Rightarrow> int \<Rightarrow> bool" where
  "leased ck db g e lease t \<longleftrightarrow>
     (\<exists>r l. db (ck g, ck e) = Some r \<and> pe_status r \<noteq> 1 \<and> pe_locked_at r = Some l \<and> l > t - lease)"

lemmas dedup_stmts = proc_select_def proc_insert_def proc_update_def

text \<open>What a begin, a completion and a release do, whatever fails.\<close>

lemma Dedup_Begin_cases:
  assumes "Dedup_Begin ck g e lease (db, w) = (r, (db', w'))"
  obtains (same) "db' = db" and "r = Inr True \<Longrightarrow> processed ck db g e" and "r \<noteq> Inr False"
      and "\<And>er. r = Inl er \<Longrightarrow> (\<exists>m. er = Plain m) \<or> (er = Sentinel Dedup_ErrBusy \<and> leased ck db g e lease (go_now w))
             \<or> (\<exists>a b. er = dup_entry a b)"
  | (claimed) row where "\<not> processed ck db g e" and "\<not> leased ck db g e lease (go_now w)"
      and "db' = db((ck g, ck e) \<mapsto> row)" and "pe_status row \<noteq> 1" and "pe_locked_at row = Some (NOW3 w)"
      and "r = Inr False \<or> (\<exists>m. r = Inl (Plain m))"
proof -
  let ?body = "bind (proc_select ck g e) (\<lambda>row. case row of
       None \<Rightarrow> bind (proc_insert ck g e) (\<lambda>_. ret False)
     | Some row \<Rightarrow>
         if pe_status row = 1 then ret True
         else bind now (\<lambda>t.
           if (case pe_locked_at row of None \<Rightarrow> False | Some l \<Rightarrow> l > t - lease) then fail (Sentinel Dedup_ErrBusy)
           else bind (proc_update ck g e (\<lambda>_. True)
                        (\<lambda>nw r. r\<lparr>pe_locked_at := Some nw, pe_last_error := None\<rparr>)) (\<lambda>_. ret False)))"
  have body: "(\<exists>er. x = Inl er \<and> ((\<exists>m. er = Plain m) \<or> (er = Sentinel Dedup_ErrBusy \<and> leased ck db g e lease (go_now w))
             \<or> (\<exists>a b. er = dup_entry a b)))
      \<or> (x = Inr True \<and> d1 = db \<and> processed ck db g e)
      \<or> (x = Inr False \<and> \<not> processed ck db g e \<and> \<not> leased ck db g e lease (go_now w)
           \<and> (\<exists>row. d1 = db((ck g, ck e) \<mapsto> row) \<and> pe_status row \<noteq> 1 \<and> pe_locked_at row = Some (NOW3 w)))"
    if "?body (db, w1) = (x, (d1, w2))" "clocks w1 = clocks w" for x d1 w1 w2
  proof -
    obtain x1 d2 w3 where sel: "proc_select ck g e (db, w1) = (x1, (d2, w3))" by (metis prod.collapse)
    then have s: "d2 = db" "x1 = Inr (db (ck g, ck e)) \<or> (\<exists>m. x1 = Inl (Plain m))" and c: "clocks w3 = clocks w"
      using that(2) by (auto simp: proc_select_def dest!: read_ext_D)
    show ?thesis
    proof (cases "\<exists>m. x1 = Inl (Plain m)")
      case True
      with that(1) sel show ?thesis by (auto simp: bind_eq)
    next
      case False
      with s have x1: "x1 = Inr (db (ck g, ck e))" by simp
      show ?thesis
      proof (cases "db (ck g, ck e)")
        case None
        with that(1) sel s x1 c show ?thesis
          by (auto simp: bind_eq proc_insert_def processed_def leased_def dest!: ext_D clocksD split: option.splits)
      next
        case (Some row)
        with that(1) sel s x1 c show ?thesis
          by (cases "pe_locked_at row")
            (auto simp: bind_eq proc_update_def now_def clocks_def NOW3_def processed_def leased_def dest!: ext_D split: if_splits)
      qed
    qed
  qed
  from assms show thesis
    unfolding Dedup_Begin_def
  proof (cases rule: in_tx_cases)
    case rolled_back
    from rolled_back(3) consider (plain) m where "r = Inl (Plain m)"
      | (body) w1 d1 w2 where "clocks w1 = clocks w" "?body (db, w1) = (r, (d1, w2))" by blast
    then show thesis
    proof cases
      case plain
      with rolled_back(1) show thesis by (intro same) auto
    next
      case b: body
      from body [OF b(2,1)] rolled_back(1,2) show thesis
        by (intro same) auto
    qed
  next
    case (committed v w1 w2)
    from body [OF committed(2,1)] committed(3) show thesis
      by (auto intro: same claimed)
  qed
qed

lemma proc_update_cases:
  assumes "proc_update ck g e c f (db, w) = (r, (db', w'))"
  obtains (same) "db' = db" and "r = Inr 0 \<or> (\<exists>m. r = Inl (Plain m))"
  | (changed) row where "db (ck g, ck e) = Some row" and "c row" and "db' = db((ck g, ck e) \<mapsto> f (NOW3 w) row)"
      and "r = Inr (if f (NOW3 w) row = row then 0 else 1) \<or> (\<exists>m. r = Inl (Plain m))"
proof -
  have now: "clocks w' = clocks w \<Longrightarrow> NOW3 w' = NOW3 w" by (simp add: clocks_def NOW3_def)
  show thesis
  proof (cases "db (ck g, ck e)")
    case None
    with assms same show thesis by (auto simp: proc_update_def dest!: ext_D)
  next
    case (Some row)
    show thesis
    proof (cases "c row")
      case True
      with Some assms now have "db' = db \<and> (\<exists>m. r = Inl (Plain m)) \<or> db' = db((ck g, ck e) \<mapsto> f (NOW3 w) row)
          \<and> (r = Inr (if f (NOW3 w) row = row then 0 else 1) \<or> (\<exists>m. r = Inl (Plain m)))"
        unfolding proc_update_def by (auto dest!: ext_D)
      with True Some same changed show thesis by blast
    next
      case False
      with Some assms same show thesis by (auto simp: proc_update_def dest!: ext_D)
    qed
  qed
qed

text \<open>The rows a completion and a release write.\<close>

lemma in_tx_update_cases:
  assumes "in_tx (bind (proc_update ck g e c f) (\<lambda>n. if n \<noteq> 1 then fail er else ret ())) (db, w) = (r, (db', w'))"
  obtains (same) "db' = db" and "r \<noteq> Inr ()"
  | (changed) row where "db (ck g, ck e) = Some row" and "c row" and "db' = db((ck g, ck e) \<mapsto> f (NOW3 w) row)"
      and "f (NOW3 w) row \<noteq> row" and "r = Inr () \<or> (\<exists>m. r = Inl (Plain m))"
  using assms
proof (cases rule: in_tx_cases)
  case rolled_back
  then show ?thesis by (intro same) auto
next
  case (committed v w1 w2)
  then obtain n d1 w3 where u: "proc_update ck g e c f (db, w1) = (Inr n, (d1, w3))" "n = 1" "d1 = db'"
    by (auto simp: bind_eq split: if_splits)
  have now: "NOW3 w1 = NOW3 w" using committed(1) by (simp add: clocks_def NOW3_def)
  from u(1) show ?thesis
  proof (cases rule: proc_update_cases)
    case same
    with u(2) show ?thesis by auto
  next
    case (changed row)
    with u(2) now have "f (NOW3 w) row \<noteq> row" by (auto split: if_splits)
    with changed(1-3) u(3) now committed(3) show ?thesis
      by (intro that(2) [of row]) simp_all
  qed
qed

lemmas Dedup_Done_cases [consumes 1, case_names same changed] = in_tx_update_cases
  [where c = "\<lambda>_. True" and er = "Plain ''processed event lock lost''"
     and f = "\<lambda>nw r. r\<lparr>pe_status := 1, pe_processed_at := Some nw, pe_locked_at := None, pe_last_error := None\<rparr>",
   folded Dedup_Done_def]

lemma processed_upd:
  "processed ck (db((ck g, ck e) \<mapsto> row)) g' e' \<longleftrightarrow>
     (if (ck g', ck e') = (ck g, ck e) then pe_status row = 1 else processed ck db g' e')"
  by (simp add: processed_def)

lemma Dedup_Done_finishes:
  assumes "Dedup_Done ck g e (db, w) = (r, (db', w'))"
  shows "r = Inr () \<longrightarrow> processed ck db' g e"
    and "processed ck db g' e' \<longrightarrow> processed ck db' g' e'"
    and "(ck g', ck e') \<noteq> (ck g, ck e) \<longrightarrow> processed ck db' g' e' = processed ck db g' e'"
proof -
  from assms have "(r = Inr () \<longrightarrow> processed ck db' g e) \<and> (processed ck db g' e' \<longrightarrow> processed ck db' g' e')
      \<and> ((ck g', ck e') \<noteq> (ck g, ck e) \<longrightarrow> processed ck db' g' e' = processed ck db g' e')"
  proof (cases rule: Dedup_Done_cases)
    case same
    then show ?thesis by simp
  next
    case (changed row)
    show ?thesis unfolding changed(3) processed_upd by simp
  qed
  then show "r = Inr () \<longrightarrow> processed ck db' g e" "processed ck db g' e' \<longrightarrow> processed ck db' g' e'"
    "(ck g', ck e') \<noteq> (ck g, ck e) \<longrightarrow> processed ck db' g' e' = processed ck db g' e'" by simp_all
qed

lemma Dedup_Fail_keeps:
  assumes "Dedup_Fail ck g e cause (db, w) = (r, (db', w'))"
  shows "processed ck db' g' e' = processed ck db g' e'"
  using assms unfolding Dedup_Fail_def Let_def
  by (cases rule: in_tx_update_cases) (auto simp: processed_def)

lemma Dedup_Fail_releases:
  assumes "Dedup_Fail ck g e cause (db, w) = (Inr (), (db', w'))"
  shows "\<not> leased ck db' g e lease t"
  using assms unfolding Dedup_Fail_def Let_def
  by (cases rule: in_tx_update_cases) (auto simp: leased_def)

lemma Dedup_Begin_keeps:
  assumes "Dedup_Begin ck g e lease (db, w) = (r, (db', w'))"
  shows "processed ck db' g' e' = processed ck db g' e'"
  using assms by (cases rule: Dedup_Begin_cases) (auto simp: processed_def)


section \<open>The contract consumers rely on\<close>

text \<open>
  A store of processed events over any data: \<open>begin_ev\<close> answers whether the event is processed,
  a completion makes it so, and nothing takes it back.
\<close>

locale dedup_store =
  fixes begin_ev :: "string \<Rightarrow> string \<Rightarrow> int \<Rightarrow> ('d, bool) prog"
    and done_ev :: "string \<Rightarrow> string \<Rightarrow> ('d, unit) prog"
    and fail_ev :: "string \<Rightarrow> string \<Rightarrow> go_err option \<Rightarrow> ('d, unit) prog"
    and handled :: "'d \<Rightarrow> string \<Rightarrow> string \<Rightarrow> bool"
  assumes begin_yes: "begin_ev g e l (d, w) = (Inr True, (d', w')) \<Longrightarrow> handled d g e"
    and begin_no: "begin_ev g e l (d, w) = (Inr False, (d', w')) \<Longrightarrow> \<not> handled d g e"
    and begin_keeps: "begin_ev g e l (d, w) = (x, (d', w')) \<Longrightarrow> handled d' g' e' = handled d g' e'"
    and done_handles: "done_ev g e (d, w) = (Inr (), (d', w')) \<Longrightarrow> handled d' g e"
    and done_keeps: "done_ev g e (d, w) = (r, (d', w')) \<Longrightarrow> handled d g' e' \<Longrightarrow> handled d' g' e'"
    and fail_keeps: "fail_ev g e c (d, w) = (r, (d', w')) \<Longrightarrow> handled d' g' e' = handled d g' e'"

lemma Dedup_Begin_answers:
  "Dedup_Begin ck g e l (db, w) = (Inr True, (db', w')) \<Longrightarrow> processed ck db g e"
  "Dedup_Begin ck g e l (db, w) = (Inr False, (db', w')) \<Longrightarrow> \<not> processed ck db g e"
  by (erule Dedup_Begin_cases; simp)+

interpretation mysql_dedup: dedup_store "Dedup_Begin ck" "Dedup_Done ck" "Dedup_Fail ck" "processed ck"
proof (unfold_locales, goal_cases)
  case (1 g e l d w d' w')
  then show ?case by (rule Dedup_Begin_answers)
next
  case (2 g e l d w d' w')
  then show ?case by (rule Dedup_Begin_answers)
next
  case (3 g e l d w x d' w' g' e')
  then show ?case by (rule Dedup_Begin_keeps)
next
  case (4 g e d w d' w')
  then show ?case using Dedup_Done_finishes(1) by blast
next
  case (5 g e d w r d' w' g' e')
  then show ?case using Dedup_Done_finishes(2) by blast
next
  case (6 g e c d w r d' w' g' e')
  then show ?case by (rule Dedup_Fail_keeps)
qed

end
