(* ===== verification/Base64.thy ===== *)
theory Base64
  imports Json_Struct
begin

text \<open>
  The base64 codec of the standard library, in its four standard forms: with the ordinary or
  the URL alphabet (\<open>url\<close>), with or without padding (\<open>pad\<close>). A value of type \<^verbatim>\<open>[]byte\<close> is
  written into JSON in the ordinary padded form; tokens and the signatures of the
  connection tokens use the unpadded forms.
\<close>

section \<open>Encoding\<close>

definition b64_char :: "bool \<Rightarrow> nat \<Rightarrow> char" where
  "b64_char url n =
     (if n < 26 then char_of (65 + n) else if n < 52 then char_of (71 + n) else if n < 62 then char_of (n - 4)
      else if n = 62 then (if url then CHR ''-'' else CHR ''+'') else (if url then CHR ''_'' else CHR ''/''))"

definition b64_value :: "bool \<Rightarrow> char \<Rightarrow> nat option" where
  "b64_value url c = (let b = of_char c :: nat in
     if 65 \<le> b \<and> b \<le> 90 then Some (b - 65)
     else if 97 \<le> b \<and> b \<le> 122 then Some (b - 71)
     else if 48 \<le> b \<and> b \<le> 57 then Some (b + 4)
     else if c = (if url then CHR ''-'' else CHR ''+'') then Some 62
     else if c = (if url then CHR ''_'' else CHR ''/'') then Some 63 else None)"

abbreviation num :: "char \<Rightarrow> nat" where "num \<equiv> of_char"

fun b64_encode :: "bool \<Rightarrow> bool \<Rightarrow> string \<Rightarrow> string" where
  "b64_encode url pad [] = []"
| "b64_encode url pad [a] =
     [b64_char url (num a div 4), b64_char url (num a mod 4 * 16)] @ (if pad then ''=='' else [])"
| "b64_encode url pad [a, b] =
     [b64_char url (num a div 4), b64_char url (num a mod 4 * 16 + num b div 16), b64_char url (num b mod 16 * 4)]
     @ (if pad then ''='' else [])"
| "b64_encode url pad (a # b # c # r) =
     [b64_char url (num a div 4), b64_char url (num a mod 4 * 16 + num b div 16),
      b64_char url (num b mod 16 * 4 + num c div 64), b64_char url (num c mod 64)] @ b64_encode url pad r"

text \<open>Decoding after line breaks were skipped; the unused bits of a last group are ignored.\<close>

definition b64_last2 :: "bool \<Rightarrow> char \<Rightarrow> char \<Rightarrow> string option" where
  "b64_last2 url c d = (case (b64_value url c, b64_value url d) of
     (Some x, Some y) \<Rightarrow> Some [char_of (x * 4 + y div 16)] | _ \<Rightarrow> None)"

definition b64_last3 :: "bool \<Rightarrow> char \<Rightarrow> char \<Rightarrow> char \<Rightarrow> string option" where
  "b64_last3 url c d e = (case (b64_value url c, b64_value url d, b64_value url e) of
     (Some x, Some y, Some z) \<Rightarrow> Some [char_of (x * 4 + y div 16), char_of (y mod 16 * 16 + z div 4)] | _ \<Rightarrow> None)"

fun b64_groups :: "bool \<Rightarrow> bool \<Rightarrow> string \<Rightarrow> string option" where
  "b64_groups url pad [] = Some []"
| "b64_groups url pad [c] = None"
| "b64_groups url pad [c, d] = (if pad then None else b64_last2 url c d)"
| "b64_groups url pad [c, d, e] = (if pad then None else b64_last3 url c d e)"
| "b64_groups url pad (c # d # e # f # r) =
     (if pad \<and> r = [] \<and> e = CHR ''='' \<and> f = CHR ''='' then b64_last2 url c d
      else if pad \<and> r = [] \<and> f = CHR ''='' then b64_last3 url c d e
      else case (b64_value url c, b64_value url d, b64_value url e, b64_value url f) of
        (Some w, Some x, Some y, Some z) \<Rightarrow>
          map_option ((@) [char_of (w * 4 + x div 16), char_of (x mod 16 * 16 + y div 4), char_of (y mod 4 * 64 + z)])
            (b64_groups url pad r)
      | _ \<Rightarrow> None)"

definition b64_decode :: "bool \<Rightarrow> bool \<Rightarrow> string \<Rightarrow> string option" where
  "b64_decode url pad s = b64_groups url pad (filter (\<lambda>c. c \<noteq> CHR 0x0D \<and> c \<noteq> CHR 0x0A) s)"

section \<open>Round trip\<close>

lemma num_less: "num a < 256"
  by simp

lemma b64_value_char [simp]: "n < 64 \<Longrightarrow> b64_value url (b64_char url n) = Some n"
  by (auto simp: b64_value_def b64_char_def Let_def)

lemma b64_char_plain: "n < 64 \<Longrightarrow> b64_char url n \<noteq> CHR ''='' \<and> b64_char url n \<noteq> CHR 0x0D \<and> b64_char url n \<noteq> CHR 0x0A"
  using b64_value_char [of n url] by (auto simp: b64_value_def Let_def split: if_splits)

text \<open>The arithmetic of six-bit groups, on numbers.\<close>

lemma sextets:
  fixes a b c :: nat
  assumes "a < 256" "b < 256" "c < 256"
  shows "a div 4 < 64" "a mod 4 * 16 < 64" "a mod 4 * 16 + b div 16 < 64" "b mod 16 * 4 < 64"
    "b mod 16 * 4 + c div 64 < 64" "c mod 64 < 64"
    "a div 4 * 4 + a mod 4 * 16 div 16 = a"
    "a div 4 * 4 + (a mod 4 * 16 + b div 16) div 16 = a"
    "(a mod 4 * 16 + b div 16) mod 16 * 16 + b mod 16 * 4 div 4 = b"
    "(a mod 4 * 16 + b div 16) mod 16 * 16 + (b mod 16 * 4 + c div 64) div 4 = b"
    "(b mod 16 * 4 + c div 64) mod 4 * 64 + c mod 64 = c"
proof -
  have q: "b div 16 < 16" "c div 64 < 4" "a div 4 < 64" using assms by (simp_all add: less_mult_imp_div_less)
  then show "a div 4 < 64" "a mod 4 * 16 < 64" "a mod 4 * 16 + b div 16 < 64" "b mod 16 * 4 < 64"
    "b mod 16 * 4 + c div 64 < 64" "c mod 64 < 64"
    using mod_less_divisor [of 4 a] mod_less_divisor [of 16 b] mod_less_divisor [of 64 c] by linarith+
  show "a div 4 * 4 + a mod 4 * 16 div 16 = a" by simp
  show "a div 4 * 4 + (a mod 4 * 16 + b div 16) div 16 = a" using q by simp
  show "(a mod 4 * 16 + b div 16) mod 16 * 16 + b mod 16 * 4 div 4 = b" using q by simp
  show "(a mod 4 * 16 + b div 16) mod 16 * 16 + (b mod 16 * 4 + c div 64) div 4 = b" using q by simp
  show "(b mod 16 * 4 + c div 64) mod 4 * 64 + c mod 64 = c" using q by simp
qed

lemmas char_sextets = sextets [OF num_less num_less num_less]

lemma b64_last2_encode:
  "b64_last2 url (b64_char url (num a div 4)) (b64_char url (num a mod 4 * 16)) = Some [a]"
  unfolding b64_last2_def
  by (simp only: b64_value_char char_sextets prod.case option.case char_of_char)

lemma b64_last3_encode:
  "b64_last3 url (b64_char url (num a div 4)) (b64_char url (num a mod 4 * 16 + num b div 16))
     (b64_char url (num b mod 16 * 4)) = Some [a, b]"
  unfolding b64_last3_def
  by (simp only: b64_value_char char_sextets prod.case option.case char_of_char)

lemma b64_encode_alphabet:
  "\<forall>c \<in> set (b64_encode url pad s). c \<noteq> CHR 0x0D \<and> c \<noteq> CHR 0x0A"
proof (induction url pad s rule: b64_encode.induct)
  case (2 url pad a)
  show ?case using b64_char_plain [of "num a div 4" url] b64_char_plain [of "num a mod 4 * 16" url] char_sextets(1,2) [of a]
    by auto
next
  case (3 url pad a b)
  show ?case
    using b64_char_plain [OF char_sextets(1) [of a], of url] b64_char_plain [OF char_sextets(3) [of a b], of url]
      b64_char_plain [OF char_sextets(4) [of b], of url]
    by auto
next
  case (4 url pad a b c r)
  then show ?case
    using b64_char_plain [OF char_sextets(1) [of a], of url] b64_char_plain [OF char_sextets(3) [of a b], of url]
      b64_char_plain [OF char_sextets(5) [of b c], of url] b64_char_plain [OF char_sextets(6) [of c], of url]
    by (simp only: b64_encode.simps set_append set_simps ball_Un ball_simps) simp
qed simp

lemma b64_encode_filter: "filter (\<lambda>c. c \<noteq> CHR 0x0D \<and> c \<noteq> CHR 0x0A) (b64_encode url pad s) = b64_encode url pad s"
  by (rule filter_True) (rule b64_encode_alphabet)

lemma b64_groups_encode: "b64_groups url pad (b64_encode url pad s) = Some s"
proof (induction url pad s rule: b64_encode.induct)
  case (2 url pad a)
  show ?case by (simp add: b64_last2_encode)
next
  case (3 url pad a b)
  show ?case
    using b64_char_plain [OF char_sextets(4) [of b], of url] by (simp add: b64_last3_encode)
next
  case (4 url pad a b c r)
  have "b64_char url (num b mod 16 * 4 + num c div 64) \<noteq> CHR ''=''" "b64_char url (num c mod 64) \<noteq> CHR ''=''"
    using b64_char_plain char_sextets(5,6) by blast+
  then show ?case
    by (simp only: b64_encode.simps append.simps b64_groups.simps if_False simp_thms b64_value_char char_sextets
        prod.case option.case char_of_char 4 option.map)
qed simp

text \<open>What was encoded is read back, in each alphabet, with and without padding.\<close>

lemma b64_decode_encode [simp]: "b64_decode url pad (b64_encode url pad s) = Some s"
  by (simp only: b64_decode_def b64_encode_filter b64_groups_encode)

end
