(* ===== verification/Realtime.thy ===== *)
theory Realtime
  imports Mq_Message Base64
begin

text \<open>
  \<^verbatim>\<open>internal/realtime\<close>: the channels, the event clients receive, and the HTTP client of the
  Centrifugo server. The server is a parameter, \<open>server\<close>: the answer it gives to a request
  after the requests before it. The log of the requests that reached it is the client's only
  effect. Tracing headers and metrics are left out.
\<close>

section \<open>Channels and events\<close>

definition RoomStream :: "int \<Rightarrow> string" where
  "RoomStream roomID = ''room:'' @ FormatInt roomID @ '':stream''"

definition RoomStats :: "int \<Rightarrow> string" where
  "RoomStats roomID = ''room:'' @ FormatInt roomID @ '':stats''"

definition Personal :: "int \<Rightarrow> string" where
  "Personal userID = ''personal:user#'' @ FormatInt userID"

text \<open>\<open>ev_data\<close> is the JSON of the field of type \<^verbatim>\<open>any\<close>.\<close>

record Event =
  ev_event_id :: string
  ev_type :: string
  ev_room_id :: int
  ev_priority :: string
  ev_timestamp :: int
  ev_data :: json

definition event_json :: "Event \<Rightarrow> json" where
  "event_json e = JObj
     ([(''event_id'', JStr (ev_event_id e)), (''type'', JStr (ev_type e)), (''room_id'', JInt (ev_room_id e))]
      @ (if ev_priority e = [] then [] else [(''priority'', JStr (ev_priority e))])
      @ [(''timestamp'', JInt (ev_timestamp e)), (''data'', ev_data e)])"

definition NewPriorityEvent :: "string \<Rightarrow> string \<Rightarrow> int \<Rightarrow> string \<Rightarrow> json \<Rightarrow> ('d, Event) prog" where
  "NewPriorityEvent eventID typ roomID priority data =
     bind now (\<lambda>t. ret \<lparr>ev_event_id = eventID, ev_type = typ, ev_room_id = roomID, ev_priority = priority,
                        ev_timestamp = unix_milli t, ev_data = data\<rparr>)"

definition NewEvent :: "string \<Rightarrow> string \<Rightarrow> int \<Rightarrow> json \<Rightarrow> ('d, Event) prog" where
  "NewEvent eventID typ roomID data = NewPriorityEvent eventID typ roomID [] data"

text \<open>A value of type \<^verbatim>\<open>[]byte\<close> in JSON.\<close>

definition bytes_json :: "string \<Rightarrow> json" where
  "bytes_json bs = JStr (b64_encode False True bs)"

section \<open>The Centrifugo client\<close>

record http_request =
  rq_method :: string
  rq_url :: string
  rq_headers :: "(string \<times> string) list"
  rq_body :: string

type_synonym http_log = "http_request list"
type_synonym http_server = "http_log \<Rightarrow> http_request \<Rightarrow> int \<times> string"

record Centrifugo =
  endpoint :: string
  unsubscribe_url :: string
  health :: string
  apiKey :: string

definition TrimRight_char :: "string \<Rightarrow> char \<Rightarrow> string" where
  "TrimRight_char s c = rev (dropWhile (\<lambda>x. x = c) (rev s))"

definition TrimSuffix :: "string \<Rightarrow> string \<Rightarrow> string" where
  "TrimSuffix s p = (if HasSuffix s p then take (length s - length p) s else s)"

definition NewCentrifugo :: "string \<Rightarrow> string \<Rightarrow> Centrifugo" where
  "NewCentrifugo apiURL key =
     (let apiBase = TrimRight_char apiURL (CHR ''/'');
          base = TrimSuffix apiBase ''/api''
      in \<lparr>endpoint = apiBase @ ''/publish'', unsubscribe_url = apiBase @ ''/unsubscribe'',
          health = base @ ''/health'', apiKey = key\<rparr>)"

text \<open>\<^verbatim>\<open>client.Do(req)\<close>: the request reaches the server, or the call fails.\<close>

definition http_do :: "http_server \<Rightarrow> http_request \<Rightarrow> (http_log, int \<times> string) prog" where
  "http_do server rq = ext (\<lambda>log _. (Inr (server log rq), log @ [rq]))"

text \<open>\<^verbatim>\<open>io.ReadAll(io.LimitReader(resp.Body, 1<<20))\<close>.\<close>

definition read_body :: "string \<Rightarrow> (http_log, string) prog" where
  "read_body body = read_ext (\<lambda>_ _. Inr (take 1048576 body))"

record apiError =
  ae_code :: int
  ae_message :: string

text \<open>
  \<^verbatim>\<open>publishResponse\<close>: a pointer field, which a JSON null clears and an object fills in.
\<close>

definition apiError_fields :: "apiError fields" where
  "apiError_fields =
    [(''code'', value_field as_int64 (\<lambda>x. ae_code_update (\<lambda>_. x))),
     (''message'', value_field as_string (\<lambda>x. ae_message_update (\<lambda>_. x)))]"

definition publishResponse_fields :: "apiError option fields" where
  "publishResponse_fields =
    [(''error'', \<lambda>raw cur. if json_parse raw = Some JNull then Some None
        else map_option Some (unmarshal apiError_fields
               (case cur of None \<Rightarrow> \<lparr>ae_code = 0, ae_message = []\<rparr> | Some e \<Rightarrow> e) raw))]"

definition publishResponse :: "string \<Rightarrow> apiError option option" where
  "publishResponse raw = unmarshal publishResponse_fields None raw"

definition api_headers :: "Centrifugo \<Rightarrow> (string \<times> string) list" where
  "api_headers c = [(''Content-Type'', ''application/json''), (''X-API-Key'', apiKey c),
                    (''X-Centrifugo-Error-Mode'', ''transport'')]"

text \<open>What \<^verbatim>\<open>Publish\<close> and \<^verbatim>\<open>Unsubscribe\<close> make of the answer to a request.\<close>

definition api_answer :: "string \<Rightarrow> string \<Rightarrow> int \<Rightarrow> string \<Rightarrow> (http_log, unit) prog" where
  "api_answer statusText readText code body =
     handle (read_body body)
       (\<lambda>err. fail (errorf_pre readText err))
       (\<lambda>raw.
         if code < 200 \<or> code \<ge> 300
         then fail (Plain (statusText @ '' status='' @ FormatInt code @ '' body='' @ raw))
         else case (if raw = [] then None else publishResponse raw) of
                Some (Some e) \<Rightarrow> fail (Plain (''centrifugo error '' @ FormatInt (ae_code e) @ '': '' @ ae_message e))
              | _ \<Rightarrow> ret ())"

definition publish_body :: "string \<Rightarrow> json \<Rightarrow> string" where
  "publish_body channel data = jprint (JObj [(''channel'', JStr channel), (''data'', data)])"

definition publish_request :: "Centrifugo \<Rightarrow> string \<Rightarrow> json \<Rightarrow> http_request" where
  "publish_request c channel data =
     \<lparr>rq_method = ''POST'', rq_url = endpoint c, rq_headers = api_headers c, rq_body = publish_body channel data\<rparr>"

definition Publish :: "http_server \<Rightarrow> Centrifugo \<Rightarrow> string \<Rightarrow> json \<Rightarrow> (http_log, unit) prog" where
  "Publish server c channel data =
     handle (http_do server (publish_request c channel data))
       (\<lambda>err. fail (errorf_pre ''centrifugo publish'' err))
       (\<lambda>(code, body). api_answer ''centrifugo publish'' ''read centrifugo response'' code body)"

definition Unsubscribe :: "http_server \<Rightarrow> Centrifugo \<Rightarrow> string \<Rightarrow> string \<Rightarrow> (http_log, unit) prog" where
  "Unsubscribe server c userID channel =
     handle (http_do server
        \<lparr>rq_method = ''POST'', rq_url = unsubscribe_url c, rq_headers = api_headers c,
         rq_body = jprint (JObj [(''user'', JStr userID), (''channel'', JStr channel)])\<rparr>)
       (\<lambda>err. fail (errorf_pre ''centrifugo unsubscribe'' err))
       (\<lambda>(code, body). api_answer ''centrifugo unsubscribe'' ''read centrifugo unsubscribe response'' code body)"

definition Centrifugo_Ping :: "http_server \<Rightarrow> Centrifugo \<Rightarrow> (http_log, unit) prog" where
  "Centrifugo_Ping server c =
     handle (http_do server \<lparr>rq_method = ''GET'', rq_url = health c, rq_headers = [], rq_body = []\<rparr>)
       (\<lambda>err. fail (errorf_pre ''centrifugo health'' err))
       (\<lambda>(code, body).
         if code < 200 \<or> code \<ge> 300 then fail (Plain (''centrifugo health status='' @ FormatInt code)) else ret ())"

section \<open>What a publication does\<close>

lemma http_do_cases:
  assumes "http_do server rq (log, w) = (r, (log', w'))"
  obtains (answered) "r = Inr (server log rq)" and "log' = log @ [rq]" and "clocks w' = clocks w"
  | (failed) m where "r = Inl (Plain m)" and "log' = log \<or> log' = log @ [rq]" and "clocks w' = clocks w"
  using assms by (auto simp: http_do_def dest!: ext_D)

lemma api_answer_cases:
  assumes "api_answer s t code body (log, w) = (r, (log', w'))"
  shows "log' = log \<and> clocks w' = clocks w \<and> (r = Inr () \<longrightarrow> 200 \<le> code \<and> code < 300)"
  using assms
  by (auto simp: api_answer_def handle_eq read_body_def dest!: read_ext_D split: if_splits option.splits)

text \<open>
  At most the one request is added to the log, and success means that the server took it
  and answered without an error.
\<close>

lemma Publish_cases:
  assumes "Publish server c channel data (log, w) = (r, (log', w'))"
  obtains (sent) "log' = log @ [publish_request c channel data]"
      and "r = Inr () \<Longrightarrow> 200 \<le> fst (server log (publish_request c channel data))
            \<and> fst (server log (publish_request c channel data)) < 300"
      and "clocks w' = clocks w"
  | (not_sent) "log' = log" and "r \<noteq> Inr ()" and "clocks w' = clocks w"
proof -
  obtain x log1 w1 where h: "http_do server (publish_request c channel data) (log, w) = (x, (log1, w1))"
    by (metis prod.collapse)
  from h show thesis
  proof (cases rule: http_do_cases)
    case answered
    obtain code body where a: "server log (publish_request c channel data) = (code, body)" by fastforce
    with assms h answered have "api_answer ''centrifugo publish'' ''read centrifugo response'' code body (log1, w1) = (r, (log', w'))"
      by (simp add: Publish_def handle_eq)
    from api_answer_cases [OF this] a answered show thesis by (intro sent) auto
  next
    case (failed m)
    with assms h show thesis by (auto simp: Publish_def handle_eq intro: sent not_sent)
  qed
qed

end
