(* ===== verification/Mq_Kafka.thy ===== *)
theory Mq_Kafka
  imports Mq_Message Base64
begin

text \<open>
  \<^verbatim>\<open>internal/mq/kafka.go\<close> and \<^verbatim>\<open>dlq.go\<close>: producing to the broker, dead letters and their
  replay. The broker's log is the list of
  the messages it has taken. Metrics, spans and log lines are left out.
\<close>

section \<open>Records and the producer\<close>

text \<open>The key and the value are bytes; a tombstone has no value.\<close>

record Record =
  rec_topic :: string
  rec_partition :: int
  rec_offset :: int
  rec_key :: string
  rec_value :: "string option"

definition value_bytes :: "Record \<Rightarrow> string" where
  "value_bytes r = (case rec_value r of None \<Rightarrow> [] | Some v \<Rightarrow> v)"

record message =
  msg_topic :: string
  msg_key :: string
  msg_value :: "string option"

type_synonym kafka_log = "message list"

definition produceSync ::
  "(string \<times> string) list \<Rightarrow> string \<Rightarrow> string \<Rightarrow> string option \<Rightarrow> bool \<Rightarrow> (kafka_log, unit) prog" where
  "produceSync trace topic key v injectTrace =
     (let v' = (if injectTrace then map_option (\<lambda>raw. InjectTrace raw trace) v else v) in
      handle (ext (\<lambda>log _. (Inr (), log @ [\<lparr>msg_topic = topic, msg_key = key, msg_value = v'\<rparr>])))
        (\<lambda>err. fail (errorf_pre (''kafka produce topic='' @ topic) err))
        ret)"

definition ProduceSync :: "(string \<times> string) list \<Rightarrow> string \<Rightarrow> string \<Rightarrow> string option \<Rightarrow> (kafka_log, unit) prog" where
  "ProduceSync trace topic key v = produceSync trace topic key v True"

definition ProduceRawSync :: "string \<Rightarrow> string \<Rightarrow> string option \<Rightarrow> (kafka_log, unit) prog" where
  "ProduceRawSync topic key v = produceSync [] topic key v False"

text \<open>The asynchronous call buffers the record; whether it is delivered, the caller does not learn.\<close>

definition ProduceAsync :: "(string \<times> string) list \<Rightarrow> string \<Rightarrow> string \<Rightarrow> string \<Rightarrow> (kafka_log, unit) prog" where
  "ProduceAsync trace topic key v = ignore (ext (\<lambda>log _.
     (Inr (), log @ [\<lparr>msg_topic = topic, msg_key = key, msg_value = Some (InjectTrace v trace)\<rparr>])))"

section \<open>Dead letters\<close>

definition DeadLetterTopicSuffix :: string where
  "DeadLetterTopicSuffix = ''.dlq''"

record DeadLetter =
  SourceTopic :: string
  SourcePartition :: int
  SourceOffset :: int
  ConsumerGroup :: string
  Key :: string
  Value :: "string option"
  Error :: string
  FailedAt :: int

definition NewDeadLetter :: "string \<Rightarrow> Record \<Rightarrow> go_err option \<Rightarrow> ('d, DeadLetter) prog" where
  "NewDeadLetter grp r cause =
     (let message = (case cause of None \<Rightarrow> ''permanent consumer error'' | Some e \<Rightarrow> error_text e);
          message = (if length message > 2048 then take 2048 message else message) in
      bind now (\<lambda>t. ret \<lparr>SourceTopic = rec_topic r, SourcePartition = rec_partition r, SourceOffset = rec_offset r,
        ConsumerGroup = grp, Key = rec_key r, Value = rec_value r, Error = message, FailedAt = t\<rparr>))"

definition Validate :: "DeadLetter \<Rightarrow> go_err option" where
  "Validate d =
     (if TrimSpace (SourceTopic d) = [] \<or> HasSuffix (SourceTopic d) DeadLetterTopicSuffix
      then Some (Plain ''source_topic must be a non-DLQ topic'')
      else if TrimSpace (ConsumerGroup d) = [] then Some (Plain ''consumer_group is required'')
      else if SourcePartition d < 0 \<or> SourceOffset d < 0
      then Some (Plain ''source partition and offset must be non-negative'')
      else if Value d = None then Some (Plain ''value is required'')
      else if TrimSpace (Error d) = [] \<or> FailedAt d = zero_time
      then Some (Plain ''error and failed_at are required'')
      else None)"

definition dead_json :: "DeadLetter \<Rightarrow> json \<Rightarrow> json" where
  "dead_json d t = JObj
     ([(''source_topic'', JStr (SourceTopic d)), (''source_partition'', JInt (SourcePartition d)),
       (''source_offset'', JInt (SourceOffset d)), (''consumer_group'', JStr (ConsumerGroup d))]
      @ (if Key d = [] then [] else [(''key'', JStr (b64_encode False True (Key d)))])
      @ [(''value'', case Value d of None \<Rightarrow> JNull | Some v \<Rightarrow> JStr (b64_encode False True v)),
         (''error'', JStr (Error d)), (''failed_at'', t)])"

definition marshal_dead :: "DeadLetter \<Rightarrow> go_err + string" where
  "marshal_dead d = (case time_json (FailedAt d) of
       None \<Rightarrow> Inl (Plain ''json: error calling MarshalJSON'')
     | Some t \<Rightarrow> Inr (jprint (dead_json d t)))"

text \<open>
  Reading one back. A \<^verbatim>\<open>[]byte\<close> is base64 text, or an array of small numbers; a null clears it.
\<close>

fun as_bytes :: "json \<Rightarrow> string option" where
  "as_bytes (JStr s) = b64_decode False True s"
| "as_bytes (JArr vs) =
     (if list_all (\<lambda>v. v = JNull \<or> in_range 0 255 (as_int64 v) \<noteq> None) vs
      then Some (map (\<lambda>v. case as_int64 v of None \<Rightarrow> CHR 0x00 | Some i \<Rightarrow> char_of (nat i)) vs) else None)"
| "as_bytes _ = None"

definition bytes_field :: "(string option \<Rightarrow> 'r \<Rightarrow> 'r) \<Rightarrow> string \<Rightarrow> 'r \<Rightarrow> 'r option" where
  "bytes_field put raw r =
     (case json_parse raw of
        None \<Rightarrow> None
      | Some v \<Rightarrow> if v = JNull then Some (put None r) else map_option (\<lambda>b. put (Some b) r) (as_bytes v))"

definition dead_fields :: "DeadLetter fields" where
  "dead_fields =
    [(''source_topic'', value_field as_string (\<lambda>x. SourceTopic_update (\<lambda>_. x))),
     (''source_partition'', value_field (\<lambda>j. in_range (-2147483648) 2147483647 (as_int64 j))
        (\<lambda>x. SourcePartition_update (\<lambda>_. x))),
     (''source_offset'', value_field as_int64 (\<lambda>x. SourceOffset_update (\<lambda>_. x))),
     (''consumer_group'', value_field as_string (\<lambda>x. ConsumerGroup_update (\<lambda>_. x))),
     (''key'', bytes_field (\<lambda>x. Key_update (\<lambda>_. case x of None \<Rightarrow> [] | Some k \<Rightarrow> k))),
     (''value'', bytes_field (\<lambda>x. Value_update (\<lambda>_. x))),
     (''error'', value_field as_string (\<lambda>x. Error_update (\<lambda>_. x))),
     (''failed_at'', value_field as_time (\<lambda>x. FailedAt_update (\<lambda>_. x)))]"

definition unmarshal_dead :: "string \<Rightarrow> DeadLetter option" where
  "unmarshal_dead raw = unmarshal dead_fields
     \<lparr>SourceTopic = [], SourcePartition = 0, SourceOffset = 0, ConsumerGroup = [], Key = [], Value = None,
      Error = [], FailedAt = zero_time\<rparr> raw"

text \<open>\<^verbatim>\<open>KafkaDeadLetterWriter.WriteDeadLetter\<close>, over the raw producer it is given.\<close>

definition WriteDeadLetter ::
  "(string \<Rightarrow> string \<Rightarrow> string option \<Rightarrow> ('d, unit) prog) \<Rightarrow> DeadLetter \<Rightarrow> ('d, unit) prog" where
  "WriteDeadLetter produce d =
     (case Validate d of
        Some e \<Rightarrow> fail e
      | None \<Rightarrow>
          (case marshal_dead d of
             Inl e \<Rightarrow> fail (errorf_pre ''encode dead letter'' e)
           | Inr raw \<Rightarrow>
               let key = (if Key d = [] then FormatInt (SourcePartition d) @ '':'' @ FormatInt (SourceOffset d) else Key d) in
               handle (produce (SourceTopic d @ DeadLetterTopicSuffix) key (Some raw))
                 (\<lambda>err. fail (errorf_pre ''publish dead letter'' err)) ret))"

section \<open>Replay\<close>

text \<open>
  \<^verbatim>\<open>bufio.ScanLines\<close>: the text cut at line feeds, the last line only if not empty, a carriage
  return before the cut dropped; a line that fills the buffer of four megabytes stops the scan.
\<close>

fun cut_lines :: "string \<Rightarrow> string \<Rightarrow> string list" where
  "cut_lines acc [] = (if acc = [] then [] else [rev acc])"
| "cut_lines acc (c # cs) = (if c = CHR 0x0A then rev acc # cut_lines [] cs else cut_lines (c # acc) cs)"

definition drop_cr :: "string \<Rightarrow> string" where
  "drop_cr s = (if s \<noteq> [] \<and> last s = CHR 0x0D then butlast s else s)"

definition max_line :: nat where
  "max_line = 4194304"

text \<open>The state a replay works on: the broker's log, and the audit lines written.\<close>

type_synonym replay_state = "kafka_log \<times> string list"

definition audit_json :: "string \<Rightarrow> json \<Rightarrow> DeadLetter \<Rightarrow> json" where
  "audit_json actor t d = JObj
     [(''action'', JStr ''dlq_replay''), (''actor'', JStr actor), (''replayed_at'', t),
      (''source_offset'', JInt (SourceOffset d)), (''source_partition'', JInt (SourcePartition d)),
      (''source_topic'', JStr (SourceTopic d))]"

definition write_audit :: "string \<Rightarrow> DeadLetter \<Rightarrow> (replay_state, unit) prog" where
  "write_audit actor d =
     bind now (\<lambda>t. case time_json t of
       None \<Rightarrow> fail (Plain ''json: error calling MarshalJSON'')
     | Some tj \<Rightarrow> ext (\<lambda>(log, audit) _. (Inr (), (log, audit @ [jprint (audit_json actor tj d)]))))"

definition line_error :: "string \<Rightarrow> nat \<Rightarrow> go_err \<Rightarrow> go_err" where
  "line_error what n e = errorf_pre (what @ '' DLQ line '' @ FormatInt (int n)) e"

text \<open>One record: decoded, validated, produced to its topic, audited.\<close>

definition json_error :: go_err where
  "json_error = Plain ''json: cannot unmarshal''"

definition replay_line ::
  "(string \<Rightarrow> string \<Rightarrow> string option \<Rightarrow> (kafka_log, unit) prog) \<Rightarrow> nat \<Rightarrow> string \<Rightarrow> (replay_state, DeadLetter) prog" where
  "replay_line produce n text =
     (case unmarshal_dead text of
        None \<Rightarrow> fail (line_error ''decode'' n json_error)
      | Some d \<Rightarrow>
          (case Validate d of
             Some e \<Rightarrow> fail (line_error ''validate'' n e)
           | None \<Rightarrow>
               handle (zoom fst (\<lambda>l s. (l, snd s)) (produce (SourceTopic d) (Key d) (Value d)))
                 (\<lambda>err. fail (line_error ''replay'' n err)) (\<lambda>_. ret d)))"

text \<open>The count of replayed records is returned beside the error.\<close>

fun replay_lines ::
  "(string \<Rightarrow> string \<Rightarrow> string option \<Rightarrow> (kafka_log, unit) prog) \<Rightarrow> string \<Rightarrow> bool \<Rightarrow> nat \<Rightarrow> nat \<Rightarrow> string list
   \<Rightarrow> (replay_state, nat \<times> go_err option) prog" where
  "replay_lines produce actor audit n count [] = ret (count, None)"
| "replay_lines produce actor audit n count (l # ls) =
     (if length l \<ge> max_line then ret (count, Some (errorf_pre ''read DLQ input'' (Plain ''bufio.Scanner: token too long'')))
      else let text = drop_cr l in
        if TrimSpace text = [] then replay_lines produce actor audit (n + 1) count ls
        else
          handle (replay_line produce n text)
            (\<lambda>err. ret (count, Some err))
            (\<lambda>d. if audit
                  then handle (write_audit actor d)
                         (\<lambda>err. ret (count + 1, Some (errorf_pre ''write replay audit'' err)))
                         (\<lambda>_. replay_lines produce actor audit (n + 1) (count + 1) ls)
                  else replay_lines produce actor audit (n + 1) (count + 1) ls))"

definition ReplayJSONLines ::
  "(string \<Rightarrow> string \<Rightarrow> string option \<Rightarrow> (kafka_log, unit) prog) option \<Rightarrow> string \<Rightarrow> bool \<Rightarrow> string
   \<Rightarrow> (replay_state, nat \<times> go_err option) prog" where
  "ReplayJSONLines producer actor audit input =
     (if TrimSpace actor = [] then ret (0, Some (Plain ''replay actor is required''))
      else case producer of
        None \<Rightarrow> ret (0, Some (Plain ''replay producer is required''))
      | Some produce \<Rightarrow> replay_lines produce actor audit 1 0 (cut_lines [] input))"

end
