(* ===== verification/Mq_Consumer.thy ===== *)
theory Mq_Consumer
  imports Mq_Kafka
begin

text \<open>
  The loop of \<^verbatim>\<open>mq.Consumer.Run\<close> as a step relation. A phase says where the loop is: polling,
  inside a batch, about to commit a record, or returned with an error. The data is whatever the
  handler and the dead-letter writer work on; beside it the state holds the records whose
  offsets were committed and, for the statements only, all records fetched so far. Every step
  may happen at any time and under any failures of the calls it makes; what a poll returns is
  up to the broker, and the context may be cancelled at each of the points where the loop looks.
\<close>

section \<open>One record\<close>

definition record_place :: "string \<Rightarrow> Record \<Rightarrow> string" where
  "record_place grp r = '' group='' @ grp @ '' topic='' @ rec_topic r @ '' partition='' @ FormatInt (rec_partition r)
     @ '' offset='' @ FormatInt (rec_offset r)"

definition writeDeadLetter ::
  "string \<Rightarrow> (DeadLetter \<Rightarrow> ('d, unit) prog) option \<Rightarrow> Record \<Rightarrow> go_err \<Rightarrow> ('d, unit) prog" where
  "writeDeadLetter grp dlq r cause =
     (case dlq of
        None \<Rightarrow> fail (Plain ''permanent Kafka record cannot be committed without a DLQ writer'')
      | Some write \<Rightarrow> bind (NewDeadLetter grp r (Some cause)) write)"

datatype verdict = Handled | Dead_lettered | Try_again

text \<open>One round of the inner loop: the handler, and the dead letter of a permanent error.\<close>

definition attempt_record ::
  "string \<Rightarrow> (DeadLetter \<Rightarrow> ('d, unit) prog) option \<Rightarrow> (Record \<Rightarrow> ('d, unit) prog) \<Rightarrow> Record \<Rightarrow> ('d, verdict) prog" where
  "attempt_record grp dlq h r =
     handle (h r)
       (\<lambda>err. if IsPermanent err
              then handle (writeDeadLetter grp dlq r err)
                     (\<lambda>dlqErr. fail (errorf_pre (''dead-letter'' @ record_place grp r) dlqErr))
                     (\<lambda>_. ret Dead_lettered)
              else ret Try_again)
       (\<lambda>_. ret Handled)"

definition commit_record :: "string \<Rightarrow> Record \<Rightarrow> (Record list, unit) prog" where
  "commit_record grp r =
     handle (ext (\<lambda>cs _. (Inr (), cs @ [r])))
       (\<lambda>err. fail (errorf_pre (''commit'' @ record_place grp r) err)) ret"

section \<open>The loop\<close>

datatype phase = Polling | In_batch "Record list" | Committing Record "Record list" | Stopped go_err

record 'd loop_state =
  ls_phase :: phase
  ls_data :: 'd
  ls_committed :: "Record list"
  ls_fetched :: "Record list"

definition context_done :: go_err where
  "context_done = Plain ''context canceled''"

inductive consumer_step ::
  "string \<Rightarrow> (DeadLetter \<Rightarrow> ('d, unit) prog) option \<Rightarrow> (Record \<Rightarrow> ('d, unit) prog)
   \<Rightarrow> 'd loop_state \<Rightarrow> 'd loop_state \<Rightarrow> bool"
  for grp dlq h where
  poll: "ls_phase s = Polling \<Longrightarrow>
     consumer_step grp dlq h s (s\<lparr>ls_phase := In_batch rs, ls_fetched := ls_fetched s @ rs\<rparr>)"
| poll_cancelled: "ls_phase s = Polling \<Longrightarrow> consumer_step grp dlq h s (s\<lparr>ls_phase := Stopped context_done\<rparr>)"
| batch_done: "ls_phase s = In_batch [] \<Longrightarrow> consumer_step grp dlq h s (s\<lparr>ls_phase := Polling\<rparr>)"
| settle: "ls_phase s = In_batch (r # rs) \<Longrightarrow> attempt_record grp dlq h r (ls_data s, w) = (Inr v, (d, w')) \<Longrightarrow>
     v \<noteq> Try_again \<Longrightarrow> consumer_step grp dlq h s (s\<lparr>ls_phase := Committing r rs, ls_data := d\<rparr>)"
| again: "ls_phase s = In_batch (r # rs) \<Longrightarrow> attempt_record grp dlq h r (ls_data s, w) = (Inr Try_again, (d, w')) \<Longrightarrow>
     consumer_step grp dlq h s (s\<lparr>ls_data := d\<rparr>)"
| again_cancelled: "ls_phase s = In_batch (r # rs) \<Longrightarrow>
     attempt_record grp dlq h r (ls_data s, w) = (Inr Try_again, (d, w')) \<Longrightarrow>
     consumer_step grp dlq h s (s\<lparr>ls_phase := Stopped context_done, ls_data := d\<rparr>)"
| dead_letter_failed: "ls_phase s = In_batch (r # rs) \<Longrightarrow>
     attempt_record grp dlq h r (ls_data s, w) = (Inl e, (d, w')) \<Longrightarrow>
     consumer_step grp dlq h s (s\<lparr>ls_phase := Stopped e, ls_data := d\<rparr>)"
| commit: "ls_phase s = Committing r rs \<Longrightarrow> commit_record grp r (ls_committed s, w) = (Inr (), (cs, w')) \<Longrightarrow>
     consumer_step grp dlq h s (s\<lparr>ls_phase := In_batch rs, ls_committed := cs\<rparr>)"
| commit_failed: "ls_phase s = Committing r rs \<Longrightarrow> commit_record grp r (ls_committed s, w) = (Inl e, (cs, w')) \<Longrightarrow>
     consumer_step grp dlq h s (s\<lparr>ls_phase := Stopped e, ls_committed := cs\<rparr>)"

inductive_cases consumer_stepE: "consumer_step grp dlq h s s'"

definition consumer_start :: "'d \<Rightarrow> 'd loop_state" where
  "consumer_start d = \<lparr>ls_phase = Polling, ls_data = d, ls_committed = [], ls_fetched = []\<rparr>"

inductive consumer_reach ::
  "string \<Rightarrow> (DeadLetter \<Rightarrow> ('d, unit) prog) option \<Rightarrow> (Record \<Rightarrow> ('d, unit) prog)
   \<Rightarrow> 'd loop_state \<Rightarrow> 'd loop_state \<Rightarrow> bool"
  for grp dlq h s0 where
  start: "consumer_reach grp dlq h s0 s0"
| step: "consumer_reach grp dlq h s0 s \<Longrightarrow> consumer_step grp dlq h s s' \<Longrightarrow> consumer_reach grp dlq h s0 s'"

section \<open>Order of the commits\<close>

fun pending :: "phase \<Rightarrow> Record list" where
  "pending Polling = []"
| "pending (In_batch rs) = rs"
| "pending (Committing r rs) = r # rs"
| "pending (Stopped e) = []"

definition in_order :: "'d loop_state \<Rightarrow> bool" where
  "in_order s \<longleftrightarrow> (\<exists>rest. ls_fetched s = ls_committed s @ rest
     \<and> ((\<exists>e. ls_phase s = Stopped e) \<or> rest = pending (ls_phase s)))"

lemma commit_record_cases:
  assumes "commit_record grp r (cs, w) = (x, (cs', w'))"
  shows "cs' = cs \<or> cs' = cs @ [r]" and "x = Inr () \<Longrightarrow> cs' = cs @ [r]"
  using assms by (auto simp: commit_record_def handle_eq dest!: ext_D)

lemma consumer_step_in_order:
  assumes "consumer_step grp dlq h s s'" and "in_order s"
  shows "in_order s'"
  using assms(1)
proof cases
  case (commit r rs w cs w')
  with assms(2) commit_record_cases(2) [OF commit(3)] show ?thesis by (auto simp: in_order_def)
next
  case (commit_failed r rs w e cs w')
  with assms(2) commit_record_cases(1) [OF commit_failed(3)] show ?thesis by (auto simp: in_order_def)
qed (use assms(2) in \<open>auto simp: in_order_def\<close>)

lemma consumer_reach_in_order: "consumer_reach grp dlq h (consumer_start d) s \<Longrightarrow> in_order s"
proof (induction rule: consumer_reach.induct)
  case start
  then show ?case by (simp add: in_order_def consumer_start_def)
qed (auto intro: consumer_step_in_order)

section \<open>What a committed record guarantees\<close>

text \<open>
  The contract of a handler and its dead-letter writer: \<open>settled d r\<close> says the record has had its
  effect or is kept in the dead-letter topic. Success of either establishes it, and no later
  call undoes it.
\<close>

locale record_handler =
  fixes grp :: string
    and dlq :: "(DeadLetter \<Rightarrow> ('d, unit) prog) option"
    and h :: "Record \<Rightarrow> ('d, unit) prog"
    and settled :: "'d \<Rightarrow> Record \<Rightarrow> bool"
  assumes handler_settles: "h r (d, w) = (Inr (), (d', w')) \<Longrightarrow> settled d' r"
    and handler_keeps: "h r (d, w) = (x, (d', w')) \<Longrightarrow> settled d r' \<Longrightarrow> settled d' r'"
    and dead_letter_settles: "writeDeadLetter grp dlq r e (d, w) = (Inr (), (d', w')) \<Longrightarrow> settled d' r"
    and dead_letter_keeps: "writeDeadLetter grp dlq r e (d, w) = (x, (d', w')) \<Longrightarrow> settled d r' \<Longrightarrow> settled d' r'"
begin

lemma attempt_keeps:
  assumes "attempt_record grp dlq h r (d, w) = (x, (d', w'))" and "settled d r'"
  shows "settled d' r'"
  using assms
  by (auto simp: attempt_record_def handle_eq split: if_splits intro: handler_keeps dead_letter_keeps)

lemma attempt_settles:
  assumes "attempt_record grp dlq h r (d, w) = (Inr v, (d', w'))" and "v \<noteq> Try_again"
  shows "settled d' r"
  using assms
  by (auto simp: attempt_record_def handle_eq split: if_splits intro: handler_settles dead_letter_settles)

definition commits_settled :: "'d loop_state \<Rightarrow> bool" where
  "commits_settled s \<longleftrightarrow> (\<forall>r \<in> set (ls_committed s). settled (ls_data s) r)
     \<and> (\<forall>r rs. ls_phase s = Committing r rs \<longrightarrow> settled (ls_data s) r)"

lemma step_settled:
  assumes "consumer_step grp dlq h s s'" and "commits_settled s"
  shows "commits_settled s'"
  using assms(1)
proof cases
  case (settle r rs w v d w')
  with assms(2) attempt_keeps [OF settle(3)] attempt_settles [OF settle(3,4)] show ?thesis
    by (auto simp: commits_settled_def)
next
  case (commit r rs w cs w')
  with assms(2) commit_record_cases(2) [OF commit(3)] show ?thesis by (auto simp: commits_settled_def)
next
  case (commit_failed r rs w e cs w')
  with assms(2) commit_record_cases(1) [OF commit_failed(3)] show ?thesis by (auto simp: commits_settled_def)
next
  case (again r rs w d w')
  with assms(2) attempt_keeps [OF again(3)] show ?thesis by (auto simp: commits_settled_def)
next
  case (again_cancelled r rs w d w')
  with assms(2) attempt_keeps [OF again_cancelled(3)] show ?thesis by (auto simp: commits_settled_def)
next
  case (dead_letter_failed r rs w e d w')
  with assms(2) attempt_keeps [OF dead_letter_failed(3)] show ?thesis by (auto simp: commits_settled_def)
qed (use assms(2) in \<open>auto simp: commits_settled_def\<close>)

theorem reach_settled:
  assumes "consumer_reach grp dlq h (consumer_start d) s" and "r \<in> set (ls_committed s)"
  shows "settled (ls_data s) r"
proof -
  from assms(1) have "commits_settled s"
  proof (induction rule: consumer_reach.induct)
    case start
    then show ?case by (simp add: commits_settled_def consumer_start_def)
  qed (auto intro: step_settled)
  with assms(2) show ?thesis by (simp add: commits_settled_def)
qed

end

section \<open>Progress\<close>

lemma reach_trans: "consumer_reach grp dlq h s1 s2 \<Longrightarrow> consumer_reach grp dlq h s0 s1 \<Longrightarrow> consumer_reach grp dlq h s0 s2"
  by (induction rule: consumer_reach.induct) (auto intro: consumer_reach.step)

text \<open>A batch whose records all settle is committed to its end.\<close>

lemma batch_completes:
  assumes "\<And>r d. r \<in> set rs \<Longrightarrow> I d \<Longrightarrow>
      \<exists>w v d' w'. attempt_record grp dlq h r (d, w) = (Inr v, (d', w')) \<and> v \<noteq> Try_again \<and> I d'"
    and "ls_phase s = In_batch rs" and "I (ls_data s)"
  shows "\<exists>s'. consumer_reach grp dlq h s s' \<and> ls_phase s' = Polling \<and> I (ls_data s')
    \<and> ls_committed s' = ls_committed s @ rs \<and> ls_fetched s' = ls_fetched s"
  using assms
proof (induction rs arbitrary: s)
  case Nil
  from batch_done [OF Nil(2), of grp dlq h] Nil(3) show ?case
    by (intro exI [of _ "s\<lparr>ls_phase := Polling\<rparr>"]) (auto intro: consumer_reach.intros)
next
  case (Cons r rs)
  obtain w v d' w' where a: "attempt_record grp dlq h r (ls_data s, w) = (Inr v, (d', w'))" "v \<noteq> Try_again" "I d'"
    using Cons.prems(1) [OF list.set_intros(1) Cons.prems(3)] by blast
  let ?s1 = "s\<lparr>ls_phase := Committing r rs, ls_data := d'\<rparr>"
  let ?s2 = "?s1\<lparr>ls_phase := In_batch rs, ls_committed := ls_committed s @ [r]\<rparr>"
  let ?q = "\<lparr>faults = [], go_now = 0, db_now = 0, rd_now = 0, entropy = []\<rparr> :: io"
  have 1: "consumer_step grp dlq h s ?s1" using Cons.prems(2) a by (intro settle)
  have "commit_record grp r (ls_committed s, ?q) = (Inr (), (ls_committed s @ [r], ?q))"
    by (simp add: commit_record_def handle_def ext_quiet ret_def)
  then have 2: "consumer_step grp dlq h ?s1 ?s2" using consumer_step.commit [of ?s1 r rs grp ?q "ls_committed s @ [r]" ?q dlq h]
    by simp
  obtain s' where "consumer_reach grp dlq h ?s2 s'" "ls_phase s' = Polling" "I (ls_data s')"
    "ls_committed s' = ls_committed ?s2 @ rs" "ls_fetched s' = ls_fetched ?s2"
    using Cons.IH [of ?s2] Cons.prems(1) a(3) by auto
  moreover have "consumer_reach grp dlq h s ?s2"
    using 1 2 by (blast intro: consumer_reach.intros)
  ultimately show ?case
    using reach_trans [of grp dlq h ?s2 s' s] by (intro exI [of _ s']) simp
qed

text \<open>A first record that settles is committed.\<close>

lemma single_commit:
  assumes "attempt_record grp dlq h r (d, w) = (Inr v, (d', w'))" and "v \<noteq> Try_again"
  shows "\<exists>s. consumer_reach grp dlq h (consumer_start d) s \<and> ls_committed s = [r] \<and> ls_data s = d'"
proof -
  let ?q = "\<lparr>faults = [], go_now = 0, db_now = 0, rd_now = 0, entropy = []\<rparr> :: io"
  let ?s0 = "consumer_start d"
  let ?s1 = "?s0\<lparr>ls_phase := In_batch [r], ls_fetched := ls_fetched ?s0 @ [r]\<rparr>"
  let ?s2 = "?s1\<lparr>ls_phase := Committing r [], ls_data := d'\<rparr>"
  let ?s3 = "?s2\<lparr>ls_phase := In_batch [], ls_committed := [r]\<rparr>"
  have 1: "consumer_step grp dlq h ?s0 ?s1" by (rule poll) (simp add: consumer_start_def)
  have 2: "consumer_step grp dlq h ?s1 ?s2" by (rule settle) (use assms in \<open>simp_all add: consumer_start_def\<close>)
  have 3: "consumer_step grp dlq h ?s2 ?s3"
    by (rule consumer_step.commit [where w = ?q and w' = ?q])
      (simp_all add: consumer_start_def commit_record_def handle_def ext_quiet ret_def)
  note reach = consumer_reach.step [OF consumer_reach.step [OF consumer_reach.step [OF consumer_reach.start 1] 2] 3]
  show ?thesis by (rule exI [of _ ?s3], rule conjI, rule reach) simp
qed

end
