(* ===== verification/Gift_Consumer.thy ===== *)
theory Gift_Consumer
  imports Dedup Realtime Mq_Consumer Gift_Repo
begin

text \<open>
  \<^verbatim>\<open>internal/gift/consumer.go\<close>: the consumer that turns gift events into messages of the room's
  stream, once per event. The handler works over any store of processed events and any
  publisher; the contracts of both are locales, and the handler of the program is the
  instance on the MySQL store and the Centrifugo client.
\<close>

section \<open>The payload\<close>

record realtimeGiftPayload =
  rg_message_id :: string
  rg_order_no :: string
  rg_user_id :: int
  rg_anchor_id :: int
  rg_gift_id :: int
  rg_gift_name :: string
  rg_count :: int
  rg_unit_price :: int
  rg_total_amount :: int

definition gift_payload_fields :: "realtimeGiftPayload fields" where
  "gift_payload_fields =
    [(''message_id'', value_field as_string (\<lambda>x. rg_message_id_update (\<lambda>_. x))),
     (''order_no'', value_field as_string (\<lambda>x. rg_order_no_update (\<lambda>_. x))),
     (''user_id'', value_field as_int64 (\<lambda>x. rg_user_id_update (\<lambda>_. x))),
     (''anchor_id'', value_field as_int64 (\<lambda>x. rg_anchor_id_update (\<lambda>_. x))),
     (''gift_id'', value_field as_int64 (\<lambda>x. rg_gift_id_update (\<lambda>_. x))),
     (''gift_name'', value_field as_string (\<lambda>x. rg_gift_name_update (\<lambda>_. x))),
     (''count'', value_field as_int64 (\<lambda>x. rg_count_update (\<lambda>_. x))),
     (''unit_price'', value_field as_int64 (\<lambda>x. rg_unit_price_update (\<lambda>_. x))),
     (''total_amount'', value_field as_int64 (\<lambda>x. rg_total_amount_update (\<lambda>_. x)))]"

definition zero_gift_payload :: realtimeGiftPayload where
  "zero_gift_payload = \<lparr>rg_message_id = [], rg_order_no = [], rg_user_id = 0, rg_anchor_id = 0, rg_gift_id = 0,
     rg_gift_name = [], rg_count = 0, rg_unit_price = 0, rg_total_amount = 0\<rparr>"

text \<open>\<^verbatim>\<open>(payload, true)\<close> is \<open>Some\<close>.\<close>

definition decodeRealtimeGiftPayload :: "string \<Rightarrow> realtimeGiftPayload option" where
  "decodeRealtimeGiftPayload raw =
     (case unmarshal gift_payload_fields zero_gift_payload raw of
        None \<Rightarrow> None
      | Some p \<Rightarrow>
          if rg_order_no p \<noteq> [] \<and> rg_user_id p > 0 \<and> rg_anchor_id p > 0 \<and> rg_gift_id p > 0
             \<and> rg_gift_name p \<noteq> [] \<and> rg_count p > 0 \<and> rg_unit_price p \<ge> 0 \<and> rg_total_amount p \<ge> 0
          then Some (p\<lparr>rg_message_id := messageID (rg_order_no p)\<rparr>) else None)"

text \<open>\<^verbatim>\<open>json.Marshal(payload)\<close>.\<close>

definition realtime_payload_json :: "realtimeGiftPayload \<Rightarrow> json" where
  "realtime_payload_json p = JObj
     [(''message_id'', JStr (rg_message_id p)), (''order_no'', JStr (rg_order_no p)), (''user_id'', JInt (rg_user_id p)),
      (''anchor_id'', JInt (rg_anchor_id p)), (''gift_id'', JInt (rg_gift_id p)), (''gift_name'', JStr (rg_gift_name p)),
      (''count'', JInt (rg_count p)), (''unit_price'', JInt (rg_unit_price p)), (''total_amount'', JInt (rg_total_amount p))]"

section \<open>The handler\<close>

record 'd ConsumerHandler =
  ch_group :: string
  ch_begin :: "string \<Rightarrow> string \<Rightarrow> int \<Rightarrow> ('d, bool) prog"
  ch_done :: "string \<Rightarrow> string \<Rightarrow> ('d, unit) prog"
  ch_fail :: "string \<Rightarrow> string \<Rightarrow> go_err option \<Rightarrow> ('d, unit) prog"
  ch_publish :: "string \<Rightarrow> json \<Rightarrow> ('d, unit) prog"
  ch_lease :: int

text \<open>The wire event: its data is the encoded payload, a value of type \<^verbatim>\<open>[]byte\<close>.\<close>

definition gift_wire :: "Envelope \<Rightarrow> realtimeGiftPayload \<Rightarrow> Event" where
  "gift_wire e p =
     \<lparr>ev_event_id = EventID e, ev_type = ''gift'', ev_room_id = RoomID e, ev_priority = ''P1'',
      ev_timestamp = unix_milli (CreatedAt e), ev_data = bytes_json (jprint (realtime_payload_json p))\<rparr>"

definition deliver_gift :: "'d ConsumerHandler \<Rightarrow> Envelope \<Rightarrow> ('d, unit) prog" where
  "deliver_gift h e =
     (case (if Payload e = [] then None else decodeRealtimeGiftPayload (Payload e)) of
        None \<Rightarrow>
          let err = Plain ''invalid gift payload'' in
          handle (ch_fail h (ch_group h) (EventID e) (Some err))
            (\<lambda>failErr. fail (errorf_pre ''release invalid gift event'' failErr))
            (\<lambda>_. fail (Permanent err))
      | Some p \<Rightarrow>
          handle (ch_publish h (RoomStream (RoomID e)) (event_json (gift_wire e p)))
            (\<lambda>err. bind (ignore (ch_fail h (ch_group h) (EventID e) (Some err))) (\<lambda>_.
                    fail (errorf_pre ''publish gift realtime'' err)))
            (\<lambda>_. handle (ch_done h (ch_group h) (EventID e))
                   (\<lambda>err. fail (errorf_pre ''mark gift processed'' err)) ret))"

definition gift_envelope_of :: "Record \<Rightarrow> go_err + Envelope" where
  "gift_envelope_of r =
     (case unmarshal_envelope (value_bytes r) of
        None \<Rightarrow> Inl (Permanent (errorf_pre ''decode gift envelope'' json_error))
      | Some e \<Rightarrow>
          (case ValidateRoomEnvelope e of
             Some err \<Rightarrow> Inl (Permanent (errorf_pre ''invalid gift envelope'' err))
           | None \<Rightarrow> if EventType e \<noteq> EventTypeGiftSent then Inl (Permanent (Plain ''invalid gift envelope'')) else Inr e))"

definition Gift_Handle :: "'d ConsumerHandler \<Rightarrow> Record \<Rightarrow> ('d, unit) prog" where
  "Gift_Handle h r =
     bind (lift (gift_envelope_of r)) (\<lambda>e.
     handle (ch_begin h (ch_group h) (EventID e) (ch_lease h))
       (\<lambda>err. fail (if err = Sentinel Dedup_ErrBusy then err else errorf_pre ''begin gift dedup'' err))
       (\<lambda>already. if already then ret () else deliver_gift h e))"

section \<open>Contracts\<close>

text \<open>A publisher: at most the one message is added to what was sent, and success adds it.\<close>

locale publisher =
  fixes publish :: "string \<Rightarrow> json \<Rightarrow> ('d, unit) prog"
    and sent :: "'d \<Rightarrow> 'm list"
    and msg :: "string \<Rightarrow> json \<Rightarrow> 'm"
  assumes publish_sends: "publish c v (d, w) = (Inr (), (d', w')) \<Longrightarrow> sent d' = sent d @ [msg c v]"
    and publish_at_most: "publish c v (d, w) = (r, (d', w')) \<Longrightarrow> sent d' = sent d \<or> sent d' = sent d @ [msg c v]"

locale event_delivery = dedup_store begin_ev done_ev fail_ev handled + publisher publish sent msg
  for begin_ev :: "string \<Rightarrow> string \<Rightarrow> int \<Rightarrow> ('d, bool) prog"
    and done_ev :: "string \<Rightarrow> string \<Rightarrow> ('d, unit) prog"
    and fail_ev :: "string \<Rightarrow> string \<Rightarrow> go_err option \<Rightarrow> ('d, unit) prog"
    and handled :: "'d \<Rightarrow> string \<Rightarrow> string \<Rightarrow> bool"
    and publish :: "string \<Rightarrow> json \<Rightarrow> ('d, unit) prog"
    and sent :: "'d \<Rightarrow> 'm list"
    and msg :: "string \<Rightarrow> json \<Rightarrow> 'm" +
  assumes begin_silent: "begin_ev g e l (d, w) = (x, (d', w')) \<Longrightarrow> sent d' = sent d"
    and done_silent: "done_ev g e (d, w) = (r, (d', w')) \<Longrightarrow> sent d' = sent d"
    and fail_silent: "fail_ev g e c (d, w) = (r, (d', w')) \<Longrightarrow> sent d' = sent d"
    and publish_keeps: "publish c' v (d, w) = (r, (d', w')) \<Longrightarrow> handled d' g e = handled d g e"
begin

definition handler :: "string \<Rightarrow> int \<Rightarrow> 'd ConsumerHandler" where
  "handler grp lease = \<lparr>ch_group = grp, ch_begin = begin_ev, ch_done = done_ev, ch_fail = fail_ev,
     ch_publish = publish, ch_lease = lease\<rparr>"

text \<open>What delivering an event that is not yet processed can do.\<close>

lemma deliver_cases:
  assumes "deliver_gift (handler grp lease) e (d, w) = (r, (d', w'))"
  obtains (invalid) er where "decodeRealtimeGiftPayload (Payload e) = None \<or> Payload e = []"
      and "r = Inl er" and "sent d' = sent d" and "\<And>g i. handled d' g i = handled d g i"
  | (failed) p er where "decodeRealtimeGiftPayload (Payload e) = Some p" and "r = Inl er"
      and "sent d' = sent d \<or> sent d' = sent d @ [msg (RoomStream (RoomID e)) (event_json (gift_wire e p))]"
      and "\<And>g i. handled d g i \<Longrightarrow> handled d' g i"
  | (delivered) p where "decodeRealtimeGiftPayload (Payload e) = Some p" and "r = Inr ()"
      and "sent d' = sent d @ [msg (RoomStream (RoomID e)) (event_json (gift_wire e p))]"
      and "handled d' grp (EventID e)" and "\<And>g i. handled d g i \<Longrightarrow> handled d' g i"
proof (cases "if Payload e = [] then None else decodeRealtimeGiftPayload (Payload e)")
  case None
  with assms obtain x er where "fail_ev grp (EventID e) (Some (Plain ''invalid gift payload'')) (d, w) = (x, (d', w'))"
    and "r = Inl er"
    by (auto simp: deliver_gift_def handler_def handle_eq Let_def)
  with None fail_silent fail_keeps show thesis by (intro invalid [of er]) (auto split: if_splits)
next
  case (Some p)
  obtain x1 d1 w1 where p: "publish (RoomStream (RoomID e)) (event_json (gift_wire e p)) (d, w) = (x1, (d1, w1))"
    by (metis prod.collapse)
  note pk = publish_keeps [OF p] and pm = publish_at_most [OF p]
  show thesis
  proof (cases x1)
    case (Inl er)
    with assms p Some obtain x er' where "fail_ev grp (EventID e) (Some er) (d1, w1) = (x, (d', w'))"
      and "r = Inl er'"
      by (auto simp: deliver_gift_def handler_def handle_eq bind_eq ignore_def split: prod.splits if_splits)
    with Some pk pm fail_silent fail_keeps show thesis by (intro failed [of p er']) (auto split: if_splits)
  next
    case (Inr u)
    then have p': "publish (RoomStream (RoomID e)) (event_json (gift_wire e p)) (d, w) = (Inr (), (d1, w1))"
      using p by simp
    note ps = publish_sends [OF p']
    obtain x2 where q: "done_ev grp (EventID e) (d1, w1) = (x2, (d', w'))"
      and r: "x2 = Inr () \<and> r = Inr () \<or> (\<exists>er. r = Inl er)"
      using assms p Some Inr
      by (auto simp: deliver_gift_def handler_def handle_eq split: if_splits)
    from r show thesis
    proof
      assume "x2 = Inr () \<and> r = Inr ()"
      with Some q ps pk done_silent done_keeps done_handles show thesis
        by (intro delivered [of p]) (auto split: if_splits)
    next
      assume "\<exists>er. r = Inl er"
      then obtain er where "r = Inl er" ..
      with Some q ps pk done_silent done_keeps show thesis by (intro failed [of p er]) (auto split: if_splits)
    qed
  qed
qed

lemma handle_cases:
  assumes "Gift_Handle (handler grp lease) rc (d, w) = (r, (d', w'))"
  obtains (rejected) er where "gift_envelope_of rc = Inl er" and "r = Inl er" and "d' = d"
  | (known) e where "gift_envelope_of rc = Inr e" and "handled d grp (EventID e)" and "r = Inr ()"
      and "sent d' = sent d" and "\<And>g i. handled d' g i = handled d g i"
  | (busy) e er where "gift_envelope_of rc = Inr e" and "r = Inl er"
      and "sent d' = sent d" and "\<And>g i. handled d' g i = handled d g i"
  | (fresh) e d1 w1 where "gift_envelope_of rc = Inr e" and "\<not> handled d grp (EventID e)"
      and "deliver_gift (handler grp lease) e (d1, w1) = (r, (d', w'))"
      and "sent d1 = sent d" and "\<And>g i. handled d1 g i = handled d g i"
proof (cases "gift_envelope_of rc")
  case (Inl er)
  with assms show thesis by (intro rejected) (auto simp: Gift_Handle_def bind_def lift_def)
next
  case (Inr e)
  obtain x d1 w1 where b: "begin_ev grp (EventID e) lease (d, w) = (x, (d1, w1))" by (metis prod.collapse)
  note bk = begin_keeps [OF b] and bs = begin_silent [OF b]
  show thesis
  proof (cases x)
    case (Inl er)
    with assms Inr b bk bs show thesis
      by (intro busy) (auto simp: Gift_Handle_def bind_def lift_def handler_def handle_eq split: if_splits)
  next
    case ans: (Inr answer)
    show thesis
    proof (cases answer)
      case True
      with assms Inr b ans bk bs begin_yes show thesis
        by (intro known) (auto simp: Gift_Handle_def bind_def lift_def handler_def handle_eq)
    next
      case False
      with assms Inr b ans bk bs begin_no show thesis
        by (intro fresh [of e d1 w1]) (auto simp: Gift_Handle_def bind_def lift_def handler_def handle_eq)
    qed
  qed
qed

text \<open>Success means processed; nothing is sent for an event already processed; no call undoes one.\<close>

lemma handle_success:
  assumes "Gift_Handle (handler grp lease) rc (d, w) = (Inr (), (d', w'))"
  shows "\<exists>e. gift_envelope_of rc = Inr e \<and> handled d' grp (EventID e)
    \<and> (if handled d grp (EventID e) then sent d' = sent d
       else \<exists>p. decodeRealtimeGiftPayload (Payload e) = Some p
              \<and> sent d' = sent d @ [msg (RoomStream (RoomID e)) (event_json (gift_wire e p))])"
  using assms
proof (cases rule: handle_cases)
  case (fresh e d1 w1)
  from fresh(3) show ?thesis
    by (cases rule: deliver_cases) (use fresh in auto)
qed auto

lemma handle_monotone:
  assumes "Gift_Handle (handler grp lease) rc (d, w) = (r, (d', w'))" and "handled d g i"
  shows "handled d' g i"
  using assms(1)
proof (cases rule: handle_cases)
  case (fresh e d1 w1)
  from fresh(3) show ?thesis
    by (cases rule: deliver_cases) (use fresh assms(2) in auto)
qed (use assms(2) in auto)

lemma handle_at_most:
  assumes "Gift_Handle (handler grp lease) rc (d, w) = (r, (d', w'))"
  shows "sent d' = sent d \<or> (\<exists>e p. gift_envelope_of rc = Inr e \<and> \<not> handled d grp (EventID e)
    \<and> decodeRealtimeGiftPayload (Payload e) = Some p
    \<and> sent d' = sent d @ [msg (RoomStream (RoomID e)) (event_json (gift_wire e p))])"
  using assms
proof (cases rule: handle_cases)
  case (fresh e d1 w1)
  from fresh(3) show ?thesis
    by (cases rule: deliver_cases) (use fresh in auto)
qed simp_all

lemma handle_known_silent:
  assumes "Gift_Handle (handler grp lease) rc (d, w) = (r, (d', w'))"
    and "gift_envelope_of rc = Inr e" and "handled d grp (EventID e)"
  shows "sent d' = sent d"
  using assms(1) by (cases rule: handle_cases) (use assms(2,3) in auto)

end

section \<open>The program's consumer\<close>

record consumer_world =
  cw_dedup :: dedup_db
  cw_http :: http_log
  cw_kafka :: kafka_log

definition on_dedup :: "(dedup_db, 'a) prog \<Rightarrow> (consumer_world, 'a) prog" where
  "on_dedup = zoom cw_dedup (\<lambda>d s. s\<lparr>cw_dedup := d\<rparr>)"

definition on_http :: "(http_log, 'a) prog \<Rightarrow> (consumer_world, 'a) prog" where
  "on_http = zoom cw_http (\<lambda>d s. s\<lparr>cw_http := d\<rparr>)"

definition on_kafka :: "(kafka_log, 'a) prog \<Rightarrow> (consumer_world, 'a) prog" where
  "on_kafka = zoom cw_kafka (\<lambda>d s. s\<lparr>cw_kafka := d\<rparr>)"

definition Gift_NewConsumerHandler ::
  "(string \<Rightarrow> string) \<Rightarrow> http_server \<Rightarrow> Centrifugo \<Rightarrow> string \<Rightarrow> int \<Rightarrow> consumer_world ConsumerHandler" where
  "Gift_NewConsumerHandler ck server c grp lease =
     \<lparr>ch_group = grp, ch_begin = (\<lambda>g e l. on_dedup (Dedup_Begin ck g e l)), ch_done = (\<lambda>g e. on_dedup (Dedup_Done ck g e)),
      ch_fail = (\<lambda>g e x. on_dedup (Dedup_Fail ck g e x)), ch_publish = (\<lambda>ch v. on_http (Publish server c ch v)),
      ch_lease = lease\<rparr>"

interpretation gift_delivery: event_delivery
  "\<lambda>g e l. on_dedup (Dedup_Begin ck g e l)" "\<lambda>g e. on_dedup (Dedup_Done ck g e)"
  "\<lambda>g e x. on_dedup (Dedup_Fail ck g e x)" "\<lambda>s. processed ck (cw_dedup s)"
  "\<lambda>ch v. on_http (Publish server c ch v)" cw_http "publish_request c"
proof (unfold_locales, goal_cases)
  case (7 ch v d w d' w')
  then show ?case by (auto simp: on_http_def zoom_eq elim: Publish_cases)
next
  case (8 ch v d w r d' w')
  then show ?case by (auto simp: on_http_def zoom_eq elim: Publish_cases)
qed (auto simp: on_dedup_def on_http_def zoom_eq
      intro: mysql_dedup.begin_yes mysql_dedup.done_handles mysql_dedup.done_keeps
      dest: mysql_dedup.begin_no mysql_dedup.begin_keeps mysql_dedup.fail_keeps)

lemma gift_delivery_handler: "gift_delivery.handler ck server c grp lease = Gift_NewConsumerHandler ck server c grp lease"
  by (simp add: gift_delivery.handler_def Gift_NewConsumerHandler_def)

end
