(* ===== verification/Dead_Letters.thy ===== *)
theory Dead_Letters
  imports Mq_Kafka
begin

text \<open>
  What a dead letter keeps: its JSON fits on one line and reads back as the same record of the
  failure, so that the replay produces the original message again.
\<close>

section \<open>A dead letter is one line\<close>

lemma escape_rune_no_controls:
  assumes "s \<noteq> []" and "decode_rune s = (r, n)" and "\<not> (r = rune_error \<and> n = 1)"
  shows "\<forall>c \<in> set (escape_rune (r, take n s)). 32 \<le> byte c"
proof -
  have hex: "32 \<le> byte (hex_digit (m mod 16))" for m
    using of_nat_of_char [of "hex_digit (m mod 16)", where 'a = int, symmetric] by (simp add: hex_digit_def byte_def)
  then have u: "\<forall>c \<in> set (u_escape m). 32 \<le> byte c" for m
    by (auto simp: u_escape_def byte_def backslash_def)
  obtain c cs where s: "s = c # cs" using assms(1) by (cases s) auto
  show ?thesis
  proof (cases "byte c < 128")
    case True
    with assms(2) s have "r = byte c" "take n s = [c]" by auto
    with True u show ?thesis by (auto simp: escape_rune_def byte_def backslash_def dquote_def)
  next
    case False
    from decode_rune_high [of c cs r n "[]"] False assms(2,3) s
    have h: "128 \<le> r" "2 \<le> n" "utf8_encode r = take n s" "n \<le> length s" by auto
    have "32 \<le> byte b" if "b \<in> set (utf8_encode r)" for b
    proof -
      have q: "r \<le> 1114111 \<or> r > 1114111" by linarith
      have "of_char b \<ge> (128 :: int)"
        using that h(1) unfolding utf8_encode_def Let_def
        by (auto simp: rune_error_def of_char_of take_bit_eq_mod split: if_splits)
      then show ?thesis by (simp add: byte_def)
    qed
    with h u show ?thesis by (auto simp: escape_rune_def)
  qed
qed


lemma quote_str_no_controls: "utf8_ok s \<Longrightarrow> \<forall>c \<in> set (quote_str s). 32 \<le> byte c"
proof -
  have "utf8_ok s \<Longrightarrow> \<forall>c \<in> set (concat (map escape_rune (rune_segs s))). 32 \<le> byte c"
  proof (induction s rule: rune_segs.induct)
    case (1 s)
    show ?case
    proof (cases "s = []")
      case False
      obtain r n where d: "decode_rune s = (r, n)" by (cases "decode_rune s")
      have segs: "rune_segs s = (r, take n s) # rune_segs (drop n s)"
        using False d by (simp add: rune_segs_step)
      have "\<not> (r = rune_error \<and> n = 1)" and tl: "utf8_ok (drop n s)"
        using 1(2) False by (auto simp: utf8_ok_def segs neq_Nil_conv)
      with escape_rune_no_controls [OF False d] 1(1) [OF False] d show ?thesis
        by (simp add: segs ball_Un)
    qed simp
  qed
  then show "utf8_ok s \<Longrightarrow> \<forall>c \<in> set (quote_str s). 32 \<le> byte c"
    by (auto simp: quote_str_def dquote_def byte_def)
qed

lemma sep_by_all:
  "\<forall>x \<in> set ts. \<forall>c \<in> set x. P c \<Longrightarrow> \<forall>c \<in> set s. P c \<Longrightarrow> \<forall>c \<in> set (sep_by s ts). P c"
  by (induction s ts rule: sep_by.induct) auto

lemma printable_marks: "\<forall>c \<in> set '',''. 32 \<le> byte c" "32 \<le> byte (CHR ''['')" "32 \<le> byte (CHR '']'')"
    "32 \<le> byte (CHR ''{'')" "32 \<le> byte (CHR ''}'')" "32 \<le> byte (CHR '':'')"
  by (simp_all add: byte_def)

lemma jprint_no_controls: "doc_ok v \<Longrightarrow> \<forall>c \<in> set (jprint v). 32 \<le> byte c"
proof (induction v rule: jprint.induct)
  case (3 n)
  then obtain i where "n = FormatInt i" by (auto simp: int_literal_def split: option.splits)
  then show ?case by (auto dest!: FormatInt_chars simp: byte_def)
next
  case (4 s)
  then show ?case using quote_str_no_controls by simp
next
  case (5 vs)
  then have "\<forall>x \<in> set (map jprint vs). \<forall>c \<in> set x. 32 \<le> byte c" by (auto simp: list_all_iff)
  from sep_by_all [OF this printable_marks(1)] printable_marks show ?case by simp
next
  case (6 fs)
  have "\<forall>x \<in> set (map member_text fs). \<forall>c \<in> set x. 32 \<le> byte c"
    using 6 quote_str_no_controls printable_marks by (auto simp: list_all_iff)
  from sep_by_all [OF this printable_marks(1)] printable_marks show ?case by simp
qed (auto simp: byte_def)

lemma cut_lines_end: "CHR 0x0A \<notin> set s \<Longrightarrow> cut_lines acc (s @ CHR 0x0A # rest) = (rev acc @ s) # cut_lines [] rest"
  by (induction s arbitrary: acc) auto

lemma cut_lines_lines: "\<forall>l \<in> set ls. CHR 0x0A \<notin> set l \<Longrightarrow> cut_lines [] (concat (map (\<lambda>l. l @ [CHR 0x0A]) ls)) = ls"
  by (induction ls) (simp_all add: cut_lines_end)

lemma TrimSpace_head:
  assumes "byte c < 128" and "\<not> is_space (byte c)"
  shows "TrimSpace (c # s) \<noteq> []"
proof -
  let ?P = "\<lambda>seg :: int \<times> string. is_space (fst seg)"
  have "dropWhile ?P (rune_segs (c # s)) = (byte c, [c]) # rune_segs s"
    using assms by (simp add: rune_segs_ascii)
  moreover have "dropWhile ?P (rev ((byte c, [c]) # rune_segs s)) = dropWhile ?P (rev (rune_segs s)) @ [(byte c, [c])]"
    using assms(2) by (auto simp: dropWhile_append)
  ultimately show ?thesis by (simp add: TrimSpace_def)
qed

section \<open>Round trip\<close>

lemma b64_char_ascii: "n < 64 \<Longrightarrow> byte (b64_char url n) < 128"
  using of_nat_of_char [of "b64_char url n", where 'a = int, symmetric] by (auto simp: b64_char_def byte_def)

lemma b64_encode_ascii: "\<forall>c \<in> set (b64_encode url pad s). byte c < 128"
proof (induction url pad s rule: b64_encode.induct)
  case (2 url pad a)
  then show ?case using b64_char_ascii char_sextets(1,2) [of a] by (auto simp: byte_def)
next
  case (3 url pad a b)
  then show ?case using b64_char_ascii char_sextets(1) [of a] char_sextets(3) [of a b] char_sextets(4) [of b] by (auto simp: byte_def)
next
  case (4 url pad a b c r)
  then show ?case
    using b64_char_ascii char_sextets(1) [of a] char_sextets(3) [of a b] char_sextets(5) [of b c] char_sextets(6) [of c]
    by simp
qed simp

lemma b64_encode_doc: "doc_ok (JStr (b64_encode url pad s))"
  using b64_encode_ascii by (simp add: ascii_utf8_ok)

definition dead_ok :: "DeadLetter \<Rightarrow> bool" where
  "dead_ok d \<longleftrightarrow> utf8_ok (SourceTopic d) \<and> utf8_ok (ConsumerGroup d) \<and> utf8_ok (Error d)
     \<and> - 2147483648 \<le> SourcePartition d \<and> SourcePartition d \<le> 2147483647 \<and> is_i64 (SourceOffset d)
     \<and> time_json (FailedAt d) \<noteq> None"

lemma dead_keys_ok:
  "utf8_ok ''source_topic''" "utf8_ok ''source_partition''" "utf8_ok ''source_offset''" "utf8_ok ''consumer_group''"
  "utf8_ok ''key''" "utf8_ok ''value''" "utf8_ok ''error''" "utf8_ok ''failed_at''"
  by (rule ascii_utf8_ok, simp add: byte_def)+

lemma dead_json_ok:
  "dead_ok d \<Longrightarrow> time_json (FailedAt d) = Some t \<Longrightarrow> doc_ok (dead_json d t)"
  by (auto simp: dead_json_def dead_ok_def dead_keys_ok time_json_doc is_i64_def
      b64_encode_doc [unfolded doc_ok.simps] split: option.splits)

lemma unmarshal_marshal_dead:
  assumes "dead_ok d" and "marshal_dead d = Inr raw"
  shows "unmarshal_dead raw = Some d"
proof -
  obtain t where t: "time_json (FailedAt d) = Some t" using assms(1) by (auto simp: dead_ok_def)
  have raw: "raw = jprint (dead_json d t)" using assms(2) t by (simp add: marshal_dead_def)
  note td = time_json_read [OF t] time_json_doc [OF t]
  note d = assms(1) [unfolded dead_ok_def]
  have str: "value_field as_string p (jprint (JStr s)) r = Some (p s r)" if "utf8_ok s" for p s and r :: DeadLetter
    using that by (subst value_field_print) simp_all
  have i: "value_field as_int64 p (jprint (JInt i)) r = Some (p i r)" if "is_i64 i" for p i and r :: DeadLetter
    using that by (subst value_field_print) (simp_all add: ParseInt_FormatInt)
  have i32: "value_field (\<lambda>j. in_range (-2147483648) 2147483647 (as_int64 j)) p (jprint (JInt i)) r = Some (p i r)"
    if "- 2147483648 \<le> i" "i \<le> 2147483647" for p i and r :: DeadLetter
  proof -
    have "is_i64 i" using that by (simp add: is_i64_def)
    with that show ?thesis by (subst value_field_print) (simp_all add: ParseInt_FormatInt in_range_def)
  qed
  have time: "value_field as_time p (jprint t) r = Some (p (FailedAt d) r)" for p and r :: DeadLetter
    using td by (subst value_field_print) simp_all
  have bytes: "bytes_field p (jprint (JStr (b64_encode False True b))) r = Some (p (Some b) r)" for p b and r :: DeadLetter
    using json_parse_print [OF b64_encode_doc, of False True b] by (simp add: bytes_field_def)
  have none: "bytes_field p (jprint JNull) r = Some (p None r)" for p and r :: DeadLetter
    using json_parse_print [of JNull] by (simp add: bytes_field_def)
  show ?thesis
    unfolding unmarshal_dead_def raw dead_json_def
    using d
    by (subst unmarshal_print [OF dead_json_ok [OF assms(1) t, unfolded dead_json_def]],
        cases "Key d = []"; cases "Value d")
      (simp_all add: field_for_def dead_fields_def str i i32 time bytes none del: jprint.simps)
qed

text \<open>The time a record failed at survives, and so does everything the check looks at.\<close>

text \<open>The message a dead letter is written as, and the message it stands for.\<close>

definition letter_of :: "DeadLetter \<Rightarrow> string \<Rightarrow> message" where
  "letter_of d raw = \<lparr>msg_topic = SourceTopic d @ DeadLetterTopicSuffix,
     msg_key = (if Key d = [] then FormatInt (SourcePartition d) @ '':'' @ FormatInt (SourceOffset d) else Key d),
     msg_value = Some raw\<rparr>"

definition original_of :: "DeadLetter \<Rightarrow> message" where
  "original_of d = \<lparr>msg_topic = SourceTopic d, msg_key = Key d, msg_value = Value d\<rparr>"

text \<open>
  A dead letter that can be written and replayed: it passes the writer's check, its texts are
  UTF-8, its partition and offset in the range of their types and the year of its failure in that of
  the time format, and its text is shorter than a line the replay reads.
\<close>

definition replayable :: "DeadLetter \<Rightarrow> bool" where
  "replayable d \<longleftrightarrow> Validate d = None \<and> dead_ok d \<and> (\<exists>raw. marshal_dead d = Inr raw \<and> length raw < max_line)"

lemma write_dead_letter:
  assumes "faults w = []" and "Validate d = None" and "marshal_dead d = Inr raw"
  shows "WriteDeadLetter ProduceRawSync d (log, w) = (Inr (), (log @ [letter_of d raw], w))"
  using assms
  by (simp add: WriteDeadLetter_def ProduceRawSync_def produceSync_def handle_def ext_quiet Let_def ret_def letter_of_def)

lemma dead_line:
  assumes "dead_ok d" and "marshal_dead d = Inr raw"
  shows "CHR 0x0A \<notin> set raw" and "drop_cr raw = raw" and "TrimSpace raw \<noteq> []"
proof -
  obtain t where t: "time_json (FailedAt d) = Some t" using assms(1) by (auto simp: dead_ok_def)
  have raw: "raw = jprint (dead_json d t)" using assms(2) t by (simp add: marshal_dead_def)
  have ctl: "\<forall>c \<in> set raw. 32 \<le> byte c"
    unfolding raw by (rule jprint_no_controls [OF dead_json_ok [OF assms(1) t]])
  then show "CHR 0x0A \<notin> set raw" by (auto simp: byte_def)
  obtain cs where cs: "raw = CHR ''{'' # cs" by (simp add: raw dead_json_def)
  then have "32 \<le> byte (last raw)" using ctl by simp
  then show "drop_cr raw = raw" by (auto simp: drop_cr_def byte_def)
  show "TrimSpace raw \<noteq> []" unfolding cs by (rule TrimSpace_head) (simp_all add: byte_def is_space_def)
qed

lemma replay_line_run:
  assumes "faults w = []" and "dead_ok d" and "Validate d = None" and "marshal_dead d = Inr raw"
  shows "replay_line ProduceRawSync n raw ((log, audits), w) = (Inr d, ((log @ [original_of d], audits), w))"
  using assms unmarshal_marshal_dead [OF assms(2,4)]
  by (simp add: replay_line_def handle_def zoom_def ProduceRawSync_def produceSync_def ext_quiet ret_def original_of_def)

text \<open>A replay of dead letters, one to a line: their messages in order, and an audit line for each.\<close>

lemma replay_lines_run:
  assumes "faults w = []" and "time_json (go_now w) = Some t"
    and "\<forall>(d, raw) \<in> set ps. Validate d = None \<and> dead_ok d \<and> marshal_dead d = Inr raw \<and> length raw < max_line"
  shows "replay_lines ProduceRawSync actor audit n count (map snd ps) ((log, audits), w) =
    (Inr (count + length ps, None), ((log @ map (original_of \<circ> fst) ps,
       audits @ (if audit then map (\<lambda>p. jprint (audit_json actor t (fst p))) ps else [])), w))"
  using assms(3)
proof (induction ps arbitrary: n count log audits)
  case (Cons p ps)
  obtain d raw where p: "p = (d, raw)" by (cases p)
  with Cons.prems have d: "dead_ok d" "Validate d = None" "marshal_dead d = Inr raw" "length raw < max_line" by auto
  have "write_audit actor d ((l, as), w) = (Inr (), ((l, as @ [jprint (audit_json actor t d)]), w))" for l as
    using assms(1,2) by (simp add: write_audit_def bind_def now_def ext_quiet)
  with Cons d show ?case
    using replay_line_run [OF assms(1) d(1-3)] dead_line [OF d(1,3)]
    by (cases audit) (simp_all add: p handle_def Let_def del: jprint.simps)
qed (simp add: ret_def)

section \<open>Properties\<close>

text \<open>
  The consumer's dead letter for a record, for a concrete time.
\<close>

definition dead_of :: "string \<Rightarrow> Record \<Rightarrow> go_err \<Rightarrow> int \<Rightarrow> DeadLetter" where
  "dead_of grp r cause t =
     \<lparr>SourceTopic = rec_topic r, SourcePartition = rec_partition r, SourceOffset = rec_offset r,
      ConsumerGroup = grp, Key = rec_key r, Value = rec_value r, Error = take 2048 (error_text cause), FailedAt = t\<rparr>"

lemma NewDeadLetter_eq: "NewDeadLetter grp r (Some cause) (d, w) = (Inr (dead_of grp r cause (go_now w)), (d, w))"
  by (simp add: NewDeadLetter_def dead_of_def Let_def bind_def now_def ret_def)

text \<open>The dead letters of permanently failed records, and the text their topic is exported to.\<close>

definition write_letters :: "string \<Rightarrow> (Record \<times> go_err) list \<Rightarrow> (kafka_log, unit list) prog" where
  "write_letters grp = map_prog (\<lambda>(r, cause). bind (NewDeadLetter grp r (Some cause)) (WriteDeadLetter ProduceRawSync))"

definition dlq_export :: "message list \<Rightarrow> string" where
  "dlq_export ms = concat (map (\<lambda>m. (case msg_value m of None \<Rightarrow> [] | Some v \<Rightarrow> v) @ [CHR 0x0A]) ms)"

definition letter_for :: "Record \<Rightarrow> message \<Rightarrow> bool" where
  "letter_for r m \<longleftrightarrow> msg_topic m = rec_topic r @ DeadLetterTopicSuffix
     \<and> msg_key m = (if rec_key r = [] then FormatInt (rec_partition r) @ '':'' @ FormatInt (rec_offset r) else rec_key r)"

definition text_of :: "DeadLetter \<Rightarrow> string" where
  "text_of d = (case marshal_dead d of Inl e \<Rightarrow> [] | Inr raw \<Rightarrow> raw)"

lemma write_letters_run:
  assumes "faults w = []" and "\<forall>(r, cause) \<in> set rs. replayable (dead_of grp r cause (go_now w))"
  shows "write_letters grp rs (log, w) = (Inr (map (\<lambda>_. ()) rs), (log @ map (\<lambda>(r, cause).
    letter_of (dead_of grp r cause (go_now w)) (text_of (dead_of grp r cause (go_now w)))) rs, w))"
  using assms(2)
proof (induction rs arbitrary: log)
  case (Cons p rs)
  obtain r cause where p: "p = (r, cause)" by (cases p)
  let ?d = "dead_of grp r cause (go_now w)"
  obtain raw where raw: "marshal_dead ?d = Inr raw" "Validate ?d = None" using Cons.prems by (auto simp: p replayable_def)
  show ?case
    using Cons write_dead_letter [OF assms(1) raw(2,1)] raw(1)
    by (simp add: write_letters_def p bind_def NewDeadLetter_eq ret_def text_of_def)
qed (simp add: write_letters_def ret_def)

text \<open>
  C14. Dead letters lose nothing. Without failures of the calls, the messages written for
  permanently failed records go, in order, to their topics' \<^verbatim>\<open>.dlq\<close> topics; and feeding these
  messages, one to a line, to the replay under a named operator produces exactly the original
  records again in the same order: same topic, same key, same value, byte for byte. With an audit
  writer, as the replay command runs it, one audit line is written for each. This holds for
  \<open>replayable\<close> letters, those that pass the writer's check, can be encoded and fit the replay's line buffer.
\<close>

theorem dead_letter_replayed:
  assumes "faults w = []" and "\<forall>(r, cause) \<in> set rs. replayable (dead_of grp r cause (go_now w))"
    and "faults w2 = []" and "time_json (go_now w2) = Some t" and "TrimSpace actor \<noteq> []"
  shows "\<exists>letters. write_letters grp rs (log, w) = (Inr (map (\<lambda>_. ()) rs), (log @ letters, w))
    \<and> list_all2 (\<lambda>(r, cause). letter_for r) rs letters
    \<and> ReplayJSONLines (Some ProduceRawSync) actor audit (dlq_export letters) ((log2, audits), w2) =
       (Inr (length rs, None),
        ((log2 @ map (\<lambda>(r, cause). \<lparr>msg_topic = rec_topic r, msg_key = rec_key r, msg_value = rec_value r\<rparr>) rs,
          audits @ (if audit then map (\<lambda>(r, cause). jprint (audit_json actor t (dead_of grp r cause (go_now w)))) rs else [])), w2))"
proof -
  let ?d = "\<lambda>(r, cause). dead_of grp r cause (go_now w)"
  let ?letters = "map (\<lambda>(r, cause). letter_of (dead_of grp r cause (go_now w)) (text_of (dead_of grp r cause (go_now w)))) rs"
  let ?ps = "map (\<lambda>p. (?d p, text_of (?d p))) rs"
  have ok: "\<forall>(d, raw) \<in> set ?ps. Validate d = None \<and> dead_ok d \<and> marshal_dead d = Inr raw \<and> length raw < max_line"
    using assms(2) by (fastforce simp: replayable_def text_of_def)
  then have "\<forall>l \<in> set (map snd ?ps). CHR 0x0A \<notin> set l" using dead_line(1) by fastforce
  from cut_lines_lines [OF this] have "cut_lines [] (dlq_export ?letters) = map snd ?ps"
    by (simp add: dlq_export_def letter_of_def comp_def split_beta)
  then have "ReplayJSONLines (Some ProduceRawSync) actor audit (dlq_export ?letters) ((log2, audits), w2) =
       (Inr (length rs, None), ((log2 @ map (original_of \<circ> fst) ?ps,
          audits @ (if audit then map (\<lambda>p. jprint (audit_json actor t (fst p))) ?ps else [])), w2))"
    using replay_lines_run [OF assms(3,4) ok] assms(5) by (simp add: ReplayJSONLines_def del: jprint.simps)
  moreover have "map (original_of \<circ> fst) ?ps
      = map (\<lambda>(r, cause). \<lparr>msg_topic = rec_topic r, msg_key = rec_key r, msg_value = rec_value r\<rparr>) rs"
    by (simp add: original_of_def dead_of_def split_beta)
  moreover have "list_all2 (\<lambda>(r, cause). letter_for r) rs ?letters"
    by (auto simp: list_all2_conv_all_nth letter_for_def letter_of_def dead_of_def split_beta)
  ultimately show ?thesis
    using write_letters_run [OF assms(1,2), of log] by (intro exI [of _ ?letters]) (simp add: comp_def split_beta)
qed

definition sample_record :: Record where
  "sample_record = \<lparr>rec_topic = ''gift'', rec_partition = 3, rec_offset = 41, rec_key = ''9'', rec_value = Some ''{''\<rparr>"

definition noon :: io where
  "noon = \<lparr>faults = [], go_now = 1000000000000000000, db_now = 1000000000000000000, rd_now = 1000000000000000000,
           entropy = []\<rparr>"

lemma sample_dead: "Validate (dead_of ''live'' sample_record (Plain ''bad'') (go_now noon)) = None"
  "dead_ok (dead_of ''live'' sample_record (Plain ''bad'') (go_now noon))"
proof -
  have t: "TrimSpace ''gift'' \<noteq> []" "TrimSpace ''live'' \<noteq> []" "TrimSpace ''bad'' \<noteq> []"
    by (rule TrimSpace_head, simp_all add: byte_def is_space_def)+
  then show "Validate (dead_of ''live'' sample_record (Plain ''bad'') (go_now noon)) = None"
    by (simp add: Validate_def dead_of_def sample_record_def noon_def HasSuffix_def DeadLetterTopicSuffix_def zero_time_def)
  have "utf8_ok ''gift''" "utf8_ok ''live''" "utf8_ok ''bad''"
    by (rule ascii_utf8_ok, simp add: byte_def)+
  moreover have "time_json (go_now noon) \<noteq> None"
    by (simp add: time_json_def noon_def year_of_time_def year_of_day_def epoch_day_def days_before_year_def Let_def)
  ultimately show "dead_ok (dead_of ''live'' sample_record (Plain ''bad'') (go_now noon))"
    by (simp add: dead_ok_def dead_of_def sample_record_def is_i64_def)
qed

lemma sample_replayable: "replayable (dead_of ''live'' sample_record (Plain ''bad'') (go_now noon))"
proof -
  have "case marshal_dead (dead_of ''live'' sample_record (Plain ''bad'') (go_now noon)) of
      Inl e \<Rightarrow> False | Inr raw \<Rightarrow> length raw < 300"
    by code_simp
  with sample_dead show ?thesis by (auto simp: replayable_def max_line_def split: sum.splits)
qed

theorem dead_letter_replayed_witness:
  "\<exists>raw t. write_letters ''live'' [(sample_record, Plain ''bad'')] ([], noon) =
       (Inr [()], ([\<lparr>msg_topic = ''gift.dlq'', msg_key = ''9'', msg_value = Some raw\<rparr>], noon))
     \<and> ReplayJSONLines (Some ProduceRawSync) ''ops'' True (raw @ [CHR 0x0A]) (([], []), noon) =
       (Inr (1, None), (([\<lparr>msg_topic = ''gift'', msg_key = ''9'', msg_value = Some ''{''\<rparr>],
          [jprint (audit_json ''ops'' t (dead_of ''live'' sample_record (Plain ''bad'') (go_now noon)))]), noon))"
proof -
  have q: "faults noon = []" by (simp add: noon_def)
  have a: "TrimSpace ''ops'' \<noteq> []" by (rule TrimSpace_head) (simp_all add: byte_def is_space_def)
  have r: "\<forall>(r, cause) \<in> set [(sample_record, Plain ''bad'')]. replayable (dead_of ''live'' r cause (go_now noon))"
    using sample_replayable by simp
  obtain t where t: "time_json (go_now noon) = Some t" using sample_dead(2) by (auto simp: dead_ok_def dead_of_def)
  obtain letters where l: "write_letters ''live'' [(sample_record, Plain ''bad'')] ([], noon) = (Inr [()], (letters, noon))"
    "list_all2 (\<lambda>(r, cause). letter_for r) [(sample_record, Plain ''bad'')] letters"
    "ReplayJSONLines (Some ProduceRawSync) ''ops'' True (dlq_export letters) (([], []), noon) =
       (Inr (1, None), (([\<lparr>msg_topic = ''gift'', msg_key = ''9'', msg_value = Some ''{''\<rparr>],
          [jprint (audit_json ''ops'' t (dead_of ''live'' sample_record (Plain ''bad'') (go_now noon)))]), noon))"
    using dead_letter_replayed [OF q r q t a, of "[]" True "[]" "[]"] by (auto simp: sample_record_def)
  obtain raw where "letters = [letter_of (dead_of ''live'' sample_record (Plain ''bad'') (go_now noon)) raw]"
    using l(1) write_letters_run [OF q r, of "[]"] by auto
  then have "letters = [\<lparr>msg_topic = ''gift.dlq'', msg_key = ''9'', msg_value = Some raw\<rparr>]"
    by (simp add: letter_of_def dead_of_def sample_record_def DeadLetterTopicSuffix_def)
  with l show ?thesis by (intro exI [of _ raw] exI [of _ t]) (simp add: dlq_export_def)
qed

end
