(* ===== verification/Gift_Delivery.thy ===== *)
theory Gift_Delivery
  imports Gift_Ledger Gift_Consumer Dead_Letters
begin

text \<open>
  The way of a gift event from the order to the viewers: the consumer of \<^verbatim>\<open>internal/gift\<close> run
  by the loop of \<^verbatim>\<open>internal/mq\<close> with its dead-letter writer, and the agreement of what
  \<open>Create\<close> writes with what the consumer reads.
\<close>

section \<open>The consumer under the loop\<close>

definition gift_handler ::
  "(string \<Rightarrow> string) \<Rightarrow> http_server \<Rightarrow> Centrifugo \<Rightarrow> string \<Rightarrow> int \<Rightarrow> Record \<Rightarrow> (consumer_world, unit) prog" where
  "gift_handler ck server c grp lease = Gift_Handle (Gift_NewConsumerHandler ck server c grp lease)"

definition gift_dead_letters :: "DeadLetter \<Rightarrow> (consumer_world, unit) prog" where
  "gift_dead_letters = WriteDeadLetter (\<lambda>topic key v. on_kafka (ProduceRawSync topic key v))"

text \<open>A dead letter of the record is in the broker's log.\<close>

definition dead_lettered :: "string \<Rightarrow> kafka_log \<Rightarrow> Record \<Rightarrow> bool" where
  "dead_lettered grp log r \<longleftrightarrow> (\<exists>m \<in> set log. msg_topic m = rec_topic r @ DeadLetterTopicSuffix
     \<and> (\<exists>e t raw. marshal_dead (dead_of grp r e t) = Inr raw \<and> msg_value m = Some raw))"

definition gift_settled :: "(string \<Rightarrow> string) \<Rightarrow> string \<Rightarrow> consumer_world \<Rightarrow> Record \<Rightarrow> bool" where
  "gift_settled ck grp s r \<longleftrightarrow>
     (\<exists>e. gift_envelope_of r = Inr e \<and> processed ck (cw_dedup s) grp (EventID e)) \<or> dead_lettered grp (cw_kafka s) r"

lemma produceSync_cases:
  assumes "produceSync tr topic key v it (log, w) = (r, (log', w'))"
  shows "\<exists>m. msg_topic m = topic \<and> msg_value m = (if it then map_option (\<lambda>raw. InjectTrace raw tr) v else v)
    \<and> (log' = log @ [m] \<or> (log' = log \<and> r \<noteq> Inr ()))"
proof -
  let ?m = "\<lparr>msg_topic = topic, msg_key = key, msg_value = (if it then map_option (\<lambda>raw. InjectTrace raw tr) v else v)\<rparr>"
  have "log' = log @ [?m] \<or> (log' = log \<and> r \<noteq> Inr ())"
    using assms by (auto simp: produceSync_def handle_eq Let_def dest!: ext_D)
  then show ?thesis by (intro exI [of _ ?m]) auto
qed

lemma gift_dead_letter_cases:
  assumes "writeDeadLetter grp (Some gift_dead_letters) r e (s, w) = (x, (s', w'))"
  shows "cw_dedup s' = cw_dedup s" and "set (cw_kafka s) \<subseteq> set (cw_kafka s')"
    and "x = Inr () \<Longrightarrow> dead_lettered grp (cw_kafka s') r"
proof -
  let ?d = "dead_of grp r e (go_now w)"
  from assms have wr: "gift_dead_letters ?d (s, w) = (x, (s', w'))"
    by (simp add: writeDeadLetter_def bind_eq NewDeadLetter_eq)
  have "cw_dedup s' = cw_dedup s \<and> set (cw_kafka s) \<subseteq> set (cw_kafka s') \<and> (x = Inr () \<longrightarrow> dead_lettered grp (cw_kafka s') r)"
  proof (cases "\<exists>raw. Validate ?d = None \<and> marshal_dead ?d = Inr raw")
    case False
    with wr show ?thesis
      by (auto simp: gift_dead_letters_def WriteDeadLetter_def split: option.splits sum.splits)
  next
    case True
    then obtain raw where v: "Validate ?d = None" "marshal_dead ?d = Inr raw" by blast
    with wr obtain key y where "produceSync [] (rec_topic r @ DeadLetterTopicSuffix) key (Some raw) False (cw_kafka s, w)
        = (y, (cw_kafka s', w'))" and s': "cw_dedup s' = cw_dedup s" and xy: "x = Inr () \<longrightarrow> y = Inr ()"
      by (auto simp: gift_dead_letters_def WriteDeadLetter_def handle_eq on_kafka_def zoom_eq ProduceRawSync_def Let_def
          dead_of_def)
    from produceSync_cases [OF this(1)] obtain m where m: "msg_topic m = rec_topic r @ DeadLetterTopicSuffix"
      "msg_value m = Some raw" "cw_kafka s' = cw_kafka s @ [m] \<or> cw_kafka s' = cw_kafka s \<and> y \<noteq> Inr ()" by auto
    moreover have "dead_lettered grp (cw_kafka s @ [m]) r"
      unfolding dead_lettered_def using m(1,2) v(2) by (intro bexI [of _ m]) auto
    ultimately show ?thesis using s' xy by auto
  qed
  then show "cw_dedup s' = cw_dedup s" "set (cw_kafka s) \<subseteq> set (cw_kafka s')"
    "x = Inr () \<Longrightarrow> dead_lettered grp (cw_kafka s') r" by simp_all
qed

lemma gift_handler_kafka:
  assumes "gift_handler ck server c grp lease r (s, w) = (x, (s', w'))"
  shows "cw_kafka s' = cw_kafka s"
proof -
  have "keeps (\<lambda>s'. cw_kafka s' = cw_kafka s) (gift_handler ck server c grp lease r)"
    unfolding gift_handler_def Gift_Handle_def deliver_gift_def Gift_NewConsumerHandler_def Let_def
      on_dedup_def on_http_def
    by (intro keeps_intro) (auto simp: keeps_def zoom_def split: prod.splits option.splits if_splits)
  from keepsD [OF this refl assms] show ?thesis .
qed

lemma dead_lettered_mono: "dead_lettered grp log r \<Longrightarrow> set log \<subseteq> set log' \<Longrightarrow> dead_lettered grp log' r"
  by (auto simp: dead_lettered_def)

interpretation gift_consumer: record_handler
  grp "Some gift_dead_letters" "gift_handler ck server c grp lease" "gift_settled ck grp"
proof (unfold_locales, goal_cases)
  case (1 r d w d' w')
  then show ?case
    using gift_delivery.handle_success [of ck server c grp lease r d w d' w']
    by (auto simp: gift_settled_def gift_handler_def gift_delivery_handler)
next
  case (2 r d w x d' w' r')
  then show ?case
    using gift_delivery.handle_monotone [of ck server c grp lease r d w x d' w'] gift_handler_kafka [OF 2(1)]
    by (auto simp: gift_settled_def gift_handler_def gift_delivery_handler)
next
  case (3 r e d w d' w')
  then show ?case using gift_dead_letter_cases(3) by (auto simp: gift_settled_def)
next
  case (4 r e d w x d' w' r')
  then show ?case
    using gift_dead_letter_cases(1,2) [OF 4(1)] dead_lettered_mono by (auto simp: gift_settled_def)
qed


section \<open>What Create writes, the consumer reads\<close>

text \<open>The message viewers get for an order.\<close>

definition order_payload :: "CreateParams \<Rightarrow> Gift \<Rightarrow> int \<Rightarrow> realtimeGiftPayload" where
  "order_payload p g tot =
     \<lparr>rg_message_id = messageID (p_OrderNo p), rg_order_no = p_OrderNo p, rg_user_id = p_UserID p,
      rg_anchor_id = p_AnchorID p, rg_gift_id = p_GiftID p, rg_gift_name = gift_name g, rg_count = p_Count p,
      rg_unit_price = gift_price g, rg_total_amount = tot\<rparr>"

definition order_presentable :: "CreateParams \<Rightarrow> Gift \<Rightarrow> int \<Rightarrow> bool" where
  "order_presentable p g tot \<longleftrightarrow> p_OrderNo p \<noteq> [] \<and> 0 < p_UserID p \<and> 0 < p_AnchorID p \<and> 0 < p_GiftID p \<and> gift_name g \<noteq> []
     \<and> 0 < p_Count p \<and> 0 \<le> gift_price g \<and> 0 \<le> tot
     \<and> is_i64 (p_UserID p) \<and> is_i64 (p_AnchorID p) \<and> is_i64 (p_GiftID p) \<and> is_i64 (p_Count p)
     \<and> is_i64 (gift_price g) \<and> is_i64 tot"

lemma decode_gift_payload:
  assumes ok: "doc_ok (gift_payload p g tot)" and pr: "order_presentable p g tot"
  shows "decodeRealtimeGiftPayload (jprint (gift_payload p g tot)) = Some (order_payload p g tot)"
proof -
  have str: "value_field as_string q (jprint (JStr s)) r = Some (q s r)" if "utf8_ok s" for q s and r :: realtimeGiftPayload
    using that by (subst value_field_print) simp_all
  have i: "value_field as_int64 q (jprint (JInt i)) r = Some (q i r)" if "is_i64 i" for q i and r :: realtimeGiftPayload
    using that by (subst value_field_print) (simp_all add: ParseInt_FormatInt)
  have u: "utf8_ok (gift_name g)" "utf8_ok (messageID (p_OrderNo p))" "utf8_ok (p_OrderNo p)"
    using ok by (simp_all add: gift_payload_def)
  have "unmarshal gift_payload_fields zero_gift_payload (jprint (gift_payload p g tot)) = Some (order_payload p g tot)"
    unfolding gift_payload_def unmarshal_print [OF ok [unfolded gift_payload_def]]
    using pr u
    by (simp add: order_presentable_def field_for_def gift_payload_fields_def str i zero_gift_payload_def order_payload_def
        del: jprint.simps)
  then show ?thesis
    using pr by (simp add: decodeRealtimeGiftPayload_def order_presentable_def order_payload_def)
qed

lemma gift_envelope_read:
  assumes "envelope_ok (gift_envelope trace p g tot t) (gift_payload p g tot)"
    and "marshal_envelope (gift_envelope trace p g tot t) = Inr raw" and "rec_value r = Some raw"
    and "TrimSpace (p_EventID p) \<noteq> []" and "0 < p_RoomID p" and "t \<noteq> zero_time"
  shows "gift_envelope_of r = Inr ((gift_envelope trace p g tot t)\<lparr>Trace := sort_key fst trace\<rparr>)"
proof -
  have ok: "doc_ok (gift_payload p g tot)" using assms(1) by (simp add: envelope_ok_def)
  have ty: "TrimSpace EventTypeGiftSent \<noteq> []"
    unfolding EventTypeGiftSent_def by (rule TrimSpace_head) (simp_all add: byte_def is_space_def)
  have "jprint (gift_payload p g tot) \<noteq> []" using jprint_not_Nil [OF ok] .
  moreover have "json_valid (jprint (gift_payload p g tot))" using json_parse_print [OF ok] by (simp add: json_valid_def)
  ultimately show ?thesis
    using unmarshal_marshal_envelope [OF assms(1,2)] assms(3-6) ty
    by (simp add: gift_envelope_of_def value_bytes_def ValidateRoomEnvelope_def gift_envelope_def)
qed


section \<open>A delivery without failures\<close>

lemma Dedup_Begin_new:
  assumes "faults w = []" and "db (ck g, ck e) = None"
  shows "\<exists>row. Dedup_Begin ck g e lease (db, w) = (Inr False, (db((ck g, ck e) \<mapsto> row), w)) \<and> pe_status row = 0"
  unfolding Dedup_Begin_def
  by (rule exI, rule conjI, rule in_tx_quiet)
    (use assms in \<open>auto simp: bind_def dedup_stmts read_ext_quiet ext_quiet ret_def\<close>)

lemma Dedup_Done_open:
  assumes "faults w = []" and "db (ck g, ck e) = Some row" and "pe_status row = 0"
  shows "\<exists>row'. Dedup_Done ck g e (db, w) = (Inr (), (db((ck g, ck e) \<mapsto> row'), w)) \<and> pe_status row' = 1"
proof -
  let ?row' = "row\<lparr>pe_status := 1, pe_processed_at := Some (NOW3 w), pe_locked_at := None, pe_last_error := None\<rparr>"
  have "?row' \<noteq> row" using assms(3) by (cases row) simp
  then have "Dedup_Done ck g e (db, w) = (Inr (), (db((ck g, ck e) \<mapsto> ?row'), w))"
    unfolding Dedup_Done_def
    by (intro in_tx_quiet) (use assms in \<open>simp_all add: bind_def proc_update_def ext_quiet ret_def\<close>)
  then show ?thesis by (intro exI [of _ ?row']) simp
qed

text \<open>
  A realtime server that takes every publication: it answers 200 with the body its documentation
  and \<^verbatim>\<open>centrifugo_test.go\<close> give for success, an object whose one member is \<^verbatim>\<open>result\<close>.
\<close>

definition takes_all :: "http_server \<Rightarrow> bool" where
  "takes_all server \<longleftrightarrow> (\<forall>log rq. \<exists>v. server log rq = (200, jprint (JObj [(''result'', v)]))
     \<and> doc_ok v \<and> length (jprint (JObj [(''result'', v)])) \<le> 1048576)"

lemma result_no_error:
  assumes "doc_ok v"
  shows "publishResponse (jprint (JObj [(''result'', v)])) = Some None"
proof -
  have "utf8_ok ''result''" by (rule ascii_utf8_ok) (simp add: byte_def)
  then have ok: "doc_ok (JObj [(''result'', v)])" using assms by simp
  have "json_fold ''error'' \<noteq> json_fold ''result''"
    by (simp add: json_fold_def runes_def rune_segs_ascii byte_def)
  then show ?thesis
    unfolding publishResponse_def unmarshal_print [OF ok]
    by (simp add: field_for_def publishResponse_fields_def del: jprint.simps)
qed

lemma Publish_quiet:
  assumes "faults w = []" and "takes_all server"
  shows "Publish server c ch v (log, w) = (Inr (), (log @ [publish_request c ch v], w))"
proof -
  obtain r where r: "server log (publish_request c ch v) = (200, jprint (JObj [(''result'', r)]))" "doc_ok r"
    "length (jprint (JObj [(''result'', r)])) \<le> 1048576"
    using assms(2) unfolding takes_all_def by blast
  show ?thesis
    using assms(1) r(1,3) result_no_error [OF r(2)]
    by (simp add: Publish_def handle_def http_do_def ext_quiet api_answer_def read_body_def read_ext_quiet ret_def
        del: jprint.simps)
qed

lemma gift_handler_quiet:
  assumes "faults w = []" and "gift_envelope_of r = Inr e" and "cw_dedup s (ck grp, ck (EventID e)) = None"
    and "Payload e \<noteq> []" and "decodeRealtimeGiftPayload (Payload e) = Some p"
    and "takes_all server"
  shows "\<exists>s'. gift_handler ck server c grp lease r (s, w) = (Inr (), (s', w))
    \<and> processed ck (cw_dedup s') grp (EventID e)
    \<and> cw_http s' = cw_http s @ [publish_request c (RoomStream (RoomID e)) (event_json (gift_wire e p))]"
proof -
  obtain row where b: "Dedup_Begin ck grp (EventID e) lease (cw_dedup s, w)
      = (Inr False, ((cw_dedup s)((ck grp, ck (EventID e)) \<mapsto> row), w))" "pe_status row = 0"
    using Dedup_Begin_new [of w "cw_dedup s" ck grp "EventID e" lease] assms(1,3) by blast
  obtain row' where d: "Dedup_Done ck grp (EventID e) ((cw_dedup s)((ck grp, ck (EventID e)) \<mapsto> row), w)
      = (Inr (), ((cw_dedup s)((ck grp, ck (EventID e)) \<mapsto> row, (ck grp, ck (EventID e)) \<mapsto> row'), w))" "pe_status row' = 1"
    using Dedup_Done_open [of w "(cw_dedup s)((ck grp, ck (EventID e)) \<mapsto> row)" ck grp "EventID e" row] assms(1) b(2)
    by auto
  note p = Publish_quiet [OF assms(1,6), of c "RoomStream (RoomID e)" "event_json (gift_wire e p)" "cw_http s"]
  let ?db = "(cw_dedup s)((ck grp, ck (EventID e)) \<mapsto> row, (ck grp, ck (EventID e)) \<mapsto> row')"
  let ?log = "cw_http s @ [publish_request c (RoomStream (RoomID e)) (event_json (gift_wire e p))]"
  have "gift_handler ck server c grp lease r (s, w) = (Inr (), (s\<lparr>cw_dedup := ?db, cw_http := ?log\<rparr>, w))"
    using assms(2,4,5) b(1) d(1) p
    by (simp add: gift_handler_def Gift_Handle_def Gift_NewConsumerHandler_def bind_def lift_def handle_def on_dedup_def
        on_http_def zoom_def deliver_gift_def ret_def)
  moreover have "processed ck ?db grp (EventID e)" using d(2) by (simp add: processed_def)
  ultimately show ?thesis by auto
qed

section \<open>A concrete consumer\<close>

definition idle_world :: consumer_world where
  "idle_world = \<lparr>cw_dedup = (\<lambda>_. None), cw_http = [], cw_kafka = []\<rparr>"

definition ok_server :: http_server where
  "ok_server log rq = (200, jprint (JObj [(''result'', JObj [])]))"

lemma ok_server_takes_all: "takes_all ok_server"
proof -
  have "doc_ok (JObj [])" "length (jprint (JObj [(''result'', JObj [])])) \<le> 1048576"
    by (simp_all add: quote_str_def rune_segs_ascii byte_def escape_rune_def rune_error_def)
  then show ?thesis unfolding takes_all_def ok_server_def by blast
qed

definition sample_centrifugo :: Centrifugo where
  "sample_centrifugo = NewCentrifugo ''http://c/api'' ''key''"

abbreviation sample_event :: Envelope where
  "sample_event \<equiv> gift_envelope [] sample_request sample_gift 200 (go_now noon)"

lemma sample_event_ok: "envelope_ok sample_event (gift_payload sample_request sample_gift 200)"
proof -
  have "doc_ok (gift_payload sample_request sample_gift 200)"
    using sample_encodable by (simp add: event_encodable_def sample_gift_def sample_request_def)
  moreover have "utf8_ok (p_EventID sample_request)" "utf8_ok EventTypeGiftSent"
    by (rule ascii_utf8_ok, simp add: byte_def sample_request_def EventTypeGiftSent_def)+
  moreover have "time_json (go_now noon) \<noteq> None" using sample_dead(2) by (simp add: dead_ok_def dead_of_def)
  ultimately show ?thesis
    by (simp add: envelope_ok_def gift_envelope_def sample_request_def is_i64_def)
qed

lemma sample_presentable: "order_presentable sample_request sample_gift 200"
  by (simp add: order_presentable_def sample_request_def sample_gift_def is_i64_def)

lemma sample_event_plain: "TrimSpace (p_EventID sample_request) \<noteq> []" "0 < p_RoomID sample_request" "go_now noon \<noteq> zero_time"
  unfolding sample_request_def noon_def zero_time_def
  by (simp_all, rule TrimSpace_head) (simp_all add: byte_def is_space_def)

lemma sample_event_text: "\<exists>raw. marshal_envelope sample_event = Inr raw"
  using sample_event_ok marshal_envelope_print by (auto simp: envelope_ok_def)

lemma sample_event_handled:
  "\<exists>raw s'. marshal_envelope sample_event = Inr raw
     \<and> gift_envelope_of (sample_record\<lparr>rec_value := Some raw\<rparr>) = Inr (sample_event\<lparr>Trace := sort_key fst []\<rparr>)
     \<and> gift_handler id ok_server sample_centrifugo ''live'' 0 (sample_record\<lparr>rec_value := Some raw\<rparr>) (idle_world, noon) = (Inr (), (s', noon))"
proof -
  obtain raw where raw: "marshal_envelope sample_event = Inr raw" using sample_event_text by blast
  let ?r = "sample_record\<lparr>rec_value := Some raw\<rparr>"
  let ?e = "sample_event\<lparr>Trace := sort_key fst []\<rparr>"
  have e: "gift_envelope_of ?r = Inr ?e" by (rule gift_envelope_read [OF sample_event_ok raw _ sample_event_plain]) simp
  have ok: "doc_ok (gift_payload sample_request sample_gift 200)" using sample_event_ok by (simp add: envelope_ok_def)
  have f: "EventID ?e = ''ev''" "Payload ?e = jprint (gift_payload sample_request sample_gift 200)"
    by (simp_all add: gift_envelope_def sample_request_def)
  have q: "faults noon = []" by (simp add: noon_def)
  have n: "cw_dedup idle_world (id ''live'', id (EventID ?e)) = None" by (simp add: idle_world_def)
  have "Payload ?e \<noteq> []" "decodeRealtimeGiftPayload (Payload ?e) = Some (order_payload sample_request sample_gift 200)"
    using jprint_not_Nil [OF ok] decode_gift_payload [OF ok sample_presentable] f by simp_all
  from gift_handler_quiet [OF q e n this ok_server_takes_all, of sample_centrifugo 0] raw e show ?thesis by blast
qed

section \<open>Properties\<close>

text \<open>
  C8. A gift event is published until a call has recorded it, and never after. Every call of the
  consumer, whatever fails, publishes nothing or the one message of the event, to the stream of
  its room, and the latter only for an event not yet recorded as processed. A call that succeeds
  leaves the event recorded, and published the message unless it was recorded before; a record is
  never lost, and the redelivery of a recorded event publishes nothing. A call that published and
  then failed to record is the case in which viewers may get the message again.
\<close>

theorem gift_event_published_until_recorded:
  assumes "gift_handler ck server c grp lease r (s, w) = (x, (s', w'))"
  shows "(x = Inr () \<longrightarrow> (\<exists>e. gift_envelope_of r = Inr e \<and> processed ck (cw_dedup s') grp (EventID e)
           \<and> (if processed ck (cw_dedup s) grp (EventID e) then cw_http s' = cw_http s
              else \<exists>p. decodeRealtimeGiftPayload (Payload e) = Some p
                     \<and> cw_http s' = cw_http s @ [publish_request c (RoomStream (RoomID e)) (event_json (gift_wire e p))])))
    \<and> (cw_http s' = cw_http s \<or> (\<exists>e p. gift_envelope_of r = Inr e \<and> \<not> processed ck (cw_dedup s) grp (EventID e)
           \<and> decodeRealtimeGiftPayload (Payload e) = Some p
           \<and> cw_http s' = cw_http s @ [publish_request c (RoomStream (RoomID e)) (event_json (gift_wire e p))]))
    \<and> (\<forall>g i. processed ck (cw_dedup s) g i \<longrightarrow> processed ck (cw_dedup s') g i)
    \<and> (\<forall>e. gift_envelope_of r = Inr e \<longrightarrow> processed ck (cw_dedup s) grp (EventID e) \<longrightarrow> cw_http s' = cw_http s)"
proof -
  note h = assms [unfolded gift_handler_def gift_delivery_handler [symmetric]]
  show ?thesis
    using gift_delivery.handle_success [of ck server c grp lease r s w s' w'] gift_delivery.handle_monotone [OF h]
      gift_delivery.handle_known_silent [OF h] gift_delivery.handle_at_most [OF h] h
    by blast
qed

text \<open>The first delivery publishes the message, the second one nothing.\<close>

theorem gift_event_published_until_recorded_witness:
  "\<exists>raw s1 s2 x w2. marshal_envelope sample_event = Inr raw
     \<and> gift_handler id ok_server sample_centrifugo ''live'' 0 (sample_record\<lparr>rec_value := Some raw\<rparr>) (idle_world, noon) = (Inr (), (s1, noon))
     \<and> processed id (cw_dedup s1) ''live'' ''ev'' \<and> length (cw_http s1) = 1
     \<and> gift_handler id ok_server sample_centrifugo ''live'' 0 (sample_record\<lparr>rec_value := Some raw\<rparr>) (s1, noon) = (x, (s2, w2))
     \<and> cw_http s2 = cw_http s1 \<and> processed id (cw_dedup s2) ''live'' ''ev''"
proof -
  obtain raw s1 where raw: "marshal_envelope sample_event = Inr raw"
    and e: "gift_envelope_of (sample_record\<lparr>rec_value := Some raw\<rparr>) = Inr (sample_event\<lparr>Trace := sort_key fst []\<rparr>)"
    and h: "gift_handler id ok_server sample_centrifugo ''live'' 0 (sample_record\<lparr>rec_value := Some raw\<rparr>) (idle_world, noon) = (Inr (), (s1, noon))"
    using sample_event_handled by blast
  let ?r = "sample_record\<lparr>rec_value := Some raw\<rparr>"
  have i: "EventID (sample_event\<lparr>Trace := sort_key fst []\<rparr>) = ''ev''" by (simp add: gift_envelope_def sample_request_def)
  have fresh: "\<not> processed id (cw_dedup idle_world) ''live'' ''ev''" by (simp add: processed_def idle_world_def)
  obtain x s2 w2 where h2: "gift_handler id ok_server sample_centrifugo ''live'' 0 ?r (s1, noon) = (x, (s2, w2))"
    by (metis prod.collapse)
  have p1: "processed id (cw_dedup s1) ''live'' ''ev''" "length (cw_http s1) = 1"
    using gift_event_published_until_recorded [OF h] e i fresh by (auto simp: idle_world_def)
  with gift_event_published_until_recorded [OF h2] e i have "cw_http s2 = cw_http s1" "processed id (cw_dedup s2) ''live'' ''ev''"
    by auto
  with raw h h2 p1 show ?thesis by blast
qed

text \<open>
  C10. Offsets are committed only for settled records. However often the broker redelivers,
  wherever calls fail and whenever the loop is cancelled: for every record whose offset was
  committed, its gift event is marked as processed or a dead letter that preserves it is in the
  broker's log; and the records are committed in the order they were fetched, none skipped.
\<close>

theorem gift_offsets_settled:
  assumes "consumer_reach grp (Some gift_dead_letters) (gift_handler ck server c grp lease) (consumer_start d) s"
  shows "(\<forall>r \<in> set (ls_committed s). gift_settled ck grp (ls_data s) r)
    \<and> (\<exists>rest. ls_fetched s = ls_committed s @ rest)"
  using gift_consumer.reach_settled [OF assms] consumer_reach_in_order [OF assms] by (auto simp: in_order_def)

lemma sample_poison:
  "\<exists>s. consumer_reach ''live'' (Some gift_dead_letters) (gift_handler id ok_server sample_centrifugo ''live'' 0)
     (consumer_start idle_world) s \<and> ls_committed s = [sample_record]"
proof -
  let ?h = "gift_handler id ok_server sample_centrifugo ''live'' 0"
  have bad: "gift_envelope_of sample_record = Inl (Permanent (errorf_pre ''decode gift envelope'' json_error))"
    by (simp add: gift_envelope_of_def sample_record_def value_bytes_def unmarshal_envelope_def unmarshal_def json_parse_def
        expect_def HasPrefix_def byte_def eval_nat_numeral
        Let_def dquote_def)
  obtain raw where m: "marshal_dead (dead_of ''live'' sample_record (Permanent (errorf_pre ''decode gift envelope'' json_error)) (go_now noon)) = Inr raw"
    using sample_dead(2) by (auto simp: marshal_dead_def dead_of_def dead_ok_def)
  have v: "Validate (dead_of ''live'' sample_record (Permanent (errorf_pre ''decode gift envelope'' json_error)) (go_now noon)) = None"
  proof -
    have "TrimSpace (take 2048 (error_text (Permanent (errorf_pre ''decode gift envelope'' json_error)))) \<noteq> []"
      unfolding Permanent_def errorf_pre_def error_text.simps append.simps take_Suc_Cons
        take_Cons_numeral by (rule TrimSpace_head) (simp_all add: byte_def is_space_def)
    with sample_dead(1) show ?thesis by (simp add: Validate_def dead_of_def split: if_splits)
  qed
  have "\<exists>d. attempt_record ''live'' (Some gift_dead_letters) ?h sample_record (idle_world, noon) = (Inr Dead_lettered, (d, noon))"
    using bad m v
    by (simp add: attempt_record_def gift_handler_def Gift_Handle_def handle_def bind_def lift_def writeDeadLetter_def
        NewDeadLetter_eq gift_dead_letters_def WriteDeadLetter_def Let_def on_kafka_def zoom_def ProduceRawSync_def
        produceSync_def ext_quiet noon_def ret_def)
  then obtain d where a: "attempt_record ''live'' (Some gift_dead_letters) ?h sample_record (idle_world, noon) = (Inr Dead_lettered, (d, noon))" ..
  from single_commit [OF a] show ?thesis by auto
qed

text \<open>A record that is no event ends as a dead letter, an event is published; both are committed.\<close>

theorem gift_offsets_settled_witness:
  "(\<exists>s. consumer_reach ''live'' (Some gift_dead_letters) (gift_handler id ok_server sample_centrifugo ''live'' 0) (consumer_start idle_world) s
      \<and> ls_committed s = [sample_record] \<and> gift_settled id ''live'' (ls_data s) sample_record)
   \<and> (\<exists>raw s. marshal_envelope sample_event = Inr raw
      \<and> consumer_reach ''live'' (Some gift_dead_letters) (gift_handler id ok_server sample_centrifugo ''live'' 0) (consumer_start idle_world) s
      \<and> ls_committed s = [sample_record\<lparr>rec_value := Some raw\<rparr>]
      \<and> gift_settled id ''live'' (ls_data s) (sample_record\<lparr>rec_value := Some raw\<rparr>))"
proof (rule conjI)
  obtain s where s: "consumer_reach ''live'' (Some gift_dead_letters) (gift_handler id ok_server sample_centrifugo ''live'' 0)
     (consumer_start idle_world) s" "ls_committed s = [sample_record]"
    using sample_poison by blast
  with gift_offsets_settled [OF s(1)] show "\<exists>s. consumer_reach ''live'' (Some gift_dead_letters)
      (gift_handler id ok_server sample_centrifugo ''live'' 0) (consumer_start idle_world) s
      \<and> ls_committed s = [sample_record] \<and> gift_settled id ''live'' (ls_data s) sample_record"
    by (intro exI [of _ s]) simp
next
  obtain raw s' where raw: "marshal_envelope sample_event = Inr raw"
    and h: "gift_handler id ok_server sample_centrifugo ''live'' 0 (sample_record\<lparr>rec_value := Some raw\<rparr>) (idle_world, noon) = (Inr (), (s', noon))"
    using sample_event_handled by blast
  let ?r = "sample_record\<lparr>rec_value := Some raw\<rparr>"
  have "attempt_record ''live'' (Some gift_dead_letters) (gift_handler id ok_server sample_centrifugo ''live'' 0) ?r (idle_world, noon)
      = (Inr Handled, (s', noon))"
    using h by (simp add: attempt_record_def handle_def ret_def)
  from single_commit [OF this] obtain s where s: "consumer_reach ''live'' (Some gift_dead_letters)
      (gift_handler id ok_server sample_centrifugo ''live'' 0) (consumer_start idle_world) s" "ls_committed s = [?r]"
    by auto
  with gift_offsets_settled [OF s(1)] raw show "\<exists>raw s. marshal_envelope sample_event = Inr raw
      \<and> consumer_reach ''live'' (Some gift_dead_letters) (gift_handler id ok_server sample_centrifugo ''live'' 0) (consumer_start idle_world) s
      \<and> ls_committed s = [sample_record\<lparr>rec_value := Some raw\<rparr>]
      \<and> gift_settled id ''live'' (ls_data s) (sample_record\<lparr>rec_value := Some raw\<rparr>)"
    by (intro exI [of _ raw] exI [of _ s]) simp
qed

text \<open>
  From the order to the viewers. The event that \<open>Create\<close> queues for an order is accepted by
  the consumer when it is delivered for the first time; the consumer publishes one message to the
  stream of the order's room, marks the event as processed and reports success. The message
  holds the payload of the order as base64 text.
\<close>

theorem gift_order_reaches_room:
  assumes "marshal_envelope (gift_envelope trace p g tot t) = Inr raw" and "rec_value r = Some raw"
    and "envelope_ok (gift_envelope trace p g tot t) (gift_payload p g tot)" and "order_presentable p g tot"
    and "TrimSpace (p_EventID p) \<noteq> []" and "0 < p_RoomID p" and "t \<noteq> zero_time"
    and "faults w = []" and "cw_dedup s (ck grp, ck (p_EventID p)) = None"
    and "takes_all server"
  shows "\<exists>s'. gift_handler ck server c grp lease r (s, w) = (Inr (), (s', w))
    \<and> processed ck (cw_dedup s') grp (p_EventID p)
    \<and> cw_http s' = cw_http s @ [publish_request c (RoomStream (p_RoomID p)) (JObj
         [(''event_id'', JStr (p_EventID p)), (''type'', JStr ''gift''), (''room_id'', JInt (p_RoomID p)),
          (''priority'', JStr ''P1''), (''timestamp'', JInt (unix_milli t)),
          (''data'', JStr (b64_encode False True (jprint (realtime_payload_json (order_payload p g tot)))))])]"
proof -
  let ?e = "(gift_envelope trace p g tot t)\<lparr>Trace := sort_key fst trace\<rparr>"
  have e: "gift_envelope_of r = Inr ?e" using gift_envelope_read [OF assms(3,1,2,5-7)] .
  have ok: "doc_ok (gift_payload p g tot)" using assms(3) by (simp add: envelope_ok_def)
  have f: "EventID ?e = p_EventID p" "RoomID ?e = p_RoomID p" "CreatedAt ?e = t" "Payload ?e = jprint (gift_payload p g tot)"
    by (simp_all add: gift_envelope_def)
  have "Payload ?e \<noteq> []" using jprint_not_Nil [OF ok] f by simp
  from gift_handler_quiet [OF assms(8) e _ this, of s ck grp "order_payload p g tot" server c lease]
    decode_gift_payload [OF ok assms(4)] assms(9,10)
  show ?thesis by (simp only: f gift_wire_def event_json_def bytes_json_def) simp
qed


theorem gift_order_reaches_room_witness:
  "\<exists>raw s'. gift_handler id ok_server sample_centrifugo ''live'' 0 (sample_record\<lparr>rec_value := Some raw\<rparr>) (idle_world, noon)
     = (Inr (), (s', noon)) \<and> processed id (cw_dedup s') ''live'' ''ev'' \<and> length (cw_http s') = 1"
proof -
  obtain raw where raw: "marshal_envelope sample_event = Inr raw" using sample_event_text by blast
  have q: "faults noon = []" by (simp add: noon_def)
  have n: "cw_dedup idle_world (id ''live'', id (p_EventID sample_request)) = None" by (simp add: idle_world_def)
  from gift_order_reaches_room [where ck = id and grp = "''live''" and s = idle_world, OF raw _ sample_event_ok
      sample_presentable sample_event_plain q n ok_server_takes_all,
      of "sample_record\<lparr>rec_value := Some raw\<rparr>" sample_centrifugo 0]
  show ?thesis by (intro exI [of _ raw]) (auto simp: idle_world_def sample_request_def)
qed

end
