(* ===== verification/Outbox.thy ===== *)
theory Outbox
  imports Commerce_Schema Mq_Kafka
begin

text \<open>
  \<^verbatim>\<open>internal/outbox\<close>: workers claim due events of the outbox table, produce them to the broker
  and mark them. The table is the one of the commerce database; \<open>js\<close> is the text the server
  returns for a JSON column, and \<open>span\<close> the trace entries the producer's span writes for a
  given parent trace.
\<close>

section \<open>The repository\<close>

record outbox_event =
  oe_id :: int
  oe_event_id :: string
  oe_aggregate_type :: string
  oe_aggregate_id :: string
  oe_event_type :: string
  oe_topic :: string
  oe_partition_key :: string
  oe_payload :: string
  oe_retry_count :: int

definition event_of :: "(string \<Rightarrow> string) \<Rightarrow> outbox_row \<Rightarrow> outbox_event" where
  "event_of js r = \<lparr>oe_id = ob_id r, oe_event_id = ob_event_id r, oe_aggregate_type = ob_aggregate_type r,
     oe_aggregate_id = ob_aggregate_id r, oe_event_type = ob_event_type r, oe_topic = ob_topic r,
     oe_partition_key = ob_partition_key r, oe_payload = js (ob_payload r), oe_retry_count = ob_retry_count r\<rparr>"

definition claimable :: "int \<Rightarrow> int \<Rightarrow> outbox_row \<Rightarrow> bool" where
  "claimable nw staleBefore r \<longleftrightarrow>
     (ob_status r = 0 \<and> (case ob_next_retry_at r of None \<Rightarrow> True | Some t \<Rightarrow> t \<le> nw))
     \<or> (ob_status r = 2 \<and> (case ob_locked_at r of None \<Rightarrow> False | Some t \<Rightarrow> t < staleBefore))"

definition select_claimable :: "(string \<Rightarrow> string) \<Rightarrow> int \<Rightarrow> int \<Rightarrow> (commerce_db, outbox_event list) prog" where
  "select_claimable js staleBefore n = read_ext (\<lambda>db w. Inr (map (event_of js)
     (take (nat n) (sort_key ob_id (filter (claimable (NOW3 w) (staleBefore div 1000 * 1000)) (outbox_events db))))))"

definition outbox_update :: "(outbox_row \<Rightarrow> bool) \<Rightarrow> (int \<Rightarrow> outbox_row \<Rightarrow> outbox_row) \<Rightarrow> (commerce_db, nat) prog" where
  "outbox_update p f = ext (\<lambda>db w.
     case sql_update p (f (NOW3 w)) (outbox_events db) of
       (n, rows) \<Rightarrow> (Inr n, db\<lparr>outbox_events := rows\<rparr>))"

definition lock_event :: "string \<Rightarrow> outbox_event \<Rightarrow> (commerce_db, unit) prog" where
  "lock_event workerID e =
     bind (outbox_update (\<lambda>r. ob_id r = oe_id e)
       (\<lambda>nw r. r\<lparr>ob_status := 2, ob_locked_by := Some workerID, ob_locked_at := Some nw\<rparr>)) (\<lambda>_. ret ())"

definition Claim :: "(string \<Rightarrow> string) \<Rightarrow> string \<Rightarrow> int \<Rightarrow> int \<Rightarrow> (commerce_db, outbox_event list) prog" where
  "Claim js workerID batch lease =
     (let batch = (if batch \<le> 0 then 100 else batch) in
      in_tx (bind now (\<lambda>t.
        bind (select_claimable js (t - lease) batch) (\<lambda>events.
        if events = [] then ret []
        else bind (each (lock_event workerID) events) (\<lambda>_. ret events)))))"

text \<open>The row is locked by this worker.\<close>

definition held_by :: "(string \<Rightarrow> string) \<Rightarrow> int \<Rightarrow> string \<Rightarrow> outbox_row \<Rightarrow> bool" where
  "held_by ck i workerID r \<longleftrightarrow> ob_id r = i \<and> ob_status r = 2 \<and> map_option ck (ob_locked_by r) = Some (ck workerID)"

definition MarkPublished :: "(string \<Rightarrow> string) \<Rightarrow> int \<Rightarrow> string \<Rightarrow> (commerce_db, unit) prog" where
  "MarkPublished ck i workerID =
     bind (outbox_update (held_by ck i workerID)
       (\<lambda>nw r. r\<lparr>ob_status := 1, ob_published_at := Some nw, ob_locked_by := None, ob_locked_at := None,
               ob_last_error := None\<rparr>)) (\<lambda>n.
     if n \<noteq> 1 then fail (Plain ''outbox publish lock lost'') else ret ())"

definition MarkFailed :: "(string \<Rightarrow> string) \<Rightarrow> int \<Rightarrow> string \<Rightarrow> int \<Rightarrow> go_err option \<Rightarrow> (commerce_db, unit) prog" where
  "MarkFailed ck i workerID retryAfter cause =
     (let msg = (case cause of None \<Rightarrow> [] | Some e \<Rightarrow> take 512 (error_text e)) in
      bind now (\<lambda>t.
      bind (outbox_update (held_by ck i workerID)
        (\<lambda>nw r. r\<lparr>ob_status := 0, ob_retry_count := ob_retry_count r + 1, ob_next_retry_at := Some (datetime3 (t + retryAfter)),
                ob_locked_by := None, ob_locked_at := None, ob_last_error := Some (TrimSpace msg)\<rparr>)) (\<lambda>n.
      if n \<noteq> 1 then fail (Plain ''outbox failure lock lost'') else ret ())))"

definition unpublished :: "commerce_db \<Rightarrow> outbox_row list" where
  "unpublished db = filter (\<lambda>r. ob_status r \<noteq> 1) (outbox_events db)"

definition PendingCount :: "(commerce_db, int) prog" where
  "PendingCount = read_ext (\<lambda>db _. Inr (int (length (unpublished db))))"

text \<open>The count and the age of the oldest, in nanoseconds, never negative.\<close>

definition PendingStats :: "(commerce_db, int \<times> int) prog" where
  "PendingStats = bind (read_ext (\<lambda>db w. Inr (int (length (unpublished db)),
       case unpublished db of
         [] \<Rightarrow> 0
       | r # rs \<Rightarrow> go_quot (NOW3 w - fold (\<lambda>x m. min m (ob_created_at x)) rs (ob_created_at r)) 1000)))
     (\<lambda>(count, micros). ret (count, i64 ((if micros < 0 then 0 else micros) * 1000)))"

section \<open>The publisher\<close>

text \<open>Doubling from one second, capped at five minutes.\<close>

function delay_loop :: "int \<Rightarrow> int \<Rightarrow> int \<Rightarrow> int" where
  "delay_loop i att d = (if i < att \<and> d < 5 * minute then delay_loop (i + 1) att (i64 (d * 2)) else d)"
  by auto
termination by (relation "measure (\<lambda>(i, att, d). nat (att - i))") auto

declare delay_loop.simps [simp del]

definition retryDelay :: "int \<Rightarrow> int" where
  "retryDelay att =
     (let att = (if att < 1 then 1 else att);
          d = delay_loop 1 att second
      in if d > 5 * minute then 5 * minute else d)"

record publisher_world =
  pw_db :: commerce_db
  pw_kafka :: kafka_log

definition on_outbox :: "(commerce_db, 'a) prog \<Rightarrow> (publisher_world, 'a) prog" where
  "on_outbox = zoom pw_db (\<lambda>d s. s\<lparr>pw_db := d\<rparr>)"

definition on_broker :: "(kafka_log, 'a) prog \<Rightarrow> (publisher_world, 'a) prog" where
  "on_broker = zoom pw_kafka (\<lambda>d s. s\<lparr>pw_kafka := d\<rparr>)"

record outbox_publisher =
  op_js :: "string \<Rightarrow> string"
  op_collate :: "string \<Rightarrow> string"
  op_span :: "(string \<times> string) list \<Rightarrow> (string \<times> string) list"
  op_workerID :: string
  op_interval :: int
  op_lease :: int
  op_timeout :: int
  op_batch :: int
  op_metrics :: bool

text \<open>What one event of a claimed batch goes through; errors of marking are only logged.\<close>

definition dispatch_event :: "outbox_publisher \<Rightarrow> outbox_event \<Rightarrow> (publisher_world, unit) prog" where
  "dispatch_event p e =
     handle (on_broker (ProduceSync (op_span p (ContextFromEnvelope [] (oe_payload e)))
               (oe_topic e) (oe_partition_key e) (Some (oe_payload e))))
       (\<lambda>err. ignore (on_outbox (MarkFailed (op_collate p) (oe_id e) (op_workerID p) (retryDelay (oe_retry_count e + 1)) (Some err))))
       (\<lambda>_. ignore (on_outbox (MarkPublished (op_collate p) (oe_id e) (op_workerID p))))"

definition updatePending :: "outbox_publisher \<Rightarrow> (publisher_world, unit) prog" where
  "updatePending p = (if op_metrics p then ignore (on_outbox PendingStats) else ret ())"

definition dispatch :: "outbox_publisher \<Rightarrow> (publisher_world, unit) prog" where
  "dispatch p =
     handle (on_outbox (Claim (op_js p) (op_workerID p) (op_batch p) (op_lease p)))
       (\<lambda>_. updatePending p)
       (\<lambda>events. bind (each (dispatch_event p) events) (\<lambda>_. updatePending p))"

section \<open>The retry delay\<close>

lemma retryDelay_spec: "retryDelay att = min (second * 2 ^ nat (att - 1)) (5 * minute)"
proof -
  have start: "delay_loop 1 a second = delay_loop (0 + 1) a (second * 2 ^ nat 0)" for a by simp
  have unroll: "delay_loop 1 a second = (if a \<le> 9 then second * 2 ^ nat (a - 1) else second * 2 ^ 9)" if "1 \<le> a" for a
  proof -
    have "a = 1 \<or> a = 2 \<or> a = 3 \<or> a = 4 \<or> a = 5 \<or> a = 6 \<or> a = 7 \<or> a = 8 \<or> a = 9 \<or> 10 \<le> a"
      using that by presburger
    then show ?thesis
      by (elim disjE) (simp_all add: delay_loop.simps i64_id is_i64_def)
  qed
  show ?thesis
  proof (cases "att \<le> 1")
    case True
    then show ?thesis by (simp add: retryDelay_def Let_def delay_loop.simps)
  next
    case False
    show ?thesis
    proof (cases "att \<le> 9")
      case True
      with False unroll [of att] show ?thesis by (auto simp: retryDelay_def Let_def min_def)
    next
      case big: False
      have "(2 :: int) ^ 9 \<le> 2 ^ nat (att - 1)" using big by (intro power_increasing) auto
      with big unroll [of att] show ?thesis by (auto simp: retryDelay_def Let_def min_def)
    qed
  qed
qed

end
