(* ===== verification/Outbox_Delivery.thy ===== *)
theory Outbox_Delivery
  imports Outbox Gift_Ledger
begin

text \<open>
  What the outbox promises: no event is marked as published without having been produced, no
  other table changes, a claimed event is not claimed again within its lease, and a run without
  failures publishes the due events in order.
\<close>

section \<open>What the outbox leaves alone\<close>

text \<open>A row without the columns the publisher writes.\<close>

definition static :: "outbox_row \<Rightarrow> outbox_row" where
  "static r = r\<lparr>ob_status := 0, ob_retry_count := 0, ob_next_retry_at := None, ob_locked_by := None, ob_locked_at := None,
     ob_last_error := None, ob_published_at := None\<rparr>"

definition same_but_outbox :: "commerce_db \<Rightarrow> commerce_db \<Rightarrow> bool" where
  "same_but_outbox db0 db \<longleftrightarrow> (\<exists>rows. db = db0\<lparr>outbox_events := rows\<rparr> \<and> map static rows = map static (outbox_events db0))"

lemma same_but_outbox_refl: "same_but_outbox db db"
  by (auto simp: same_but_outbox_def intro: exI [of _ "outbox_events db"])

lemma sql_update_static:
  "(\<And>r. static (f r) = static r) \<Longrightarrow> map static (snd (sql_update p f rows)) = map static rows"
  by (induction rows) (auto simp: sql_update_def)

lemma keeps_outbox_update:
  assumes "\<And>nw r. static (f nw r) = static r"
  shows "keeps (same_but_outbox db0) (outbox_update p f)"
  unfolding outbox_update_def
proof (rule keeps_ext, goal_cases)
  case (1 db w)
  then obtain rows where db: "db = db0\<lparr>outbox_events := rows\<rparr>" "map static rows = map static (outbox_events db0)"
    by (auto simp: same_but_outbox_def)
  obtain n rows' where u: "sql_update p (f (NOW3 w)) (outbox_events db) = (n, rows')" by fastforce
  have "map static rows' = map static rows"
    using sql_update_static [of "f (NOW3 w)" p "outbox_events db"] assms u db by simp
  with db u show ?case by (auto simp: same_but_outbox_def)
qed

lemma keeps_Claim: "keeps (same_but_outbox db0) (Claim js workerID batch lease)"
  unfolding Claim_def Let_def lock_event_def select_claimable_def
  by (intro keeps_in_tx keeps_intro keeps_outbox_update) (simp add: static_def)

lemma keeps_MarkPublished: "keeps (same_but_outbox db0) (MarkPublished ck i workerID)"
  unfolding MarkPublished_def by (intro keeps_intro keeps_outbox_update) (simp add: static_def)

lemma keeps_MarkFailed: "keeps (same_but_outbox db0) (MarkFailed ck i workerID d c)"
  unfolding MarkFailed_def Let_def by (intro keeps_intro keeps_outbox_update) (simp add: static_def)

lemma keeps_PendingStats: "keeps I PendingStats"
  unfolding PendingStats_def by (intro keeps_intro)

lemma keeps_on_outbox: "(\<And>s. I s \<Longrightarrow> keeps (\<lambda>db. I (s\<lparr>pw_db := db\<rparr>)) m) \<Longrightarrow> keeps I (on_outbox m)"
  unfolding on_outbox_def by (rule keeps_zoom) auto

lemma keeps_on_broker: "(\<And>s. I s \<Longrightarrow> keeps (\<lambda>l. I (s\<lparr>pw_kafka := l\<rparr>)) m) \<Longrightarrow> keeps I (on_broker m)"
  unfolding on_broker_def by (rule keeps_zoom) auto

lemma keeps_dispatch_static: "keeps (\<lambda>s. same_but_outbox db0 (pw_db s)) (dispatch p)"
  unfolding dispatch_def dispatch_event_def updatePending_def
  by (intro keeps_intro keeps_on_outbox keeps_on_broker)
    (simp_all add: keeps_Claim keeps_MarkPublished keeps_MarkFailed keeps_PendingStats keeps_const)

lemma same_but_outbox_commerce_ok:
  assumes "same_but_outbox db0 db" and "commerce_ok ck db0"
  shows "commerce_ok ck db"
proof -
  obtain rows where db: "db = db0\<lparr>outbox_events := rows\<rparr>" "map static rows = map static (outbox_events db0)"
    using assms(1) by (auto simp: same_but_outbox_def)
  have "map ob_aggregate_id (filter (\<lambda>e. ob_aggregate_type e = ''GIFT_ORDER'') xs) =
      map ob_aggregate_id (filter (\<lambda>e. ob_aggregate_type e = ''GIFT_ORDER'') (map static xs))" for xs
    by (induction xs) (auto simp: static_def)
  with db(2) have "map ob_aggregate_id (filter (\<lambda>e. ob_aggregate_type e = ''GIFT_ORDER'') rows) =
      map ob_aggregate_id (filter (\<lambda>e. ob_aggregate_type e = ''GIFT_ORDER'') (outbox_events db0))" by metis
  with assms(2) show ?thesis
    by (simp add: db(1) commerce_ok_def ledger_ok_def txs_of_def order_book_ok_def)
qed

section \<open>Published means produced\<close>

text \<open>The message of a row, with some trace written into it.\<close>

definition produced :: "(string \<Rightarrow> string) \<Rightarrow> kafka_log \<Rightarrow> outbox_row \<Rightarrow> bool" where
  "produced js log r \<longleftrightarrow> (\<exists>tr. \<lparr>msg_topic = ob_topic r, msg_key = ob_partition_key r,
     msg_value = Some (InjectTrace (js (ob_payload r)) tr)\<rparr> \<in> set log)"

definition outbox_inv :: "(string \<Rightarrow> string) \<Rightarrow> publisher_world \<Rightarrow> bool" where
  "outbox_inv js s \<longleftrightarrow> distinct (map ob_id (outbox_events (pw_db s)))
     \<and> (\<forall>r \<in> set (outbox_events (pw_db s)). ob_status r = 1 \<longrightarrow> produced js (pw_kafka s) r)"

text \<open>The event was read from the row with its key.\<close>

definition event_matches :: "(string \<Rightarrow> string) \<Rightarrow> outbox_event \<Rightarrow> commerce_db \<Rightarrow> bool" where
  "event_matches js e db \<longleftrightarrow> (\<forall>r \<in> set (outbox_events db). ob_id r = oe_id e \<longrightarrow>
     ob_topic r = oe_topic e \<and> ob_partition_key r = oe_partition_key e \<and> js (ob_payload r) = oe_payload e)"

lemma produced_static: "produced js log r = produced js log (static r)"
  by (simp add: produced_def static_def)

lemma produced_mono: "set log \<subseteq> set log' \<Longrightarrow> produced js log r \<Longrightarrow> produced js log' r"
  unfolding produced_def by blast

lemma static_keys: "map ob_id (map static rows) = map ob_id rows"
  by (simp add: static_def)

lemma same_matches:
  assumes "same_but_outbox db0 db"
  shows "event_matches js e db = event_matches js e db0"
    and "map ob_id (outbox_events db) = map ob_id (outbox_events db0)"
proof -
  obtain rows where db: "db = db0\<lparr>outbox_events := rows\<rparr>" "map static rows = map static (outbox_events db0)"
    using assms by (auto simp: same_but_outbox_def)
  have "event_matches js e (db0\<lparr>outbox_events := xs\<rparr>) = event_matches js e (db0\<lparr>outbox_events := map static xs\<rparr>)" for xs
    by (auto simp: event_matches_def static_def)
  with db show "event_matches js e db = event_matches js e db0"
    by (metis (no_types, lifting) commerce_db.surjective commerce_db.update_convs(5))
  show "map ob_id (outbox_events db) = map ob_id (outbox_events db0)"
    using db static_keys by (metis commerce_db.select_convs(5) commerce_db.surjective commerce_db.update_convs(5))
qed


text \<open>Claims and failures never set the published status; the claimed events match their rows.\<close>

definition not_newly_published :: "commerce_db \<Rightarrow> commerce_db \<Rightarrow> bool" where
  "not_newly_published db0 db \<longleftrightarrow> (\<forall>r \<in> set (outbox_events db). ob_status r = 1 \<longrightarrow> static r \<in> static ` {r \<in> set (outbox_events db0). ob_status r = 1})"

lemma not_newly_refl: "not_newly_published db db"
  by (auto simp: not_newly_published_def)

lemma keeps_unpublished_update:
  assumes "\<And>nw r. static (f nw r) = static r" and "\<And>nw r. p r \<Longrightarrow> ob_status (f nw r) \<noteq> 1"
  shows "keeps (not_newly_published db0) (outbox_update p f)"
  unfolding outbox_update_def
proof (rule keeps_ext, goal_cases)
  case (1 db w)
  then show ?case using assms by (auto simp: not_newly_published_def sql_update_def)
qed

lemma keeps_Claim_unpublished: "keeps (not_newly_published db0) (Claim js workerID batch lease)"
  unfolding Claim_def Let_def lock_event_def select_claimable_def
  by (intro keeps_in_tx keeps_intro keeps_unpublished_update) (simp_all add: static_def)

lemma keeps_MarkFailed_unpublished: "keeps (not_newly_published db0) (MarkFailed ck i workerID d c)"
  unfolding MarkFailed_def Let_def by (intro keeps_intro keeps_unpublished_update) (simp_all add: static_def)

lemma outbox_inv_unpublished:
  assumes "outbox_inv js s" and "same_but_outbox (pw_db s) db" and "not_newly_published (pw_db s) db"
    and "set (pw_kafka s) \<subseteq> set log"
  shows "outbox_inv js (s\<lparr>pw_db := db, pw_kafka := log\<rparr>)"
proof -
  have "produced js log r" if "r \<in> set (outbox_events db)" "ob_status r = 1" for r
  proof -
    from that assms(3) obtain r0 where r0: "static r = static r0" "r0 \<in> set (outbox_events (pw_db s))" "ob_status r0 = 1"
      by (auto simp: not_newly_published_def)
    with assms(1) have "produced js (pw_kafka s) (static r)" by (simp add: outbox_inv_def produced_static [symmetric])
    with assms(4) show ?thesis by (auto simp: produced_def static_def)
  qed
  with assms(1) same_matches(2) [OF assms(2)] show ?thesis by (simp add: outbox_inv_def)
qed

lemma claimed_matches:
  assumes "Claim js workerID batch lease (db, w) = (Inr events, (db', w'))" and "distinct (map ob_id (outbox_events db))"
  shows "\<forall>e \<in> set events. event_matches js e db"
proof -
  have sel: "\<forall>e \<in> set evs. event_matches js e db"
    if "select_claimable js t n (db, w1) = (Inr evs, (d, w2))" for evs t n w1 d w2
  proof -
    from that have "set evs \<subseteq> event_of js ` set (outbox_events db)"
      by (auto simp: select_claimable_def dest!: read_ext_D in_set_takeD)
    moreover have "event_matches js (event_of js r) db" if "r \<in> set (outbox_events db)" for r
      using assms(2) that by (auto simp: event_matches_def event_of_def distinct_map dest: inj_onD)
    ultimately show ?thesis by blast
  qed
  from assms(1) show ?thesis unfolding Claim_def Let_def
  proof (cases rule: in_tx_cases)
    case (committed v w1 w2)
    then have "v = events" by auto
    with committed(2) sel show ?thesis
      by (auto simp: bind_eq now_def split: if_splits)
  qed simp
qed

lemma ProduceSync_cases:
  assumes "ProduceSync tr topic key (Some raw) (log, w) = (r, (log', w'))"
  obtains (sent) "log' = log @ [\<lparr>msg_topic = topic, msg_key = key, msg_value = Some (InjectTrace raw tr)\<rparr>]"
  | (lost) "log' = log" and "r \<noteq> Inr ()"
  using assms by (auto simp: ProduceSync_def produceSync_def handle_eq Let_def dest!: ext_D)

lemma MarkPublished_inv:
  assumes "MarkPublished ck (oe_id e) workerID (db, w) = (r, (db', w'))"
    and "outbox_inv js (\<lparr>pw_db = db, pw_kafka = log\<rparr>)" and "event_matches js e db"
    and "\<lparr>msg_topic = oe_topic e, msg_key = oe_partition_key e, msg_value = Some (InjectTrace (oe_payload e) tr)\<rparr> \<in> set log"
  shows "outbox_inv js (\<lparr>pw_db = db', pw_kafka = log\<rparr>)"
proof -
  let ?f = "\<lambda>nw r. r\<lparr>ob_status := 1, ob_published_at := Some nw, ob_locked_by := None, ob_locked_at := None, ob_last_error := None\<rparr>"
  have same: "same_but_outbox db db'"
    using keepsD [OF keeps_MarkPublished same_but_outbox_refl assms(1)] .
  from assms(1) obtain x where u: "outbox_update (held_by ck (oe_id e) workerID) ?f (db, w) = (x, (db', w'))"
    by (auto simp: MarkPublished_def bind_eq split: if_splits)
  from ext_D [OF u [unfolded outbox_update_def]] have rows: "outbox_events db' = outbox_events db
      \<or> (\<exists>nw. outbox_events db' = map (\<lambda>r. if held_by ck (oe_id e) workerID r then ?f nw r else r) (outbox_events db))"
    by (elim conjE disjE exE) (auto simp: sql_update_def)
  have "produced js log r" if r: "r \<in> set (outbox_events db')" "ob_status r = 1" for r
  proof -
    from rows r consider (old) "r \<in> set (outbox_events db)"
      | (new) r0 nw where "r0 \<in> set (outbox_events db)" "ob_id r0 = oe_id e" "r = ?f nw r0"
      by (auto simp: held_by_def split: if_splits)
    then show ?thesis
    proof cases
      case old
      with assms(2) r(2) show ?thesis by (simp add: outbox_inv_def)
    next
      case new
      with assms(3,4) show ?thesis by (auto simp: produced_def event_matches_def)
    qed
  qed
  with assms(2) same_matches(2) [OF same] show ?thesis by (simp add: outbox_inv_def)
qed


lemma keeps_dispatch_event_static: "keeps (\<lambda>s. same_but_outbox db0 (pw_db s)) (dispatch_event p e)"
  unfolding dispatch_event_def
  by (intro keeps_intro keeps_on_outbox keeps_on_broker)
    (simp_all add: keeps_MarkPublished keeps_MarkFailed keeps_const)

lemma dispatch_event_inv:
  assumes "dispatch_event p e (s, w) = (r, (s', w'))"
    and "outbox_inv (op_js p) s" and "event_matches (op_js p) e (pw_db s)"
  shows "outbox_inv (op_js p) s'"
proof -
  let ?tr = "op_span p (ContextFromEnvelope [] (oe_payload e))"
  let ?m = "\<lparr>msg_topic = oe_topic e, msg_key = oe_partition_key e, msg_value = Some (InjectTrace (oe_payload e) ?tr)\<rparr>"
  obtain x log w1 where send: "ProduceSync ?tr (oe_topic e) (oe_partition_key e) (Some (oe_payload e)) (pw_kafka s, w) = (x, (log, w1))"
    by (metis prod.collapse)
  then have prod: "on_broker (ProduceSync ?tr (oe_topic e) (oe_partition_key e) (Some (oe_payload e))) (s, w)
      = (x, (s\<lparr>pw_kafka := log\<rparr>, w1))" by (simp add: on_broker_def zoom_eq)
  have sub: "set (pw_kafka s) \<subseteq> set log" and got: "x = Inr () \<Longrightarrow> ?m \<in> set log"
    using send by (cases rule: ProduceSync_cases; auto)+
  show ?thesis
  proof (cases x)
    case (Inl err)
    with assms(1) prod obtain y db where f: "MarkFailed (op_collate p) (oe_id e) (op_workerID p) (retryDelay (oe_retry_count e + 1))
        (Some err) (pw_db s, w1) = (y, (db, w'))" and s': "s' = s\<lparr>pw_kafka := log, pw_db := db\<rparr>"
      by (auto simp: dispatch_event_def handle_eq ignore_def on_outbox_def zoom_def split: prod.splits)
    have "outbox_inv (op_js p) (s\<lparr>pw_db := db, pw_kafka := log\<rparr>)"
      using assms(2) keepsD [OF keeps_MarkFailed same_but_outbox_refl f] keepsD [OF keeps_MarkFailed_unpublished not_newly_refl f] sub
      by (rule outbox_inv_unpublished)
    with s' show ?thesis by (simp add: outbox_inv_def)
  next
    case (Inr u)
    with assms(1) prod obtain y db where f: "MarkPublished (op_collate p) (oe_id e) (op_workerID p) (pw_db s, w1) = (y, (db, w'))"
      and s': "s' = s\<lparr>pw_kafka := log, pw_db := db\<rparr>"
      by (auto simp: dispatch_event_def handle_eq ignore_def on_outbox_def zoom_def split: prod.splits)
    have "outbox_inv (op_js p) \<lparr>pw_db = pw_db s, pw_kafka = log\<rparr>"
      using assms(2) produced_mono [OF sub] by (auto simp: outbox_inv_def)
    from MarkPublished_inv [OF f this assms(3)] got Inr s' show ?thesis by (auto simp: outbox_inv_def)
  qed
qed

lemma dispatch_events_inv:
  assumes "each (dispatch_event p) events (s, w) = (r, (s', w'))"
    and "outbox_inv (op_js p) s" and "\<forall>e \<in> set events. event_matches (op_js p) e (pw_db s)"
  shows "outbox_inv (op_js p) s'"
  using assms
proof (induction events arbitrary: s w)
  case (Cons e es)
  obtain x s1 w1 where d: "dispatch_event p e (s, w) = (x, (s1, w1))" by (metis prod.collapse)
  have inv: "outbox_inv (op_js p) s1" using dispatch_event_inv [OF d] Cons.prems by simp
  have "same_but_outbox (pw_db s) (pw_db s1)"
    using keepsD [OF keeps_dispatch_event_static _ d] same_but_outbox_refl by blast
  then have "\<forall>e \<in> set es. event_matches (op_js p) e (pw_db s1)"
    using Cons.prems(3) same_matches(1) by simp
  with Cons.IH [of s1 w1] Cons.prems(1) d inv show ?case by (auto simp: bind_eq)
qed simp

lemma updatePending_same: "updatePending p (s, w) = (r, (s', w')) \<Longrightarrow> s' = s"
  by (auto simp: updatePending_def ignore_def on_outbox_def zoom_def PendingStats_def bind_def
      split: prod.splits sum.splits if_splits dest!: read_ext_D)

lemma keeps_dispatch_inv: "keeps (outbox_inv (op_js p)) (dispatch p)"
proof (rule keepsI)
  fix s w r s' w'
  assume inv: "outbox_inv (op_js p) s" and d: "dispatch p (s, w) = (r, (s', w'))"
  obtain x db w1 where c: "Claim (op_js p) (op_workerID p) (op_batch p) (op_lease p) (pw_db s, w) = (x, (db, w1))"
    by (metis prod.collapse)
  have same: "same_but_outbox (pw_db s) db" using keepsD [OF keeps_Claim same_but_outbox_refl c] .
  have inv1: "outbox_inv (op_js p) (s\<lparr>pw_db := db\<rparr>)"
    using outbox_inv_unpublished [OF inv same keepsD [OF keeps_Claim_unpublished not_newly_refl c] subset_refl]
    by (simp add: outbox_inv_def)
  show "outbox_inv (op_js p) s'"
  proof (cases x)
    case (Inl e)
    with d c inv1 show ?thesis
      by (auto simp: dispatch_def handle_eq on_outbox_def zoom_eq dest!: updatePending_same)
  next
    case (Inr events)
    have "distinct (map ob_id (outbox_events (pw_db s)))" using inv by (simp add: outbox_inv_def)
    with claimed_matches [OF c [unfolded Inr]] same have m: "\<forall>e \<in> set events. event_matches (op_js p) e db"
      using same_matches(1) by simp
    from d c Inr obtain y s2 w2 where e: "each (dispatch_event p) events (s\<lparr>pw_db := db\<rparr>, w1) = (y, (s2, w2))" and "s' = s2"
      by (auto simp: dispatch_def handle_eq on_outbox_def zoom_eq bind_eq dest!: updatePending_same)
    with dispatch_events_inv [OF e inv1] m show ?thesis by simp
  qed
qed

lemma order_placed_outbox_inv:
  assumes "outbox_inv js s"
  shows "outbox_inv js (s\<lparr>pw_db := order_placed p g tot payload nw (pw_db s)\<rparr>)"
proof -
  have "next_id ob_id (outbox_events (pw_db s)) \<notin> ob_id ` set (outbox_events (pw_db s))"
    using next_id_fresh [where key = ob_id and rows = "outbox_events (pw_db s)"] by force
  then show ?thesis using assms
    by (auto simp: outbox_inv_def order_placed_def charged_def gift_event_def)
qed

lemma keeps_Create_inv: "keeps (\<lambda>s. outbox_inv js s \<and> ledger_ok (pw_db s)) (on_outbox (Create U ck trace p))"
proof (rule keepsI)
  fix s w r s' w'
  assume inv: "outbox_inv js s \<and> ledger_ok (pw_db s)" and "on_outbox (Create U ck trace p) (s, w) = (r, (s', w'))"
  then obtain db where c: "Create U ck trace p (pw_db s, w) = (r, (db, w'))" and s': "s' = s\<lparr>pw_db := db\<rparr>"
    by (auto simp: on_outbox_def zoom_eq)
  from c ledger_ok_balance(2) [of "pw_db s"] inv have "db = pw_db s \<or> (\<exists>g payload. orderable ck p g (pw_db s)
      \<and> db = order_placed p g (gift_price g * p_Count p) payload (NOW3 w) (pw_db s))"
    by (cases rule: Create_cases) auto
  with inv s' order_placed_outbox_inv order_placed_ledger_ok show "outbox_inv js s' \<and> ledger_ok (pw_db s')"
    by auto
qed


section \<open>Claims\<close>

text \<open>What locking the claimed events makes of the rows.\<close>

definition locked_row :: "string \<Rightarrow> int \<Rightarrow> outbox_row \<Rightarrow> outbox_row" where
  "locked_row workerID nw r = r\<lparr>ob_status := 2, ob_locked_by := Some workerID, ob_locked_at := Some nw\<rparr>"

definition lock_rows :: "string \<Rightarrow> int \<Rightarrow> int set \<Rightarrow> commerce_db \<Rightarrow> commerce_db" where
  "lock_rows workerID nw ids db =
     db\<lparr>outbox_events := map (\<lambda>r. if ob_id r \<in> ids then locked_row workerID nw r else r) (outbox_events db)\<rparr>"

lemma lock_event_Inr:
  assumes "lock_event workerID e (db, w) = (Inr u, (db', w'))"
  shows "db' = lock_rows workerID (NOW3 w) {oe_id e} db \<and> clocks w' = clocks w"
proof -
  from assms obtain n where "outbox_update (\<lambda>r. ob_id r = oe_id e)
       (\<lambda>nw r. r\<lparr>ob_status := 2, ob_locked_by := Some workerID, ob_locked_at := Some nw\<rparr>) (db, w) = (Inr n, (db', w'))"
    by (auto simp: lock_event_def bind_eq)
  from this [unfolded outbox_update_def] show ?thesis
    by (rule ext_InrE) (auto simp: sql_update_def lock_rows_def locked_row_def dest: clocksD)
qed

lemma lock_rows_lock_rows: "lock_rows u nw B (lock_rows u nw A db) = lock_rows u nw (A \<union> B) db"
  by (auto simp: lock_rows_def locked_row_def)

lemma lock_events_Inr:
  "each (lock_event workerID) events (db, w) = (Inr u, (db', w')) \<Longrightarrow>
     db' = lock_rows workerID (NOW3 w) (oe_id ` set events) db \<and> clocks w' = clocks w"
proof (induction events arbitrary: db w)
  case Nil
  then show ?case by (simp add: lock_rows_def)
next
  case (Cons e es)
  then obtain db1 w1 where l: "lock_event workerID e (db, w) = (Inr (), (db1, w1))"
    and r: "each (lock_event workerID) es (db1, w1) = (Inr u, (db', w'))"
    by (auto simp: bind_eq)
  from lock_event_Inr [OF l] have "db1 = lock_rows workerID (NOW3 w) {oe_id e} db" "clocks w1 = clocks w" by auto
  with Cons.IH [OF r] show ?case by (auto simp: lock_rows_lock_rows dest: clocksD)
qed

definition due_rows :: "int \<Rightarrow> int \<Rightarrow> commerce_db \<Rightarrow> outbox_row list" where
  "due_rows nw stale db = sort_key ob_id (filter (claimable nw (stale div 1000 * 1000)) (outbox_events db))"

lemma Claim_cases:
  assumes "Claim js workerID batch lease (db, w) = (r, (db', w'))"
  obtains (unchanged) "db' = db" and "\<nexists>v. r = Inr v"
  | (claimed) events
    where "events = map (event_of js) (take (nat (if batch \<le> 0 then 100 else batch)) (due_rows (NOW3 w) (go_now w - lease) db))"
      and "db' = lock_rows workerID (NOW3 w) (oe_id ` set events) db" and "\<And>v. r = Inr v \<Longrightarrow> v = events"
  using assms unfolding Claim_def Let_def
proof (cases rule: in_tx_cases)
  case rolled_back
  then show thesis by (intro unchanged) auto
next
  case (committed events w1 w2)
  let ?n = "if batch \<le> 0 then 100 else batch"
  from committed(2) obtain d w3 where s: "select_claimable js (go_now w1 - lease) ?n (db, w1) = (Inr events, (d, w3))"
    and l: "if events = [] then db' = d else each (lock_event workerID) events (d, w3) = (Inr (), (db', w2))"
    by (auto simp: bind_eq now_def split: if_splits)
  from s have s': "d = db" "clocks w3 = clocks w1"
    "events = map (event_of js) (take (nat ?n) (due_rows (NOW3 w3) (go_now w1 - lease) db))"
    by (auto simp: select_claimable_def due_rows_def dest!: read_ext_D)
  then have c: "NOW3 w3 = NOW3 w" "go_now w1 = go_now w" using committed(1) clocksD by metis+
  have "db' = lock_rows workerID (NOW3 w) (oe_id ` set events) db"
    using l s' c lock_events_Inr [of workerID events d w3 "()" db' w2] by (auto simp: lock_rows_def split: if_splits)
  with s'(3) c committed(3) show thesis by (intro claimed [of events]) auto
qed

section \<open>A dispatch without failures\<close>

definition outbox_message :: "outbox_publisher \<Rightarrow> outbox_event \<Rightarrow> message" where
  "outbox_message p e = \<lparr>msg_topic = oe_topic e, msg_key = oe_partition_key e,
     msg_value = Some (InjectTrace (oe_payload e) (op_span p (ContextFromEnvelope [] (oe_payload e))))\<rparr>"

definition published_row :: "int \<Rightarrow> outbox_row \<Rightarrow> outbox_row" where
  "published_row nw r = r\<lparr>ob_status := 1, ob_published_at := Some nw, ob_locked_by := None, ob_locked_at := None,
     ob_last_error := None\<rparr>"

definition publish_rows :: "int \<Rightarrow> int set \<Rightarrow> commerce_db \<Rightarrow> commerce_db" where
  "publish_rows nw ids db =
     db\<lparr>outbox_events := map (\<lambda>r. if ob_id r \<in> ids then published_row nw r else r) (outbox_events db)\<rparr>"

lemma count_one:
  "distinct (map k rows) \<Longrightarrow> r \<in> set rows \<Longrightarrow> q r \<Longrightarrow> (\<And>x. x \<in> set rows \<Longrightarrow> q x \<Longrightarrow> k x = k r) \<Longrightarrow>
     length (filter q rows) = 1"
proof (induction rows)
  case (Cons x xs)
  show ?case
  proof (cases "x = r")
    case True
    have "\<not> q y" if "y \<in> set xs" for y
    proof
      assume "q y"
      from that have "y \<in> set (x # xs)" by simp
      from Cons.prems(4) [OF this \<open>q y\<close>] True have "k y = k x" by simp
      with that have "k x \<in> k ` set xs" by (metis imageI)
      with Cons.prems(1) show False by simp
    qed
    then have "filter q xs = []" by (simp add: filter_empty_conv)
    with True Cons.prems(3) show ?thesis by simp
  next
    case False
    with Cons.prems(2) have "r \<in> set xs" by simp
    then have "k r \<in> k ` set xs" by blast
    moreover have "k x \<notin> k ` set xs" using Cons.prems(1) by simp
    ultimately have "\<not> q x" using Cons.prems(4) [OF list.set_intros(1)] by metis
    moreover have "length (filter q xs) = 1"
    proof (rule Cons.IH)
      show "distinct (map k xs)" using Cons.prems(1) by simp
      show "k y = k r" if "y \<in> set xs" "q y" for y
        using Cons.prems(4) [OF list.set_intros(2) [OF that(1)] that(2)] .
    qed (use Cons.prems(3) \<open>r \<in> set xs\<close> in simp_all)
    ultimately show ?thesis by simp
  qed
qed simp

lemma MarkPublished_quiet:
  assumes "faults w = []" and "distinct (map ob_id (outbox_events db))"
    and "r \<in> set (outbox_events db)" and "held_by ck i u r" and "ob_id r = i"
  shows "MarkPublished ck i u (db, w) = (Inr (), (publish_rows (NOW3 w) {i} db, w))"
proof -
  let ?q = "\<lambda>x. held_by ck i u x \<and> published_row (NOW3 w) x \<noteq> x"
  have ne: "published_row nw x \<noteq> x" if "held_by ck i u x" for x nw
    using that by (cases x) (auto simp: held_by_def published_row_def)
  have only: "x = r" if "x \<in> set (outbox_events db)" "ob_id x = i" for x
    using that assms(2,3,5) by (auto simp: distinct_map dest: inj_onD)
  have n: "length (filter ?q (outbox_events db)) = 1"
    using assms ne [of r] by (intro count_one [of ob_id _ r]) (auto simp: held_by_def)
  have rows: "map (\<lambda>x. if held_by ck i u x then published_row (NOW3 w) x else x) (outbox_events db)
      = map (\<lambda>x. if ob_id x = i then published_row (NOW3 w) x else x) (outbox_events db)"
    using only assms(4) by (auto simp: held_by_def)
  show ?thesis
    using assms(1) n rows
    by (simp add: MarkPublished_def bind_def outbox_update_def ext_quiet sql_update_def publish_rows_def
        published_row_def [symmetric] ret_def)
qed

lemma dispatch_event_quiet:
  assumes "faults w = []" and "distinct (map ob_id (outbox_events (pw_db s)))"
    and "r \<in> set (outbox_events (pw_db s))" and "held_by (op_collate p) (oe_id e) (op_workerID p) r"
  shows "dispatch_event p e (s, w) = (Inr (), (s\<lparr>pw_db := publish_rows (NOW3 w) {oe_id e} (pw_db s),
     pw_kafka := pw_kafka s @ [outbox_message p e]\<rparr>, w))"
  using assms MarkPublished_quiet [OF assms(1-4)]
  by (simp add: dispatch_event_def handle_def ignore_def on_outbox_def on_broker_def zoom_def ProduceSync_def produceSync_def
      ext_quiet ret_def held_by_def outbox_message_def Let_def)

lemma publish_rows_publish_rows: "publish_rows nw B (publish_rows nw A db) = publish_rows nw (A \<union> B) db"
  by (auto simp: publish_rows_def published_row_def)

lemma dispatch_events_quiet:
  assumes "faults w = []" and "distinct (map ob_id (outbox_events (pw_db s)))" and "distinct (map oe_id events)"
    and "\<forall>e \<in> set events. \<exists>r \<in> set (outbox_events (pw_db s)). held_by (op_collate p) (oe_id e) (op_workerID p) r"
  shows "each (dispatch_event p) events (s, w) = (Inr (), (s\<lparr>pw_db := publish_rows (NOW3 w) (oe_id ` set events) (pw_db s),
     pw_kafka := pw_kafka s @ map (outbox_message p) events\<rparr>, w))"
  using assms
proof (induction events arbitrary: s)
  case Nil
  then show ?case by (simp add: publish_rows_def)
next
  case (Cons e es)
  let ?s1 = "s\<lparr>pw_db := publish_rows (NOW3 w) {oe_id e} (pw_db s), pw_kafka := pw_kafka s @ [outbox_message p e]\<rparr>"
  obtain r where r: "r \<in> set (outbox_events (pw_db s))" "held_by (op_collate p) (oe_id e) (op_workerID p) r"
    using Cons.prems(4) by auto
  have ids: "map ob_id (outbox_events (pw_db ?s1)) = map ob_id (outbox_events (pw_db s))"
    by (simp add: publish_rows_def published_row_def)
  have held: "\<exists>x \<in> set (outbox_events (pw_db ?s1)). held_by (op_collate p) (oe_id e') (op_workerID p) x" if "e' \<in> set es" for e'
  proof -
    have "\<exists>x \<in> set (outbox_events (pw_db s)). held_by (op_collate p) (oe_id e') (op_workerID p) x"
      using Cons.prems(4) that by simp
    then obtain x where x: "x \<in> set (outbox_events (pw_db s))" "held_by (op_collate p) (oe_id e') (op_workerID p) x" ..
    have "oe_id e' \<in> oe_id ` set es" using that by simp
    then have "oe_id e' \<noteq> oe_id e" using Cons.prems(3) by auto
    with x have "x \<in> set (outbox_events (pw_db ?s1))"
      by (force simp: publish_rows_def held_by_def)
    with x show ?thesis by blast
  qed
  have "distinct (map ob_id (outbox_events (pw_db ?s1)))" using Cons.prems(2) ids by simp
  moreover have "distinct (map oe_id es)" using Cons.prems(3) by simp
  moreover note Cons.IH [OF Cons.prems(1), of ?s1]
  ultimately have "each (dispatch_event p) es (?s1, w) = (Inr (), (?s1\<lparr>pw_db := publish_rows (NOW3 w) (oe_id ` set es) (pw_db ?s1),
     pw_kafka := pw_kafka ?s1 @ map (outbox_message p) es\<rparr>, w))"
    using held by blast
  then show ?case
    using dispatch_event_quiet [OF Cons.prems(1,2) r]
    by (simp add: bind_def publish_rows_publish_rows)
qed


lemma lock_event_quiet:
  "faults w = [] \<Longrightarrow> lock_event u e (db, w) = (Inr (), (lock_rows u (NOW3 w) {oe_id e} db, w))"
  by (simp add: lock_event_def bind_def outbox_update_def ext_quiet sql_update_def lock_rows_def locked_row_def ret_def)

lemma lock_events_quiet:
  "faults w = [] \<Longrightarrow> each (lock_event u) es (db, w) = (Inr (), (lock_rows u (NOW3 w) (oe_id ` set es) db, w))"
proof (induction es arbitrary: db)
  case Nil
  then show ?case by (simp add: lock_rows_def)
next
  case (Cons e es)
  then show ?case by (simp add: bind_def lock_event_quiet lock_rows_lock_rows)
qed

definition due_events :: "outbox_publisher \<Rightarrow> io \<Rightarrow> commerce_db \<Rightarrow> outbox_event list" where
  "due_events p w db = map (event_of (op_js p))
     (take (nat (if op_batch p \<le> 0 then 100 else op_batch p)) (due_rows (NOW3 w) (go_now w - op_lease p) db))"

lemma Claim_quiet:
  assumes "faults w = []"
  shows "Claim (op_js p) (op_workerID p) (op_batch p) (op_lease p) (db, w) =
    (Inr (due_events p w db), (lock_rows (op_workerID p) (NOW3 w) (oe_id ` set (due_events p w db)) db, w))"
proof -
  have sel: "select_claimable (op_js p) (go_now w - op_lease p) (if op_batch p \<le> 0 then 100 else op_batch p) (db, w)
      = (Inr (due_events p w db), (db, w))"
    by (simp add: select_claimable_def read_ext_quiet [OF assms] due_events_def due_rows_def)
  show ?thesis unfolding Claim_def Let_def
    by (rule in_tx_quiet [OF assms])
      (auto simp: bind_def now_def sel lock_events_quiet [OF assms] lock_rows_def)
qed

lemma due_events_rows:
  assumes "distinct (map ob_id (outbox_events db))"
  shows "distinct (map oe_id (due_events p w db))"
    and "e \<in> set (due_events p w db) \<Longrightarrow> \<exists>r \<in> set (outbox_events db). ob_id r = oe_id e"
proof -
  let ?rows = "due_rows (NOW3 w) (go_now w - op_lease p) db"
  have "distinct (map ob_id (filter q (outbox_events db)))" for q
    using assms by (rule distinct_map_filter)
  then have "distinct (map ob_id ?rows)"
    unfolding due_rows_def by (metis distinct_map distinct_sort inj_on_cong set_sort)
  then have "distinct (map ob_id (take n ?rows))" for n
    by (metis distinct_take take_map)
  moreover have "map oe_id (map (event_of js) xs) = map ob_id xs" for js xs by (simp add: event_of_def)
  ultimately show "distinct (map oe_id (due_events p w db))" by (simp only: due_events_def)
  show "e \<in> set (due_events p w db) \<Longrightarrow> \<exists>r \<in> set (outbox_events db). ob_id r = oe_id e"
    by (auto simp: due_events_def due_rows_def event_of_def dest!: in_set_takeD)
qed

lemma publish_lock_rows: "publish_rows nw ids (lock_rows u nw ids db) = publish_rows nw ids db"
  by (auto simp: publish_rows_def lock_rows_def published_row_def locked_row_def)

lemma dispatch_quiet:
  assumes "faults w = []" and "distinct (map ob_id (outbox_events (pw_db s)))"
  shows "dispatch p (s, w) = (Inr (), (s\<lparr>
     pw_db := publish_rows (NOW3 w) (oe_id ` set (due_events p w (pw_db s))) (pw_db s),
     pw_kafka := pw_kafka s @ map (outbox_message p) (due_events p w (pw_db s))\<rparr>, w))"
proof -
  let ?es = "due_events p w (pw_db s)"
  let ?db = "lock_rows (op_workerID p) (NOW3 w) (oe_id ` set ?es) (pw_db s)"
  let ?s = "s\<lparr>pw_db := ?db\<rparr>"
  have ids: "distinct (map ob_id (outbox_events (pw_db ?s)))"
  proof -
    have "map ob_id (outbox_events ?db) = map ob_id (outbox_events (pw_db s))" by (simp add: lock_rows_def locked_row_def)
    with assms(2) show ?thesis by simp
  qed
  have held: "\<forall>e \<in> set ?es. \<exists>r \<in> set (outbox_events (pw_db ?s)). held_by (op_collate p) (oe_id e) (op_workerID p) r"
  proof
    fix e
    assume e: "e \<in> set ?es"
    from due_events_rows(2) [OF assms(2) e] obtain r where r: "r \<in> set (outbox_events (pw_db s))" "ob_id r = oe_id e" ..
    with e have "locked_row (op_workerID p) (NOW3 w) r \<in> set (outbox_events ?db)"
      by (force simp: lock_rows_def)
    with r(2) show "\<exists>r \<in> set (outbox_events (pw_db ?s)). held_by (op_collate p) (oe_id e) (op_workerID p) r"
      by (intro bexI [of _ "locked_row (op_workerID p) (NOW3 w) r"]) (simp_all add: held_by_def locked_row_def)
  qed
  have stats: "updatePending p (x, w) = (Inr (), (x, w))" for x
  proof -
    obtain r s' w' where u: "updatePending p (x, w) = (r, (s', w'))" by (metis prod.collapse)
    from updatePending_same [OF u] u assms(1) show ?thesis
      by (auto simp: updatePending_def ignore_def on_outbox_def zoom_def PendingStats_def bind_def read_ext_quiet ret_def
          split: if_splits)
  qed
  show ?thesis
    using dispatch_events_quiet [OF assms(1) ids due_events_rows(1) [OF assms(2)] held]
    by (simp add: dispatch_def handle_def on_outbox_def zoom_def Claim_quiet [OF assms(1)] bind_def stats publish_lock_rows)
qed

section \<open>Properties\<close>

text \<open>
  C9. Nothing is reported as published that was not produced. Whatever fails, a dispatch by any
  worker and the placing of an order keep the table's identifiers unique and keep, for every
  event in the published status, its message in the broker's log. A dispatch changes nothing of
  the commerce database but the delivery columns (status, retries, lock, error and publication
  time) of the events: wallets, ledger, orders, gifts and the events themselves stay as they are.
\<close>

theorem outbox_published_was_produced:
  "keeps (outbox_inv (op_js p)) (dispatch p)
   \<and> keeps (\<lambda>s. outbox_inv js s \<and> ledger_ok (pw_db s)) (on_outbox (Create U ck trace q))
   \<and> keeps (\<lambda>s. same_but_outbox db0 (pw_db s)) (dispatch p)"
  by (intro conjI keeps_dispatch_inv keeps_Create_inv keeps_dispatch_static)

definition two_events :: commerce_db where
  "two_events = \<lparr>gifts = [], wallets = (\<lambda>_. None), wallet_transactions = [], gift_orders = [],
     outbox_events = [gift_event sample_request ''{}'' 1 0, gift_event sample_request ''{}'' 2 0]\<rparr>"

definition sample_publisher :: outbox_publisher where
  "sample_publisher = \<lparr>op_js = id, op_collate = id, op_span = id, op_workerID = ''w1'', op_interval = 0, op_lease = second,
     op_timeout = 0, op_batch = 1, op_metrics = False\<rparr>"

lemma sample_publisher_fields [simp]:
  "op_js sample_publisher = id" "op_workerID sample_publisher = ''w1''" "op_lease sample_publisher = second"
  "op_batch sample_publisher = 1"
  by (simp_all add: sample_publisher_def)

lemma two_events_due:
  "due_events sample_publisher quiet_world two_events = [event_of id (gift_event sample_request ''{}'' 1 0)]"
  by (simp add: due_events_def due_rows_def two_events_def claimable_def gift_event_def
      quiet_world_def NOW3_def)

text \<open>
  C13. A dispatch publishes what is due. When every call completes, it produces the due events of
  one batch, oldest first, each exactly once and with its row's topic and key, marks exactly
  their rows as published, and changes nothing else.
\<close>

theorem outbox_dispatch_publishes:
  assumes "faults w = []" and "distinct (map ob_id (outbox_events (pw_db s)))"
  shows "dispatch p (s, w) = (Inr (), (s\<lparr>
     pw_db := publish_rows (NOW3 w) (oe_id ` set (due_events p w (pw_db s))) (pw_db s),
     pw_kafka := pw_kafka s @ map (outbox_message p) (due_events p w (pw_db s))\<rparr>, w))"
  using assms by (rule dispatch_quiet)

theorem outbox_dispatch_publishes_witness:
  "pw_kafka (fst (snd (dispatch sample_publisher (\<lparr>pw_db = two_events, pw_kafka = []\<rparr>, quiet_world))))
    = [outbox_message sample_publisher (event_of id (gift_event sample_request ''{}'' 1 0))]"
proof -
  have "faults quiet_world = []" by (simp add: quiet_world_def)
  moreover have "distinct (map ob_id (outbox_events (pw_db \<lparr>pw_db = two_events, pw_kafka = []\<rparr>)))"
    by (simp add: two_events_def gift_event_def)
  ultimately show ?thesis
    by (subst outbox_dispatch_publishes) (simp_all add: two_events_due)
qed

text \<open>
  C15. The delay before a retry doubles from one second and never exceeds five minutes; the loop
  that computes it ends, and no doubling leaves the 64-bit range.
\<close>

theorem outbox_retry_delay:
  "retryDelay att = min (second * 2 ^ nat (att - 1)) (5 * minute)"
  by (rule retryDelay_spec)

end
