(* ===== verification/Gift_End_To_End.thy ===== *)
theory Gift_End_To_End
  imports Gift_Delivery Outbox_Delivery "HOL-Library.Multiset"
begin

text \<open>
  The three stages a gift goes through, composed: \<open>Create\<close> charges the sender and queues the
  event, the publisher of the outbox produces it, and the consumer turns it into a message of the
  room's stream. Between the stages the text of the event passes through the JSON column of the
  outbox table, which gives the members of an object back in an order of its own, and through
  \<open>InjectTrace\<close>, which encodes it anew.
\<close>

section \<open>The order of the members does not matter\<close>

text \<open>Fields that read the members of an object without failing, in whatever order they come.\<close>

definition reads_member :: "'r fields \<Rightarrow> (string \<times> string \<Rightarrow> 'r \<Rightarrow> 'r) \<Rightarrow> string \<times> string \<Rightarrow> bool" where
  "reads_member fs put m \<longleftrightarrow> (\<exists>f. field_for fs (fst m) = Some f \<and> (\<forall>r. f (snd m) r = Some (put m r)))"

lemma decode_members_fold:
  "\<forall>m \<in> set ms. reads_member fs put m \<Longrightarrow> decode_members fs ms r = Some (fold put ms r)"
  by (induction ms arbitrary: r) (auto simp: reads_member_def)

lemma decode_members_order:
  assumes "\<forall>m \<in> set ms. reads_member fs put m"
    and "\<And>x y. x \<in> set ms \<Longrightarrow> y \<in> set ms \<Longrightarrow> put x \<circ> put y = put y \<circ> put x"
    and "mset ms' = mset ms"
  shows "decode_members fs ms' r = decode_members fs ms r"
proof -
  have set_eq: "set ms' = set ms" using assms(3) by (rule mset_eq_setD)
  have "fold put ms' = fold put ms"
    using assms(2,3) set_eq by (intro fold_multiset_equiv) auto
  with assms(1) set_eq show ?thesis by (simp add: decode_members_fold)
qed

lemma doc_ok_order: "mset ms' = mset ms \<Longrightarrow> doc_ok (JObj ms) \<Longrightarrow> doc_ok (JObj ms')"
  using mset_eq_setD [of ms' ms] by (simp add: list_all_iff)

definition gift_member :: "string \<times> string \<Rightarrow> realtimeGiftPayload \<Rightarrow> realtimeGiftPayload" where
  "gift_member m r = (case field_for gift_payload_fields (fst m) of None \<Rightarrow> r
     | Some f \<Rightarrow> (case f (snd m) r of None \<Rightarrow> r | Some r' \<Rightarrow> r'))"

definition gift_members :: "CreateParams \<Rightarrow> Gift \<Rightarrow> int \<Rightarrow> (string \<times> json) list" where
  "gift_members p g tot = (case gift_payload p g tot of JObj ms \<Rightarrow> ms | _ \<Rightarrow> [])"

lemma gift_payload_members: "gift_payload p g tot = JObj (gift_members p g tot)"
  by (simp add: gift_members_def gift_payload_def)

lemma decode_gift_payload_order:
  assumes ok: "doc_ok (gift_payload p g tot)" and pr: "order_presentable p g tot"
    and ms: "mset ms = mset (gift_members p g tot)"
  shows "decodeRealtimeGiftPayload (jprint (JObj ms)) = Some (order_payload p g tot)"
proof -
  let ?text = "\<lambda>m. (fst m, jprint (snd m))"
  have str: "value_field as_string q (jprint (JStr s)) r = Some (q s r)" if "utf8_ok s" for q s and r :: realtimeGiftPayload
    using that by (subst value_field_print) simp_all
  have i: "value_field as_int64 q (jprint (JInt k)) r = Some (q k r)" if "is_i64 k" for q k and r :: realtimeGiftPayload
    using that by (subst value_field_print) (simp_all add: ParseInt_FormatInt)
  have u: "utf8_ok (gift_name g)" "utf8_ok (messageID (p_OrderNo p))" "utf8_ok (p_OrderNo p)"
    using ok by (simp_all add: gift_payload_def)
  note fields = gift_members_def gift_payload_def field_for_def gift_payload_fields_def
  note pr' = pr [unfolded order_presentable_def]
  have eff:
    "gift_member (''anchor_id'', jprint (JInt (p_AnchorID p))) = rg_anchor_id_update (\<lambda>_. p_AnchorID p)"
    "gift_member (''count'', jprint (JInt (p_Count p))) = rg_count_update (\<lambda>_. p_Count p)"
    "gift_member (''gift_id'', jprint (JInt (p_GiftID p))) = rg_gift_id_update (\<lambda>_. p_GiftID p)"
    "gift_member (''gift_name'', jprint (JStr (gift_name g))) = rg_gift_name_update (\<lambda>_. gift_name g)"
    "gift_member (''message_id'', jprint (JStr (messageID (p_OrderNo p)))) = rg_message_id_update (\<lambda>_. messageID (p_OrderNo p))"
    "gift_member (''order_no'', jprint (JStr (p_OrderNo p))) = rg_order_no_update (\<lambda>_. p_OrderNo p)"
    "gift_member (''total_amount'', jprint (JInt tot)) = rg_total_amount_update (\<lambda>_. tot)"
    "gift_member (''unit_price'', jprint (JInt (gift_price g))) = rg_unit_price_update (\<lambda>_. gift_price g)"
    "gift_member (''user_id'', jprint (JInt (p_UserID p))) = rg_user_id_update (\<lambda>_. p_UserID p)"
    using pr' u by (simp_all add: gift_member_def field_for_def gift_payload_fields_def str i fun_eq_iff del: jprint.simps)
  have reads: "\<forall>m \<in> set (map ?text (gift_members p g tot)). reads_member gift_payload_fields gift_member m"
    using pr' u by (simp add: fields reads_member_def gift_member_def str i del: jprint.simps)
  have comm: "gift_member x \<circ> gift_member y = gift_member y \<circ> gift_member x"
    if "x \<in> set (map ?text (gift_members p g tot))" "y \<in> set (map ?text (gift_members p g tot))" for x y
  proof -
    have "\<forall>x \<in> set (map ?text (gift_members p g tot)). \<forall>y \<in> set (map ?text (gift_members p g tot)).
        gift_member x \<circ> gift_member y = gift_member y \<circ> gift_member x"
      by (simp add: gift_members_def gift_payload_def eff fun_eq_iff del: jprint.simps)
    with that show ?thesis by blast
  qed
  have "decode_members gift_payload_fields (map ?text ms) zero_gift_payload
      = decode_members gift_payload_fields (map ?text (gift_members p g tot)) zero_gift_payload"
    using reads comm ms by (intro decode_members_order [where put = gift_member]) simp_all
  moreover have "doc_ok (JObj ms)" using doc_ok_order [OF ms] ok by (simp add: gift_payload_members)
  ultimately have "unmarshal gift_payload_fields zero_gift_payload (jprint (JObj ms))
      = unmarshal gift_payload_fields zero_gift_payload (jprint (gift_payload p g tot))"
    using ok unfolding gift_payload_members by (simp only: unmarshal_print)
  with decode_gift_payload [OF ok pr] show ?thesis by (simp add: decodeRealtimeGiftPayload_def)
qed


section \<open>The text of the event on its way\<close>

text \<open>
  What the documentation of the JSON column promises, for the text of one envelope: the same
  fields come back, the payload with the same members, in some order and laid out in some way.
\<close>

definition column_keeps :: "(string \<Rightarrow> string) \<Rightarrow> Envelope \<Rightarrow> (string \<times> json) list \<Rightarrow> string \<Rightarrow> bool" where
  "column_keeps js e ms raw \<longleftrightarrow> (\<exists>x ms' tr. unmarshal_envelope (js raw) = Some (e\<lparr>Trace := tr, Payload := x\<rparr>)
     \<and> raw_message x = Some (jprint (JObj ms')) \<and> x \<noteq> [] \<and> mset ms' = mset ms)"

definition trace_text :: "(string \<times> string) list \<Rightarrow> bool" where
  "trace_text tr \<longleftrightarrow> list_all (\<lambda>(k, v). utf8_ok k \<and> utf8_ok v) tr"

lemma marshal_same_payload:
  "raw_message x = raw_message y \<Longrightarrow>
     marshal_envelope (e\<lparr>Payload := x, Trace := tr\<rparr>) = marshal_envelope (e\<lparr>Payload := y, Trace := tr\<rparr>)"
  unfolding marshal_envelope_def by (auto split: option.splits)

text \<open>The envelope the consumer reads from the produced text.\<close>

lemma injected_envelope:
  assumes "column_keeps js e ms raw" and "envelope_ok e (JObj ms)" and "trace_text tr"
    and "TrimSpace (EventID e) \<noteq> []" "TrimSpace (EventType e) \<noteq> []" "CreatedAt e \<noteq> zero_time"
  shows "\<exists>ms'. mset ms' = mset ms
    \<and> unmarshal_envelope (InjectTrace (js raw) tr) = Some (e\<lparr>Trace := sort_key fst tr, Payload := jprint (JObj ms')\<rparr>)"
proof -
  obtain x ms' tr0 where u: "unmarshal_envelope (js raw) = Some (e\<lparr>Trace := tr0, Payload := x\<rparr>)"
    and x: "raw_message x = Some (jprint (JObj ms'))" "x \<noteq> []" and ms: "mset ms' = mset ms"
    using assms(1) by (auto simp: column_keeps_def)
  let ?e = "e\<lparr>Payload := jprint (JObj ms'), Trace := tr\<rparr>"
  have ok: "envelope_ok ?e (JObj ms')"
    using assms(2,3) doc_ok_order [OF ms] by (simp add: envelope_ok_def trace_text_def del: jprint.simps doc_ok.simps)
  then have "marshal_envelope (e\<lparr>Payload := x, Trace := tr\<rparr>) = marshal_envelope ?e"
    using raw_message_print [of "JObj ms'"] x by (intro marshal_same_payload) (simp add: envelope_ok_def del: jprint.simps doc_ok.simps)
  moreover obtain out where out: "marshal_envelope ?e = Inr out"
    using ok marshal_envelope_print [OF ok] by (auto simp: envelope_ok_def)
  ultimately have "InjectTrace (js raw) tr = out"
    using u x assms(4-6) by (simp add: InjectTrace_def del: jprint.simps)
  with unmarshal_marshal_envelope [OF ok out] ms show ?thesis by (intro exI [of _ ms']) (simp del: jprint.simps)
qed

lemma gift_type_plain: "TrimSpace EventTypeGiftSent \<noteq> []"
  unfolding EventTypeGiftSent_def by (rule TrimSpace_head) (simp_all add: byte_def is_space_def)

lemma produced_gift_read:
  fixes trace p g tot t
  defines "e \<equiv> gift_envelope trace p g tot t"
  assumes col: "column_keeps js e (gift_members p g tot) raw" and ok: "envelope_ok e (gift_payload p g tot)" and tr: "trace_text tr"
    and v: "rec_value r = Some (InjectTrace (js raw) tr)"
    and plain: "TrimSpace (p_EventID p) \<noteq> []" "0 < p_RoomID p" "t \<noteq> zero_time" and pr: "order_presentable p g tot"
  shows "\<exists>e'. gift_envelope_of r = Inr e' \<and> EventID e' = p_EventID p \<and> RoomID e' = p_RoomID p \<and> CreatedAt e' = t
    \<and> Payload e' \<noteq> [] \<and> decodeRealtimeGiftPayload (Payload e') = Some (order_payload p g tot)"
proof -
  have f: "EventID e = p_EventID p" "EventType e = EventTypeGiftSent" "RoomID e = p_RoomID p" "CreatedAt e = t"
    by (simp_all add: e_def gift_envelope_def)
  obtain ms where ms: "mset ms = mset (gift_members p g tot)"
    and u: "unmarshal_envelope (InjectTrace (js raw) tr) = Some (e\<lparr>Trace := sort_key fst tr, Payload := jprint (JObj ms)\<rparr>)"
    using injected_envelope [OF col ok [unfolded gift_payload_members] tr] plain gift_type_plain f by auto
  have d: "doc_ok (gift_payload p g tot)" using ok by (simp add: envelope_ok_def)
  then have dm: "doc_ok (JObj ms)" using doc_ok_order [OF ms] by (simp add: gift_payload_members)
  have "gift_envelope_of r = Inr (e\<lparr>Trace := sort_key fst tr, Payload := jprint (JObj ms)\<rparr>)"
    using u v f plain gift_type_plain jprint_not_Nil [OF dm] json_parse_print [OF dm]
    by (simp add: gift_envelope_of_def value_bytes_def ValidateRoomEnvelope_def json_valid_def del: jprint.simps)
  with f jprint_not_Nil [OF dm] decode_gift_payload_order [OF d pr ms] show ?thesis
    by (intro exI [of _ "e\<lparr>Trace := sort_key fst tr, Payload := jprint (JObj ms)\<rparr>"]) (simp del: jprint.simps)
qed

section \<open>The new event is the last of a batch\<close>

lemma sort_key_snoc: "\<forall>x \<in> set xs. f x \<le> f y \<Longrightarrow> sort_key f (xs @ [y]) = sort_key f xs @ [y]"
proof (induction xs)
  case (Cons x xs)
  have "insort_key f x (zs @ [y]) = insort_key f x zs @ [y]" if "f x \<le> f y" for zs
    using that by (induction zs) auto
  with Cons show ?case by simp
qed simp

lemma order_event_due:
  assumes "NOW3 w \<le> NOW3 v" and "length (due_rows (NOW3 v) (go_now v - op_lease pub) db) < nat (if op_batch pub \<le> 0 then 100 else op_batch pub)"
  shows "due_events pub v (order_placed p g tot raw (NOW3 w) db) = due_events pub v db @
    [event_of (op_js pub) (gift_event p raw (next_id ob_id (outbox_events db)) (NOW3 w))]"
proof -
  let ?r = "gift_event p raw (next_id ob_id (outbox_events db)) (NOW3 w)"
  have "ob_id x \<le> ob_id ?r" if "x \<in> set (outbox_events db)" for x
    using next_id_fresh [where key = ob_id, OF that] by (simp add: gift_event_def)
  then have "due_rows (NOW3 v) (go_now v - op_lease pub) (order_placed p g tot raw (NOW3 w) db)
      = due_rows (NOW3 v) (go_now v - op_lease pub) db @ [?r]"
    using assms(1) by (simp add: due_rows_def sort_key_snoc claimable_def gift_event_def)
  with assms(2) show ?thesis by (simp add: due_events_def)
qed

section \<open>From the request to the viewers\<close>

text \<open>The order can be shown: its event can be encoded and holds what the consumer asks for.\<close>

definition showable :: "(string \<times> string) list \<Rightarrow> CreateParams \<Rightarrow> Gift \<Rightarrow> int \<Rightarrow> bool" where
  "showable trace p g t \<longleftrightarrow>
     envelope_ok (gift_envelope trace p g (gift_price g * p_Count p) t) (gift_payload p g (gift_price g * p_Count p))
     \<and> order_presentable p g (gift_price g * p_Count p)
     \<and> TrimSpace (p_EventID p) \<noteq> [] \<and> 0 < p_RoomID p \<and> t \<noteq> zero_time"

text \<open>What the publisher relies on: room in a batch, and the text of the JSON column and of the spans.\<close>

definition publisher_ready :: "outbox_publisher \<Rightarrow> io \<Rightarrow> commerce_db \<Rightarrow> bool" where
  "publisher_ready pub v db \<longleftrightarrow>
     length (due_rows (NOW3 v) (go_now v - op_lease pub) db) < nat (if op_batch pub \<le> 0 then 100 else op_batch pub)
     \<and> (\<forall>parent. trace_text (op_span pub parent))"

definition room_message :: "CreateParams \<Rightarrow> Gift \<Rightarrow> int \<Rightarrow> json" where
  "room_message p g t = JObj
     [(''event_id'', JStr (p_EventID p)), (''type'', JStr ''gift''), (''room_id'', JInt (p_RoomID p)),
      (''priority'', JStr ''P1''), (''timestamp'', JInt (unix_milli t)),
      (''data'', JStr (b64_encode False True (jprint (realtime_payload_json (order_payload p g (gift_price g * p_Count p))))))]"

lemma dispatched_order:
  assumes v: "faults v = []" "NOW3 w \<le> NOW3 v" and ids: "distinct (map ob_id (outbox_events db))" and ready: "publisher_ready pub v db"
  shows "\<exists>db2 log m. dispatch pub (\<lparr>pw_db = order_placed p g tot raw (NOW3 w) db, pw_kafka = log0\<rparr>, v)
      = (Inr (), (\<lparr>pw_db = db2, pw_kafka = log0 @ log @ [m]\<rparr>, v))
    \<and> length log = length (due_events pub v db)
    \<and> msg_topic m = p_GiftTopic p \<and> msg_key m = FormatInt (p_RoomID p)
    \<and> (\<exists>tr. trace_text tr \<and> msg_value m = Some (InjectTrace (op_js pub raw) tr))"
proof -
  let ?db = "order_placed p g tot raw (NOW3 w) db"
  let ?e = "event_of (op_js pub) (gift_event p raw (next_id ob_id (outbox_events db)) (NOW3 w))"
  have due: "due_events pub v ?db = due_events pub v db @ [?e]"
    using order_event_due [OF v(2)] ready by (simp add: publisher_ready_def)
  have "next_id ob_id (outbox_events db) \<notin> ob_id ` set (outbox_events db)"
    using next_id_fresh [where key = ob_id and rows = "outbox_events db"] by force
  then have "distinct (map ob_id (outbox_events ?db))" using ids by (simp add: gift_event_def)
  with dispatch_quiet [OF v(1), of "\<lparr>pw_db = ?db, pw_kafka = log0\<rparr>" pub]
  have "dispatch pub (\<lparr>pw_db = ?db, pw_kafka = log0\<rparr>, v) =
    (Inr (), (\<lparr>pw_db = publish_rows (NOW3 v) (oe_id ` set (due_events pub v ?db)) ?db,
       pw_kafka = log0 @ map (outbox_message pub) (due_events pub v db) @ [outbox_message pub ?e]\<rparr>, v))"
    by (simp add: due)
  moreover have "trace_text (op_span pub parent)" for parent using ready by (simp add: publisher_ready_def)
  ultimately show ?thesis
    by (intro exI conjI) (assumption | simp add: outbox_message_def event_of_def gift_event_def | blast)+
qed

lemma consumed_order:
  fixes trace p g t
  defines "e \<equiv> gift_envelope trace p g (gift_price g * p_Count p) t"
  assumes sh: "showable trace p g t" and col: "column_keeps js e (gift_members p g (gift_price g * p_Count p)) raw" and tr: "trace_text tr"
    and v: "rec_value r = Some (InjectTrace (js raw) tr)"
    and w: "faults w = []" "cw_dedup s (ck grp, ck (p_EventID p)) = None" and ok: "takes_all server"
  shows "\<exists>s'. gift_handler ck server c grp lease r (s, w) = (Inr (), (s', w))
    \<and> processed ck (cw_dedup s') grp (p_EventID p)
    \<and> cw_http s' = cw_http s @ [publish_request c (RoomStream (p_RoomID p)) (room_message p g t)]"
proof -
  obtain e' where e': "gift_envelope_of r = Inr e'" "EventID e' = p_EventID p" "RoomID e' = p_RoomID p" "CreatedAt e' = t"
      "Payload e' \<noteq> []" "decodeRealtimeGiftPayload (Payload e') = Some (order_payload p g (gift_price g * p_Count p))"
    using produced_gift_read [OF col [unfolded e_def] _ tr v] sh by (auto simp: showable_def)
  have "cw_dedup s (ck grp, ck (EventID e')) = None" using w(2) e'(2) by simp
  from gift_handler_quiet [OF w(1) e'(1) this e'(5,6) ok, of c lease] e'(2-4)
  show ?thesis by (simp add: gift_wire_def event_json_def bytes_json_def room_message_def)
qed

lemma column_keeps_id:
  assumes "envelope_ok e (JObj ms)" and "marshal_envelope e = Inr raw"
  shows "column_keeps id e ms raw"
proof -
  have "doc_ok (JObj ms)" and p: "Payload e = jprint (JObj ms)" using assms(1) by (simp_all add: envelope_ok_def)
  then have x: "raw_message (Payload e) = Some (jprint (JObj ms))" "Payload e \<noteq> []"
    by (simp_all add: raw_message_print jprint_not_Nil del: jprint.simps doc_ok.simps)
  have "e\<lparr>Trace := sort_key fst (Trace e)\<rparr> = e\<lparr>Trace := sort_key fst (Trace e), Payload := Payload e\<rparr>" by (cases e) simp
  then have u: "unmarshal_envelope (id raw) = Some (e\<lparr>Trace := sort_key fst (Trace e), Payload := Payload e\<rparr>)"
    using unmarshal_marshal_envelope [OF assms] by simp
  show ?thesis unfolding column_keeps_def
    by (intro exI conjI, rule u, rule x(1), rule x(2), rule refl)
qed

text \<open>A publisher whose spans write one entry.\<close>

definition tracing_publisher :: outbox_publisher where
  "tracing_publisher = sample_publisher\<lparr>op_span := \<lambda>_. [(''traceparent'', ''00-4bf9-00f0-01'')]\<rparr>"

lemma tracing_text: "trace_text [(''traceparent'', ''00-4bf9-00f0-01'')]"
  by (simp add: trace_text_def) (intro conjI ascii_utf8_ok; simp add: byte_def)

section \<open>Properties\<close>

text \<open>
  C5. A gift reaches the room. When every call completes, an order that can be placed is placed
  and charged; the next dispatch of the outbox, if its batch has room, produces one message for it
  to its topic, keyed by its room, after the messages of the earlier events; and a record that
  carries this message, at its first delivery and if the realtime server takes it, makes the consumer publish exactly the gift to
  the stream of the room and mark the event as processed. The event passes through a JSON column
  that may reorder and lay out its members anew, and is encoded anew by the producer.
\<close>

theorem gift_order_end_to_end:
  assumes "faults w = []" and "ledger_ok db" and "distinct (map ob_id (outbox_events db))"
    and "fresh_ids ck p db" and "orderable ck p g db" and "showable trace p g (go_now w)"
    and "faults v = []" and "NOW3 w \<le> NOW3 v" and "publisher_ready pub v db"
    and "\<And>raw. marshal_envelope (gift_envelope trace p g (gift_price g * p_Count p) (go_now w)) = Inr raw \<Longrightarrow>
       column_keeps (op_js pub) (gift_envelope trace p g (gift_price g * p_Count p) (go_now w))
         (gift_members p g (gift_price g * p_Count p)) raw"
    and "faults u = []" and "cw_dedup s (ck grp, ck (p_EventID p)) = None" and "takes_all server"
  shows "\<exists>db1 w1 db2 log m. Create U ck trace p (db, w) = (Inr (placed_view p g (NOW3 w), False), (db1, w1))
    \<and> balance_of (p_UserID p) db1 = balance_of (p_UserID p) db - gift_price g * p_Count p
    \<and> dispatch pub (\<lparr>pw_db = db1, pw_kafka = log0\<rparr>, v) = (Inr (), (\<lparr>pw_db = db2, pw_kafka = log0 @ log @ [m]\<rparr>, v))
    \<and> length log = length (due_events pub v db)
    \<and> msg_topic m = p_GiftTopic p \<and> msg_key m = FormatInt (p_RoomID p)
    \<and> (\<forall>r. rec_value r = msg_value m \<longrightarrow>
        (\<exists>s'. gift_handler ck server c grp lease r (s, u) = (Inr (), (s', u))
          \<and> processed ck (cw_dedup s') grp (p_EventID p)
          \<and> cw_http s' = cw_http s @ [publish_request c (RoomStream (p_RoomID p)) (room_message p g (go_now w))]))"
proof -
  obtain raw where raw: "marshal_envelope (gift_envelope trace p g (gift_price g * p_Count p) (go_now w)) = Inr raw"
    using assms(6) marshal_envelope_print by (auto simp: showable_def envelope_ok_def)
  obtain w1 where c: "Create U ck trace p (db, w) = (Inr (placed_view p g (NOW3 w), False),
      (order_placed p g (gift_price g * p_Count p) raw (NOW3 w) db, w1))"
    using accepted_order [OF assms(1,2,4,5) raw] by blast
  obtain db2 log m tr where d: "dispatch pub (\<lparr>pw_db = order_placed p g (gift_price g * p_Count p) raw (NOW3 w) db, pw_kafka = log0\<rparr>, v)
      = (Inr (), (\<lparr>pw_db = db2, pw_kafka = log0 @ log @ [m]\<rparr>, v))" "length log = length (due_events pub v db)"
      "msg_topic m = p_GiftTopic p" "msg_key m = FormatInt (p_RoomID p)"
    and tr: "trace_text tr" "msg_value m = Some (InjectTrace (op_js pub raw) tr)"
    using dispatched_order [OF assms(7,8,3,9)] by blast
  have con: "\<forall>r. rec_value r = msg_value m \<longrightarrow> (\<exists>s'. gift_handler ck server c grp lease r (s, u) = (Inr (), (s', u))
      \<and> processed ck (cw_dedup s') grp (p_EventID p)
      \<and> cw_http s' = cw_http s @ [publish_request c (RoomStream (p_RoomID p)) (room_message p g (go_now w))])"
    using consumed_order [OF assms(6) assms(10) [OF raw] tr(1) _ assms(11-13)] tr(2) by simp
  have "balance_of (p_UserID p) (order_placed p g (gift_price g * p_Count p) raw (NOW3 w) db)
      = balance_of (p_UserID p) db - gift_price g * p_Count p"
    by simp
  with c d con show ?thesis by blast
qed

theorem gift_order_end_to_end_witness:
  "\<exists>db1 w1 db2 m. Create ascii_only id [] sample_request (sample_shop, noon) = (Inr (placed_view sample_request sample_gift (NOW3 noon), False), (db1, w1))
    \<and> dispatch tracing_publisher (\<lparr>pw_db = db1, pw_kafka = []\<rparr>, noon) = (Inr (), (\<lparr>pw_db = db2, pw_kafka = [m]\<rparr>, noon))
    \<and> (\<exists>s'. gift_handler id ok_server sample_centrifugo ''live'' 0 (sample_record\<lparr>rec_value := msg_value m\<rparr>) (idle_world, noon) = (Inr (), (s', noon))
          \<and> cw_http s' = [publish_request sample_centrifugo (RoomStream 5) (room_message sample_request sample_gift (go_now noon))])"
proof -
  have q: "faults noon = []" by (simp add: noon_def)
  have ids: "distinct (map ob_id (outbox_events sample_shop))" by (simp add: sample_shop_def)
  have fresh: "fresh_ids id sample_request sample_shop"
    by (simp add: fresh_ids_def sample_shop_def sample_request_def credit_tx_def)
  have n: "cw_dedup idle_world (id ''live'', id (p_EventID sample_request)) = None" by (simp add: idle_world_def)
  have tot: "gift_price sample_gift * p_Count sample_request = 200" by (simp add: sample_gift_def sample_request_def)
  have sh: "showable [] sample_request sample_gift (go_now noon)"
    using sample_event_ok sample_presentable sample_event_plain by (simp add: showable_def tot)
  have ready: "publisher_ready tracing_publisher noon sample_shop"
    by (simp add: publisher_ready_def due_rows_def sample_shop_def tracing_publisher_def tracing_text)
  have due: "due_events tracing_publisher noon sample_shop = []"
    by (simp add: due_events_def due_rows_def sample_shop_def)
  have col: "column_keeps (op_js tracing_publisher) sample_event (gift_members sample_request sample_gift 200) raw"
    if "marshal_envelope sample_event = Inr raw" for raw
    using column_keeps_id [OF _ that] sample_event_ok by (simp add: gift_payload_members tracing_publisher_def)
  obtain db1 w1 db2 log m where r: "Create ascii_only id [] sample_request (sample_shop, noon)
        = (Inr (placed_view sample_request sample_gift (NOW3 noon), False), (db1, w1))"
    and d: "dispatch tracing_publisher (\<lparr>pw_db = db1, pw_kafka = []\<rparr>, noon) = (Inr (), (\<lparr>pw_db = db2, pw_kafka = [] @ log @ [m]\<rparr>, noon))"
      "length log = length (due_events tracing_publisher noon sample_shop)"
    and h: "\<forall>r. rec_value r = msg_value m \<longrightarrow> (\<exists>s'. gift_handler id ok_server sample_centrifugo ''live'' 0 r (idle_world, noon) = (Inr (), (s', noon))
        \<and> processed id (cw_dedup s') ''live'' (p_EventID sample_request)
        \<and> cw_http s' = cw_http idle_world @ [publish_request sample_centrifugo (RoomStream (p_RoomID sample_request))
             (room_message sample_request sample_gift (go_now noon))])"
    using gift_order_end_to_end [where U = ascii_only and ck = id and trace = "[]" and server = ok_server and c = sample_centrifugo and lease = 0
        and ?log0.0 = "[]" and v = noon and u = noon and grp = "''live''",
        OF q sample_shop_ok ids fresh sample_orderable sh q _ ready _ q n ok_server_takes_all] col
    by (auto simp: tot)
  from spec [OF h, of "sample_record\<lparr>rec_value := msg_value m\<rparr>"]
  obtain s' where "gift_handler id ok_server sample_centrifugo ''live'' 0 (sample_record\<lparr>rec_value := msg_value m\<rparr>) (idle_world, noon) = (Inr (), (s', noon))"
    "cw_http s' = [publish_request sample_centrifugo (RoomStream 5) (room_message sample_request sample_gift (go_now noon))]"
    by (auto simp: idle_world_def sample_request_def)
  with r d due show ?thesis by auto
qed

end
