(* ===== verification/Room_Repo.thy ===== *)
theory Room_Repo
  imports Commerce_Schema
begin

text \<open>
  \<^verbatim>\<open>internal/room/model.go\<close> and \<^verbatim>\<open>repository.go\<close> on the room database
  (\<^verbatim>\<open>migrations/002_m2.sql\<close>): rooms, sessions, mutes and bans.
\<close>

section \<open>Model\<close>

definition StatusPreparing :: string where "StatusPreparing = ''PREPARING''"
definition StatusLiving :: string where "StatusLiving = ''LIVING''"
definition StatusClosed :: string where "StatusClosed = ''CLOSED''"

lemmas status_defs = StatusPreparing_def StatusLiving_def StatusClosed_def

record Room =
  rm_id :: int
  rm_anchor_id :: int
  rm_anchor_nickname :: string
  rm_title :: string
  rm_status :: string
  rm_started_at :: "int option"
  rm_ended_at :: "int option"
  rm_created_at :: int

record RoomAccess =
  ra_room :: Room
  ra_banned :: bool
  ra_muted :: bool

record Mute =
  mu_user_id :: int
  mu_nickname :: string
  mu_muted_until :: "int option"
  mu_reason :: string
  mu_updated_at :: int

record Ban =
  ba_user_id :: int
  ba_nickname :: string
  ba_reason :: string
  ba_created_at :: int

section \<open>Tables\<close>

record room_row =
  r_id :: int
  r_anchor_id :: int
  r_title :: string
  r_status :: string
  r_started_at :: "int option"
  r_ended_at :: "int option"
  r_created_at :: int
  r_updated_at :: int

record session_row =
  s_room_id :: int
  s_user_id :: int
  s_joined_at :: int
  s_last_seen_at :: int
  s_status :: int

record mute_row =
  m_room_id :: int
  m_user_id :: int
  m_muted_until :: "int option"
  m_created_by :: int
  m_reason :: string
  m_created_at :: int
  m_updated_at :: int

record ban_row =
  b_room_id :: int
  b_user_id :: int
  b_created_by :: int
  b_reason :: string
  b_created_at :: int

record room_db =
  live_rooms :: "room_row list"
  live_sessions :: "session_row list"
  room_mutes :: "mute_row list"
  room_bans :: "ban_row list"

section \<open>Rooms\<close>

definition room_view :: "room_row \<Rightarrow> Room" where
  "room_view r = \<lparr>rm_id = r_id r, rm_anchor_id = r_anchor_id r, rm_anchor_nickname = [],
     rm_title = r_title r, rm_status = r_status r, rm_started_at = r_started_at r,
     rm_ended_at = r_ended_at r, rm_created_at = r_created_at r\<rparr>"

definition room_by_id :: "int \<Rightarrow> room_db \<Rightarrow> room_row option" where
  "room_by_id i db = find (\<lambda>r. r_id r = i) (live_rooms db)"

definition Repo_ByID :: "int \<Rightarrow> (room_db, Room) prog" where
  "Repo_ByID i = handle (read_ext (\<lambda>db _. case room_by_id i db of
       None \<Rightarrow> Inl (Sentinel Sql_ErrNoRows) | Some r \<Rightarrow> Inr (room_view r)))
     (\<lambda>err. fail (if errors_is err Sql_ErrNoRows then Sentinel Room_ErrNotFound else err)) ret"

definition Repo_Create :: "int \<Rightarrow> string \<Rightarrow> (room_db, Room) prog" where
  "Repo_Create anchorID title =
     bind (ext (\<lambda>db w. let i = next_id r_id (live_rooms db) in
       (Inr i, db\<lparr>live_rooms := live_rooms db @ [\<lparr>r_id = i, r_anchor_id = anchorID, r_title = title,
          r_status = StatusPreparing, r_started_at = None, r_ended_at = None,
          r_created_at = NOW3 w, r_updated_at = NOW3 w\<rparr>]\<rparr>)))
     Repo_ByID"

definition list_key :: "room_row \<Rightarrow> int \<times> int" where
  "list_key r = (case r_started_at r of None \<Rightarrow> r_created_at r | Some t \<Rightarrow> t, r_id r)"

definition Repo_List :: "string \<Rightarrow> int \<Rightarrow> (room_db, Room list) prog" where
  "Repo_List status limit0 =
     (let limit = (if limit0 \<le> 0 \<or> limit0 > 100 then 24 else limit0) in
      read_ext (\<lambda>db _. Inr (map room_view (take (nat limit) (order_desc list_key
        (filter (\<lambda>r. status = [] \<or> r_status r = status) (live_rooms db)))))))"

definition set_status :: "string \<Rightarrow> int \<Rightarrow> room_row \<Rightarrow> room_row" where
  "set_status to t r =
     (let r1 = r\<lparr>r_status := to, r_updated_at := t\<rparr>;
          r2 = (if to = StatusLiving then r1\<lparr>r_started_at := Some t, r_ended_at := None\<rparr> else r1)
      in if to = StatusClosed then r2\<lparr>r_ended_at := Some t\<rparr> else r2)"

definition ChangeStatus :: "int \<Rightarrow> int \<Rightarrow> string \<Rightarrow> string \<Rightarrow> (room_db, unit) prog" where
  "ChangeStatus i anchorID from to =
     bind (ext (\<lambda>db w.
       let (n, rows) = sql_update (\<lambda>r. r_id r = i \<and> r_anchor_id r = anchorID \<and> r_status r = from)
                         (set_status to (NOW3 w)) (live_rooms db)
       in (Inr n, db\<lparr>live_rooms := rows\<rparr>)))
     (\<lambda>n. if n = 0 then fail (Sentinel Room_ErrInvalidState) else ret ())"

section \<open>Sessions, bans, mutes\<close>

definition Repo_Join :: "int \<Rightarrow> int \<Rightarrow> (room_db, unit) prog" where
  "Repo_Join roomID userID = ext (\<lambda>db w. (Inr (), db\<lparr>live_sessions :=
     sql_upsert (\<lambda>s. s_room_id s = roomID \<and> s_user_id s = userID)
       (\<lambda>s. s\<lparr>s_last_seen_at := NOW3 w, s_status := 1\<rparr>)
       \<lparr>s_room_id = roomID, s_user_id = userID, s_joined_at = NOW3 w, s_last_seen_at = NOW3 w, s_status = 1\<rparr>
       (live_sessions db)\<rparr>))"

definition banned_in :: "room_db \<Rightarrow> int \<Rightarrow> int \<Rightarrow> bool" where
  "banned_in db roomID userID \<longleftrightarrow> list_ex (\<lambda>b. b_room_id b = roomID \<and> b_user_id b = userID) (room_bans db)"

definition Repo_IsBanned :: "int \<Rightarrow> int \<Rightarrow> (room_db, bool) prog" where
  "Repo_IsBanned roomID userID = read_ext (\<lambda>db _. Inr (banned_in db roomID userID))"

definition Repo_Ban :: "int \<Rightarrow> int \<Rightarrow> int \<Rightarrow> string \<Rightarrow> (room_db, unit) prog" where
  "Repo_Ban roomID userID createdBy reason = ext (\<lambda>db w. (Inr (), db\<lparr>room_bans :=
     sql_upsert (\<lambda>b. b_room_id b = roomID \<and> b_user_id b = userID)
       (\<lambda>b. b\<lparr>b_created_by := createdBy, b_reason := reason, b_created_at := NOW3 w\<rparr>)
       \<lparr>b_room_id = roomID, b_user_id = userID, b_created_by = createdBy, b_reason = reason, b_created_at = NOW3 w\<rparr>
       (room_bans db)\<rparr>))"

definition Repo_Unban :: "int \<Rightarrow> int \<Rightarrow> (room_db, unit) prog" where
  "Repo_Unban roomID userID = ext (\<lambda>db w. (Inr (),
     db\<lparr>room_bans := filter (\<lambda>b. \<not> (b_room_id b = roomID \<and> b_user_id b = userID)) (room_bans db)\<rparr>))"

definition ban_view :: "ban_row \<Rightarrow> Ban" where
  "ban_view b = \<lparr>ba_user_id = b_user_id b, ba_nickname = [], ba_reason = b_reason b, ba_created_at = b_created_at b\<rparr>"

definition Repo_ListBans :: "int \<Rightarrow> (room_db, Ban list) prog" where
  "Repo_ListBans roomID = read_ext (\<lambda>db _. Inr (map ban_view
     (order_desc b_created_at (filter (\<lambda>b. b_room_id b = roomID) (room_bans db)))))"

definition mute_active :: "int \<Rightarrow> mute_row \<Rightarrow> bool" where
  "mute_active t m \<longleftrightarrow> (case m_muted_until m of None \<Rightarrow> True | Some u \<Rightarrow> u > t)"

definition muted_in :: "room_db \<Rightarrow> int \<Rightarrow> int \<Rightarrow> int \<Rightarrow> bool" where
  "muted_in db t roomID userID \<longleftrightarrow>
     list_ex (\<lambda>m. m_room_id m = roomID \<and> m_user_id m = userID \<and> mute_active t m) (room_mutes db)"

definition Repo_IsMuted :: "int \<Rightarrow> int \<Rightarrow> (room_db, bool) prog" where
  "Repo_IsMuted roomID userID = read_ext (\<lambda>db w. Inr (muted_in db (NOW3 w) roomID userID))"

definition Repo_Mute :: "int \<Rightarrow> int \<Rightarrow> int \<Rightarrow> int option \<Rightarrow> string \<Rightarrow> (room_db, unit) prog" where
  "Repo_Mute roomID userID createdBy until reason = ext (\<lambda>db w.
     let u = map_option datetime3 until in (Inr (), db\<lparr>room_mutes :=
     sql_upsert (\<lambda>m. m_room_id m = roomID \<and> m_user_id m = userID)
       (\<lambda>m. m\<lparr>m_muted_until := u, m_created_by := createdBy, m_reason := reason, m_updated_at := NOW3 w\<rparr>)
       \<lparr>m_room_id = roomID, m_user_id = userID, m_muted_until = u, m_created_by = createdBy,
        m_reason = reason, m_created_at = NOW3 w, m_updated_at = NOW3 w\<rparr>
       (room_mutes db)\<rparr>))"

definition Repo_Unmute :: "int \<Rightarrow> int \<Rightarrow> (room_db, unit) prog" where
  "Repo_Unmute roomID userID = ext (\<lambda>db w. (Inr (),
     db\<lparr>room_mutes := filter (\<lambda>m. \<not> (m_room_id m = roomID \<and> m_user_id m = userID)) (room_mutes db)\<rparr>))"

definition mute_view :: "mute_row \<Rightarrow> Mute" where
  "mute_view m = \<lparr>mu_user_id = m_user_id m, mu_nickname = [], mu_muted_until = m_muted_until m,
     mu_reason = m_reason m, mu_updated_at = m_updated_at m\<rparr>"

definition Repo_ListMutes :: "int \<Rightarrow> (room_db, Mute list) prog" where
  "Repo_ListMutes roomID = read_ext (\<lambda>db w. Inr (map mute_view
     (order_desc m_updated_at (filter (\<lambda>m. m_room_id m = roomID \<and> mute_active (NOW3 w) m) (room_mutes db)))))"

end
