(* ===== verification/Identity.thy ===== *)
theory Identity
  imports Commerce_Schema
begin

text \<open>
  The identity database's \<open>users\<close> table and \<^verbatim>\<open>internal/auth/repository.go\<close>, with the name
  lookup of \<^verbatim>\<open>internal/auth/service.go\<close> that serves as the room service's user directory.
\<close>

record User =
  u_id :: int
  u_username :: string
  u_nickname :: string
  u_avatar :: string
  u_password_hash :: string
  u_status :: int
  u_created_at :: int

record identity_db =
  users :: "User list"

definition select_user :: "(User \<Rightarrow> bool) \<Rightarrow> (identity_db, User) prog" where
  "select_user P = handle (read_ext (\<lambda>db _. case find P (users db) of
       None \<Rightarrow> Inl (Sentinel Sql_ErrNoRows) | Some u \<Rightarrow> Inr u))
     (\<lambda>err. fail (if errors_is err Sql_ErrNoRows then Sentinel Auth_ErrUserNotFound else err)) ret"

definition Auth_ByUsername :: "(string \<Rightarrow> string) \<Rightarrow> string \<Rightarrow> (identity_db, User) prog" where
  "Auth_ByUsername ck username = select_user (\<lambda>u. ck (u_username u) = ck username)"

definition Auth_ByID :: "int \<Rightarrow> (identity_db, User) prog" where
  "Auth_ByID i = select_user (\<lambda>u. u_id u = i)"

definition Auth_Create ::
  "(string \<Rightarrow> string) \<Rightarrow> string \<Rightarrow> string \<Rightarrow> string \<Rightarrow> string \<Rightarrow> (identity_db, User) prog" where
  "Auth_Create ck avatar username nickname passwordHash =
     bind (ext (\<lambda>db w.
       if list_ex (\<lambda>u. ck (u_username u) = ck username) (users db)
       then (Inl (dup_entry username ''users.uk_users_username''), db)
       else let i = next_id u_id (users db) in
         (Inr i, db\<lparr>users := users db @ [\<lparr>u_id = i, u_username = username, u_nickname = nickname,
            u_avatar = avatar, u_password_hash = passwordHash, u_status = 1, u_created_at = NOW3 w\<rparr>]\<rparr>)))
     Auth_ByID"

definition Nickname :: "int \<Rightarrow> (identity_db, string \<times> bool) prog" where
  "Nickname i = handle (Auth_ByID i)
     (\<lambda>err. if errors_is err Auth_ErrUserNotFound then ret ([], False) else fail err)
     (\<lambda>u. ret (u_nickname u, True))"

lemma keeps_select_user [keeps_intro]: "keeps I (select_user P)"
  unfolding select_user_def by (intro keeps_intro)

lemma keeps_Nickname [keeps_intro]: "keeps I (Nickname i)"
  unfolding Nickname_def Auth_ByID_def by (intro keeps_intro)

end
