(* ===== verification/Room_Service.thy ===== *)
theory Room_Service
  imports Room_Repo Identity
begin

text \<open>
  \<^verbatim>\<open>internal/room/service.go\<close>: the room lifecycle, joining and moderation, over the room
  repository and the identity service's names (the wiring of \<^verbatim>\<open>cmd/identityroom\<close>). The
  service works on both databases; each repository call is \<open>zoom\<close>ed onto its own.
\<close>

record site =
  room_data :: room_db
  identity_data :: identity_db

definition on_rooms :: "(room_db, 'a) prog \<Rightarrow> (site, 'a) prog" where
  "on_rooms = zoom room_data (\<lambda>d. room_data_update (\<lambda>_. d))"

definition on_users :: "(identity_db, 'a) prog \<Rightarrow> (site, 'a) prog" where
  "on_users = zoom identity_data (\<lambda>d. identity_data_update (\<lambda>_. d))"

text \<open>The service: whether it was given a user directory.\<close>

record RoomService =
  has_users :: bool

definition Room_NewService :: "bool \<Rightarrow> RoomService" where
  "Room_NewService u = \<lparr>has_users = u\<rparr>"

definition nickname :: "RoomService \<Rightarrow> int \<Rightarrow> (site, string \<times> bool) prog" where
  "nickname s userID =
     (if \<not> has_users s then fail (Plain ''room user directory is not configured'')
      else on_users (Nickname userID))"

text \<open>\<^verbatim>\<open>withAnchor\<close>, applied to the result of a repository call.\<close>

definition withAnchor :: "RoomService \<Rightarrow> (site, Room) prog \<Rightarrow> (site, Room) prog" where
  "withAnchor s m = bind m (\<lambda>v.
     if \<not> has_users s then ret v
     else bind (nickname s (rm_anchor_id v)) (\<lambda>(name, _). ret (v\<lparr>rm_anchor_nickname := name\<rparr>)))"

definition Room_Create :: "RoomService \<Rightarrow> int \<Rightarrow> string \<Rightarrow> (site, Room) prog" where
  "Room_Create s anchorID title0 =
     (let title = TrimSpace title0 in
      if title = [] \<or> length (runes title) > 100
      then fail (errorf_post (Sentinel Room_ErrInvalidInput) ''title must be 1-100 characters'')
      else withAnchor s (on_rooms (Repo_Create anchorID title)))"

definition Room_Get :: "RoomService \<Rightarrow> int \<Rightarrow> (site, Room) prog" where
  "Room_Get s i = withAnchor s (on_rooms (Repo_ByID i))"

definition Room_IsMuted :: "int \<Rightarrow> int \<Rightarrow> (site, bool) prog" where
  "Room_IsMuted roomID userID = on_rooms (Repo_IsMuted roomID userID)"

definition Room_IsBanned :: "int \<Rightarrow> int \<Rightarrow> (site, bool) prog" where
  "Room_IsBanned roomID userID = on_rooms (Repo_IsBanned roomID userID)"

definition GetRoomAccess :: "RoomService \<Rightarrow> int \<Rightarrow> int \<Rightarrow> (site, RoomAccess) prog" where
  "GetRoomAccess s roomID userID =
     bind (Room_Get s roomID) (\<lambda>v.
     bind (on_rooms (Repo_IsBanned roomID userID)) (\<lambda>banned.
     bind (on_rooms (Repo_IsMuted roomID userID)) (\<lambda>muted.
     ret \<lparr>ra_room = v, ra_banned = banned, ra_muted = muted\<rparr>)))"

definition Room_List :: "RoomService \<Rightarrow> string \<Rightarrow> int \<Rightarrow> (site, Room list) prog" where
  "Room_List s status limit =
     (if status \<noteq> [] \<and> status \<noteq> StatusPreparing \<and> status \<noteq> StatusLiving \<and> status \<noteq> StatusClosed
      then fail (errorf_post (Sentinel Room_ErrInvalidInput) ''unsupported room status'')
      else bind (on_rooms (Repo_List status limit)) (map_prog (\<lambda>v. withAnchor s (ret v))))"

definition Room_Start :: "RoomService \<Rightarrow> int \<Rightarrow> int \<Rightarrow> (site, Room) prog" where
  "Room_Start s i actorID =
     bind (on_rooms (Repo_ByID i)) (\<lambda>v.
     if rm_anchor_id v \<noteq> actorID then fail (Sentinel Room_ErrForbidden)
     else bind (on_rooms (ChangeStatus i actorID StatusPreparing StatusLiving)) (\<lambda>_. Room_Get s i))"

definition Room_Stop :: "RoomService \<Rightarrow> int \<Rightarrow> int \<Rightarrow> (site, Room) prog" where
  "Room_Stop s i actorID =
     bind (on_rooms (Repo_ByID i)) (\<lambda>v.
     if rm_anchor_id v \<noteq> actorID then fail (Sentinel Room_ErrForbidden)
     else bind (on_rooms (ChangeStatus i actorID StatusLiving StatusClosed)) (\<lambda>_. Room_Get s i))"

definition Room_Join :: "RoomService \<Rightarrow> int \<Rightarrow> int \<Rightarrow> (site, Room) prog" where
  "Room_Join s i userID =
     bind (Room_Get s i) (\<lambda>v.
     if rm_status v \<noteq> StatusLiving then fail (Sentinel Room_ErrNotLiving)
     else bind (on_rooms (Repo_IsBanned i userID)) (\<lambda>banned.
       if banned then fail (Sentinel Room_ErrBanned)
       else bind (on_rooms (Repo_Join i userID)) (\<lambda>_. ret v)))"

definition requireAnchor :: "int \<Rightarrow> int \<Rightarrow> (site, unit) prog" where
  "requireAnchor roomID actorID =
     bind (on_rooms (Repo_ByID roomID)) (\<lambda>v.
     if rm_anchor_id v \<noteq> actorID then fail (Sentinel Room_ErrForbidden) else ret ())"

definition validateModerationTarget :: "RoomService \<Rightarrow> int \<Rightarrow> string \<Rightarrow> (site, string) prog" where
  "validateModerationTarget s targetID reason0 =
     bind (nickname s targetID) (\<lambda>(_, exists).
     if \<not> exists then fail (Sentinel Room_ErrUserNotFound)
     else let reason = TrimSpace reason0 in
       if length (runes reason) > 255
       then fail (errorf_post (Sentinel Room_ErrInvalidInput) ''reason must not exceed 255 characters'')
       else ret reason)"

definition Room_Mute :: "RoomService \<Rightarrow> int \<Rightarrow> int \<Rightarrow> int \<Rightarrow> int \<Rightarrow> string \<Rightarrow> (site, unit) prog" where
  "Room_Mute s roomID actorID targetID duration reason0 =
     bind (requireAnchor roomID actorID) (\<lambda>_.
     if targetID = actorID then fail (Sentinel Room_ErrSelfModeration)
     else bind (validateModerationTarget s targetID reason0) (\<lambda>reason.
       bind now (\<lambda>t.
       on_rooms (Repo_Mute roomID targetID actorID (if duration > 0 then Some (t + duration) else None) reason))))"

definition Room_Unmute :: "int \<Rightarrow> int \<Rightarrow> int \<Rightarrow> (site, unit) prog" where
  "Room_Unmute roomID actorID targetID =
     bind (requireAnchor roomID actorID) (\<lambda>_. on_rooms (Repo_Unmute roomID targetID))"

definition Room_Ban :: "RoomService \<Rightarrow> int \<Rightarrow> int \<Rightarrow> int \<Rightarrow> string \<Rightarrow> (site, unit) prog" where
  "Room_Ban s roomID actorID targetID reason0 =
     bind (requireAnchor roomID actorID) (\<lambda>_.
     if targetID = actorID then fail (Sentinel Room_ErrSelfModeration)
     else bind (validateModerationTarget s targetID reason0) (\<lambda>reason.
       on_rooms (Repo_Ban roomID targetID actorID reason)))"

definition Room_Unban :: "int \<Rightarrow> int \<Rightarrow> int \<Rightarrow> (site, unit) prog" where
  "Room_Unban roomID actorID targetID =
     bind (requireAnchor roomID actorID) (\<lambda>_. on_rooms (Repo_Unban roomID targetID))"

definition Room_ListMutes :: "RoomService \<Rightarrow> int \<Rightarrow> int \<Rightarrow> (site, Mute list) prog" where
  "Room_ListMutes s roomID actorID =
     bind (requireAnchor roomID actorID) (\<lambda>_.
     bind (on_rooms (Repo_ListMutes roomID)) (map_prog (\<lambda>item.
       bind (nickname s (mu_user_id item)) (\<lambda>(name, _). ret (item\<lparr>mu_nickname := name\<rparr>)))))"

definition Room_ListBans :: "RoomService \<Rightarrow> int \<Rightarrow> int \<Rightarrow> (site, Ban list) prog" where
  "Room_ListBans s roomID actorID =
     bind (requireAnchor roomID actorID) (\<lambda>_.
     bind (on_rooms (Repo_ListBans roomID)) (map_prog (\<lambda>item.
       bind (nickname s (ba_user_id item)) (\<lambda>(name, _). ret (item\<lparr>ba_nickname := name\<rparr>)))))"

end
