(* ===== verification/Room_Lifecycle.thy ===== *)
theory Room_Lifecycle
  imports Room_Service
begin

text \<open>
  The room service as a state machine: requests in any order, each under any failures. What
  they may do to a room, who may do it, and what joining, banning and muting mean.
\<close>


section \<open>Invariants through the service\<close>

lemma keeps_on_rooms: "keeps J m \<Longrightarrow> keeps (\<lambda>x. J (room_data x)) (on_rooms m)"
  unfolding on_rooms_def by (rule keeps_zoom) (auto simp: keeps_def)

lemma keeps_on_users: "keeps (\<lambda>x. J (room_data x)) (on_users m)"
  unfolding on_users_def by (rule keepsI) (auto simp: zoom_def split: prod.splits)

lemma reads_rooms [keeps_intro]:
  "keeps I (Repo_ByID i)" "keeps I (Repo_List st n)" "keeps I (Repo_IsBanned r u)"
  "keeps I (Repo_IsMuted r u)" "keeps I (Repo_ListMutes r)" "keeps I (Repo_ListBans r)"
  by (auto simp: Repo_ByID_def Repo_List_def Repo_IsBanned_def Repo_IsMuted_def Repo_ListMutes_def
      Repo_ListBans_def Let_def intro!: keeps_intro)

lemma keeps_Repo_Join: "(\<And>d s. I d \<Longrightarrow> I (d\<lparr>live_sessions := s\<rparr>)) \<Longrightarrow> keeps I (Repo_Join r u)"
  unfolding Repo_Join_def by (rule keeps_ext) simp

lemma keeps_Repo_Ban: "(\<And>d s. I d \<Longrightarrow> I (d\<lparr>room_bans := s\<rparr>)) \<Longrightarrow> keeps I (Repo_Ban r u c t)"
  unfolding Repo_Ban_def by (rule keeps_ext) simp

lemma keeps_Repo_Unban: "(\<And>d s. I d \<Longrightarrow> I (d\<lparr>room_bans := s\<rparr>)) \<Longrightarrow> keeps I (Repo_Unban r u)"
  unfolding Repo_Unban_def by (rule keeps_ext) simp

lemma keeps_Repo_Mute: "(\<And>d s. I d \<Longrightarrow> I (d\<lparr>room_mutes := s\<rparr>)) \<Longrightarrow> keeps I (Repo_Mute r u c t z)"
  unfolding Repo_Mute_def Let_def by (rule keeps_ext) simp

lemma keeps_Repo_Unmute: "(\<And>d s. I d \<Longrightarrow> I (d\<lparr>room_mutes := s\<rparr>)) \<Longrightarrow> keeps I (Repo_Unmute r u)"
  unfolding Repo_Unmute_def by (rule keeps_ext) simp

section \<open>The service as a state machine\<close>

datatype room_op =
    OpCreate int string | OpGet int | OpAccess int int | OpList string int
  | OpStart int int | OpStop int int | OpJoin int int
  | OpMute int int int int string | OpUnmute int int int
  | OpBan int int int string | OpUnban int int int
  | OpListMutes int int | OpListBans int int

fun run_op :: "RoomService \<Rightarrow> room_op \<Rightarrow> (site, unit) prog" where
  "run_op s (OpCreate a t) = bind (Room_Create s a t) (\<lambda>_. ret ())"
| "run_op s (OpGet i) = bind (Room_Get s i) (\<lambda>_. ret ())"
| "run_op s (OpAccess i u) = bind (GetRoomAccess s i u) (\<lambda>_. ret ())"
| "run_op s (OpList st n) = bind (Room_List s st n) (\<lambda>_. ret ())"
| "run_op s (OpStart i a) = bind (Room_Start s i a) (\<lambda>_. ret ())"
| "run_op s (OpStop i a) = bind (Room_Stop s i a) (\<lambda>_. ret ())"
| "run_op s (OpJoin i u) = bind (Room_Join s i u) (\<lambda>_. ret ())"
| "run_op s (OpMute i a u d t) = Room_Mute s i a u d t"
| "run_op s (OpUnmute i a u) = Room_Unmute i a u"
| "run_op s (OpBan i a u t) = Room_Ban s i a u t"
| "run_op s (OpUnban i a u) = Room_Unban i a u"
| "run_op s (OpListMutes i a) = bind (Room_ListMutes s i a) (\<lambda>_. ret ())"
| "run_op s (OpListBans i a) = bind (Room_ListBans s i a) (\<lambda>_. ret ())"

text \<open>One request, under any failures; any number of them, one after the other.\<close>

inductive site_step :: "RoomService \<Rightarrow> site \<Rightarrow> site \<Rightarrow> bool" for s where
  request: "run_op s rop (x, w) = (r, (x', w')) \<Longrightarrow> site_step s x x'"

inductive site_reach :: "RoomService \<Rightarrow> site \<Rightarrow> site \<Rightarrow> bool" for s where
  start: "site_reach s x x"
| more: "site_reach s x y \<Longrightarrow> site_step s y z \<Longrightarrow> site_reach s x z"

text \<open>What the rooms table is exposed to: a new room, or a status change.\<close>

lemma keeps_run_op_bans:
  assumes created: "\<And>a t. keeps J (Repo_Create a t)"
    and changed: "\<And>i a. rop = OpStart i a \<Longrightarrow> keeps J (ChangeStatus i a StatusPreparing StatusLiving)"
      "\<And>i a. rop = OpStop i a \<Longrightarrow> keeps J (ChangeStatus i a StatusLiving StatusClosed)"
    and other: "\<And>d s. J d \<Longrightarrow> J (d\<lparr>live_sessions := s\<rparr>)" "\<And>d s. J d \<Longrightarrow> J (d\<lparr>room_mutes := s\<rparr>)"
    and bans: "\<And>i u c t. keeps J (Repo_Ban i u c t)"
      "\<And>i a u. rop = OpUnban i a u \<Longrightarrow> keeps (\<lambda>x. J (room_data x)) (Room_Unban i a u)"
  shows "keeps (\<lambda>x. J (room_data x)) (run_op s rop)"
proof -
  note on = keeps_on_rooms keeps_on_users
  have n: "keeps (\<lambda>x. J (room_data x)) (nickname s i)" for i
    unfolding nickname_def by (intro keeps_intro on)
  have wa: "keeps (\<lambda>x. J (room_data x)) m \<Longrightarrow> keeps (\<lambda>x. J (room_data x)) (withAnchor s m)" for m
    unfolding withAnchor_def by (intro keeps_intro n)
  have ra: "keeps (\<lambda>x. J (room_data x)) (requireAnchor i a)" for i a
    unfolding requireAnchor_def by (intro keeps_intro on)
  note ops = Room_Create_def Room_Get_def GetRoomAccess_def Room_List_def Room_Start_def Room_Stop_def
    Room_Join_def Room_Mute_def Room_Unmute_def Room_Ban_def Room_ListMutes_def
    Room_ListBans_def validateModerationTarget_def Let_def
  show ?thesis
    by (cases rop; simp only: run_op.simps ops;
        intro keeps_intro on n wa ra assms keeps_Repo_Join keeps_Repo_Mute keeps_Repo_Unmute; assumption)
qed

lemma keeps_run_op:
  assumes created: "\<And>a t. keeps J (Repo_Create a t)"
    and changed: "\<And>i a. rop = OpStart i a \<Longrightarrow> keeps J (ChangeStatus i a StatusPreparing StatusLiving)"
      "\<And>i a. rop = OpStop i a \<Longrightarrow> keeps J (ChangeStatus i a StatusLiving StatusClosed)"
    and other: "\<And>d s. J d \<Longrightarrow> J (d\<lparr>live_sessions := s\<rparr>)" "\<And>d s. J d \<Longrightarrow> J (d\<lparr>room_bans := s\<rparr>)"
      "\<And>d s. J d \<Longrightarrow> J (d\<lparr>room_mutes := s\<rparr>)"
  shows "keeps (\<lambda>x. J (room_data x)) (run_op s rop)"
proof (rule keeps_run_op_bans)
  show "keeps (\<lambda>x. J (room_data x)) (Room_Unban i a u)" for i a u
    unfolding Room_Unban_def requireAnchor_def
    by (intro keeps_intro keeps_on_rooms keeps_Repo_Unban other(2))
qed (use assms keeps_Repo_Ban in blast)+

section \<open>The life of a room\<close>

definition status_rank :: "string \<Rightarrow> nat" where
  "status_rank st = (if st = StatusPreparing then 0 else if st = StatusLiving then 1 else 2)"

definition room_row_ok :: "room_row \<Rightarrow> bool" where
  "room_row_ok r \<longleftrightarrow>
     (r_status r = StatusPreparing \<and> r_started_at r = None \<and> r_ended_at r = None)
     \<or> (r_status r = StatusLiving \<and> r_started_at r \<noteq> None \<and> r_ended_at r = None)
     \<or> (r_status r = StatusClosed \<and> r_started_at r \<noteq> None \<and> r_ended_at r \<noteq> None)"

definition rooms_ok :: "room_db \<Rightarrow> bool" where
  "rooms_ok d \<longleftrightarrow> distinct (map r_id (live_rooms d)) \<and> list_all room_row_ok (live_rooms d)"

text \<open>What a room may become: the same room, in the same or a later status; a status once
  left is never entered again, and within a status nothing changes.\<close>

definition becomes :: "room_row \<Rightarrow> room_row \<Rightarrow> bool" where
  "becomes r r' \<longleftrightarrow>
     r_id r' = r_id r \<and> r_anchor_id r' = r_anchor_id r \<and> r_title r' = r_title r \<and> r_created_at r' = r_created_at r
     \<and> status_rank (r_status r) \<le> status_rank (r_status r')
     \<and> (r_status r' = r_status r \<longrightarrow> r' = r)
     \<and> (r_status r \<noteq> StatusPreparing \<longrightarrow> r_started_at r' = r_started_at r)"

lemma status_distinct [simp]:
  "StatusPreparing \<noteq> StatusLiving" "StatusLiving \<noteq> StatusPreparing"
  "StatusPreparing \<noteq> StatusClosed" "StatusClosed \<noteq> StatusPreparing"
  "StatusLiving \<noteq> StatusClosed" "StatusClosed \<noteq> StatusLiving"
  by (simp_all add: status_defs)

lemma becomes_refl: "becomes r r"
  by (simp add: becomes_def)

lemma set_status_keys [simp]:
  "r_id (set_status to t r) = r_id r" "r_anchor_id (set_status to t r) = r_anchor_id r"
  "r_title (set_status to t r) = r_title r" "r_created_at (set_status to t r) = r_created_at r"
  "r_status (set_status to t r) = to"
  by (auto simp: set_status_def Let_def)

lemma set_status_times [simp]:
  "r_started_at (set_status StatusLiving t r) = Some t" "r_ended_at (set_status StatusLiving t r) = None"
  "r_started_at (set_status StatusClosed t r) = r_started_at r" "r_ended_at (set_status StatusClosed t r) = Some t"
  by (simp_all add: set_status_def)

lemma status_rank_simps [simp]:
  "status_rank StatusPreparing = 0" "status_rank StatusLiving = 1" "status_rank StatusClosed = 2"
  by (simp_all add: status_rank_def)

lemma status_rank_eq: "status_rank st = 0 \<longleftrightarrow> st = StatusPreparing" "status_rank st = 1 \<longleftrightarrow> st = StatusLiving"
  "status_rank st = Suc 0 \<longleftrightarrow> st = StatusLiving"
  by (simp_all add: status_rank_def)

lemma starts:
  assumes "becomes r0 r" and "room_row_ok r0" and "r_status r = StatusPreparing"
  shows "becomes r0 (set_status StatusLiving t r)"
  using assms by (auto simp: becomes_def status_rank_eq)

lemma stops:
  assumes "becomes r0 r" and "room_row_ok r0" and "r_status r = StatusLiving"
  shows "becomes r0 (set_status StatusClosed t r)"
  using assms by (auto simp: becomes_def room_row_ok_def)

lemma started_ok: "room_row_ok r \<Longrightarrow> room_row_ok (set_status StatusLiving t r)"
  by (simp add: room_row_ok_def)

lemma stopped_ok: "room_row_ok r \<Longrightarrow> r_status r = StatusLiving \<Longrightarrow> room_row_ok (set_status StatusClosed t r)"
  by (auto simp: room_row_ok_def)

text \<open>The invariant of a run that started with a given room in the table.\<close>

definition evolved :: "room_row \<Rightarrow> room_db \<Rightarrow> bool" where
  "evolved r0 d \<longleftrightarrow> rooms_ok d \<and> room_row_ok r0 \<and> (\<exists>r \<in> set (live_rooms d). becomes r0 r)"

definition upd_rooms :: "int \<Rightarrow> int \<Rightarrow> string \<Rightarrow> string \<Rightarrow> int \<Rightarrow> room_db \<Rightarrow> room_db" where
  "upd_rooms i a from to t d = d\<lparr>live_rooms := map (\<lambda>r. if r_id r = i \<and> r_anchor_id r = a \<and> r_status r = from
     then set_status to t r else r) (live_rooms d)\<rparr>"

lemma ChangeStatus_keeps:
  assumes "\<And>d t. J d \<Longrightarrow> J (upd_rooms i a from to t d)"
  shows "keeps J (ChangeStatus i a from to)"
  unfolding ChangeStatus_def
  by (intro keeps_intro keeps_ext)
    (use assms in \<open>auto simp: sql_update_def upd_rooms_def\<close>)

lemma upd_rooms_ok:
  assumes "rooms_ok d" and "from = StatusPreparing \<and> to = StatusLiving \<or> from = StatusLiving \<and> to = StatusClosed"
  shows "rooms_ok (upd_rooms i a from to t d)"
proof -
  have "map r_id (live_rooms (upd_rooms i a from to t d)) = map r_id (live_rooms d)"
    by (auto simp: upd_rooms_def)
  moreover have "list_all room_row_ok (live_rooms (upd_rooms i a from to t d))"
    using assms by (auto simp: rooms_ok_def upd_rooms_def list_all_iff intro: started_ok stopped_ok)
  ultimately show ?thesis
    using assms(1) by (simp add: rooms_ok_def)
qed

lemma upd_rooms_evolved:
  assumes "evolved r0 d" and "from = StatusPreparing \<and> to = StatusLiving \<or> from = StatusLiving \<and> to = StatusClosed"
  shows "evolved r0 (upd_rooms i a from to t d)"
proof -
  from assms(1) obtain r where r: "r \<in> set (live_rooms d)" "becomes r0 r" and ok: "rooms_ok d" "room_row_ok r0"
    by (auto simp: evolved_def)
  let ?f = "\<lambda>r. if r_id r = i \<and> r_anchor_id r = a \<and> r_status r = from then set_status to t r else r"
  have "?f r \<in> set (live_rooms (upd_rooms i a from to t d))" using r(1) by (simp add: upd_rooms_def)
  moreover have "becomes r0 (?f r)"
    using r(2) ok(2) assms(2) starts [OF r(2) ok(2)] stops [OF r(2) ok(2)] by auto
  ultimately show ?thesis
    using upd_rooms_ok [OF ok(1) assms(2)] ok(2) by (auto simp: evolved_def)
qed

lemma Repo_Create_keeps:
  assumes "\<And>d row. J d \<Longrightarrow> r_id row \<notin> r_id ` set (live_rooms d) \<Longrightarrow> room_row_ok row \<Longrightarrow>
      J (d\<lparr>live_rooms := live_rooms d @ [row]\<rparr>)"
  shows "keeps J (Repo_Create a t)"
  unfolding Repo_Create_def Let_def
proof (intro keeps_intro keeps_ext)
  fix d w
  assume "J d"
  have "next_id r_id (live_rooms d) \<notin> r_id ` set (live_rooms d)"
    using next_id_fresh [of _ "live_rooms d" r_id] by fastforce
  with \<open>J d\<close> show "J (snd (Inr (next_id r_id (live_rooms d)), d\<lparr>live_rooms := live_rooms d @
      [\<lparr>r_id = next_id r_id (live_rooms d), r_anchor_id = a, r_title = t, r_status = StatusPreparing,
        r_started_at = None, r_ended_at = None, r_created_at = NOW3 w, r_updated_at = NOW3 w\<rparr>]\<rparr>))"
    by (auto simp: room_row_ok_def intro!: assms)
qed

lemma evolved_step: "keeps (\<lambda>x. evolved r0 (room_data x)) (run_op s rop)"
proof (rule keeps_run_op)
  show "keeps (evolved r0) (Repo_Create a t)" for a t
    by (rule Repo_Create_keeps) (auto simp: evolved_def rooms_ok_def)
qed ((intro ChangeStatus_keeps upd_rooms_evolved, assumption, simp)+, simp_all add: evolved_def rooms_ok_def)

lemma evolved_reach:
  "site_reach s x y \<Longrightarrow> evolved r0 (room_data x) \<Longrightarrow> evolved r0 (room_data y)"
proof (induction rule: site_reach.induct)
  case (more x y z)
  from more.hyps(2) obtain rop w r w' where "run_op s rop (y, w) = (r, (z, w'))"
    by (auto elim: site_step.cases)
  with keepsD [OF evolved_step] more show ?case by blast
qed


text \<open>Who changed a room: \<open>Start\<close> and \<open>Stop\<close> by its anchor, from the right status.\<close>

definition status_change :: "room_op \<Rightarrow> room_row \<Rightarrow> room_row \<Rightarrow> bool" where
  "status_change rop r r' \<longleftrightarrow>
     (rop = OpStart (r_id r) (r_anchor_id r) \<and> r_status r = StatusPreparing \<and> r_status r' = StatusLiving)
     \<or> (rop = OpStop (r_id r) (r_anchor_id r) \<and> r_status r = StatusLiving \<and> r_status r' = StatusClosed)"

definition authorised :: "room_op \<Rightarrow> room_row list \<Rightarrow> room_db \<Rightarrow> bool" where
  "authorised rop rows d \<longleftrightarrow>
     r_id ` set rows \<subseteq> r_id ` set (live_rooms d)
     \<and> (\<forall>r \<in> set rows. \<forall>r' \<in> set (live_rooms d). r_id r' = r_id r \<longrightarrow> r' = r \<or> status_change rop r r')"

lemma authorised_upd:
  assumes "authorised rop rows d"
    and "rop = OpStart i a \<and> from = StatusPreparing \<and> to = StatusLiving
       \<or> rop = OpStop i a \<and> from = StatusLiving \<and> to = StatusClosed"
  shows "authorised rop rows (upd_rooms i a from to t d)"
proof -
  have "map r_id (live_rooms (upd_rooms i a from to t d)) = map r_id (live_rooms d)"
    by (auto simp: upd_rooms_def)
  then have "r_id ` set (live_rooms (upd_rooms i a from to t d)) = r_id ` set (live_rooms d)"
    by (metis list.set_map)
  note ids = this
  have change: "f = r \<or> status_change rop r f"
    if "r \<in> set rows" "r' \<in> set (live_rooms d)" "r_id f = r_id r"
      "f = (if r_id r' = i \<and> r_anchor_id r' = a \<and> r_status r' = from then set_status to t r' else r')" for r r' f
  proof -
    from that have "r_id r' = r_id r" by (auto split: if_splits)
    with assms(1) that have "r' = r \<or> status_change rop r r'" by (auto simp: authorised_def)
    with that assms(2) show ?thesis by (auto simp: status_change_def split: if_splits)
  qed
  show ?thesis
    unfolding authorised_def ids
  proof (intro conjI ballI impI)
    show "r_id ` set rows \<subseteq> r_id ` set (live_rooms d)" using assms(1) by (simp add: authorised_def)
  next
    fix r f
    assume "r \<in> set rows" and "f \<in> set (live_rooms (upd_rooms i a from to t d))" and "r_id f = r_id r"
    moreover from this(2) obtain r' where "r' \<in> set (live_rooms d)"
      "f = (if r_id r' = i \<and> r_anchor_id r' = a \<and> r_status r' = from then set_status to t r' else r')"
      unfolding upd_rooms_def by auto
    ultimately show "f = r \<or> status_change rop r f" by (intro change)
  qed
qed

lemma authorised_step: "keeps (\<lambda>x. authorised rop rows (room_data x)) (run_op s rop)"
proof (rule keeps_run_op)
  show "keeps (authorised rop rows) (Repo_Create a t)" for a t
    by (rule Repo_Create_keeps) (auto simp: authorised_def)
qed ((rule ChangeStatus_keeps, rule authorised_upd, assumption, simp)+, simp_all add: authorised_def)

section \<open>Joining and moderation\<close>

lemma on_rooms_eq:
  "on_rooms m (x, w) = (r, (x', w')) \<longleftrightarrow>
     (\<exists>d. m (room_data x, w) = (r, (d, w')) \<and> x' = x\<lparr>room_data := d\<rparr>)"
  by (auto simp: on_rooms_def zoom_def split: prod.splits)

lemma on_users_eq:
  "on_users m (x, w) = (r, (x', w')) \<longleftrightarrow>
     (\<exists>d. m (identity_data x, w) = (r, (d, w')) \<and> x' = x\<lparr>identity_data := d\<rparr>)"
  by (auto simp: on_users_def zoom_def split: prod.splits)

lemma Repo_ByID_D:
  assumes "Repo_ByID i (d, w) = (r, (d', w'))"
  shows "d' = d \<and> clocks w' = clocks w
    \<and> (\<forall>v. r = Inr v \<longrightarrow> (\<exists>row. room_by_id i d = Some row \<and> v = room_view row))"
  using assms by (auto simp: Repo_ByID_def handle_eq dest!: read_ext_D split: option.splits)

lemma select_user_D: "select_user P (d, w) = (r, (d', w')) \<Longrightarrow> d' = d \<and> clocks w' = clocks w"
  by (auto simp: select_user_def handle_eq dest!: read_ext_D)

lemma Nickname_D: "Nickname i (d, w) = (r, (d', w')) \<Longrightarrow> d' = d \<and> clocks w' = clocks w"
  by (auto simp: Nickname_def Auth_ByID_def handle_eq dest!: select_user_D split: if_splits)

lemma nickname_D: "nickname s i (x, w) = (r, (x', w')) \<Longrightarrow> x' = x \<and> clocks w' = clocks w"
  by (auto simp: nickname_def on_users_eq dest!: Nickname_D split: if_splits)

lemma Room_Get_D:
  assumes "Room_Get s i (x, w) = (r, (x', w'))"
  shows "x' = x \<and> clocks w' = clocks w
    \<and> (\<forall>v. r = Inr v \<longrightarrow> (\<exists>row name. room_by_id i (room_data x) = Some row
          \<and> v = (room_view row)\<lparr>rm_anchor_nickname := name\<rparr>))"
  using assms
  by (auto simp: Room_Get_def withAnchor_def bind_eq on_rooms_eq room_view_def dest!: Repo_ByID_D nickname_D
      split: if_splits prod.splits)

lemma requireAnchor_D:
  assumes "requireAnchor i a (x, w) = (r, (x', w'))"
  shows "x' = x \<and> clocks w' = clocks w
    \<and> (\<forall>v. r = Inr v \<longrightarrow> (\<exists>row. room_by_id i (room_data x) = Some row \<and> r_anchor_id row = a))"
  using assms
  by (auto simp: requireAnchor_def bind_eq on_rooms_eq room_view_def dest!: Repo_ByID_D split: if_splits)

lemma validateModerationTarget_D:
  "validateModerationTarget s u t (x, w) = (r, (x', w')) \<Longrightarrow> x' = x \<and> clocks w' = clocks w"
  by (auto simp: validateModerationTarget_def bind_eq Let_def dest!: nickname_D split: if_splits prod.splits)

definition session_in :: "room_db \<Rightarrow> int \<Rightarrow> int \<Rightarrow> bool" where
  "session_in d roomID userID \<longleftrightarrow>
     list_ex (\<lambda>s. s_room_id s = roomID \<and> s_user_id s = userID \<and> s_status s = 1) (live_sessions d)"

lemma Room_Join_D:
  assumes "Room_Join s i u (x, w) = (r, (x', w'))"
  shows "(\<forall>v. r = Inr v \<longrightarrow> (\<exists>row. room_by_id i (room_data x) = Some row \<and> r_status row = StatusLiving)
            \<and> \<not> banned_in (room_data x) i u \<and> session_in (room_data x') i u)
    \<and> (\<not> (\<exists>row. room_by_id i (room_data x) = Some row \<and> r_status row = StatusLiving)
         \<or> banned_in (room_data x) i u \<longrightarrow> x' = x)"
  using assms
  by (auto simp: Room_Join_def bind_eq on_rooms_eq Repo_IsBanned_def Repo_Join_def room_view_def session_in_def upsert_hit
      dest!: Room_Get_D read_ext_D elim!: ext_InrE split: if_splits)

definition ban_db :: "int \<Rightarrow> int \<Rightarrow> int \<Rightarrow> string \<Rightarrow> int \<Rightarrow> room_db \<Rightarrow> room_db" where
  "ban_db i u a t nw d = d\<lparr>room_bans := sql_upsert (\<lambda>b. b_room_id b = i \<and> b_user_id b = u)
     (\<lambda>b. b\<lparr>b_created_by := a, b_reason := t, b_created_at := nw\<rparr>)
     \<lparr>b_room_id = i, b_user_id = u, b_created_by = a, b_reason = t, b_created_at = nw\<rparr> (room_bans d)\<rparr>"

definition mute_db :: "int \<Rightarrow> int \<Rightarrow> int \<Rightarrow> int option \<Rightarrow> string \<Rightarrow> int \<Rightarrow> room_db \<Rightarrow> room_db" where
  "mute_db i u a til t nw d = d\<lparr>room_mutes := sql_upsert (\<lambda>m. m_room_id m = i \<and> m_user_id m = u)
     (\<lambda>m. m\<lparr>m_muted_until := til, m_created_by := a, m_reason := t, m_updated_at := nw\<rparr>)
     \<lparr>m_room_id = i, m_user_id = u, m_muted_until = til, m_created_by = a, m_reason = t,
      m_created_at = nw, m_updated_at = nw\<rparr> (room_mutes d)\<rparr>"

lemma room_bans_mute_db [simp]: "room_bans (mute_db i u a til t nw d) = room_bans d"
  by (simp add: mute_db_def)

lemma banned_in_ban_db:
  "banned_in (ban_db i u a t nw d) i' u' \<longleftrightarrow> (i', u') = (i, u) \<or> banned_in d i' u'"
  by (cases "(i', u') = (i, u)") (auto simp: banned_in_def ban_db_def upsert_hit_key upsert_miss_key)

lemma muted_in_mute_db:
  "muted_in (mute_db i u a til t nw d) at i' u' \<longleftrightarrow>
     (if (i', u') = (i, u) then (case til of None \<Rightarrow> True | Some e \<Rightarrow> at < e) else muted_in d at i' u')"
proof (cases "(i', u') = (i, u)")
  case True
  then show ?thesis
    by (simp add: muted_in_def mute_db_def, subst upsert_hit) (auto simp: mute_active_def)
next
  case False
  then show ?thesis
    by (simp add: muted_in_def mute_db_def, subst upsert_miss) auto
qed

lemma Repo_Ban_eq: "Repo_Ban i u a t = ext (\<lambda>d w. (Inr (), ban_db i u a t (NOW3 w) d))"
  by (simp add: Repo_Ban_def ban_db_def)

lemma Repo_Mute_eq: "Repo_Mute i u a til t = ext (\<lambda>d w. (Inr (), mute_db i u a (map_option datetime3 til) t (NOW3 w) d))"
  by (simp add: Repo_Mute_def mute_db_def Let_def)

lemma Room_Ban_D:
  assumes "Room_Ban s i a u t (x, w) = (Inr v, (x', w'))"
  shows "a \<noteq> u \<and> (\<exists>row. room_by_id i (room_data x) = Some row \<and> r_anchor_id row = a)
    \<and> (\<exists>t' nw. x' = x\<lparr>room_data := ban_db i u a t' nw (room_data x)\<rparr>)"
  using assms
  by (fastforce simp: Room_Ban_def bind_Inr on_rooms_eq Repo_Ban_eq dest!: requireAnchor_D validateModerationTarget_D
      elim!: ext_InrE split: if_splits)

lemma Room_Mute_D:
  assumes "Room_Mute s i a u d t (x, w) = (Inr v, (x', w'))"
  shows "a \<noteq> u \<and> (\<exists>row. room_by_id i (room_data x) = Some row \<and> r_anchor_id row = a)
    \<and> (\<exists>t' nw. x' = x\<lparr>room_data :=
         mute_db i u a (if d > 0 then Some (datetime3 (go_now w + d)) else None) t' nw (room_data x)\<rparr>)"
  using assms
  by (fastforce simp: Room_Mute_def bind_Inr on_rooms_eq Repo_Mute_eq now_def
      dest!: requireAnchor_D validateModerationTarget_D clocksD elim!: ext_InrE split: if_splits)

section \<open>Properties\<close>

text \<open>
  C6. A room's life goes one way. Whatever requests are served, in whatever order and with
  whatever failures, a room keeps its identity, anchor, title and creation time, and moves
  only from PREPARING to LIVING to CLOSED; within a status nothing changes, the starting time
  is fixed once set, and start and end times are set exactly in the statuses that have them.
\<close>

theorem room_lifecycle:
  assumes "rooms_ok (room_data x)" and "site_reach s x y" and "row \<in> set (live_rooms (room_data x))"
  shows "rooms_ok (room_data y) \<and> (\<exists>row' \<in> set (live_rooms (room_data y)). becomes row row')"
proof -
  have "evolved row (room_data x)"
    using assms(1,3) becomes_refl by (auto simp: evolved_def rooms_ok_def list_all_iff)
  from evolved_reach [OF assms(2) this] show ?thesis by (simp add: evolved_def)
qed

definition sample_room :: room_row where
  "sample_room = \<lparr>r_id = 5, r_anchor_id = 3, r_title = ''hi'', r_status = StatusPreparing,
     r_started_at = None, r_ended_at = None, r_created_at = 0, r_updated_at = 0\<rparr>"

definition sample_user :: "int \<Rightarrow> User" where
  "sample_user i = \<lparr>u_id = i, u_username = ''u'', u_nickname = ''n'', u_avatar = [], u_password_hash = [],
     u_status = 1, u_created_at = 0\<rparr>"

definition sample_site :: site where
  "sample_site = \<lparr>room_data = \<lparr>live_rooms = [sample_room], live_sessions = [], room_mutes = [], room_bans = []\<rparr>,
     identity_data = \<lparr>users = [sample_user 3, sample_user 7]\<rparr>\<rparr>"

definition calm :: io where
  "calm = \<lparr>faults = [], go_now = 0, db_now = 0, rd_now = 0, entropy = []\<rparr>"

lemmas sample_defs = sample_site_def sample_room_def sample_user_def calm_def

lemma calm_faults [simp]: "faults calm = []"
  by (simp add: calm_def)

text \<open>Evaluation of the service's calls in a run without failures.\<close>

lemma on_rooms_run: "m (room_data x, w) = (r, (d, w')) \<Longrightarrow> on_rooms m (x, w) = (r, (x\<lparr>room_data := d\<rparr>, w'))"
  by (simp add: on_rooms_eq)

lemmas run_simps = bind_def handle_def ext_quiet read_ext_quiet on_rooms_def on_users_def zoom_def ret_def fail_def
  room_by_id_def room_view_def Repo_ByID_def Repo_Ban_eq Repo_Mute_eq now_def requireAnchor_def
  validateModerationTarget_def nickname_def Nickname_def Auth_ByID_def select_user_def

definition sample_site_started :: site where
  "sample_site_started = sample_site\<lparr>room_data := (room_data sample_site)
     \<lparr>live_rooms := [set_status StatusLiving 0 sample_room]\<rparr>\<rparr>"

lemma sample_start:
  "run_op (Room_NewService False) (OpStart 5 3) (sample_site, calm) = (Inr (), (sample_site_started, calm))"
  by (simp add: Room_Start_def run_simps ChangeStatus_def Room_Get_def withAnchor_def Room_NewService_def
      sample_site_started_def sample_defs sql_update_def set_status_def NOW3_def Let_def)

theorem room_lifecycle_witness:
  "\<exists>y. site_reach (Room_NewService False) sample_site y \<and> rooms_ok (room_data y)
     \<and> (\<exists>row' \<in> set (live_rooms (room_data y)). becomes sample_room row' \<and> r_status row' = StatusLiving)"
proof -
  let ?y = "sample_site_started"
  have "site_reach (Room_NewService False) sample_site ?y"
    by (rule site_reach.more [OF site_reach.start site_step.request [OF sample_start]])
  moreover have "rooms_ok (room_data sample_site)" "sample_room \<in> set (live_rooms (room_data sample_site))"
    by (simp_all add: rooms_ok_def room_row_ok_def sample_defs)
  ultimately show ?thesis
    using room_lifecycle [of sample_site "Room_NewService False" ?y sample_room]
    by (intro exI [of _ ?y]) (auto simp: sample_site_started_def)
qed

text \<open>
  Only its anchor moves a room, and only by \<open>Start\<close> from PREPARING or \<open>Stop\<close> from LIVING:
  after any one request, a room that is not as it was before was changed by such a request of
  its own anchor.
\<close>

theorem room_status_authority:
  assumes "rooms_ok (room_data x)" and "run_op s rop (x, w) = (r, (x', w'))"
    and "row \<in> set (live_rooms (room_data x))" and "row' \<in> set (live_rooms (room_data x'))"
    and "r_id row' = r_id row" and "row' \<noteq> row"
  shows "status_change rop row row'"
proof -
  have "row1 = row2" if "row1 \<in> set (live_rooms (room_data x))" "row2 \<in> set (live_rooms (room_data x))"
    "r_id row1 = r_id row2" for row1 row2
    using that assms(1) by (auto simp: rooms_ok_def distinct_map inj_on_def)
  then have "authorised rop (live_rooms (room_data x)) (room_data x)"
    by (auto simp: authorised_def)
  from keepsD [OF authorised_step this assms(2)] assms(3-6) show ?thesis
    by (auto simp: authorised_def)
qed

theorem room_status_authority_witness:
  "status_change (OpStart 5 3) sample_room (set_status StatusLiving 0 sample_room)"
proof -
  let ?row = "set_status StatusLiving 0 sample_room"
  have "rooms_ok (room_data sample_site)"
    by (simp add: rooms_ok_def room_row_ok_def sample_defs)
  moreover have "?row \<noteq> sample_room" by (simp add: set_status_def sample_room_def)
  ultimately show ?thesis
    by (intro room_status_authority [where x = sample_site and x' = sample_site_started, OF _ sample_start]) (auto simp: sample_site_def sample_site_started_def intro: sample_start)
qed

text \<open>
  Joining: a join succeeds only for a room that is living and a user who is not banned
  there, and then the user has an active session; otherwise nothing changes.
\<close>

theorem room_join_admission:
  assumes "Room_Join s i u (x, w) = (r, (x', w'))"
  shows "(\<forall>v. r = Inr v \<longrightarrow> (\<exists>row. room_by_id i (room_data x) = Some row \<and> r_status row = StatusLiving)
            \<and> \<not> banned_in (room_data x) i u \<and> session_in (room_data x') i u)
    \<and> (\<not> (\<exists>row. room_by_id i (room_data x) = Some row \<and> r_status row = StatusLiving)
         \<or> banned_in (room_data x) i u \<longrightarrow> x' = x)"
  using assms by (rule Room_Join_D)

theorem room_join_admission_witness:
  "fst (snd (Room_Join (Room_NewService True) 5 7 (sample_site, calm))) = sample_site"
proof -
  obtain r x' w' where j: "Room_Join (Room_NewService True) 5 7 (sample_site, calm) = (r, (x', w'))"
    by (metis prod.collapse)
  with room_join_admission [OF j] show ?thesis
    by (auto simp: sample_defs room_by_id_def status_defs)
qed

text \<open>
  A mute that is reported done was asked for by the room's anchor for someone else, holds
  for the target in that room exactly until the requested duration (in the column's
  milliseconds) has passed, or for ever when the duration is not positive, and changes no
  other mute and no ban.
\<close>

theorem mute_lasts:
  assumes "Room_Mute s i a u d t (x, w) = (Inr v, (x', w'))"
  shows "a \<noteq> u \<and> (\<exists>row. room_by_id i (room_data x) = Some row \<and> r_anchor_id row = a)
    \<and> room_bans (room_data x') = room_bans (room_data x)
    \<and> (\<forall>at i' u'. muted_in (room_data x') at i' u' \<longleftrightarrow>
         (if (i', u') = (i, u) then d \<le> 0 \<or> at < datetime3 (go_now w + d) else muted_in (room_data x) at i' u'))"
  using Room_Mute_D [OF assms] by (auto simp: muted_in_mute_db split: if_splits)

theorem mute_lasts_witness:
  "\<exists>x' w'. Room_Mute (Room_NewService True) 5 3 7 minute ''spam'' (sample_site, calm) = (Inr (), (x', w'))
     \<and> muted_in (room_data x') 59999000000 5 7 \<and> \<not> muted_in (room_data x') minute 5 7"
proof -
  obtain x' w' where m: "Room_Mute (Room_NewService True) 5 3 7 minute ''spam'' (sample_site, calm) = (Inr (), (x', w'))"
    by (simp add: Room_Mute_def run_simps Room_NewService_def sample_defs TrimSpace_def rune_segs_ascii byte_def
        is_space_def Let_def runes_def)
  moreover have "go_now calm = 0" by (simp add: calm_def)
  ultimately show ?thesis
    using mute_lasts [OF m] by (auto simp: datetime3_def)
qed

section \<open>Bans\<close>

text \<open>A ban in a room of the given anchor: only that anchor can lift it.\<close>

definition ban_holds :: "int \<Rightarrow> int \<Rightarrow> int \<Rightarrow> room_db \<Rightarrow> bool" where
  "ban_holds i a u d \<longleftrightarrow> banned_in d i u \<and> (\<exists>row. room_by_id i d = Some row \<and> r_anchor_id row = a)"

lemma ban_holds_other [simp]:
  "ban_holds i a u (d\<lparr>live_sessions := s\<rparr>) = ban_holds i a u d" "ban_holds i a u (d\<lparr>room_mutes := m\<rparr>) = ban_holds i a u d"
  by (simp_all add: ban_holds_def banned_in_def room_by_id_def)

lemma room_by_id_upd_rooms:
  "room_by_id j (upd_rooms i a from to t d)
   = map_option (\<lambda>r. if r_id r = i \<and> r_anchor_id r = a \<and> r_status r = from then set_status to t r else r) (room_by_id j d)"
proof -
  have "find (\<lambda>r. r_id r = j) (map f rows) = map_option f (find (\<lambda>r. r_id r = j) rows)"
    if "\<And>r. r_id (f r) = r_id r" for f :: "room_row \<Rightarrow> room_row" and rows
    using that by (induction rows) auto
  then show ?thesis by (simp add: room_by_id_def upd_rooms_def)
qed

lemma ban_holds_upd_rooms:
  assumes "ban_holds i a u d"
  shows "ban_holds i a u (upd_rooms j b from to t d)"
proof -
  obtain row where "room_by_id i d = Some row" "r_anchor_id row = a" using assms by (auto simp: ban_holds_def)
  then have "\<exists>row. room_by_id i (upd_rooms j b from to t d) = Some row \<and> r_anchor_id row = a"
    by (simp add: room_by_id_upd_rooms)
  with assms show ?thesis by (simp add: ban_holds_def banned_in_def upd_rooms_def)
qed

lemma find_append_hit: "find P xs = Some x \<Longrightarrow> find P (xs @ ys) = Some x"
  by (induction xs) (auto split: if_splits)

lemma Room_Unban_keeps_ban:
  assumes "(j, b, v) \<noteq> (i, a, u)"
  shows "keeps (\<lambda>x. ban_holds i a u (room_data x)) (Room_Unban j b v)"
proof (rule keepsI)
  fix x w r x' w'
  assume h: "ban_holds i a u (room_data x)" and run: "Room_Unban j b v (x, w) = (r, (x', w'))"
  then show "ban_holds i a u (room_data x')"
  proof (cases "x' = x")
    case False
    with run have "\<exists>row. room_by_id j (room_data x) = Some row \<and> r_anchor_id row = b"
      and x': "room_data x' = (room_data x)\<lparr>room_bans := filter (\<lambda>b. \<not> (b_room_id b = j \<and> b_user_id b = v)) (room_bans (room_data x))\<rparr>"
      by (auto simp: Room_Unban_def bind_eq on_rooms_eq Repo_Unban_def dest!: requireAnchor_D ext_D split: if_splits)
    with h assms have "(j, v) \<noteq> (i, u)" by (auto simp: ban_holds_def)
    with h show ?thesis unfolding x' by (auto simp: ban_holds_def banned_in_def room_by_id_def list_ex_iff)
  qed simp
qed

lemma ban_holds_step:
  assumes "rop \<noteq> OpUnban i a u"
  shows "keeps (\<lambda>x. ban_holds i a u (room_data x)) (run_op s rop)"
proof (rule keeps_run_op_bans)
  show "keeps (ban_holds i a u) (Repo_Create b t)" for b t
    by (rule Repo_Create_keeps) (auto simp: ban_holds_def banned_in_def room_by_id_def find_append_hit)
  show "keeps (ban_holds i a u) (Repo_Ban j v c t)" for j v c t
    unfolding Repo_Ban_eq
  proof (rule keeps_ext)
    fix d w
    assume "ban_holds i a u d"
    moreover have "room_by_id i (ban_db j v c t (NOW3 w) d) = room_by_id i d" by (simp add: room_by_id_def ban_db_def)
    ultimately show "ban_holds i a u (snd (Inr (), ban_db j v c t (NOW3 w) d))"
      by (simp add: ban_holds_def banned_in_ban_db)
  qed
  show "keeps (\<lambda>x. ban_holds i a u (room_data x)) (Room_Unban j b v)" if "rop = OpUnban j b v" for j b v
    using that assms by (intro Room_Unban_keeps_ban) auto
qed (intro ChangeStatus_keeps ban_holds_upd_rooms | simp)+

text \<open>Requests served one after the other, each under any failures.\<close>

inductive site_run :: "RoomService \<Rightarrow> room_op list \<Rightarrow> site \<Rightarrow> site \<Rightarrow> bool" for s where
  idle: "site_run s [] x x"
| serve: "run_op s rop (x, w) = (r, (y, w')) \<Longrightarrow> site_run s rops y z \<Longrightarrow> site_run s (rop # rops) x z"

lemma ban_holds_run:
  "site_run s rops x y \<Longrightarrow> OpUnban i a u \<notin> set rops \<Longrightarrow> ban_holds i a u (room_data x) \<Longrightarrow> ban_holds i a u (room_data y)"
proof (induction rule: site_run.induct)
  case (serve rop x w r y w' rops z)
  then show ?case using keepsD [OF ban_holds_step serve.prems(2) serve.hyps(1)] by auto
qed

text \<open>
  C7. A ban that is reported done was asked for by the room's anchor for someone else and bans
  exactly that user in that room in addition to the bans before. It stands through whatever
  requests follow, in any order and with any failures, as long as that anchor does not ask for that
  user's unban in that room: the unban requests of others change nothing about it. While it stands,
  a join by that user is refused without effect.
\<close>

theorem ban_excludes:
  assumes "Room_Ban s i a u t (x, w) = (Inr v, (x', w'))"
    and "site_run s rops x' y" and "OpUnban i a u \<notin> set rops"
  shows "a \<noteq> u \<and> (\<exists>row. room_by_id i (room_data x) = Some row \<and> r_anchor_id row = a)
    \<and> (\<forall>i' u'. banned_in (room_data x') i' u' \<longleftrightarrow> (i', u') = (i, u) \<or> banned_in (room_data x) i' u')
    \<and> banned_in (room_data y) i u
    \<and> (\<forall>w1 r z w2. Room_Join s i u (y, w1) = (r, (z, w2)) \<longrightarrow> z = y \<and> (\<nexists>v. r = Inr v))"
proof -
  note b = Room_Ban_D [OF assms(1)]
  then have o: "\<forall>i' u'. banned_in (room_data x') i' u' \<longleftrightarrow> (i', u') = (i, u) \<or> banned_in (room_data x) i' u'"
    by (auto simp: banned_in_ban_db)
  from b have "ban_holds i a u (room_data x')" by (auto simp: ban_holds_def banned_in_ban_db) (auto simp: ban_db_def room_by_id_def)
  from ban_holds_run [OF assms(2,3) this] have y: "banned_in (room_data y) i u" by (simp add: ban_holds_def)
  then have "z = y \<and> (\<nexists>v. r = Inr v)" if "Room_Join s i u (y, w1) = (r, (z, w2))" for w1 r z w2
    using Room_Join_D [OF that] by auto
  with b o y show ?thesis by blast
qed

definition sample_banned :: site where
  "sample_banned = sample_site\<lparr>room_data := ban_db 5 7 3 ''spam'' 0 (room_data sample_site)\<rparr>"

definition sample_banned_live :: site where
  "sample_banned_live = sample_banned\<lparr>room_data := (room_data sample_banned)\<lparr>live_rooms := [set_status StatusLiving 0 sample_room]\<rparr>\<rparr>"

lemma sample_ban: "Room_Ban (Room_NewService True) 5 3 7 ''spam'' (sample_site, calm) = (Inr (), (sample_banned, calm))"
  by (simp add: Room_Ban_def run_simps Room_NewService_def sample_banned_def sample_defs TrimSpace_def rune_segs_ascii byte_def
      is_space_def Let_def runes_def NOW3_def)

lemma sample_ban_run:
  "site_run (Room_NewService True) [OpUnban 5 4 7, OpStart 5 3, OpUnban 5 3 8] sample_banned sample_banned_live"
proof (rule site_run.serve [OF _ site_run.serve [OF _ site_run.serve [OF _ site_run.idle]]])
  show "run_op (Room_NewService True) (OpUnban 5 4 7) (sample_banned, calm) = (Inl (Sentinel Room_ErrForbidden), (sample_banned, calm))"
    by (simp add: Room_Unban_def run_simps sample_banned_def sample_defs ban_db_def)
  show "run_op (Room_NewService True) (OpStart 5 3) (sample_banned, calm) = (Inr (), (sample_banned_live, calm))"
    by (simp add: Room_Start_def run_simps ChangeStatus_def Room_Get_def withAnchor_def Room_NewService_def ban_db_def
        sample_banned_live_def sample_banned_def sample_defs sql_update_def set_status_def NOW3_def Let_def)
  show "run_op (Room_NewService True) (OpUnban 5 3 8) (sample_banned_live, calm) = (Inr (), (sample_banned_live, calm))"
    by (simp add: Room_Unban_def run_simps Repo_Unban_def sample_banned_live_def sample_banned_def sample_defs ban_db_def
        sql_upsert_def set_status_def)
qed

theorem ban_excludes_witness:
  "Room_Ban (Room_NewService True) 5 3 7 ''spam'' (sample_site, calm) = (Inr (), (sample_banned, calm))
   \<and> site_run (Room_NewService True) [OpUnban 5 4 7, OpStart 5 3, OpUnban 5 3 8] sample_banned sample_banned_live
   \<and> banned_in (room_data sample_banned_live) 5 7
   \<and> (\<nexists>v. fst (Room_Join (Room_NewService True) 5 7 (sample_banned_live, calm)) = Inr v)"
proof -
  obtain r z w2 where j: "Room_Join (Room_NewService True) 5 7 (sample_banned_live, calm) = (r, (z, w2))"
    by (metis prod.collapse)
  have "OpUnban 5 3 7 \<notin> set [OpUnban 5 4 7, OpStart 5 3, OpUnban 5 3 8]" by simp
  from ban_excludes [OF sample_ban sample_ban_run this] j sample_ban sample_ban_run show ?thesis by (metis fst_conv)
qed

end
