(* ===== verification/Redis_Store.thy ===== *)
theory Redis_Store
  imports Effects "HOL-Library.AList" "HOL-Library.Product_Lexorder" "HOL-Library.List_Lexorder"
begin

text \<open>
  \<^verbatim>\<open>internal/store/redisstore/redis.go\<close>: the keys the services share in Redis and the commands
  and scripts on them. Texts with an expiry time and sorted sets are kept in two maps (the key
  names never meet); a script runs as one step, with the changes made before an error kept.
  Scores and the numbers of scripts are doubles: integers rounded by \<open>f64\<close>.
\<close>

section \<open>Doubles holding integers\<close>

text \<open>The nearest double to an integer, ties to even; exact up to two to the 53.\<close>

function bit_size :: "int \<Rightarrow> nat" where
  "bit_size x = (if x \<le> 0 then 0 else Suc (bit_size (x div 2)))"
  by auto
termination by (relation "measure nat") auto

declare bit_size.simps [simp del]

definition f64 :: "int \<Rightarrow> int" where
  "f64 x =
     (if \<bar>x\<bar> \<le> 9007199254740992 then x
      else let m = \<bar>x\<bar>; u = 2 ^ (bit_size m - 53); q = m div u; r = m mod u;
               q' = (if 2 * r < u then q else if 2 * r > u then q + 1 else if q mod 2 = 0 then q else q + 1)
           in sgn x * (q' * u))"

lemma f64_id: "\<bar>x\<bar> \<le> 9007199254740992 \<Longrightarrow> f64 x = x"
  by (simp add: f64_def)

section \<open>The database\<close>

record rtext =
  rt_text :: string
  rt_expires :: "int option"

record rzset =
  rz_items :: "(string \<times> int) list"
  rz_expires :: "int option"

record redis_db =
  texts :: "string \<Rightarrow> rtext option"
  zsets :: "string \<Rightarrow> rzset option"

text \<open>A key is gone once the server's clock, in milliseconds, is past its expiry time.\<close>

definition rd_ms :: "io \<Rightarrow> int" where
  "rd_ms w = unix_milli (rd_now w)"

definition alive :: "int \<Rightarrow> int option \<Rightarrow> bool" where
  "alive t e = (case e of None \<Rightarrow> True | Some x \<Rightarrow> t \<le> x)"

definition get_text :: "int \<Rightarrow> string \<Rightarrow> redis_db \<Rightarrow> string option" where
  "get_text t k db = (case texts db k of None \<Rightarrow> None | Some v \<Rightarrow> if alive t (rt_expires v) then Some (rt_text v) else None)"

definition text_expiry :: "int \<Rightarrow> string \<Rightarrow> redis_db \<Rightarrow> int option" where
  "text_expiry t k db = (case texts db k of None \<Rightarrow> None | Some v \<Rightarrow> if alive t (rt_expires v) then rt_expires v else None)"

definition set_text :: "string \<Rightarrow> string \<Rightarrow> int option \<Rightarrow> redis_db \<Rightarrow> redis_db" where
  "set_text k v e db = db\<lparr>texts := (texts db)(k \<mapsto> \<lparr>rt_text = v, rt_expires = e\<rparr>)\<rparr>"

definition del_text :: "string \<Rightarrow> redis_db \<Rightarrow> redis_db" where
  "del_text k db = db\<lparr>texts := (texts db)(k := None)\<rparr>"

text \<open>\<^verbatim>\<open>SET\<close> with a duration: positive ones are at least a millisecond, others mean no expiry.\<close>

definition set_expiry :: "int \<Rightarrow> int \<Rightarrow> int option" where
  "set_expiry t ttl = (if ttl > 0 then Some (t + max 1 (dur_millis ttl)) else None)"

definition not_integer :: go_err where
  "not_integer = Plain ''ERR value is not an integer or out of range''"

text \<open>\<^verbatim>\<open>INCRBY\<close>, which keeps the key's expiry.\<close>

definition incr_by :: "int \<Rightarrow> string \<Rightarrow> int \<Rightarrow> redis_db \<Rightarrow> (go_err + int) \<times> redis_db" where
  "incr_by t k n db =
     (case (case get_text t k db of None \<Rightarrow> Some 0 | Some s \<Rightarrow> ParseInt s) of
        None \<Rightarrow> (Inl not_integer, db)
      | Some v \<Rightarrow>
          if \<not> is_i64 n then (Inl not_integer, db)
          else if \<not> is_i64 (v + n) then (Inl (Plain ''ERR increment or decrement would overflow''), db)
          else (Inr (v + n), set_text k (FormatInt (v + n)) (text_expiry t k db) db))"

definition pexpire_text :: "int \<Rightarrow> string \<Rightarrow> int \<Rightarrow> redis_db \<Rightarrow> redis_db" where
  "pexpire_text t k d db =
     (case get_text t k db of
        None \<Rightarrow> db
      | Some s \<Rightarrow> if d \<le> 0 then del_text k db else set_text k s (Some (t + d)) db)"

text \<open>Sorted sets; an emptied one is deleted with its expiry.\<close>

definition zitems :: "int \<Rightarrow> string \<Rightarrow> redis_db \<Rightarrow> (string \<times> int) list" where
  "zitems t k db = (case zsets db k of None \<Rightarrow> [] | Some z \<Rightarrow> if alive t (rz_expires z) then rz_items z else [])"

definition zexpiry :: "int \<Rightarrow> string \<Rightarrow> redis_db \<Rightarrow> int option" where
  "zexpiry t k db = (case zsets db k of None \<Rightarrow> None | Some z \<Rightarrow> if alive t (rz_expires z) then rz_expires z else None)"

definition zput :: "int \<Rightarrow> string \<Rightarrow> (string \<times> int) list \<Rightarrow> redis_db \<Rightarrow> redis_db" where
  "zput t k items db = db\<lparr>zsets := (zsets db)(k :=
     if items = [] then None else Some \<lparr>rz_items = items, rz_expires = zexpiry t k db\<rparr>)\<rparr>"

definition zadd :: "int \<Rightarrow> string \<Rightarrow> int \<Rightarrow> string \<Rightarrow> redis_db \<Rightarrow> redis_db" where
  "zadd t k score m db = zput t k (AList.update m (f64 score) (zitems t k db)) db"

definition zadd_nx :: "int \<Rightarrow> string \<Rightarrow> int \<Rightarrow> string \<Rightarrow> redis_db \<Rightarrow> redis_db" where
  "zadd_nx t k score m db = (if map_of (zitems t k db) m = None then zadd t k score m db else db)"

definition zrem :: "int \<Rightarrow> string \<Rightarrow> string \<Rightarrow> redis_db \<Rightarrow> redis_db" where
  "zrem t k m db = zput t k (AList.delete m (zitems t k db)) db"

definition zcard :: "int \<Rightarrow> string \<Rightarrow> redis_db \<Rightarrow> int" where
  "zcard t k db = int (length (zitems t k db))"

text \<open>\<^verbatim>\<open>ZREMRANGEBYSCORE key -inf hi\<close>.\<close>

definition zrem_upto :: "int \<Rightarrow> string \<Rightarrow> int \<Rightarrow> redis_db \<Rightarrow> redis_db" where
  "zrem_upto t k hi db = zput t k (filter (\<lambda>x. \<not> snd x \<le> f64 hi) (zitems t k db)) db"

definition pexpire_zset :: "int \<Rightarrow> string \<Rightarrow> int \<Rightarrow> redis_db \<Rightarrow> redis_db" where
  "pexpire_zset t k d db =
     (if zitems t k db = [] then db
      else db\<lparr>zsets := (zsets db)(k := if d \<le> 0 then None
                 else Some \<lparr>rz_items = zitems t k db, rz_expires = Some (t + d)\<rparr>)\<rparr>)"

text \<open>The members in the order of a sorted set: by score, then by text.\<close>

definition zsorted :: "(string \<times> int) list \<Rightarrow> (string \<times> int) list" where
  "zsorted items = sort_key (\<lambda>(m, s). (s, map byte m)) items"

definition zscore :: "int \<Rightarrow> string \<Rightarrow> string \<Rightarrow> redis_db \<Rightarrow> int option" where
  "zscore t k m db = map_of (zitems t k db) m"


section \<open>Keys\<close>

definition roomTag :: "int \<Rightarrow> string" where "roomTag roomID = ''{'' @ FormatInt roomID @ ''}''"
definition roomLikeTotalKey :: "int \<Rightarrow> string" where
  "roomLikeTotalKey roomID = ''live:room:'' @ roomTag roomID @ '':like:total''"
definition roomLikeDeltaKey :: "int \<Rightarrow> string" where
  "roomLikeDeltaKey roomID = ''live:room:'' @ roomTag roomID @ '':like:delta''"
definition roomViewersKey :: "int \<Rightarrow> string" where
  "roomViewersKey roomID = ''live:room:'' @ roomTag roomID @ '':viewers''"
definition roomViewerJoinKey :: "int \<Rightarrow> string" where
  "roomViewerJoinKey roomID = ''live:room:'' @ roomTag roomID @ '':viewer-join''"
definition roomViewerGiftKey :: "int \<Rightarrow> string" where
  "roomViewerGiftKey roomID = ''live:room:'' @ roomTag roomID @ '':viewer-gift''"
definition roomLastViewerKey :: "int \<Rightarrow> string" where
  "roomLastViewerKey roomID = ''live:room:'' @ roomTag roomID @ '':stats:last_viewer''"
definition activeStatsRoomsKey :: "int \<Rightarrow> string" where
  "activeStatsRoomsKey shard = ''live:stats:rooms:'' @ FormatInt shard"
definition activeRoomShard :: "int \<Rightarrow> int \<Rightarrow> int" where
  "activeRoomShard shards roomID = go_rem roomID shards"
definition roomDanmakuRateKey :: "int \<Rightarrow> string" where
  "roomDanmakuRateKey roomID = ''live:room:'' @ roomTag roomID @ '':danmaku:rolling''"
definition likeRoomStatusKey :: "int \<Rightarrow> string" where
  "likeRoomStatusKey roomID = ''live:room:'' @ roomTag roomID @ '':like:status''"
definition likeBanKey :: "int \<Rightarrow> int \<Rightarrow> string" where
  "likeBanKey roomID userID = ''live:room:'' @ roomTag roomID @ '':like:ban:'' @ FormatInt userID"
definition LikeRateKey :: "int \<Rightarrow> int \<Rightarrow> string" where
  "LikeRateKey roomID userID = ''live:room:'' @ roomTag roomID @ '':like:rate:'' @ FormatInt userID"

text \<open>\<^verbatim>\<open>Open\<close>: the number of shards of the index of active rooms.\<close>

definition active_room_shards :: "int \<Rightarrow> int" where
  "active_room_shards configured = (if configured \<le> 0 then 16 else configured)"

section \<open>The fixed-window limiter\<close>

text \<open>
  The text a script's number becomes as an argument of a command (\<^verbatim>\<open>%.17g\<close>): plain up to
  seventeen digits, then with an exponent.
\<close>

definition lua_text :: "int \<Rightarrow> string" where
  "lua_text x =
     (if \<bar>x\<bar> < 10 ^ 17 then FormatInt x
      else let m = \<bar>x\<bar>; e = length (FormatInt m) - 1; u = 10 ^ (e - 16); q = m div u; r = m mod u;
               q = (if 2 * r > u \<or> (2 * r = u \<and> q mod 2 = 1) then q + 1 else q);
               e = (if q = 10 ^ 17 then e + 1 else e);
               ds = FormatInt (if q = 10 ^ 17 then 10 ^ 16 else q);
               frac = rev (dropWhile (\<lambda>c. c = CHR ''0'') (rev (tl ds)))
           in (if x < 0 then ''-'' else []) @ [hd ds] @ (if frac = [] then [] else ''.'' @ frac) @ ''e+'' @ FormatInt (int e))"

text \<open>
  The script: a window opens with the first units taken from it and ends with the expiry of its
  key.
\<close>

definition fixedWindowScript :: "string \<Rightarrow> int \<Rightarrow> int \<Rightarrow> int \<Rightarrow> int \<Rightarrow> redis_db \<Rightarrow> (go_err + int) \<times> redis_db" where
  "fixedWindowScript key limit millis n t db =
     (case (case get_text t key db of None \<Rightarrow> Some 0 | Some s \<Rightarrow> ParseInt s) of
        None \<Rightarrow> (Inl (Plain ''ERR attempt to perform arithmetic on a nil value''), db)
      | Some v \<Rightarrow>
          let current = f64 v; requested = f64 n in
          if f64 (current + requested) > f64 limit then (Inr 0, db)
          else if ParseInt (lua_text requested) = None then (Inl not_integer, db)
          else (case incr_by t key requested db of
                  (Inl e, db') \<Rightarrow> (Inl e, db')
                | (Inr next, db') \<Rightarrow>
                    (Inr 1, if f64 next = requested then pexpire_text t key millis db' else db')))"

definition AllowN :: "string \<Rightarrow> int \<Rightarrow> int \<Rightarrow> int \<Rightarrow> (redis_db, bool) prog" where
  "AllowN key limit n window =
     bind (ext (\<lambda>db w. fixedWindowScript key limit (dur_millis window) n (rd_ms w) db)) (\<lambda>res. ret (res = 1))"

definition Allow :: "string \<Rightarrow> int \<Rightarrow> int \<Rightarrow> (redis_db, bool) prog" where
  "Allow key limit window = AllowN key limit 1 window"

section \<open>Danmaku pressure, likes and their caches\<close>

definition danmakuPressureScript ::
  "string \<Rightarrow> string \<Rightarrow> int \<Rightarrow> int \<Rightarrow> int \<Rightarrow> string \<Rightarrow> int \<Rightarrow> int \<Rightarrow> redis_db \<Rightarrow> (int \<times> int) \<times> redis_db" where
  "danmakuPressureScript viewersKey rateKey nw floor score member life t db =
     (let db1 = zrem_upto t viewersKey nw db;
          viewers = zcard t viewersKey db1;
          db2 = zrem_upto t rateKey floor db1;
          db3 = zadd t rateKey score member db2;
          db4 = pexpire_zset t rateKey life db3
      in ((viewers, zcard t rateKey db4), db4))"

definition DanmakuPressure :: "int \<Rightarrow> string \<Rightarrow> int \<Rightarrow> (redis_db, int \<times> int) prog" where
  "DanmakuPressure roomID messageID window =
     bind now (\<lambda>g. let nw = unix_milli g; windowMS = dur_millis window in
       ext (\<lambda>db w. case danmakuPressureScript (roomViewersKey roomID) (roomDanmakuRateKey roomID) nw (nw - windowMS) nw
                          messageID (windowMS * 2) (rd_ms w) db of (v, db') \<Rightarrow> (Inr v, db')))"

text \<open>The index entry of an active room, scored by the process's clock.\<close>

definition index_room :: "int \<Rightarrow> int \<Rightarrow> (redis_db, unit) prog" where
  "index_room shards roomID = bind now (\<lambda>g. ext (\<lambda>db w.
     (Inr (), zadd (rd_ms w) (activeStatsRoomsKey (activeRoomShard shards roomID)) (unix_milli g) (FormatInt roomID) db)))"

definition addLikesScript :: "int \<Rightarrow> int \<Rightarrow> int \<Rightarrow> redis_db \<Rightarrow> (go_err + int) \<times> redis_db" where
  "addLikesScript roomID count t db =
     (case incr_by t (roomLikeTotalKey roomID) count db of
        (Inl e, db1) \<Rightarrow> (Inl e, db1)
      | (Inr tot, db1) \<Rightarrow>
          (case incr_by t (roomLikeDeltaKey roomID) count db1 of
             (Inl e, db2) \<Rightarrow> (Inl e, db2)
           | (Inr _, db2) \<Rightarrow> (Inr (f64 tot), db2)))"

definition AddLikes :: "int \<Rightarrow> int \<Rightarrow> int \<Rightarrow> (redis_db, int) prog" where
  "AddLikes shards roomID count =
     bind (index_room shards roomID) (\<lambda>_. ext (\<lambda>db w. addLikesScript roomID count (rd_ms w) db))"

definition CachedLikeRoomStatus :: "int \<Rightarrow> (redis_db, string option) prog" where
  "CachedLikeRoomStatus roomID = read_ext (\<lambda>db w. Inr (get_text (rd_ms w) (likeRoomStatusKey roomID) db))"

definition set_cmd :: "string \<Rightarrow> string \<Rightarrow> int \<Rightarrow> (redis_db, unit) prog" where
  "set_cmd key v ttl = ext (\<lambda>db w. (Inr (), set_text key v (set_expiry (rd_ms w) ttl) db))"

definition CacheLikeRoomStatus :: "int \<Rightarrow> string \<Rightarrow> int \<Rightarrow> (redis_db, unit) prog" where
  "CacheLikeRoomStatus roomID status ttl = set_cmd (likeRoomStatusKey roomID) status ttl"

definition CachedLikeBan :: "int \<Rightarrow> int \<Rightarrow> (redis_db, bool option) prog" where
  "CachedLikeBan roomID userID = read_ext (\<lambda>db w.
     case get_text (rd_ms w) (likeBanKey roomID userID) db of
       None \<Rightarrow> Inr None
     | Some s \<Rightarrow> (case ParseInt s of None \<Rightarrow> Inl not_integer | Some v \<Rightarrow> Inr (Some (v = 1))))"

definition CacheLikeBan :: "int \<Rightarrow> int \<Rightarrow> bool \<Rightarrow> int \<Rightarrow> (redis_db, unit) prog" where
  "CacheLikeBan roomID userID banned ttl = set_cmd (likeBanKey roomID userID) (if banned then ''1'' else ''0'') ttl"

definition EnforceLikeBan :: "int \<Rightarrow> int \<Rightarrow> bool \<Rightarrow> (redis_db, unit) prog" where
  "EnforceLikeBan roomID userID banned =
     (if \<not> banned then ext (\<lambda>db _. (Inr (), del_text (likeBanKey roomID userID) db))
      else set_cmd (likeBanKey roomID userID) ''1'' 0)"

section \<open>Viewers\<close>

definition touchViewerScript :: "int \<Rightarrow> int \<Rightarrow> string \<Rightarrow> int \<Rightarrow> int \<Rightarrow> redis_db \<Rightarrow> int \<times> redis_db" where
  "touchViewerScript roomID nw user expires t db =
     (let vk = roomViewersKey roomID; jk = roomViewerJoinKey roomID;
          db1 = zadd t vk expires user db;
          db2 = zadd_nx t jk nw user db1;
          expired = map fst (filter (\<lambda>x. snd x \<le> f64 nw) (zsorted (zitems t vk db2)));
          db3 = fold (zrem t jk) expired db2;
          db4 = zrem_upto t vk nw db3
      in (zcard t vk db4, db4))"

definition TouchViewer :: "int \<Rightarrow> int \<Rightarrow> int \<Rightarrow> int \<Rightarrow> (redis_db, int) prog" where
  "TouchViewer shards roomID userID ttl =
     bind now (\<lambda>g. let nw = unix_milli g in
     bind (index_room shards roomID) (\<lambda>_.
     ext (\<lambda>db w. case touchViewerScript roomID nw (FormatInt userID) (nw + dur_millis ttl) (rd_ms w) db of
                   (v, db') \<Rightarrow> (Inr v, db'))))"

definition RemoveViewer :: "int \<Rightarrow> int \<Rightarrow> (redis_db, int) prog" where
  "RemoveViewer roomID userID = ext (\<lambda>db w.
     let t = rd_ms w;
         db1 = zrem t (roomViewersKey roomID) (FormatInt userID) db;
         db2 = zrem t (roomViewerJoinKey roomID) (FormatInt userID) db1
     in (Inr (zcard t (roomViewersKey roomID) db2), db2))"

definition AddViewerGiftValue :: "int \<Rightarrow> int \<Rightarrow> int \<Rightarrow> (redis_db, unit) prog" where
  "AddViewerGiftValue roomID userID v = ext (\<lambda>db w.
     let t = rd_ms w; k = roomViewerGiftKey roomID; m = FormatInt userID;
         old = (case zscore t k m db of None \<Rightarrow> 0 | Some s \<Rightarrow> s)
     in (Inr (), zadd t k (f64 (old + f64 v)) m db))"

text \<open>
  The ranking script. \<open>sort\<close> is Lua's \<^verbatim>\<open>table.sort\<close> on rows of member, gift value and time of
  joining, which need not be stable.
\<close>

type_synonym viewer_row = "string \<times> int \<times> int"

definition top_before :: "viewer_row \<Rightarrow> viewer_row \<Rightarrow> bool" where
  "top_before a b = (if fst (snd a) = fst (snd b) then snd (snd a) < snd (snd b) else fst (snd a) > fst (snd b))"

definition topViewersScript ::
  "(viewer_row list \<Rightarrow> viewer_row list) \<Rightarrow> int \<Rightarrow> int \<Rightarrow> int \<Rightarrow> int \<Rightarrow> redis_db \<Rightarrow> string list" where
  "topViewersScript srt roomID nw n t db =
     (let active = map fst (filter (\<lambda>x. f64 nw \<le> snd x) (zsorted (zitems t (roomViewersKey roomID) db)));
          score = (\<lambda>k m. case zscore t k m db of None \<Rightarrow> 0 | Some s \<Rightarrow> s);
          rows = map (\<lambda>m. (m, score (roomViewerGiftKey roomID) m, score (roomViewerJoinKey roomID) m)) active
      in map fst (take (nat n) (srt rows)))"

fun parse_all :: "string list \<Rightarrow> go_err + int list" where
  "parse_all [] = Inr []"
| "parse_all (v # vs) =
     (case ParseInt v of
        None \<Rightarrow> Inl (Plain ''strconv.ParseInt'')
      | Some i \<Rightarrow> (case parse_all vs of Inl e \<Rightarrow> Inl e | Inr is \<Rightarrow> Inr (i # is)))"

definition TopViewers :: "(viewer_row list \<Rightarrow> viewer_row list) \<Rightarrow> int \<Rightarrow> int \<Rightarrow> (redis_db, int list) prog" where
  "TopViewers srt roomID limit =
     bind now (\<lambda>g.
     bind (read_ext (\<lambda>db w. Inr (topViewersScript srt roomID (unix_milli g) limit (rd_ms w) db))) (\<lambda>vals.
     lift (parse_all vals)))"

definition OnlineViewers :: "(viewer_row list \<Rightarrow> viewer_row list) \<Rightarrow> int \<Rightarrow> int \<Rightarrow> (redis_db, int list) prog" where
  "OnlineViewers srt roomID limit = TopViewers srt roomID (if limit \<le> 0 \<or> limit > 100 then 100 else limit)"

section \<open>Like totals and snapshots\<close>

text \<open>An integer key; none is zero.\<close>

definition int_key :: "int \<Rightarrow> string \<Rightarrow> redis_db \<Rightarrow> go_err + int option" where
  "int_key t k db = (case get_text t k db of
       None \<Rightarrow> Inr None
     | Some s \<Rightarrow> (case ParseInt s of None \<Rightarrow> Inl not_integer | Some v \<Rightarrow> Inr (Some v)))"

definition TakeLikeDelta :: "int \<Rightarrow> (redis_db, int) prog" where
  "TakeLikeDelta roomID = ext (\<lambda>db w.
     case int_key (rd_ms w) (roomLikeDeltaKey roomID) db of
       Inl e \<Rightarrow> (Inl e, del_text (roomLikeDeltaKey roomID) db)
     | Inr None \<Rightarrow> (Inr 0, db)
     | Inr (Some v) \<Rightarrow> (Inr v, del_text (roomLikeDeltaKey roomID) db))"

definition RestoreLikeDelta :: "int \<Rightarrow> int \<Rightarrow> int \<Rightarrow> (redis_db, unit) prog" where
  "RestoreLikeDelta shards roomID delta =
     (if delta \<le> 0 then ret ()
      else bind (index_room shards roomID) (\<lambda>_.
           bind (ext (\<lambda>db w. incr_by (rd_ms w) (roomLikeDeltaKey roomID) delta db)) (\<lambda>_. ret ())))"

text \<open>Viewers and likes of a room; the reply of \<^verbatim>\<open>GET\<close> is text, which the client parses.\<close>

definition snapshotScript :: "int \<Rightarrow> int \<Rightarrow> int \<Rightarrow> redis_db \<Rightarrow> (int \<times> string) \<times> redis_db" where
  "snapshotScript roomID nw t db =
     (let db1 = zrem_upto t (roomViewersKey roomID) nw db;
          likes = (case get_text t (roomLikeTotalKey roomID) db1 of None \<Rightarrow> ''0'' | Some s \<Rightarrow> s)
      in ((zcard t (roomViewersKey roomID) db1, likes), db1))"

record EngagementSnapshot =
  es_viewers :: int
  es_likes :: int

definition Redis_EngagementSnapshot :: "int \<Rightarrow> (redis_db, EngagementSnapshot) prog" where
  "Redis_EngagementSnapshot roomID =
     bind now (\<lambda>g.
     bind (ext (\<lambda>db w. case snapshotScript roomID (unix_milli g) (rd_ms w) db of (v, db') \<Rightarrow> (Inr v, db'))) (\<lambda>(viewers, likes).
     case ParseInt likes of
       None \<Rightarrow> fail not_integer
     | Some l \<Rightarrow> ret \<lparr>es_viewers = viewers, es_likes = l\<rparr>))"

definition LikeSnapshot :: "int \<Rightarrow> (redis_db, int) prog" where
  "LikeSnapshot roomID = read_ext (\<lambda>db w.
     case int_key (rd_ms w) (roomLikeTotalKey roomID) db of
       Inl e \<Rightarrow> Inl e | Inr None \<Rightarrow> Inr 0 | Inr (Some v) \<Rightarrow> Inr v)"

text \<open>
  The script reads the stored total with Lua's \<^verbatim>\<open>tonumber\<close>, here as a decimal integer, the only text
  the program ever stores under the key.
\<close>

definition restoreLikeSnapshotScript :: "int \<Rightarrow> int \<Rightarrow> int \<Rightarrow> redis_db \<Rightarrow> (go_err + unit) \<times> redis_db" where
  "restoreLikeSnapshotScript roomID count t db =
     (case int_key t (roomLikeTotalKey roomID) db of
        Inl e \<Rightarrow> (Inl e, db)
      | Inr cur \<Rightarrow>
          let current = f64 (case cur of None \<Rightarrow> 0 | Some v \<Rightarrow> v); checkpoint = f64 count in
          (Inr (), if current < checkpoint
                   then set_text (roomLikeTotalKey roomID) (lua_text checkpoint) None db else db))"

definition RestoreLikeSnapshot :: "int \<Rightarrow> int \<Rightarrow> (redis_db, unit) prog" where
  "RestoreLikeSnapshot roomID count = ext (\<lambda>db w. restoreLikeSnapshotScript roomID count (rd_ms w) db)"

section \<open>Active rooms\<close>

text \<open>The shards in order, until the limit is reached; unreadable members are skipped.\<close>

fun take_rooms :: "int \<Rightarrow> string list \<Rightarrow> int list \<Rightarrow> int list" where
  "take_rooms limit [] out = out"
| "take_rooms limit (v # vs) out =
     (case ParseInt v of
        None \<Rightarrow> take_rooms limit vs out
      | Some i \<Rightarrow> if i > 0 then (if int (length out) + 1 = limit then out @ [i] else take_rooms limit vs (out @ [i]))
                  else take_rooms limit vs out)"

definition shard_page :: "int \<Rightarrow> int \<Rightarrow> int \<Rightarrow> (redis_db, string list) prog" where
  "shard_page since perShard shard = ext (\<lambda>db w.
     let t = rd_ms w; k = activeStatsRoomsKey shard; db1 = zrem_upto t k (unix_milli since) db
     in (Inr (map fst (take (nat perShard) (rev (zsorted (zitems t k db1))))), db1))"

fun scan_shards :: "int \<Rightarrow> int \<Rightarrow> int \<Rightarrow> int list \<Rightarrow> int list \<Rightarrow> (redis_db, int list) prog" where
  "scan_shards since perShard limit [] out = ret out"
| "scan_shards since perShard limit (shard # rest) out =
     (if int (length out) \<ge> limit then ret out
      else bind (shard_page since perShard shard) (\<lambda>raw. scan_shards since perShard limit rest (take_rooms limit raw out)))"

definition ActiveRooms :: "int \<Rightarrow> int \<Rightarrow> int \<Rightarrow> (redis_db, int list) prog" where
  "ActiveRooms shards since limit =
     (let limit = (if limit \<le> 0 then 1000 else limit);
          perShard = go_quot (i64 (i64 (limit + shards) - 1)) shards
      in scan_shards since perShard limit (map int [0..<nat shards]) [])"

definition LastPublishedViewer :: "int \<Rightarrow> (redis_db, int option) prog" where
  "LastPublishedViewer roomID = read_ext (\<lambda>db w. int_key (rd_ms w) (roomLastViewerKey roomID) db)"

definition SetPublishedViewer :: "int \<Rightarrow> int \<Rightarrow> int \<Rightarrow> (redis_db, unit) prog" where
  "SetPublishedViewer roomID viewerCount ttl = set_cmd (roomLastViewerKey roomID) (FormatInt viewerCount) ttl"

end
