(* ===== verification/Redis_Limits.thy ===== *)
theory Redis_Limits
  imports Redis_Store
begin

text \<open>
  What the fixed-window limiter guarantees: within one window of its key, the units of the calls
  it allowed never add up to more than the limit, whatever calls fail.
\<close>

definition small :: "int \<Rightarrow> bool" where
  "small x \<longleftrightarrow> \<bar>x\<bar> \<le> 4503599627370496"

lemma smallD: "small x \<Longrightarrow> f64 x = x" "small x \<Longrightarrow> small y \<Longrightarrow> f64 (x + y) = x + y" "small x \<Longrightarrow> is_i64 x"
    "small x \<Longrightarrow> small y \<Longrightarrow> is_i64 (x + y)"
  by (auto simp: small_def f64_def is_i64_def)

lemma small_lua_text: "small x \<Longrightarrow> ParseInt (lua_text x) = Some x"
  using ParseInt_FormatInt [OF smallD(3)] by (simp add: lua_text_def small_def)

section \<open>One call\<close>

text \<open>The units taken in the window of a key that is open at a time.\<close>

definition window_open :: "int \<Rightarrow> string \<Rightarrow> int \<Rightarrow> int \<Rightarrow> redis_db \<Rightarrow> bool" where
  "window_open t key v e db \<longleftrightarrow> texts db key = Some \<lparr>rt_text = FormatInt v, rt_expires = Some e\<rparr> \<and> t \<le> e"

lemma window_open_text: "window_open t key v e db \<Longrightarrow> get_text t key db = Some (FormatInt v) \<and> text_expiry t key db = Some e"
  by (simp add: window_open_def get_text_def text_expiry_def alive_def)

lemma script_new:
  assumes "get_text t key db = None" and "small limit" and "small n" and "1 \<le> n" and "0 < d"
    and "fixedWindowScript key limit d n t db = (r, db')"
  shows "(limit < n \<and> r = Inr 0 \<and> db' = db) \<or> (n \<le> limit \<and> r = Inr 1 \<and> window_open t key n (t + d) db')"
proof (cases "limit < n")
  case True
  have z: "f64 0 = 0" by (simp add: f64_def)
  from assms(6) True show ?thesis using assms(1) by (auto simp: fixedWindowScript_def smallD assms(2,3) z)
next
  case False
  have z: "f64 0 = 0" by (simp add: f64_def)
  have inc: "incr_by t key n db = (Inr n, set_text key (FormatInt n) (text_expiry t key db) db)"
    using assms(1) smallD(3) [OF assms(3)] by (simp add: incr_by_def)
  have te: "text_expiry t key db = None" using assms(1) by (auto simp: get_text_def text_expiry_def split: option.splits)
  have px: "pexpire_text t key d (set_text key (FormatInt n) None db) = set_text key (FormatInt n) (Some (t + d))
      (set_text key (FormatInt n) None db)"
    using assms(5) by (simp add: pexpire_text_def set_text_def get_text_def alive_def)
  from assms(6) False show ?thesis
    using assms(1,5) inc te px by (auto simp: fixedWindowScript_def smallD assms(2,3) small_lua_text z window_open_def set_text_def)
qed

lemma script_open:
  assumes "window_open t key v e db" and "small limit" and "small n" and "1 \<le> n" and "1 \<le> v" and "v \<le> limit"
    and "fixedWindowScript key limit d n t db = (r, db')"
  shows "(limit < v + n \<and> r = Inr 0 \<and> db' = db) \<or> (v + n \<le> limit \<and> r = Inr 1 \<and> window_open t key (v + n) e db')"
proof -
  have v: "small v" using assms(2,5,6) by (simp add: small_def)
  note w = window_open_text [OF assms(1)]
  have p: "ParseInt (FormatInt v) = Some v" using smallD(3) [OF v] by (rule ParseInt_FormatInt)
  note s = smallD(1) [OF v] smallD(1) [OF assms(2)] smallD(1) [OF assms(3)] smallD(2) [OF v assms(3)]
  have inc: "incr_by t key n db = (Inr (v + n), set_text key (FormatInt (v + n)) (Some e) db)"
    using w p smallD(3) [OF assms(3)] smallD(4) [OF v assms(3)] by (simp add: incr_by_def)
  have ne: "v + n \<noteq> n" using assms(5) by simp
  from assms(7) show ?thesis
    using w p s inc ne assms(1) small_lua_text [OF assms(3)]
    by (auto simp: fixedWindowScript_def window_open_def set_text_def split: if_splits)
qed

lemma AllowN_cases:
  assumes "AllowN key limit n window (db, w) = (r, (db', w'))"
  shows "\<exists>x db1. fixedWindowScript key limit (dur_millis window) n (rd_ms w) db = (x, db1)
     \<and> (db' = db1 \<or> db' = db) \<and> (r = Inr True \<longrightarrow> db' = db1 \<and> x = Inr 1)"
proof -
  obtain y d1 w1 where e: "ext (\<lambda>db w. fixedWindowScript key limit (dur_millis window) n (rd_ms w) db) (db, w) = (y, (d1, w1))"
    by (metis prod.collapse)
  have ms: "rd_ms w1 = rd_ms w" using ext_D [OF e] by (simp add: clocks_def rd_ms_def)
  from assms e have d: "db' = d1" "r = Inr True \<Longrightarrow> y = Inr 1"
    by (auto simp: AllowN_def bind_def split: sum.splits)
  obtain x db1 where f: "fixedWindowScript key limit (dur_millis window) n (rd_ms w) db = (x, db1)" by fastforce
  with ext_D [OF e] ms d show ?thesis by auto
qed

section \<open>A run of calls\<close>

text \<open>Calls on one key, each in its own world; the units of those that were allowed are added up.\<close>

fun allow_run :: "string \<Rightarrow> int \<Rightarrow> int \<Rightarrow> (io \<times> int) list \<Rightarrow> redis_db \<Rightarrow> int" where
  "allow_run key limit window [] db = 0"
| "allow_run key limit window ((w, n) # cs) db =
     (case AllowN key limit n window (db, w) of (r, (db', _)) \<Rightarrow>
        (if r = Inr True then n else 0) + allow_run key limit window cs db')"

definition calls_ok :: "int \<Rightarrow> int \<Rightarrow> (io \<times> int) list \<Rightarrow> bool" where
  "calls_ok lo hi cs \<longleftrightarrow> (\<forall>(w, n) \<in> set cs. lo \<le> rd_ms w \<and> rd_ms w \<le> hi \<and> 1 \<le> n \<and> small n)"

lemma open_run:
  assumes "window_open t key v e db" and "small limit" and "1 \<le> v" and "v \<le> limit" and "calls_ok lo e cs"
  shows "v + allow_run key limit window cs db \<le> limit"
  using assms
proof (induction cs arbitrary: v db)
  case (Cons c cs)
  obtain w n where c: "c = (w, n)" by fastforce
  have n: "1 \<le> n" "small n" "rd_ms w \<le> e" and cs: "calls_ok lo e cs"
    using Cons.prems(5) by (auto simp: calls_ok_def c)
  obtain r db' w' where a: "AllowN key limit n window (db, w) = (r, (db', w'))" by (metis prod.collapse)
  obtain x db1 where f: "fixedWindowScript key limit (dur_millis window) n (rd_ms w) db = (x, db1)"
    and d: "db' = db1 \<or> db' = db" and ok: "r = Inr True \<longrightarrow> db' = db1 \<and> x = Inr 1"
    using AllowN_cases [OF a] by blast
  have o: "window_open (rd_ms w) key v e db" using Cons.prems(1) n(3) by (simp add: window_open_def)
  have at: "window_open t' key u e db2 \<Longrightarrow> window_open t key u e db2" for t' u db2
    using Cons.prems(1) by (simp add: window_open_def)
  show ?case
  proof (cases "db' = db1 \<and> x = Inr 1")
    case True
    from script_open [OF o Cons.prems(2) n(2,1) Cons.prems(3,4) f] True have
      "v + n \<le> limit" "window_open t key (v + n) e db'" using at by auto
    from Cons.IH [OF this(2) Cons.prems(2) _ this(1) cs] n(1) Cons.prems(3) a show ?thesis by (simp add: c)
  next
    case False
    from script_open [OF o Cons.prems(2) n(2,1) Cons.prems(3,4) f] False d have "db' = db" by auto
    moreover have "r \<noteq> Inr True" using ok False by blast
    ultimately show ?thesis using Cons.IH [OF Cons.prems(1-4) cs] a by (simp add: c)
  qed
qed simp

lemma closed_run:
  assumes "\<forall>t. lo \<le> t \<longrightarrow> get_text t key db = None" and "small limit" and "0 \<le> limit" and "0 < dur_millis window"
    and "calls_ok lo (lo + dur_millis window) cs"
  shows "allow_run key limit window cs db \<le> limit"
  using assms
proof (induction cs arbitrary: db)
  case (Cons c cs)
  obtain w n where c: "c = (w, n)" by fastforce
  have n: "1 \<le> n" "small n" "lo \<le> rd_ms w" and cs: "calls_ok lo (lo + dur_millis window) cs"
    using Cons.prems(5) by (auto simp: calls_ok_def c)
  obtain r db' w' where a: "AllowN key limit n window (db, w) = (r, (db', w'))" by (metis prod.collapse)
  obtain x db1 where f: "fixedWindowScript key limit (dur_millis window) n (rd_ms w) db = (x, db1)"
    and d: "db' = db1 \<or> db' = db" and ok: "r = Inr True \<longrightarrow> db' = db1 \<and> x = Inr 1"
    using AllowN_cases [OF a] by blast
  have none: "get_text (rd_ms w) key db = None" using Cons.prems(1) n(3) by blast
  from script_new [OF none Cons.prems(2) n(2,1) Cons.prems(4) f]
  consider (no) "db1 = db" "x = Inr 0" | (yes) "n \<le> limit" "window_open (rd_ms w) key n (rd_ms w + dur_millis window) db1"
    by blast
  then show ?case
  proof cases
    case no
    with d ok have "db' = db" "r \<noteq> Inr True" by auto
    with Cons.IH [OF Cons.prems(1-4) cs] a show ?thesis by (simp add: c)
  next
    case yes
    show ?thesis
    proof (cases "db' = db1")
      case True
      have "calls_ok lo (rd_ms w + dur_millis window) cs" using cs n(3) by (fastforce simp: calls_ok_def)
      from open_run [OF yes(2) Cons.prems(2) n(1) yes(1) this, of window] True n(1) a show ?thesis by (simp add: c)
    next
      case False
      with d ok have "db' = db" "r \<noteq> Inr True" by auto
      with Cons.IH [OF Cons.prems(1-4) cs] a show ?thesis by (simp add: c)
    qed
  qed
qed simp

text \<open>
  C11. A window is never overdrawn. Take any calls of the limiter on one key, at times of the
  Redis server from \<open>lo\<close> to \<open>lo\<close> plus the window, when the key is unset or expired at \<open>lo\<close>; some
  of them may fail, with or without effect. The units of the calls that were allowed add up to
  at most the limit. (Numbers stay below two to the 52, where doubles are exact, and the window
  is at least a millisecond.)
\<close>

theorem limiter_window_bound:
  assumes "\<forall>t. lo \<le> t \<longrightarrow> get_text t key db = None" and "small limit" and "0 \<le> limit" and "millisecond \<le> window"
    and "calls_ok lo (lo + dur_millis window) cs"
  shows "allow_run key limit window cs db \<le> limit"
proof -
  have "0 < dur_millis window"
    using assms(4) by (simp add: dur_millis_def go_quot_nonneg pos_imp_zdiv_pos_iff)
  from closed_run [OF assms(1-3) this assms(5)] show ?thesis .
qed

definition at_rest :: io where
  "at_rest = \<lparr>faults = [], go_now = 0, db_now = 0, rd_now = 0, entropy = []\<rparr>"

theorem limiter_window_bound_witness:
  "allow_run ''k'' 1 second [(at_rest, 1), (at_rest, 1)] \<lparr>texts = (\<lambda>_. None), zsets = (\<lambda>_. None)\<rparr> \<le> 1"
  by (rule limiter_window_bound [where lo = 0])
    (simp_all add: get_text_def small_def calls_ok_def rd_ms_def unix_milli_def at_rest_def dur_millis_def go_quot_def)

end
