(* ===== verification/Platform.thy ===== *)
theory Platform
  imports Gift_Repo Room_Service Redis_Store Realtime Mq_Kafka
begin

text \<open>
  The stores the interaction services work on, in one state: the identity and room databases,
  the commerce database, Redis, the requests sent to the realtime server, and the broker's
  log. An operation of one store is a program on the whole that leaves the others alone.
\<close>

record live =
  lv_site :: site
  lv_shop :: commerce_db
  lv_redis :: redis_db
  lv_http :: http_log
  lv_kafka :: kafka_log

definition at_site :: "(site, 'a) prog \<Rightarrow> (live, 'a) prog" where
  "at_site = zoom lv_site (\<lambda>d s. s\<lparr>lv_site := d\<rparr>)"

definition at_shop :: "(commerce_db, 'a) prog \<Rightarrow> (live, 'a) prog" where
  "at_shop = zoom lv_shop (\<lambda>d s. s\<lparr>lv_shop := d\<rparr>)"

definition at_redis :: "(redis_db, 'a) prog \<Rightarrow> (live, 'a) prog" where
  "at_redis = zoom lv_redis (\<lambda>d s. s\<lparr>lv_redis := d\<rparr>)"

definition at_realtime :: "(http_log, 'a) prog \<Rightarrow> (live, 'a) prog" where
  "at_realtime = zoom lv_http (\<lambda>d s. s\<lparr>lv_http := d\<rparr>)"

definition at_broker :: "(kafka_log, 'a) prog \<Rightarrow> (live, 'a) prog" where
  "at_broker = zoom lv_kafka (\<lambda>d s. s\<lparr>lv_kafka := d\<rparr>)"

lemma at_eqs:
  "at_site m (s, w) = (r, (s', w')) \<longleftrightarrow> (\<exists>d. m (lv_site s, w) = (r, (d, w')) \<and> s' = s\<lparr>lv_site := d\<rparr>)"
  "at_shop n (s, w) = (q, (s', w')) \<longleftrightarrow> (\<exists>e. n (lv_shop s, w) = (q, (e, w')) \<and> s' = s\<lparr>lv_shop := e\<rparr>)"
  "at_redis k (s, w) = (p, (s', w')) \<longleftrightarrow> (\<exists>f. k (lv_redis s, w) = (p, (f, w')) \<and> s' = s\<lparr>lv_redis := f\<rparr>)"
  "at_realtime h (s, w) = (t, (s', w')) \<longleftrightarrow> (\<exists>g. h (lv_http s, w) = (t, (g, w')) \<and> s' = s\<lparr>lv_http := g\<rparr>)"
  "at_broker b (s, w) = (u, (s', w')) \<longleftrightarrow> (\<exists>i. b (lv_kafka s, w) = (u, (i, w')) \<and> s' = s\<lparr>lv_kafka := i\<rparr>)"
  by (auto simp: at_site_def at_shop_def at_redis_def at_realtime_def at_broker_def zoom_eq)

text \<open>Quiet runs: a program that completes on its store completes on the whole.\<close>

lemma at_quiet:
  "m (lv_site s, w) = (r, (d, w')) \<Longrightarrow> at_site m (s, w) = (r, (s\<lparr>lv_site := d\<rparr>, w'))"
  "n (lv_shop s, w) = (q, (e, w')) \<Longrightarrow> at_shop n (s, w) = (q, (s\<lparr>lv_shop := e\<rparr>, w'))"
  "k (lv_redis s, w) = (p, (f, w')) \<Longrightarrow> at_redis k (s, w) = (p, (s\<lparr>lv_redis := f\<rparr>, w'))"
  "h (lv_http s, w) = (t, (g, w')) \<Longrightarrow> at_realtime h (s, w) = (t, (s\<lparr>lv_http := g\<rparr>, w'))"
  "b (lv_kafka s, w) = (u, (i, w')) \<Longrightarrow> at_broker b (s, w) = (u, (s\<lparr>lv_kafka := i\<rparr>, w'))"
  by (auto simp: at_eqs)

end
