(* ===== verification/Gift_Service.thy ===== *)
theory Gift_Service
  imports Platform Gift_Ledger Room_Lifecycle
begin

text \<open>
  \<^verbatim>\<open>internal/gift/service.go\<close>: the checks before an order is placed, and the replay of a known
  request. The service works over any store, room directory and limiter; what it relies on is
  the locale \<open>gift_ports\<close>, which the repository, the room service and the Redis limiter meet.
\<close>

section \<open>The service\<close>

record 'd GiftService =
  gs_list :: "('d, Gift list) prog"
  gs_by_order :: "string \<Rightarrow> ('d, Order) prog"
  gs_by_request :: "string \<Rightarrow> ('d, Order) prog"
  gs_create :: "CreateParams \<Rightarrow> ('d, Order \<times> bool) prog"
  gs_room :: "int \<Rightarrow> ('d, Room) prog"
  gs_banned :: "int \<Rightarrow> int \<Rightarrow> ('d, bool) prog"
  gs_limiter :: "(string \<Rightarrow> int \<Rightarrow> int \<Rightarrow> ('d, bool) prog) option"
  gs_max :: int
  gs_rate :: int
  gs_window :: int
  gs_topic :: string

text \<open>\<^verbatim>\<open>NewService\<close>: the defaults of the configuration.\<close>

definition Gift_NewService :: "'d GiftService \<Rightarrow> 'd GiftService" where
  "Gift_NewService s = s
     \<lparr>gs_max := (if gs_max s \<le> 0 then 100 else gs_max s),
      gs_rate := (if gs_rate s \<le> 0 then 10 else gs_rate s),
      gs_window := (if gs_window s \<le> 0 then second else gs_window s)\<rparr>"

definition Gift_List :: "'d GiftService \<Rightarrow> ('d, Gift list) prog" where
  "Gift_List s = gs_list s"

definition Gift_Order :: "'d GiftService \<Rightarrow> string \<Rightarrow> int \<Rightarrow> ('d, Order) prog" where
  "Gift_Order s orderNo userID =
     bind (gs_by_order s (TrimSpace orderNo)) (\<lambda>v.
     if UserID v \<noteq> userID then fail (Sentinel Gift_ErrOrderForbidden) else ret v)"

definition validRequestID :: "unicode \<Rightarrow> string \<Rightarrow> bool" where
  "validRequestID U s \<longleftrightarrow>
     (if length s < 8 \<or> length s > 128 then False
      else list_all (\<lambda>r. is_letter U r \<or> is_digit U r \<or> r = 45 \<or> r = 95 \<or> r = 58 \<or> r = 46) (runes s))"

definition sameRequest :: "Order \<Rightarrow> int \<Rightarrow> int \<Rightarrow> int \<Rightarrow> int \<Rightarrow> bool" where
  "sameRequest existing roomID userID giftID count \<longleftrightarrow>
     UserID existing = userID \<and> Order_RoomID existing = roomID \<and> GiftID existing = giftID \<and> GiftCount existing = count"

text \<open>\<^verbatim>\<open>(result, true)\<close> is \<open>Some\<close>.\<close>

definition replay :: "'d GiftService \<Rightarrow> int \<Rightarrow> int \<Rightarrow> int \<Rightarrow> int \<Rightarrow> string \<Rightarrow> ('d, SendResult option) prog" where
  "replay s roomID userID giftID count requestID =
     handle (gs_by_request s requestID)
       (\<lambda>err. if errors_is err Gift_ErrOrderNotFound then ret None else fail err)
       (\<lambda>existing. if \<not> sameRequest existing roomID userID giftID count
          then fail (Sentinel Gift_ErrIdempotencyConflict)
          else ret (Some \<lparr>sr_order = existing, IdempotentReplay = True, EventQueued = False\<rparr>))"

text \<open>\<^verbatim>\<open>if replay, ok, replayErr := s.replay(...); ok || replayErr != nil { return } return err\<close>.\<close>

definition replay_or ::
  "'d GiftService \<Rightarrow> int \<Rightarrow> int \<Rightarrow> int \<Rightarrow> int \<Rightarrow> string \<Rightarrow> go_err \<Rightarrow> ('d, SendResult) prog" where
  "replay_or s roomID userID giftID count requestID err =
     bind (replay s roomID userID giftID count requestID) (\<lambda>x. case x of Some r \<Rightarrow> ret r | None \<Rightarrow> fail err)"

definition place_order ::
  "'d GiftService \<Rightarrow> int \<Rightarrow> int \<Rightarrow> int \<Rightarrow> int \<Rightarrow> int \<Rightarrow> string \<Rightarrow> ('d, SendResult) prog" where
  "place_order s roomID anchorID userID giftID count requestID =
     bind idgen_New (\<lambda>i.
     bind idgen_New (\<lambda>t.
     bind idgen_New (\<lambda>e.
     bind (gs_create s \<lparr>p_OrderNo = ''G'' @ i, p_RequestID = requestID, p_TransactionNo = ''WT'' @ t, p_EventID = e,
             p_GiftTopic = gs_topic s, p_UserID = userID, p_AnchorID = anchorID, p_RoomID = roomID, p_GiftID = giftID,
             p_Count = count\<rparr>) (\<lambda>(order, again).
     ret \<lparr>sr_order = order, IdempotentReplay = again, EventQueued = \<not> again\<rparr>))))"

definition Gift_Send ::
  "unicode \<Rightarrow> 'd GiftService \<Rightarrow> int \<Rightarrow> int \<Rightarrow> int \<Rightarrow> int \<Rightarrow> string \<Rightarrow> ('d, SendResult) prog" where
  "Gift_Send U s roomID userID giftID count requestID0 =
     (if count < 1 \<or> count > gs_max s then fail (Sentinel Gift_ErrInvalidCount)
      else let requestID = TrimSpace requestID0;
               instead = replay_or s roomID userID giftID count requestID in
        if \<not> validRequestID U requestID then fail (Sentinel Gift_ErrInvalidRequestID)
        else handle (gs_room s roomID) instead
          (\<lambda>v. if rm_status v \<noteq> StatusLiving then instead (Sentinel Room_ErrNotLiving)
            else bind (gs_banned s roomID userID) (\<lambda>banned.
              if banned then instead (Sentinel Room_ErrBanned)
              else bind (case gs_limiter s of None \<Rightarrow> ret True
                   | Some allow \<Rightarrow> allow (''live:limit:gift:user:'' @ FormatInt userID) (gs_rate s) (gs_window s)) (\<lambda>allowed.
                if \<not> allowed then instead (Sentinel Gift_ErrRateLimited)
                else place_order s roomID (rm_anchor_id v) userID giftID count requestID))))"

section \<open>What it relies on\<close>

text \<open>
  \<open>shop\<close> is the commerce database inside the state, \<open>budget\<close> what the limiter counts. Of the rooms: an answer describes the room
  the directory has, and nothing the service calls changes rooms or bans. Of the store: it
  answers and writes as the repository does.
\<close>

locale gift_ports =
  fixes U :: unicode and ck :: "string \<Rightarrow> string" and trace :: "(string \<times> string) list"
    and s :: "'d GiftService" and shop :: "'d \<Rightarrow> commerce_db" and rooms :: "'d \<Rightarrow> room_db"
    and budget :: "'d \<Rightarrow> 'b"
  assumes room_answers: "gs_room s i (d, w) = (r, (d', w')) \<Longrightarrow> d' = d \<and> clocks w' = clocks w
      \<and> (\<forall>v. r = Inr v \<longrightarrow> (\<exists>row. room_by_id i (rooms d) = Some row \<and> rm_status v = r_status row
           \<and> rm_anchor_id v = r_anchor_id row))"
    and banned_answers: "gs_banned s i u (d, w) = (b, (d', w')) \<Longrightarrow> d' = d \<and> clocks w' = clocks w
      \<and> (\<forall>v. b = Inr v \<longrightarrow> v = banned_in (rooms d) i u)"
    and limiter_keeps: "gs_limiter s = Some allow \<Longrightarrow> allow k n t (d, w) = (b, (d', w')) \<Longrightarrow>
      shop d' = shop d \<and> rooms d' = rooms d \<and> clocks w' = clocks w"
    and by_request_answers: "gs_by_request s q (d, w) = (x, (d', w')) \<Longrightarrow> d' = d
      \<and> (\<forall>v. x = Inr v \<longrightarrow> (\<exists>ro \<in> set (gift_orders (shop d)). ck (o_request_id ro) = ck q \<and> order_view (shop d) ro = Some v))"
    and create_answers: "gs_create s p (d, w) = (y, (d', w')) \<Longrightarrow>
      rooms d' = rooms d \<and> budget d' = budget d
      \<and> (\<exists>w1 w2. clocks w1 = clocks w \<and> Create U ck trace p (shop d, w1) = (y, (shop d', w2)))"
begin

lemma replay_or_keeps:
  assumes "replay_or s i u g n q e (d, w) = (r, (d', w'))"
  shows "d' = d \<and> (\<forall>v. r = Inr v \<longrightarrow> IdempotentReplay v \<and> \<not> EventQueued v \<and> sameRequest (sr_order v) i u g n
     \<and> (\<exists>ro \<in> set (gift_orders (shop d)). ck (o_request_id ro) = ck q \<and> order_view (shop d) ro = Some (sr_order v)))"
  using assms
  by (fastforce simp: replay_or_def replay_def bind_eq handle_eq dest!: by_request_answers split: if_splits option.splits)

lemma place_order_asks:
  assumes "place_order s i a u g n q (d, w) = (r, (d', w'))"
  shows "rooms d' = rooms d \<and> budget d' = budget d \<and> (\<exists>p y w1 w2. clocks w1 = clocks w
     \<and> p_RequestID p = q \<and> p_UserID p = u \<and> p_RoomID p = i \<and> p_GiftID p = g \<and> p_Count p = n \<and> p_AnchorID p = a
     \<and> Create U ck trace p (shop d, w1) = (y, (shop d', w2))
     \<and> r = (case y of Inl e \<Rightarrow> Inl e | Inr (v, b) \<Rightarrow> Inr \<lparr>sr_order = v, IdempotentReplay = b, EventQueued = \<not> b\<rparr>))"
proof -
  obtain p w1 y w2 where c: "gs_create s p (d, w1) = (y, (d', w2))" and w1: "clocks w1 = clocks w"
    and p: "p_RequestID p = q" "p_UserID p = u" "p_RoomID p = i" "p_GiftID p = g" "p_Count p = n" "p_AnchorID p = a"
    and r: "r = (case y of Inl e \<Rightarrow> Inl e | Inr (v, b) \<Rightarrow> Inr \<lparr>sr_order = v, IdempotentReplay = b, EventQueued = \<not> b\<rparr>)"
    using assms by (auto simp: place_order_def bind_eq dest!: idgen_D split: sum.splits prod.splits)
  from create_answers [OF c] obtain w3 w4 where "rooms d' = rooms d" "budget d' = budget d" "clocks w3 = clocks w"
    "Create U ck trace p (shop d, w3) = (y, (shop d', w4))" using w1 by auto
  with p r show ?thesis by blast
qed

text \<open>The two ways through the service: it reads and answers, or it asks the store for an order.\<close>

lemma Send_cases:
  assumes "Gift_Send U s i u g n q0 (d, w) = (r, (d', w'))"
  obtains (answered) "shop d' = shop d" and "rooms d' = rooms d"
      and "\<And>v. r = Inr v \<Longrightarrow> IdempotentReplay v \<and> \<not> EventQueued v \<and> sameRequest (sr_order v) i u g n
       \<and> (\<exists>ro \<in> set (gift_orders (shop d)). ck (o_request_id ro) = ck (TrimSpace q0) \<and> order_view (shop d) ro = Some (sr_order v))"
  | (asked) row p y w1 w2 where "1 \<le> n" and "n \<le> gs_max s" and "validRequestID U (TrimSpace q0)"
      and "room_by_id i (rooms d) = Some row" and "r_status row = StatusLiving" and "\<not> banned_in (rooms d) i u"
      and "rooms d' = rooms d" and "clocks w1 = clocks w"
      and "p_RequestID p = TrimSpace q0" and "p_UserID p = u" and "p_RoomID p = i" and "p_GiftID p = g" and "p_Count p = n"
      and "p_AnchorID p = r_anchor_id row"
      and "Create U ck trace p (shop d, w1) = (y, (shop d', w2))"
      and "r = (case y of Inl e \<Rightarrow> Inl e | Inr (v, b) \<Rightarrow> Inr \<lparr>sr_order = v, IdempotentReplay = b, EventQueued = \<not> b\<rparr>)"
      and "\<And>allow. gs_limiter s = Some allow \<Longrightarrow> \<exists>wl dl wl'. clocks wl = clocks w \<and> budget dl = budget d'
         \<and> allow (''live:limit:gift:user:'' @ FormatInt u) (gs_rate s) (gs_window s) (d, wl) = (Inr True, (dl, wl'))"
proof -
  have ro: thesis if "replay_or s i u g n (TrimSpace q0) e (d1, w1) = (r, (d', w'))" "shop d1 = shop d" "rooms d1 = rooms d"
    for e d1 w1
    using replay_or_keeps [OF that(1)] that(2,3) by (intro answered) auto
  show thesis
  proof (cases "1 \<le> n \<and> n \<le> gs_max s \<and> validRequestID U (TrimSpace q0)")
    case False
    then show thesis using assms by (intro answered) (auto simp: Gift_Send_def Let_def split: if_splits)
  next
    case ok: True
    obtain x d1 w1 where get: "gs_room s i (d, w) = (x, (d1, w1))" by (metis prod.collapse)
    note g1 = room_answers [OF get]
    show thesis
    proof (cases x)
      case (Inl e)
      with assms ok get g1 show thesis by (intro ro [of e d w1]) (auto simp: Gift_Send_def Let_def handle_def)
    next
      case (Inr v)
      then obtain row where row: "room_by_id i (rooms d) = Some row" "rm_status v = r_status row" "rm_anchor_id v = r_anchor_id row"
        using g1 by auto
      show thesis
      proof (cases "rm_status v = StatusLiving")
        case False
        with assms ok get g1 Inr show thesis
          by (intro ro [of "Sentinel Room_ErrNotLiving" d w1]) (auto simp: Gift_Send_def Let_def handle_def)
      next
        case living: True
        obtain b d2 w2 where ban: "gs_banned s i u (d, w1) = (b, (d2, w2))" by (metis prod.collapse)
        note g2 = banned_answers [OF ban]
        show thesis
        proof (cases b)
          case (Inl e)
          with assms ok get g1 Inr living ban g2 show thesis
            by (intro answered) (auto simp: Gift_Send_def Let_def handle_def bind_def)
        next
          case b: (Inr v2)
          show thesis
          proof (cases v2)
            case True
            with assms ok get g1 Inr living ban g2 b show thesis
              by (intro ro [of "Sentinel Room_ErrBanned" d w2]) (auto simp: Gift_Send_def Let_def handle_def bind_def)
          next
            case False
            let ?lim = "case gs_limiter s of None \<Rightarrow> ret True
               | Some allow \<Rightarrow> allow (''live:limit:gift:user:'' @ FormatInt u) (gs_rate s) (gs_window s)"
            obtain a d3 w3 where lim: "?lim (d, w2) = (a, (d3, w3))" by (metis prod.collapse)
            have g3: "shop d3 = shop d \<and> rooms d3 = rooms d \<and> clocks w3 = clocks w2"
              using lim limiter_keeps by (auto split: option.splits)
            show thesis
            proof (cases "a = Inr True")
              case False
              with assms ok get g1 Inr living ban g2 b \<open>\<not> v2\<close> lim g3 show thesis
                by (cases a) (auto simp: Gift_Send_def Let_def handle_def bind_def intro: answered ro)
            next
              case True
              with assms ok get g1 Inr living ban g2 b \<open>\<not> v2\<close> lim
              have po: "place_order s i (rm_anchor_id v) u g n (TrimSpace q0) (d3, w3) = (r, (d', w'))"
                by (simp add: Gift_Send_def Let_def handle_def bind_def)
              have taken: "\<exists>wl dl wl'. clocks wl = clocks w \<and> budget dl = budget d'
                  \<and> allow (''live:limit:gift:user:'' @ FormatInt u) (gs_rate s) (gs_window s) (d, wl) = (Inr True, (dl, wl'))"
                if "gs_limiter s = Some allow" for allow
                using lim True that g1 g2 place_order_asks [OF po] by (intro exI [of _ w2] exI [of _ d3] exI [of _ w3]) simp
              show thesis using place_order_asks [OF po] g1 g2 g3 b row living ok False taken
                by (elim exE conjE) (rule asked, auto)
            qed
          qed
        qed
      qed
    qed
  qed
qed

end

section \<open>The service on the stores of the program\<close>

definition gift_live ::
  "unicode \<Rightarrow> (string \<Rightarrow> string) \<Rightarrow> (string \<times> string) list \<Rightarrow> RoomService \<Rightarrow> bool \<Rightarrow> int \<Rightarrow> int \<Rightarrow> int \<Rightarrow> string \<Rightarrow> live GiftService" where
  "gift_live U ck trace rs limited mx rate window topic = Gift_NewService
     \<lparr>gs_list = at_shop ListActive, gs_by_order = (\<lambda>no. at_shop (ByOrderNo ck no)),
      gs_by_request = (\<lambda>q. at_shop (ByRequestID ck q)), gs_create = (\<lambda>p. at_shop (Create U ck trace p)),
      gs_room = (\<lambda>i. at_site (Room_Get rs i)), gs_banned = (\<lambda>i u. at_site (Room_IsBanned i u)),
      gs_limiter = (if limited then Some (\<lambda>k n t. at_redis (Allow k n t)) else None),
      gs_max = mx, gs_rate = rate, gs_window = window, gs_topic = topic\<rparr>"

lemma gift_live_fields [simp]:
  "gs_by_request (gift_live U ck trace rs l m rate window topic) = (\<lambda>q. at_shop (ByRequestID ck q))"
  "gs_create (gift_live U ck trace rs l m rate window topic) = (\<lambda>p. at_shop (Create U ck trace p))"
  "gs_room (gift_live U ck trace rs l m rate window topic) = (\<lambda>i. at_site (Room_Get rs i))"
  "gs_banned (gift_live U ck trace rs l m rate window topic) = (\<lambda>i u. at_site (Room_IsBanned i u))"
  "gs_limiter (gift_live U ck trace rs l m rate window topic) = (if l then Some (\<lambda>k n t. at_redis (Allow k n t)) else None)"
  "gs_max (gift_live U ck trace rs l m rate window topic) = (if m \<le> 0 then 100 else m)"
  "gs_rate (gift_live U ck trace rs l m rate window topic) = (if rate \<le> 0 then 10 else rate)"
  "gs_window (gift_live U ck trace rs l m rate window topic) = (if window \<le> 0 then second else window)"
  "gs_topic (gift_live U ck trace rs l m rate window topic) = topic"
  by (simp_all add: gift_live_def Gift_NewService_def)

abbreviation live_rooms_of :: "live \<Rightarrow> room_db" where
  "live_rooms_of d \<equiv> room_data (lv_site d)"

lemma select_order_found:
  "select_order P db = Inr v \<Longrightarrow> \<exists>ro \<in> set (gift_orders db). P ro \<and> order_view db ro = Some v"
  by (fastforce simp: select_order_def List.map_filter_def filter_eq_Cons_iff split: list.splits)

lemma AllowN_clocks: "AllowN k l n t (db, w) = (r, (db', w')) \<Longrightarrow> clocks w' = clocks w"
  by (auto simp: AllowN_def bind_eq dest!: ext_D)

interpretation live_gifts: gift_ports U ck trace "gift_live U ck trace rs limited mx rate window topic" lv_shop
  "\<lambda>d. live_rooms_of d" lv_redis
proof unfold_locales
  show "d' = d \<and> clocks w' = clocks w \<and> (\<forall>v. r = Inr v \<longrightarrow> (\<exists>row. room_by_id i (live_rooms_of d) = Some row
      \<and> rm_status v = r_status row \<and> rm_anchor_id v = r_anchor_id row))"
    if "gs_room (gift_live U ck trace rs limited mx rate window topic) i (d, w) = (r, (d', w'))" for i d w r d' w'
    using that by (fastforce simp: at_eqs room_view_def dest!: Room_Get_D)
  show "d' = d \<and> clocks w' = clocks w \<and> (\<forall>v. b = Inr v \<longrightarrow> v = banned_in (live_rooms_of d) i u)"
    if "gs_banned (gift_live U ck trace rs limited mx rate window topic) i u (d, w) = (b, (d', w'))" for i u d w b d' w'
    using that by (auto simp: at_eqs Room_IsBanned_def on_rooms_eq Repo_IsBanned_def dest!: read_ext_D)
  show "lv_shop d' = lv_shop d \<and> live_rooms_of d' = live_rooms_of d \<and> clocks w' = clocks w"
    if "gs_limiter (gift_live U ck trace rs limited mx rate window topic) = Some allow"
      and "allow k n t (d, w) = (b, (d', w'))" for allow k n t d w b d' w'
    using that by (auto simp: at_eqs Allow_def dest!: AllowN_clocks split: if_splits)
  show "d' = d \<and> (\<forall>v. x = Inr v \<longrightarrow> (\<exists>ro \<in> set (gift_orders (lv_shop d)). ck (o_request_id ro) = ck q
      \<and> order_view (lv_shop d) ro = Some v))"
    if "gs_by_request (gift_live U ck trace rs limited mx rate window topic) q (d, w) = (x, (d', w'))" for q d w x d' w'
    using that by (fastforce simp: at_eqs ByRequestID_def dest!: read_ext_D select_order_found [OF sym])
  show "live_rooms_of d' = live_rooms_of d \<and> lv_redis d' = lv_redis d
      \<and> (\<exists>w1 w2. clocks w1 = clocks w \<and> Create U ck trace p (lv_shop d, w1) = (y, (lv_shop d', w2)))"
    if "gs_create (gift_live U ck trace rs limited mx rate window topic) p (d, w) = (y, (d', w'))" for p d w y d' w'
    using that by (auto simp: at_eqs)
qed

end
