(* ===== verification/Gift_Admission.thy ===== *)
theory Gift_Admission
  imports Gift_Service Redis_Limits
begin

text \<open>
  What the gift service guarantees: who may place an order, that a request is answered by one
  order only, and that a repeated request is answered although the room has closed since.
\<close>

section \<open>Replays in quiet runs\<close>

lemma replay_or_quiet:
  assumes "faults w = []" and "select_order (\<lambda>ro. ck (o_request_id ro) = ck q) (lv_shop d) = Inr v" and "sameRequest v i u g n"
  shows "replay_or (gift_live U ck trace rs l m rate window topic) i u g n q e (d, w)
    = (Inr \<lparr>sr_order = v, IdempotentReplay = True, EventQueued = False\<rparr>, (d, w))"
  using assms
  by (simp add: replay_or_def replay_def bind_def handle_def at_shop_def zoom_def ByRequestID_def read_ext_quiet ret_def)

lemma Repo_ByID_quiet:
  "faults w = [] \<Longrightarrow> Repo_ByID i (db, w) =
     ((case room_by_id i db of None \<Rightarrow> Inl (Sentinel Room_ErrNotFound) | Some r \<Rightarrow> Inr (room_view r)), (db, w))"
  by (simp add: Repo_ByID_def handle_def read_ext_quiet fail_def ret_def split: option.splits)

lemma nickname_quiet:
  assumes "faults w = []" and "has_users s"
  shows "\<exists>v. nickname s i (x, w) = (Inr v, (x, w))"
  using assms
  by (cases "find (\<lambda>u. u_id u = i) (users (identity_data x))")
    (auto simp: nickname_def on_users_def zoom_def Nickname_def Auth_ByID_def select_user_def handle_def read_ext_quiet
      fail_def ret_def)

lemma Room_Get_quiet:
  assumes "faults w = []"
  shows "\<exists>name. Room_Get s i (x, w) = ((case room_by_id i (room_data x) of None \<Rightarrow> Inl (Sentinel Room_ErrNotFound)
      | Some r \<Rightarrow> Inr ((room_view r)\<lparr>rm_anchor_nickname := name\<rparr>)), (x, w))"
proof (cases "room_by_id i (room_data x)")
  case None
  then show ?thesis
    by (simp add: Room_Get_def withAnchor_def bind_def on_rooms_def zoom_def Repo_ByID_quiet [OF assms])
next
  case (Some row)
  show ?thesis
  proof (cases "has_users s")
    case True
    obtain name b where "nickname s (rm_anchor_id (room_view row)) (x, w) = (Inr (name, b), (x, w))"
      using nickname_quiet [OF assms True, of "rm_anchor_id (room_view row)" x] by auto
    with Some True show ?thesis
      by (intro exI [of _ name])
        (simp add: Room_Get_def withAnchor_def bind_def on_rooms_def zoom_def Repo_ByID_quiet [OF assms] ret_def)
  next
    case False
    with Some show ?thesis
      by (intro exI [of _ "[]"])
        (simp add: Room_Get_def withAnchor_def bind_def on_rooms_def zoom_def Repo_ByID_quiet [OF assms] ret_def room_view_def)
  qed
qed

lemma Room_IsBanned_quiet:
  "faults w = [] \<Longrightarrow> Room_IsBanned i u (x, w) = (Inr (banned_in (room_data x) i u), (x, w))"
  by (simp add: Room_IsBanned_def on_rooms_def zoom_def Repo_IsBanned_def read_ext_quiet)

text \<open>A limiter key that is not set lets one call through.\<close>

lemma fresh_key_allowed:
  assumes "faults w = []" and "texts db key = None"
  shows "\<exists>db'. Allow key 10 second (db, w) = (Inr True, (db', w))"
proof -
  have "get_text (rd_ms w) key db = None" using assms(2) by (simp add: get_text_def)
  moreover obtain r db' where f: "fixedWindowScript key 10 (dur_millis second) 1 (rd_ms w) db = (r, db')" by fastforce
  moreover have "0 < dur_millis second" by (simp add: dur_millis_def go_quot_def)
  ultimately have "r = Inr 1" using script_new [of "rd_ms w" key db 10 1 "dur_millis second" r db'] by (simp add: small_def)
  with f assms(1) show ?thesis by (simp add: Allow_def AllowN_def bind_def ext_quiet ret_def)
qed

section \<open>Properties\<close>

text \<open>
  C16. Who may buy a gift. Whatever fails: if a request changed the shop, its count was between
  one and the configured maximum, its identifier well formed, the room living and the sender
  not banned; the limiter, when there is one, allowed the request, on the sender's own key and
  with the configured rate and window, and its counters are as that call left them; and the change
  is one complete order of that sender for that room, gift and count, in favour of the room's
  anchor. An answer that reports a new order comes with that change; every other answer is flagged
  as a replay and comes with none.
\<close>

theorem gift_send_admission:
  assumes "ledger_ok (lv_shop d)"
    and "Gift_Send U (gift_live U ck trace rs limited mx rate window topic) i u g n q (d, w) = (r, (d', w'))"
  shows "(lv_shop d' = lv_shop d \<and> (\<forall>v. r = Inr v \<longrightarrow> IdempotentReplay v \<and> \<not> EventQueued v))
    \<or> (1 \<le> n \<and> n \<le> (if mx \<le> 0 then 100 else mx) \<and> validRequestID U (TrimSpace q)
        \<and> \<not> banned_in (live_rooms_of d) i u
        \<and> (limited \<longrightarrow> (\<exists>wl wl'. clocks wl = clocks w
             \<and> Allow (''live:limit:gift:user:'' @ FormatInt u) (if rate \<le> 0 then 10 else rate) (if window \<le> 0 then second else window)
                 (lv_redis d, wl) = (Inr True, (lv_redis d', wl'))))
        \<and> (\<exists>row p gft payload. room_by_id i (live_rooms_of d) = Some row \<and> r_status row = StatusLiving
             \<and> p_RequestID p = TrimSpace q \<and> p_UserID p = u \<and> p_RoomID p = i \<and> p_GiftID p = g \<and> p_Count p = n
             \<and> p_AnchorID p = r_anchor_id row
             \<and> orderable ck p gft (lv_shop d)
             \<and> lv_shop d' = order_placed p gft (gift_price gft * n) payload (NOW3 w) (lv_shop d)
             \<and> (\<forall>v. r = Inr v \<longrightarrow> v = \<lparr>sr_order = placed_view p gft (NOW3 w), IdempotentReplay = False, EventQueued = True\<rparr>)))"
  using assms(2)
proof (cases rule: live_gifts.Send_cases)
  case (asked row p y w1 w2)
  have t: "NOW3 w1 = NOW3 w" using clocksD [OF asked(8)] by simp
  have "\<exists>wl wl'. clocks wl = clocks w
      \<and> Allow (''live:limit:gift:user:'' @ FormatInt u) (if rate \<le> 0 then 10 else rate) (if window \<le> 0 then second else window)
          (lv_redis d, wl) = (Inr True, (lv_redis d', wl'))" if limited
    using asked(17) that by (force simp: at_eqs)
  note allowed = this
  show ?thesis
    using asked(15) ledger_ok_balance(2) [OF assms(1), of "p_UserID p"]
  proof (cases rule: Create_cases)
    case unchanged
    then have "\<forall>v b. y = Inr (v, b) \<longrightarrow> b" by blast
    with unchanged(1) asked(16) show ?thesis by (auto split: sum.splits)
  next
    case (placed gft payload)
    then have "\<forall>v. r = Inr v \<longrightarrow> v = \<lparr>sr_order = placed_view p gft (NOW3 w), IdempotentReplay = False, EventQueued = True\<rparr>"
      using asked(16) t by (auto split: sum.splits)
    moreover have "lv_shop d' = order_placed p gft (gift_price gft * n) payload (NOW3 w) (lv_shop d)"
      using placed(3) t asked(13) by simp
    moreover have "n \<le> (if mx \<le> 0 then 100 else mx)" using asked(2) by simp
    ultimately show ?thesis using placed(1) asked(1,3-6,9-14) allowed by blast
  qed
qed auto

text \<open>A room that has closed after user 7 bought a gift in it.\<close>

definition closed_room :: room_row where
  "closed_room = \<lparr>r_id = 5, r_anchor_id = 3, r_title = ''t'', r_status = StatusClosed, r_started_at = Some 0,
     r_ended_at = Some 0, r_created_at = 0, r_updated_at = 0\<rparr>"

definition sold_world :: "string \<Rightarrow> live" where
  "sold_world st = \<lparr>lv_site = \<lparr>room_data = \<lparr>live_rooms = [closed_room\<lparr>r_status := st\<rparr>], live_sessions = [], room_mutes = [], room_bans = []\<rparr>,
       identity_data = \<lparr>users = []\<rparr>\<rparr>,
     lv_shop = sample_shop_sold, lv_redis = \<lparr>texts = (\<lambda>_. None), zsets = (\<lambda>_. None)\<rparr>, lv_http = [], lv_kafka = []\<rparr>"

abbreviation sample_gifts :: "live GiftService" where
  "sample_gifts \<equiv> gift_live ascii_only id [] (Room_NewService True) True 0 0 0 ''gift''"

text \<open>A second gift of the same sender in the room while it is living.\<close>

definition later :: io where
  "later = quiet_world\<lparr>go_now := 7\<rparr>"

definition next_request :: CreateParams where
  "next_request = sample_request\<lparr>p_OrderNo := ''G7'', p_RequestID := ''req-0002'', p_TransactionNo := ''WT7'', p_EventID := ''7''\<rparr>"

lemma next_order:
  "\<exists>raw w. Create ascii_only id [] next_request (sample_shop_sold, later) =
     (Inr (placed_view next_request sample_gift 0, False), (order_placed next_request sample_gift 200 raw 0 sample_shop_sold, w))"
proof -
  have q: "faults later = []" by (simp add: later_def quiet_world_def)
  have t: "utf8_ok (messageID ''G7'') \<and> utf8_ok ''G7''"
    by (simp add: utf8_ok_def rune_segs_ascii byte_def rune_error_def messageID_def TrimSpace_def is_space_def Let_def)
  have "event_encodable next_request sample_gift later"
    using sample_encodable t
    by (simp add: event_encodable_def gift_payload_def next_request_def sample_request_def sample_gift_def
        year_of_time_def later_def quiet_world_def year_of_day_def epoch_day_def days_before_year_def)
  from event_encodable_marshal [OF this, of "[]"] obtain raw where
    m: "marshal_envelope (gift_envelope [] next_request sample_gift (gift_price sample_gift * p_Count next_request) (go_now later)) = Inr raw"
    by blast
  have ids: "fresh_ids id next_request sample_shop_sold"
    by (simp add: fresh_ids_def gift_event_def next_request_def sample_request_def sample_shop_sold_def sample_shop_def
        credit_tx_def gift_tx_def success_order_def pending_order_def)
  have o: "orderable id next_request sample_gift sample_shop_sold"
    by (simp add: orderable_def gift_event_def next_request_def sample_request_def sample_shop_sold_def sample_shop_def
        credit_tx_def gift_by_id_def sample_gift_def max_int64_def success_order_def pending_order_def balance_of_def
        order_placed_def charged_def posting_def gift_tx_def)
  from accepted_order [OF q sample_shop_sold_ok ids o m, of ascii_only] show ?thesis
    by (auto simp: sample_gift_def next_request_def sample_request_def later_def quiet_world_def NOW3_def)
qed

theorem gift_send_admission_witness:
  "\<exists>r d' w'. Gift_Send ascii_only sample_gifts 5 7 1 2 ''req-0002'' (sold_world StatusLiving, later) = (r, (d', w'))
     \<and> length (gift_orders (lv_shop d')) = 2
     \<and> (\<exists>wl wl'. Allow ''live:limit:gift:user:7'' 10 second (lv_redis (sold_world StatusLiving), wl) = (Inr True, (lv_redis d', wl')))"
proof -
  let ?d = "sold_world StatusLiving"
  have q: "faults later = []" by (simp add: later_def quiet_world_def)
  have t: "TrimSpace ''req-0002'' = ''req-0002''"
    by (simp add: TrimSpace_def rune_segs_ascii byte_def is_space_def)
  have v: "validRequestID ascii_only ''req-0002''"
    by (simp add: validRequestID_def runes_def rune_segs_ascii byte_def is_letter_def is_digit_def)
  have row: "room_by_id 5 (live_rooms_of ?d) = Some (closed_room\<lparr>r_status := StatusLiving\<rparr>)"
    by (simp add: sold_world_def room_by_id_def closed_room_def)
  obtain name where get: "Room_Get (Room_NewService True) 5 (lv_site ?d, later)
      = (Inr ((room_view (closed_room\<lparr>r_status := StatusLiving\<rparr>))\<lparr>rm_anchor_nickname := name\<rparr>), (lv_site ?d, later))"
    using Room_Get_quiet [OF q, of "Room_NewService True" 5 "lv_site ?d"] row by auto
  have ban: "Room_IsBanned 5 7 (lv_site ?d, later) = (Inr False, (lv_site ?d, later))"
    using Room_IsBanned_quiet [OF q, of 5 7 "lv_site ?d"] by (simp add: sold_world_def banned_in_def)
  obtain db where allow: "Allow ''live:limit:gift:user:7'' 10 second (lv_redis ?d, later) = (Inr True, (db, later))"
    using fresh_key_allowed [of later "lv_redis ?d" "''live:limit:gift:user:7''"] q
    by (auto simp: sold_world_def)
  obtain raw w where create: "Create ascii_only id [] next_request (sample_shop_sold, later) =
     (Inr (placed_view next_request sample_gift 0, False), (order_placed next_request sample_gift 200 raw 0 sample_shop_sold, w))"
    using next_order by blast
  obtain d' where g: "Gift_Send ascii_only sample_gifts 5 7 1 2 ''req-0002'' (?d, later) =
      (Inr \<lparr>sr_order = placed_view next_request sample_gift 0, IdempotentReplay = False, EventQueued = True\<rparr>, (d', w))"
    and shop: "lv_shop d' = order_placed next_request sample_gift 200 raw 0 sample_shop_sold"
  proof -
    have key: "FormatInt 7 = ''7''" by (simp add: FormatInt_def nat_digits.simps digit_char_def char_of_def bit_iff_odd)
    have e: "entropy later = []" "FormatInt (go_now later) = ''7''" by (simp_all add: later_def quiet_world_def FormatInt_def nat_digits.simps digit_char_def char_of_def bit_iff_odd)
    have r: "\<lparr>p_OrderNo = ''G7'', p_RequestID = ''req-0002'', p_TransactionNo = ''WT7'', p_EventID = ''7'', p_GiftTopic = ''gift'',
        p_UserID = 7, p_AnchorID = 3, p_RoomID = 5, p_GiftID = 1, p_Count = 2\<rparr> = next_request"
      by (simp add: next_request_def sample_request_def)
    have shop: "lv_shop ?d = sample_shop_sold" by (simp add: sold_world_def)
    show thesis
      by (rule that [of "?d\<lparr>lv_redis := db, lv_shop := order_placed next_request sample_gift 200 raw 0 sample_shop_sold\<rparr>"])
        (simp_all add: Gift_Send_def Let_def handle_def bind_def at_site_def at_redis_def get ban key allow
          place_order_def idgen_New_def e r at_shop_def zoom_def shop create t v room_view_def closed_room_def
          ret_def)
  qed
  have "ledger_ok (lv_shop ?d)" by (simp add: sold_world_def sample_shop_sold_ok)
  from gift_send_admission [OF this g] shop have "\<exists>wl wl'. Allow (''live:limit:gift:user:'' @ FormatInt 7) 10 second (lv_redis ?d, wl) = (Inr True, (lv_redis d', wl'))"
    by (auto simp: sold_world_def)
  moreover have "length (gift_orders (lv_shop d')) = 2" by (simp add: shop sample_shop_sold_def sample_shop_def)
  ultimately show ?thesis using g by (auto simp: FormatInt_def nat_digits.simps digit_char_def char_of_def bit_iff_odd)
qed

text \<open>
  C17. One request, one charge, at the service. Once an order with a request's identifier
  exists, sending the request again, to any room, by any user and whatever fails, leaves the
  shop as it is; the only order it can be answered with is that one, flagged as a replay, and
  only when sender, room, gift and count agree.
\<close>

theorem gift_send_once:
  assumes "ledger_ok (lv_shop d)" and "ro \<in> set (gift_orders (lv_shop d))" and "ck (o_request_id ro) = ck (TrimSpace q)"
    and "Gift_Send U (gift_live U ck trace rs limited mx rate window topic) i u g n q (d, w) = (r, (d', w'))"
  shows "lv_shop d' = lv_shop d
    \<and> (\<forall>v. r = Inr v \<longrightarrow> IdempotentReplay v \<and> \<not> EventQueued v \<and> sameRequest (sr_order v) i u g n
         \<and> (\<exists>ro' \<in> set (gift_orders (lv_shop d)). ck (o_request_id ro') = ck (TrimSpace q)
              \<and> order_view (lv_shop d) ro' = Some (sr_order v)))"
  using assms(4)
proof (cases rule: live_gifts.Send_cases)
  case (asked row p y w1 w2)
  show ?thesis
    using asked(15) ledger_ok_balance(2) [OF assms(1), of "p_UserID p"]
  proof (cases rule: Create_cases)
    case unchanged
    with asked(9-16) show ?thesis by (fastforce simp: sameRequest_def split: sum.splits)
  next
    case (placed gft payload)
    with assms(2,3) asked(9) show ?thesis by (auto simp: orderable_def)
  qed
qed auto

theorem gift_send_once_witness:
  "lv_shop (fst (snd (Gift_Send ascii_only sample_gifts 5 7 1 2 ''req-0001'' (sold_world StatusLiving, quiet_world))))
     = sample_shop_sold"
proof -
  obtain r d' w' where g: "Gift_Send ascii_only sample_gifts 5 7 1 2 ''req-0001'' (sold_world StatusLiving, quiet_world) = (r, (d', w'))"
    by (metis prod.collapse)
  have "ledger_ok (lv_shop (sold_world StatusLiving))" by (simp add: sold_world_def sample_shop_sold_ok)
  moreover have "success_order sample_request sample_gift 200 0 \<in> set (gift_orders (lv_shop (sold_world StatusLiving)))"
    by (simp add: sold_world_def sample_shop_sold_def)
  moreover have "id (o_request_id (success_order sample_request sample_gift 200 0)) = id (TrimSpace ''req-0001'')"
    by (simp add: success_order_def pending_order_def sample_request_def TrimSpace_def rune_segs_ascii byte_def is_space_def)
  ultimately show ?thesis using gift_send_once [OF _ _ _ g] g by (simp add: sold_world_def)
qed

text \<open>
  A retry is answered after the room has closed. When every call completes and an order for
  the same request exists, then unless the room is living, the sender not banned and the
  limiter allows the call, the service answers with that order as a replay: a closed room, a
  ban or the rate limit do not hide the outcome of an earlier request.
\<close>

theorem gift_send_replays:
  assumes "faults w = []" and "1 \<le> n" and "n \<le> (if mx \<le> 0 then 100 else mx)" and "validRequestID U (TrimSpace q)"
    and "select_order (\<lambda>ro. ck (o_request_id ro) = ck (TrimSpace q)) (lv_shop d) = Inr v" and "sameRequest v i u g n"
    and "(\<forall>row. room_by_id i (live_rooms_of d) = Some row \<longrightarrow> r_status row \<noteq> StatusLiving) \<or> banned_in (live_rooms_of d) i u"
  shows "Gift_Send U (gift_live U ck trace rs limited mx rate window topic) i u g n q (d, w)
    = (Inr \<lparr>sr_order = v, IdempotentReplay = True, EventQueued = False\<rparr>, (d, w))"
proof -
  obtain name where get: "Room_Get rs i (lv_site d, w) = ((case room_by_id i (live_rooms_of d) of
      None \<Rightarrow> Inl (Sentinel Room_ErrNotFound) | Some r \<Rightarrow> Inr ((room_view r)\<lparr>rm_anchor_nickname := name\<rparr>)), (lv_site d, w))"
    using Room_Get_quiet [OF assms(1)] by blast
  note ro = replay_or_quiet [OF assms(1,5,6)]
  show ?thesis
    using assms(2-4,7)
    by (auto simp: Gift_Send_def Let_def handle_def bind_def at_site_def zoom_def get ro Room_IsBanned_quiet [OF assms(1)]
        room_view_def split: option.splits)
qed

theorem gift_send_replays_witness:
  "fst (Gift_Send ascii_only sample_gifts 5 7 1 2 ''req-0001'' (sold_world StatusClosed, quiet_world))
     = Inr \<lparr>sr_order = placed_view sample_request sample_gift 0, IdempotentReplay = True, EventQueued = False\<rparr>"
proof -
  have t: "TrimSpace ''req-0001'' = ''req-0001''"
    by (simp add: TrimSpace_def rune_segs_ascii byte_def is_space_def)
  have "validRequestID ascii_only ''req-0001''"
    by (simp add: validRequestID_def runes_def rune_segs_ascii byte_def is_letter_def is_digit_def)
  moreover have "select_order (\<lambda>ro. id (o_request_id ro) = id ''req-0001'') sample_shop_sold
      = Inr (placed_view sample_request sample_gift 0)"
    by (simp add: select_order_def sample_shop_sold_def order_placed_def charged_def posting_def success_order_def pending_order_def
        sample_request_def sample_shop_def credit_tx_def map_filter_simps order_view_def gift_by_id_def sample_gift_def placed_view_def)
  moreover have "sameRequest (placed_view sample_request sample_gift 0) 5 7 1 2"
    by (simp add: sameRequest_def placed_view_def sample_request_def sample_gift_def success_order_def pending_order_def)
  ultimately have "Gift_Send ascii_only sample_gifts 5 7 1 2 ''req-0001'' (sold_world StatusClosed, quiet_world)
      = (Inr \<lparr>sr_order = placed_view sample_request sample_gift 0, IdempotentReplay = True, EventQueued = False\<rparr>,
         (sold_world StatusClosed, quiet_world))"
    by (intro gift_send_replays) (simp_all add: t quiet_world_def sold_world_def room_by_id_def closed_room_def status_defs)
  then show ?thesis by simp
qed

end
