(* ===== verification/Like.thy ===== *)
theory Like
  imports Platform Room_Lifecycle
begin

text \<open>
  \<^verbatim>\<open>internal/like/service.go\<close>: likes are checked against the room's status and the user's ban,
  both cached in Redis, limited if the store can limit, and added to the room's counters.
\<close>

section \<open>The service\<close>

record 'd EligibilityCache =
  lc_room_status :: "int \<Rightarrow> ('d, string option) prog"
  lc_set_room_status :: "int \<Rightarrow> string \<Rightarrow> int \<Rightarrow> ('d, unit) prog"
  lc_ban :: "int \<Rightarrow> int \<Rightarrow> ('d, bool option) prog"
  lc_set_ban :: "int \<Rightarrow> int \<Rightarrow> bool \<Rightarrow> int \<Rightarrow> ('d, unit) prog"

text \<open>A store, and which of the optional interfaces its type has.\<close>

record 'd LikeStore =
  lk_add :: "int \<Rightarrow> int \<Rightarrow> ('d, int) prog"
  lk_limiter :: "(string \<Rightarrow> int \<Rightarrow> int \<Rightarrow> int \<Rightarrow> ('d, bool) prog) option"
  lk_cache :: "'d EligibilityCache option"

record LikeConfig =
  lcfg_rate :: int
  lcfg_window :: int
  lcfg_room_ttl :: int
  lcfg_ban_ttl :: int

record 'd LikeService =
  ls_room :: "int \<Rightarrow> ('d, Room) prog"
  ls_banned :: "int \<Rightarrow> int \<Rightarrow> ('d, bool) prog"
  ls_store :: "int \<Rightarrow> int \<Rightarrow> ('d, int) prog"
  ls_limiter :: "(string \<Rightarrow> int \<Rightarrow> int \<Rightarrow> int \<Rightarrow> ('d, bool) prog) option"
  ls_cache :: "'d EligibilityCache option"
  ls_config :: LikeConfig

definition Like_NewService ::
  "(int \<Rightarrow> ('d, Room) prog) \<Rightarrow> (int \<Rightarrow> int \<Rightarrow> ('d, bool) prog) \<Rightarrow> 'd LikeStore \<Rightarrow> LikeConfig \<Rightarrow> 'd LikeService" where
  "Like_NewService get banned store cfg =
     \<lparr>ls_room = get, ls_banned = banned, ls_store = lk_add store, ls_limiter = lk_limiter store,
      ls_cache = lk_cache store, ls_config = cfg\<rparr>"

record LikeResult =
  lr_accepted :: int
  lr_total :: int

definition roomStatus :: "'d LikeService \<Rightarrow> int \<Rightarrow> ('d, string) prog" where
  "roomStatus s roomID =
     bind (case ls_cache s of None \<Rightarrow> ret None | Some c \<Rightarrow> lc_room_status c roomID) (\<lambda>hit.
     case hit of
       Some raw \<Rightarrow> ret raw
     | None \<Rightarrow>
         bind (ls_room s roomID) (\<lambda>v.
         bind (case ls_cache s of
                 None \<Rightarrow> ret ()
               | Some c \<Rightarrow> if lcfg_room_ttl (ls_config s) > 0
                   then ignore (lc_set_room_status c roomID (rm_status v) (lcfg_room_ttl (ls_config s))) else ret ())
           (\<lambda>_. ret (rm_status v))))"

definition isBanned :: "'d LikeService \<Rightarrow> int \<Rightarrow> int \<Rightarrow> ('d, bool) prog" where
  "isBanned s roomID userID =
     bind (case ls_cache s of None \<Rightarrow> ret None | Some c \<Rightarrow> lc_ban c roomID userID) (\<lambda>hit.
     case hit of
       Some b \<Rightarrow> ret b
     | None \<Rightarrow>
         bind (ls_banned s roomID userID) (\<lambda>b.
         bind (case ls_cache s of
                 None \<Rightarrow> ret ()
               | Some c \<Rightarrow> if lcfg_ban_ttl (ls_config s) > 0
                   then ignore (lc_set_ban c roomID userID b (lcfg_ban_ttl (ls_config s))) else ret ())
           (\<lambda>_. ret b)))"

definition Like_Add :: "'d LikeService \<Rightarrow> int \<Rightarrow> int \<Rightarrow> int \<Rightarrow> ('d, LikeResult) prog" where
  "Like_Add s roomID userID count =
     (if count < 1 \<or> count > 100 then fail (Sentinel Like_ErrInvalidCount)
      else bind (roomStatus s roomID) (\<lambda>status.
        if status \<noteq> StatusLiving then fail (Sentinel Room_ErrNotLiving)
        else bind (isBanned s roomID userID) (\<lambda>banned.
          if banned then fail (Sentinel Room_ErrBanned)
          else bind (case ls_limiter s of
                       None \<Rightarrow> ret True
                     | Some allowN \<Rightarrow> if lcfg_rate (ls_config s) > 0
                         then allowN (''live:room:{'' @ FormatInt roomID @ ''}:like:rate:'' @ FormatInt userID)
                                (lcfg_rate (ls_config s)) count (lcfg_window (ls_config s))
                         else ret True) (\<lambda>allowed.
            if \<not> allowed then fail (Sentinel Like_ErrRateLimited)
            else bind (ls_store s roomID count) (\<lambda>tot.
              ret \<lparr>lr_accepted = count, lr_total = tot\<rparr>)))))"

section \<open>The service on Redis\<close>

text \<open>
  \<^verbatim>\<open>redisstore.Store\<close> has the methods of the cache; \<^verbatim>\<open>AllowN\<close> belongs to another type, so the
  store is no limiter.
\<close>

definition redis_like_store :: "int \<Rightarrow> live LikeStore" where
  "redis_like_store shards =
     \<lparr>lk_add = (\<lambda>i n. at_redis (AddLikes shards i n)),
      lk_limiter = None,
      lk_cache = Some \<lparr>lc_room_status = (\<lambda>i. at_redis (CachedLikeRoomStatus i)),
        lc_set_room_status = (\<lambda>i s ttl. at_redis (CacheLikeRoomStatus i s ttl)),
        lc_ban = (\<lambda>i u. at_redis (CachedLikeBan i u)),
        lc_set_ban = (\<lambda>i u b ttl. at_redis (CacheLikeBan i u b ttl))\<rparr>\<rparr>"

definition like_live :: "RoomService \<Rightarrow> int \<Rightarrow> LikeConfig \<Rightarrow> live LikeService" where
  "like_live rs shards cfg = Like_NewService (\<lambda>i. at_site (Room_Get rs i)) (\<lambda>i u. at_site (Room_IsBanned i u))
     (redis_like_store shards) cfg"

lemma like_live_fields [simp]:
  "ls_room (like_live rs shards cfg) = (\<lambda>i. at_site (Room_Get rs i))"
  "ls_banned (like_live rs shards cfg) = (\<lambda>i u. at_site (Room_IsBanned i u))"
  "ls_store (like_live rs shards cfg) = (\<lambda>i n. at_redis (AddLikes shards i n))"
  "ls_limiter (like_live rs shards cfg) = None"
  "ls_cache (like_live rs shards cfg) = lk_cache (redis_like_store shards)"
  "ls_config (like_live rs shards cfg) = cfg"
  by (simp_all add: like_live_def Like_NewService_def redis_like_store_def)

end
