(* ===== verification/Redis_Counters.thy ===== *)
theory Redis_Counters
  imports Redis_Store
begin

text \<open>
  Counters in Redis: which keys differ, and what the commands on like counters do to them.
\<close>

section \<open>Decimal texts\<close>

lemma nat_digits_not_Nil: "nat_digits n \<noteq> []"
  using nat_digits_Cons [of n] by auto

lemma FormatInt_not_Nil [simp]: "FormatInt v \<noteq> []"
  by (simp add: FormatInt_def nat_digits_not_Nil)

lemma FormatInt_inj: "FormatInt x = FormatInt y \<longleftrightarrow> x = y"
proof
  assume eq: "FormatInt x = FormatInt y"
  have pos: "hd (nat_digits n) \<noteq> CHR ''-''" for n
  proof -
    obtain d cs where "nat_digits n = digit_char d # cs" "d < 10" using nat_digits_Cons by blast
    with digit_char_not_sign [of d] show ?thesis by simp
  qed
  have v: "nat_digits m = nat_digits n \<Longrightarrow> m = n" for m n
    by (metis digits_value_nat_digits option.inject)
  show "x = y"
  proof (cases "x < 0")
    case True
    have "y < 0"
    proof (rule ccontr)
      assume "\<not> y < 0"
      with True eq have "CHR ''-'' # nat_digits (nat (- x)) = nat_digits (nat y)" by (simp add: FormatInt_def)
      from arg_cong [OF this, of hd] pos [of "nat y"] show False by simp
    qed
    with True eq v [of "nat (- x)" "nat (- y)"] show ?thesis by (simp add: FormatInt_def)
  next
    case False
    have "\<not> y < 0"
    proof
      assume "y < 0"
      with False eq have "nat_digits (nat x) = CHR ''-'' # nat_digits (nat (- y))" by (simp add: FormatInt_def)
      from arg_cong [OF this, of hd] pos [of "nat x"] show False by simp
    qed
    with False eq v [of "nat x" "nat y"] show ?thesis by (simp add: FormatInt_def)
  qed
qed simp

lemma nat_digits_range: "c \<in> set (nat_digits n) \<Longrightarrow> \<exists>d < 10. c = digit_char d"
proof (induction n rule: nat_digits.induct)
  case (1 n)
  show ?case
  proof (cases "n < 10")
    case True
    with 1(2) show ?thesis by (auto simp: nat_digits.simps)
  next
    case False
    with 1(2) have "c \<in> set (nat_digits (n div 10)) \<or> c = digit_char (n mod 10)"
      by (auto simp: nat_digits.simps [of n])
    with 1(1) [OF False] show ?thesis by (auto intro: exI [of _ "n mod 10"])
  qed
qed

lemma brace_not_in_FormatInt: "CHR ''}'' \<notin> set (FormatInt v)"
proof
  assume "CHR ''}'' \<in> set (FormatInt v)"
  then have "CHR ''}'' \<in> set (nat_digits (nat (- v))) \<or> CHR ''}'' \<in> set (nat_digits (nat v))"
    by (auto simp: FormatInt_def split: if_splits)
  then obtain d where "d < 10" and eq: "CHR ''}'' = digit_char d" using nat_digits_range by blast
  then have "(of_char (CHR ''}'') :: nat) = 48 + d" using digit_char_value by (simp only:)
  with \<open>d < 10\<close> show False by simp
qed

lemma tag_cut:
  assumes "FormatInt i @ CHR ''}'' # x = FormatInt j @ CHR ''}'' # y"
  shows "i = j \<and> x = y"
proof -
  have t: "takeWhile (\<lambda>c. c \<noteq> CHR ''}'') (FormatInt v @ CHR ''}'' # z) = FormatInt v" for v z
    using brace_not_in_FormatInt [of v] by (subst takeWhile_append2) auto
  from arg_cong [OF assms, of "takeWhile (\<lambda>c. c \<noteq> CHR ''}'')"] have "i = j"
    unfolding t FormatInt_inj .
  with assms show ?thesis by simp
qed

section \<open>Which keys differ\<close>

lemmas like_keys = roomLikeTotalKey_def roomLikeDeltaKey_def likeRoomStatusKey_def likeBanKey_def roomTag_def
  roomLastViewerKey_def

lemma like_key_eqs [simp]:
  "roomLikeTotalKey i = roomLikeTotalKey j \<longleftrightarrow> i = j"
  "roomLikeDeltaKey i = roomLikeDeltaKey j \<longleftrightarrow> i = j"
  "likeRoomStatusKey i = likeRoomStatusKey j \<longleftrightarrow> i = j"
  "likeBanKey i u = likeBanKey j v \<longleftrightarrow> i = j \<and> u = v"
  "roomLastViewerKey i = roomLastViewerKey j \<longleftrightarrow> i = j"
  by (auto simp: like_keys FormatInt_inj dest!: tag_cut)

lemma like_keys_differ [simp]:
  "roomLikeTotalKey i \<noteq> roomLikeDeltaKey j" "roomLikeDeltaKey j \<noteq> roomLikeTotalKey i"
  "roomLikeTotalKey i \<noteq> likeRoomStatusKey j" "likeRoomStatusKey j \<noteq> roomLikeTotalKey i"
  "roomLikeTotalKey i \<noteq> likeBanKey j u" "likeBanKey j u \<noteq> roomLikeTotalKey i"
  "roomLikeDeltaKey i \<noteq> likeRoomStatusKey j" "likeRoomStatusKey j \<noteq> roomLikeDeltaKey i"
  "roomLikeDeltaKey i \<noteq> likeBanKey j u" "likeBanKey j u \<noteq> roomLikeDeltaKey i"
  "likeRoomStatusKey i \<noteq> likeBanKey j u" "likeBanKey j u \<noteq> likeRoomStatusKey i"
  "roomLastViewerKey i \<noteq> roomLikeTotalKey j" "roomLastViewerKey i \<noteq> roomLikeDeltaKey j"
  "roomLikeTotalKey j \<noteq> roomLastViewerKey i" "roomLikeDeltaKey j \<noteq> roomLastViewerKey i"
  by (auto simp: like_keys dest!: tag_cut)

section \<open>Counters\<close>

text \<open>A counter holds a 64-bit integer and never expires.\<close>

definition counter_ok :: "redis_db \<Rightarrow> string \<Rightarrow> bool" where
  "counter_ok db k \<longleftrightarrow> (case texts db k of None \<Rightarrow> True | Some x \<Rightarrow> \<exists>v. x = \<lparr>rt_text = FormatInt v, rt_expires = None\<rparr> \<and> is_i64 v)"

definition counter :: "redis_db \<Rightarrow> string \<Rightarrow> int" where
  "counter db k = (case texts db k of None \<Rightarrow> 0 | Some x \<Rightarrow> the (ParseInt (rt_text x)))"

lemma int_key_counter:
  "counter_ok db k \<Longrightarrow> int_key t k db = Inr (if texts db k = None then None else Some (counter db k))"
  by (auto simp: counter_ok_def counter_def int_key_def get_text_def alive_def ParseInt_FormatInt split: option.splits)

lemma counter_ok_i64: "counter_ok db k \<Longrightarrow> is_i64 (counter db k)"
  by (auto simp: counter_ok_def counter_def ParseInt_FormatInt is_i64_def split: option.splits)

lemma get_text_counter:
  assumes "counter_ok db k"
  shows "get_text t k db = (if texts db k = None then None else Some (FormatInt (counter db k)))"
    and "text_expiry t k db = None" and "texts db k = None \<Longrightarrow> counter db k = 0"
  using assms
  by (auto simp: counter_ok_def counter_def get_text_def text_expiry_def alive_def ParseInt_FormatInt split: option.splits)

lemma incr_by_counter:
  assumes "counter_ok db k"
  shows "incr_by t k n db =
    (if \<not> is_i64 n then (Inl not_integer, db)
     else if \<not> is_i64 (counter db k + n) then (Inl (Plain ''ERR increment or decrement would overflow''), db)
     else (Inr (counter db k + n), set_text k (FormatInt (counter db k + n)) None db))"
  using get_text_counter(1,2) [OF assms, of t] get_text_counter(3) [OF assms] counter_ok_i64 [OF assms]
  by (auto simp: incr_by_def ParseInt_FormatInt)

lemma counter_set [simp]:
  "is_i64 v \<Longrightarrow> counter (set_text k (FormatInt v) e db) k' = (if k' = k then v else counter db k')"
  "is_i64 v \<Longrightarrow> counter_ok (set_text k (FormatInt v) None db) k' \<longleftrightarrow> k' = k \<or> counter_ok db k'"
  by (auto simp: counter_def counter_ok_def set_text_def ParseInt_FormatInt)

lemma counter_set_other [simp]:
  "k' \<noteq> k \<Longrightarrow> counter (set_text k x e db) k' = counter db k'"
  "k' \<noteq> k \<Longrightarrow> counter_ok (set_text k x e db) k' = counter_ok db k'"
  "k' \<noteq> k \<Longrightarrow> counter (del_text k db) k' = counter db k'"
  "k' \<noteq> k \<Longrightarrow> counter_ok (del_text k db) k' = counter_ok db k'"
  by (simp_all add: counter_def counter_ok_def set_text_def del_text_def)

lemma counter_del [simp]: "counter (del_text k db) k = 0" "counter_ok (del_text k db) k"
  by (simp_all add: counter_def counter_ok_def del_text_def)

text \<open>Commands on sorted sets leave texts alone.\<close>

lemma texts_zset [simp]:
  "texts (zput t k items db) = texts db" "texts (zadd t k s m db) = texts db" "texts (zadd_nx t k s m db) = texts db"
  "texts (zrem t k m db) = texts db" "texts (zrem_upto t k hi db) = texts db" "texts (pexpire_zset t k d db) = texts db"
  by (simp_all add: zput_def zadd_def zadd_nx_def zrem_def zrem_upto_def pexpire_zset_def)

lemma counter_texts: "texts db = texts db' \<Longrightarrow> counter db k = counter db' k \<and> counter_ok db k = counter_ok db' k"
  by (simp add: counter_def counter_ok_def)

lemma counter_zadd [simp]:
  "counter (zadd t k s m db) k' = counter db k'" "counter_ok (zadd t k s m db) k' = counter_ok db k'"
  by (simp_all add: counter_def counter_ok_def)

definition likes_ok :: "redis_db \<Rightarrow> bool" where
  "likes_ok db \<longleftrightarrow> (\<forall>i. counter_ok db (roomLikeTotalKey i) \<and> counter_ok db (roomLikeDeltaKey i))"

definition like_total :: "redis_db \<Rightarrow> int \<Rightarrow> int" where
  "like_total db i = counter db (roomLikeTotalKey i)"

definition like_delta :: "redis_db \<Rightarrow> int \<Rightarrow> int" where
  "like_delta db i = counter db (roomLikeDeltaKey i)"

lemma likes_texts: "texts db = texts db' \<Longrightarrow> likes_ok db = likes_ok db' \<and> like_total db = like_total db' \<and> like_delta db = like_delta db'"
  by (simp add: likes_ok_def like_total_def like_delta_def fun_eq_iff counter_def counter_ok_def)

lemma likes_zset [simp]:
  "likes_ok (zadd t k s m db) = likes_ok db" "like_total (zadd t k s m db) = like_total db" "like_delta (zadd t k s m db) = like_delta db"
  "likes_ok (zrem_upto t k hi db) = likes_ok db" "like_total (zrem_upto t k hi db) = like_total db"
  "like_delta (zrem_upto t k hi db) = like_delta db"
  by (simp_all add: likes_ok_def like_total_def like_delta_def fun_eq_iff counter_def counter_ok_def)

lemma index_room_D:
  "index_room shards i (db, w) = (r, (db', w')) \<Longrightarrow> texts db' = texts db \<and> clocks w' = clocks w \<and> (\<forall>e. r = Inl e \<longrightarrow> (\<exists>m. e = Plain m))"
  by (auto simp: index_room_def bind_eq now_def dest!: ext_D)

text \<open>One room's counter went up by \<open>n\<close>, or nothing changed.\<close>

definition counted :: "int \<Rightarrow> int \<Rightarrow> (int \<Rightarrow> int) \<Rightarrow> (int \<Rightarrow> int) \<Rightarrow> bool" where
  "counted i n f f' \<longleftrightarrow> f' = f(i := f i + n)"

lemma incr_total:
  assumes "likes_ok db" and "incr_by t (roomLikeTotalKey i) n db = (r, db')"
  shows "(db' = db \<and> (\<exists>e. r = Inl e)) \<or> (r = Inr (like_total db i + n) \<and> likes_ok db'
      \<and> counted i n (like_total db) (like_total db') \<and> like_delta db' = like_delta db)"
proof -
  have "counter_ok db (roomLikeTotalKey i)" using assms(1) by (simp add: likes_ok_def)
  with assms show ?thesis
    by (simp add: incr_by_counter like_total_def like_delta_def likes_ok_def counted_def fun_eq_iff split: if_splits) auto
qed

lemma incr_delta:
  assumes "likes_ok db" and "incr_by t (roomLikeDeltaKey i) n db = (r, db')"
  shows "(db' = db \<and> (\<exists>e. r = Inl e)) \<or> (r = Inr (like_delta db i + n) \<and> likes_ok db'
      \<and> counted i n (like_delta db) (like_delta db') \<and> like_total db' = like_total db)"
proof -
  have "counter_ok db (roomLikeDeltaKey i)" using assms(1) by (simp add: likes_ok_def)
  with assms show ?thesis
    by (simp add: incr_by_counter like_total_def like_delta_def likes_ok_def counted_def fun_eq_iff split: if_splits) auto
qed

definition likes_added :: "int \<Rightarrow> int \<Rightarrow> redis_db \<Rightarrow> redis_db \<Rightarrow> bool" where
  "likes_added i n db db' \<longleftrightarrow> counted i n (like_total db) (like_total db') \<and> counted i n (like_delta db) (like_delta db')"

definition likes_part_added :: "int \<Rightarrow> int \<Rightarrow> redis_db \<Rightarrow> redis_db \<Rightarrow> bool" where
  "likes_part_added i n db db' \<longleftrightarrow>
     (like_total db' = like_total db \<or> counted i n (like_total db) (like_total db'))
     \<and> (like_delta db' = like_delta db \<or> counted i n (like_delta db) (like_delta db'))"

lemma addLikesScript_D:
  assumes "likes_ok db" and "addLikesScript i n t db = (r, db')"
  shows "likes_ok db' \<and> likes_part_added i n db db'
    \<and> (\<forall>v. r = Inr v \<longrightarrow> v = f64 (like_total db i + n) \<and> likes_added i n db db')"
proof -
  obtain a da where a: "incr_by t (roomLikeTotalKey i) n db = (a, da)" by fastforce
  from incr_total [OF assms(1) a] show ?thesis
  proof (elim disjE conjE exE)
    fix e assume "da = db" "a = Inl e"
    with assms a show ?thesis by (auto simp: addLikesScript_def likes_part_added_def)
  next
    assume h: "a = Inr (like_total db i + n)" "likes_ok da" "counted i n (like_total db) (like_total da)"
      "like_delta da = like_delta db"
    obtain b d2 where b: "incr_by t (roomLikeDeltaKey i) n da = (b, d2)" by fastforce
    from incr_delta [OF h(2) b] show ?thesis
    proof (elim disjE conjE exE)
      fix e assume "d2 = da" "b = Inl e"
      with assms a b h show ?thesis by (auto simp: addLikesScript_def likes_part_added_def)
    next
      assume "b = Inr (like_delta da i + n)" "likes_ok d2" "counted i n (like_delta da) (like_delta d2)"
        "like_total d2 = like_total da"
      with assms a b h show ?thesis by (auto simp: addLikesScript_def likes_part_added_def likes_added_def)
    qed
  qed
qed

lemma AddLikes_D:
  assumes "likes_ok db" and "AddLikes shards i n (db, w) = (r, (db', w'))"
  shows "likes_ok db' \<and> likes_part_added i n db db'
    \<and> (\<forall>v. r = Inr v \<longrightarrow> v = f64 (like_total db i + n) \<and> likes_added i n db db')"
proof -
  obtain r1 db1 w1 where ix: "index_room shards i (db, w) = (r1, (db1, w1))" by (metis prod.collapse)
  have same: "likes_ok db1" "like_total db1 = like_total db" "like_delta db1 = like_delta db"
    using index_room_D [OF ix] likes_texts [of db1 db] assms(1) by auto
  show ?thesis
  proof (cases r1)
    case (Inl e)
    with assms ix same show ?thesis by (auto simp: AddLikes_def bind_def likes_part_added_def)
  next
    case (Inr u)
    with assms ix have e: "ext (\<lambda>db w. addLikesScript i n (rd_ms w) db) (db1, w1) = (r, (db', w'))"
      by (simp add: AddLikes_def bind_def)
    obtain x d2 where f: "addLikesScript i n (rd_ms w') db1 = (x, d2)" by fastforce
    note g = addLikesScript_D [OF same(1) f]
    from ext_D [OF e] f have "(r = x \<and> db' = d2) \<or> ((\<exists>m. r = Inl (Plain m)) \<and> (db' = db1 \<or> db' = d2))" by auto
    with g same show ?thesis by (elim disjE conjE exE) (simp_all add: likes_part_added_def likes_added_def)
  qed
qed

end
