(* ===== verification/Like_Counting.thy ===== *)
theory Like_Counting
  imports Like Redis_Counters Gift_Admission
begin

text \<open>
  What the like service guarantees: a like is counted exactly, an enforced ban keeps its user
  out, and an eligible like is accepted.
\<close>

section \<open>The checks before the count\<close>

definition like_gate :: "'d LikeService \<Rightarrow> int \<Rightarrow> int \<Rightarrow> int \<Rightarrow> ('d, unit) prog" where
  "like_gate s i u n =
     bind (roomStatus s i) (\<lambda>status.
     if status \<noteq> StatusLiving then fail (Sentinel Room_ErrNotLiving)
     else bind (isBanned s i u) (\<lambda>banned.
       if banned then fail (Sentinel Room_ErrBanned)
       else bind (case ls_limiter s of
                    None \<Rightarrow> ret True
                  | Some allowN \<Rightarrow> if lcfg_rate (ls_config s) > 0
                      then allowN (''live:room:{'' @ FormatInt i @ ''}:like:rate:'' @ FormatInt u)
                             (lcfg_rate (ls_config s)) n (lcfg_window (ls_config s))
                      else ret True) (\<lambda>allowed.
         if \<not> allowed then fail (Sentinel Like_ErrRateLimited) else ret ())))"

lemma bind_if: "bind (if c then m1 else m2) k = (if c then bind m1 k else bind m2 k)"
  by simp

lemma Like_Add_gate:
  "Like_Add s i u n =
     (if n < 1 \<or> n > 100 then fail (Sentinel Like_ErrInvalidCount)
      else bind (like_gate s i u n) (\<lambda>_. bind (ls_store s i n) (\<lambda>tot. ret \<lparr>lr_accepted = n, lr_total = tot\<rparr>)))"
  by (simp add: Like_Add_def like_gate_def bind_assoc bind_if cong: if_cong)

section \<open>Counting\<close>

text \<open>
  What the service relies on: adding counts the likes of one room, and nothing it asks before
  changes a total.
\<close>

locale like_ports =
  fixes s :: "'d LikeService" and totals :: "'d \<Rightarrow> int \<Rightarrow> int" and sound :: "'d \<Rightarrow> bool"
  assumes add_counts: "sound d \<Longrightarrow> ls_store s i n (d, w) = (x, (d', w')) \<Longrightarrow>
      sound d' \<and> (totals d' = totals d \<or> counted i n (totals d) (totals d'))
      \<and> (\<forall>v. x = Inr v \<longrightarrow> counted i n (totals d) (totals d'))"
    and room_keeps: "keeps (\<lambda>d. sound d \<and> totals d = f) (ls_room s i)"
    and banned_keeps: "keeps (\<lambda>d. sound d \<and> totals d = f) (ls_banned s i u)"
    and limiter_keeps: "ls_limiter s = Some allowN \<Longrightarrow> keeps (\<lambda>d. sound d \<and> totals d = f) (allowN k m n t)"
    and cache_keeps: "ls_cache s = Some c \<Longrightarrow> keeps (\<lambda>d. sound d \<and> totals d = f) (lc_room_status c i)"
      "ls_cache s = Some c \<Longrightarrow> keeps (\<lambda>d. sound d \<and> totals d = f) (lc_set_room_status c i st t)"
      "ls_cache s = Some c \<Longrightarrow> keeps (\<lambda>d. sound d \<and> totals d = f) (lc_ban c i u)"
      "ls_cache s = Some c \<Longrightarrow> keeps (\<lambda>d. sound d \<and> totals d = f) (lc_set_ban c i u b t)"
begin

lemma keeps_roomStatus: "keeps (\<lambda>d. sound d \<and> totals d = f) (roomStatus s i)"
  unfolding roomStatus_def by (cases "ls_cache s") (auto intro!: keeps_intro room_keeps cache_keeps)

lemma keeps_isBanned: "keeps (\<lambda>d. sound d \<and> totals d = f) (isBanned s i u)"
  unfolding isBanned_def by (cases "ls_cache s") (auto intro!: keeps_intro banned_keeps cache_keeps)

lemma keeps_limiter: "keeps (\<lambda>d. sound d \<and> totals d = f)
    (case ls_limiter s of None \<Rightarrow> ret True | Some allowN \<Rightarrow> if 0 < r then allowN k m n t else ret True)"
  by (cases "ls_limiter s") (auto intro!: keeps_intro limiter_keeps)

lemma keeps_gate: "keeps (\<lambda>d. sound d \<and> totals d = f) (like_gate s i u n)"
  unfolding like_gate_def by (intro keeps_intro keeps_roomStatus keeps_isBanned keeps_limiter)

lemma Add_counts:
  assumes "sound d" and "Like_Add s i u n (d, w) = (r, (d', w'))"
  shows "sound d' \<and> (totals d' = totals d \<or> (1 \<le> n \<and> n \<le> 100 \<and> counted i n (totals d) (totals d')))
    \<and> (\<forall>v. r = Inr v \<longrightarrow> 1 \<le> n \<and> n \<le> 100 \<and> lr_accepted v = n \<and> counted i n (totals d) (totals d'))"
proof (cases "n < 1 \<or> n > 100")
  case True
  with assms show ?thesis by (auto simp: Like_Add_gate)
next
  case False
  obtain g d1 w1 where gate: "like_gate s i u n (d, w) = (g, (d1, w1))" by (metis prod.collapse)
  have k: "sound d1" "totals d1 = totals d"
    using keepsD [OF keeps_gate [of "totals d" i u n] _ gate] assms(1) by auto
  show ?thesis
  proof (cases g)
    case (Inl e)
    with assms False gate k show ?thesis by (auto simp: Like_Add_gate bind_def)
  next
    case (Inr v)
    obtain x d2 w2 where add: "ls_store s i n (d1, w1) = (x, (d2, w2))" by (metis prod.collapse)
    from add_counts [OF k(1) add] assms(2) False gate Inr add k show ?thesis
      by (cases x) (auto simp: Like_Add_gate bind_def)
  qed
qed

end

section \<open>The counters in Redis\<close>

abbreviation live_totals :: "live \<Rightarrow> int \<Rightarrow> int" where
  "live_totals d \<equiv> like_total (lv_redis d)"

lemma keeps_set_cmd:
  assumes "\<And>i. k \<noteq> roomLikeTotalKey i" and "\<And>i. k \<noteq> roomLikeDeltaKey i"
  shows "keeps (\<lambda>db. likes_ok db \<and> like_total db = f) (set_cmd k v ttl)"
  unfolding set_cmd_def
  by (rule keeps_ext) (simp add: likes_ok_def like_total_def fun_eq_iff not_sym [OF assms(1)] not_sym [OF assms(2)])

lemma keeps_at_redis:
  "keeps (\<lambda>db. likes_ok db \<and> like_total db = f) m \<Longrightarrow> keeps (\<lambda>d. likes_ok (lv_redis d) \<and> live_totals d = f) (at_redis m)"
  unfolding at_redis_def by (rule keeps_zoom) simp_all

lemma keeps_at_site: "keeps (\<lambda>d. likes_ok (lv_redis d) \<and> live_totals d = f) (at_site m)"
  unfolding at_site_def by (rule keeps_zoom) (simp_all add: keeps_const)

interpretation live_likes: like_ports "like_live rs shards cfg" live_totals "\<lambda>d. likes_ok (lv_redis d)"
proof unfold_locales
  show "likes_ok (lv_redis d') \<and> (live_totals d' = live_totals d \<or> counted i n (live_totals d) (live_totals d'))
      \<and> (\<forall>v. x = Inr v \<longrightarrow> counted i n (live_totals d) (live_totals d'))"
    if "likes_ok (lv_redis d)" and "ls_store (like_live rs shards cfg) i n (d, w) = (x, (d', w'))" for d i n w x d' w'
  proof -
    from that(2) obtain e where "AddLikes shards i n (lv_redis d, w) = (x, (e, w'))" "d' = d\<lparr>lv_redis := e\<rparr>"
      by (auto simp: at_eqs)
    with AddLikes_D [OF that(1) this(1)] show ?thesis by (auto simp: likes_part_added_def likes_added_def)
  qed
  fix f :: "int \<Rightarrow> int" and i u n m t :: int and b :: bool and st k :: string and c :: "live EligibilityCache"
  show "keeps (\<lambda>d. likes_ok (lv_redis d) \<and> live_totals d = f) (ls_room (like_live rs shards cfg) i)"
    and "keeps (\<lambda>d. likes_ok (lv_redis d) \<and> live_totals d = f) (ls_banned (like_live rs shards cfg) i u)"
    by (simp_all add: keeps_at_site)
  show "keeps (\<lambda>d. likes_ok (lv_redis d) \<and> live_totals d = f) (allowN k m n t)"
    if "ls_limiter (like_live rs shards cfg) = Some allowN" for allowN
    using that by simp
  assume c: "ls_cache (like_live rs shards cfg) = Some c"
  show "keeps (\<lambda>d. likes_ok (lv_redis d) \<and> live_totals d = f) (lc_room_status c i)"
    and "keeps (\<lambda>d. likes_ok (lv_redis d) \<and> live_totals d = f) (lc_ban c i u)"
    using c by (auto simp: redis_like_store_def CachedLikeRoomStatus_def CachedLikeBan_def intro!: keeps_at_redis keeps_intro)
  show "keeps (\<lambda>d. likes_ok (lv_redis d) \<and> live_totals d = f) (lc_set_room_status c i st t)"
    and "keeps (\<lambda>d. likes_ok (lv_redis d) \<and> live_totals d = f) (lc_set_ban c i u b t)"
    using c by (auto simp: redis_like_store_def CacheLikeRoomStatus_def CacheLikeBan_def intro!: keeps_at_redis keeps_set_cmd)
qed

section \<open>The ban cache\<close>

text \<open>An enforced ban: the cached answer is yes, and it never expires.\<close>

definition ban_enforced :: "int \<Rightarrow> int \<Rightarrow> live \<Rightarrow> bool" where
  "ban_enforced i u d \<longleftrightarrow> texts (lv_redis d) (likeBanKey i u) = Some \<lparr>rt_text = ''1'', rt_expires = None\<rparr>"

lemma ParseInt_one: "ParseInt ''1'' = Some 1"
  by (simp add: ParseInt_def is_i64_def)

lemma EnforceLikeBan_enforces:
  "at_redis (EnforceLikeBan i u True) (d, w) = (Inr v, (d', w')) \<Longrightarrow> ban_enforced i u d'"
  by (auto simp: at_eqs EnforceLikeBan_def set_cmd_def ban_enforced_def set_text_def set_expiry_def elim!: ext_InrE)

lemma enforced_hit:
  "ban_enforced i u d \<Longrightarrow> at_redis (CachedLikeBan i u) (d, w) = (r, (d', w')) \<Longrightarrow>
     d' = d \<and> (r = Inr (Some True) \<or> (\<exists>m. r = Inl (Plain m)))"
  by (auto simp: at_eqs CachedLikeBan_def ban_enforced_def get_text_def alive_def ParseInt_one dest!: read_ext_D)

lemma keeps_enforced_set:
  "k \<noteq> likeBanKey i u \<Longrightarrow> keeps (ban_enforced i u) (at_redis (set_cmd k v ttl))"
  unfolding at_redis_def
  by (rule keeps_zoom) (auto simp: set_cmd_def ban_enforced_def set_text_def intro!: keeps_ext)

lemma incr_texts: "k \<noteq> k' \<Longrightarrow> texts (snd (incr_by t k n db)) k' = texts db k'"
  by (auto simp: incr_by_def set_text_def split: option.splits)

lemma addLikesScript_texts:
  assumes "k \<noteq> roomLikeTotalKey i" and "k \<noteq> roomLikeDeltaKey i"
  shows "texts (snd (addLikesScript i n t db)) k = texts db k"
  using incr_texts [OF not_sym [OF assms(1)], of t n db] incr_texts [OF not_sym [OF assms(2)], of t n]
  by (auto simp: addLikesScript_def split: prod.splits sum.splits) (metis snd_conv)+

lemma keeps_enforced_add: "keeps (ban_enforced i u) (at_redis (AddLikes shards j n))"
  unfolding at_redis_def
  by (rule keeps_zoom)
    (auto simp: AddLikes_def index_room_def ban_enforced_def addLikesScript_texts intro!: keeps_intro keeps_ext)

lemma keeps_at_site_redis: "keeps (\<lambda>d. P (lv_redis d)) (at_site m)"
  unfolding at_site_def by (rule keeps_zoom) (simp_all add: keeps_const)

lemma keeps_enforced_site: "keeps (ban_enforced i u) (at_site m)"
  unfolding ban_enforced_def by (rule keeps_at_site_redis)

lemma keeps_enforced_status: "keeps (ban_enforced i u) (roomStatus (like_live rs shards cfg) j)"
  unfolding roomStatus_def
  by (auto simp: redis_like_store_def CachedLikeRoomStatus_def CacheLikeRoomStatus_def at_redis_def
      intro!: keeps_intro keeps_enforced_site keeps_enforced_set [unfolded at_redis_def] keeps_zoom)

lemma keeps_enforced_isBanned: "keeps (ban_enforced i u) (isBanned (like_live rs shards cfg) j v)"
proof (cases "(j, v) = (i, u)")
  case False
  then have "likeBanKey j v \<noteq> likeBanKey i u" by auto
  then show ?thesis
    unfolding isBanned_def
    by (auto simp: redis_like_store_def CachedLikeBan_def CacheLikeBan_def at_redis_def
        intro!: keeps_intro keeps_enforced_site keeps_enforced_set [unfolded at_redis_def] keeps_zoom)
next
  case True
  show ?thesis
  proof (rule keepsI)
    fix d w r d' w'
    assume "ban_enforced i u d" and "isBanned (like_live rs shards cfg) j v (d, w) = (r, (d', w'))"
    with True show "ban_enforced i u d'"
      using enforced_hit [OF \<open>ban_enforced i u d\<close>]
      by (fastforce simp: isBanned_def bind_eq redis_like_store_def)
  qed
qed

lemma enforced_isBanned:
  assumes "ban_enforced i u d" and "isBanned (like_live rs shards cfg) i u (d, w) = (Inr b, (d', w'))"
  shows b
  using assms(2) enforced_hit [OF assms(1)] by (fastforce simp: isBanned_def bind_eq redis_like_store_def)

lemma gate_blocked:
  assumes "ban_enforced i u d" and "like_gate (like_live rs shards cfg) i u n (d, w) = (g, (d', w'))"
  shows "\<exists>e. g = Inl e"
proof (rule ccontr)
  assume "\<nexists>e. g = Inl e"
  then obtain d1 w1 d2 w2 where st: "roomStatus (like_live rs shards cfg) i (d, w) = (Inr StatusLiving, (d1, w1))"
    and ban: "isBanned (like_live rs shards cfg) i u (d1, w1) = (Inr False, (d2, w2))"
    using assms(2) by (cases g) (fastforce simp: like_gate_def bind_Inr split: if_splits)+
  from enforced_isBanned [OF keepsD [OF keeps_enforced_status assms(1) st] ban] show False .
qed

section \<open>An eligible like\<close>

definition says_living :: "redis_db \<Rightarrow> int \<Rightarrow> int \<Rightarrow> bool" where
  "says_living db t i \<longleftrightarrow> get_text t (likeRoomStatusKey i) db \<in> {None, Some StatusLiving}"

definition says_free :: "redis_db \<Rightarrow> int \<Rightarrow> int \<Rightarrow> int \<Rightarrow> bool" where
  "says_free db t i u \<longleftrightarrow> get_text t (likeBanKey i u) db \<in> {None, Some ''0''}"

lemma likes_ok_set [simp]:
  "likes_ok (set_text (likeRoomStatusKey i) v e db) = likes_ok db" "likes_ok (set_text (likeBanKey i u) v e db) = likes_ok db"
  "like_total (set_text (likeRoomStatusKey i) v e db) = like_total db" "like_total (set_text (likeBanKey i u) v e db) = like_total db"
  "like_delta (set_text (likeRoomStatusKey i) v e db) = like_delta db" "like_delta (set_text (likeBanKey i u) v e db) = like_delta db"
  by (simp_all add: likes_ok_def like_total_def like_delta_def fun_eq_iff)

lemma get_text_set_other [simp]: "k' \<noteq> k \<Longrightarrow> get_text t k' (set_text k v e db) = get_text t k' db"
  by (simp add: get_text_def set_text_def)

definition touched :: "string \<Rightarrow> redis_db \<Rightarrow> redis_db \<Rightarrow> bool" where
  "touched k db db' \<longleftrightarrow> db' = db \<or> (\<exists>v e. db' = set_text k v e db)"

lemma touched_simps [simp]: "touched k db db" "touched k db (set_text k v e db)"
  by (auto simp: touched_def)

lemma roomStatus_quiet:
  assumes "faults w = []" and "room_by_id i (room_data (lv_site d)) = Some row" and "r_status row = StatusLiving"
    and "says_living (lv_redis d) (rd_ms w) i"
  shows "\<exists>d'. roomStatus (like_live rs shards cfg) i (d, w) = (Inr StatusLiving, (d', w)) \<and> lv_site d' = lv_site d
    \<and> touched (likeRoomStatusKey i) (lv_redis d) (lv_redis d')"
proof -
  obtain name where get: "Room_Get rs i (lv_site d, w) = (Inr ((room_view row)\<lparr>rm_anchor_nickname := name\<rparr>), (lv_site d, w))"
    using Room_Get_quiet [OF assms(1), of rs i "lv_site d"] assms(2) by auto
  show ?thesis
    using assms(1,3,4)
    by (auto simp: roomStatus_def bind_def redis_like_store_def at_redis_def at_site_def zoom_def CachedLikeRoomStatus_def
        read_ext_quiet says_living_def get room_view_def CacheLikeRoomStatus_def set_cmd_def ext_quiet ignore_def ret_def)
qed

lemma isBanned_quiet:
  assumes "faults w = []" and "\<not> banned_in (room_data (lv_site d)) i u" and "says_free (lv_redis d) (rd_ms w) i u"
  shows "\<exists>d'. isBanned (like_live rs shards cfg) i u (d, w) = (Inr False, (d', w))
    \<and> touched (likeBanKey i u) (lv_redis d) (lv_redis d')"
proof -
  have "ParseInt ''0'' = Some 0" by (simp add: ParseInt_def is_i64_def)
  with assms show ?thesis
    by (auto simp: isBanned_def bind_def redis_like_store_def at_redis_def at_site_def zoom_def CachedLikeBan_def
        read_ext_quiet says_free_def Room_IsBanned_quiet CacheLikeBan_def set_cmd_def ext_quiet ignore_def ret_def)
qed

lemma AddLikes_quiet:
  assumes "faults w = []" and "likes_ok db" and "is_i64 n" and "is_i64 (like_total db i + n)" and "is_i64 (like_delta db i + n)"
  shows "\<exists>db'. AddLikes shards i n (db, w) = (Inr (f64 (like_total db i + n)), (db', w))"
proof -
  let ?d1 = "zadd (rd_ms w) (activeStatsRoomsKey (activeRoomShard shards i)) (unix_milli (go_now w)) (FormatInt i) db"
  let ?d2 = "set_text (roomLikeTotalKey i) (FormatInt (like_total ?d1 i + n)) None ?d1"
  have c: "counter_ok ?d1 (roomLikeTotalKey i)" "counter_ok ?d2 (roomLikeDeltaKey i)"
    using assms(2) by (simp_all add: likes_ok_def)
  have e: "counter ?d1 (roomLikeTotalKey i) = like_total db i" "counter ?d2 (roomLikeDeltaKey i) = like_delta db i"
    by (simp_all add: like_total_def like_delta_def)
  have t: "like_total ?d1 i = like_total db i" by simp
  have "addLikesScript i n (rd_ms w) ?d1 = (Inr (f64 (like_total db i + n)),
      set_text (roomLikeDeltaKey i) (FormatInt (like_delta db i + n)) None ?d2)"
    using incr_by_counter [OF c(1), of "rd_ms w" n] incr_by_counter [OF c(2), of "rd_ms w" n] assms(3-5)
    unfolding e t by (simp add: addLikesScript_def like_delta_def)
  then show ?thesis
    using assms(1) by (simp add: AddLikes_def index_room_def bind_def now_def ext_quiet)
qed

section \<open>Properties\<close>

text \<open>
  C18. Likes are counted exactly. Whatever fails, and whatever the caches hold, a call of the
  service adds its count, between 1 and 100, to the total of its room, or changes no total of
  any room; when it answers, it has counted, and says so.
\<close>

theorem likes_counted_exactly:
  assumes "likes_ok (lv_redis d)" and "Like_Add (like_live rs shards cfg) i u n (d, w) = (r, (d', w'))"
  shows "likes_ok (lv_redis d')
    \<and> (live_totals d' = live_totals d \<or> (1 \<le> n \<and> n \<le> 100 \<and> live_totals d' = (live_totals d)(i := live_totals d i + n)))
    \<and> (\<forall>v. r = Inr v \<longrightarrow> 1 \<le> n \<and> n \<le> 100 \<and> lr_accepted v = n \<and> live_totals d' = (live_totals d)(i := live_totals d i + n))"
  using live_likes.Add_counts [OF assms] unfolding counted_def .

text \<open>A living room with an empty Redis.\<close>

definition living_world :: live where
  "living_world = sold_world StatusLiving"

lemma living_world_simps [simp]:
  "live_rooms_of living_world = \<lparr>live_rooms = [closed_room\<lparr>r_status := StatusLiving\<rparr>], live_sessions = [], room_mutes = [], room_bans = []\<rparr>"
  "texts (lv_redis living_world) k = None" "likes_ok (lv_redis living_world)" "live_totals living_world i = 0"
  "like_delta (lv_redis living_world) i = 0"
  by (simp_all add: living_world_def sold_world_def likes_ok_def counter_ok_def like_total_def like_delta_def counter_def)

abbreviation sample_likes :: "live LikeService" where
  "sample_likes \<equiv> like_live (Room_NewService True) 16 \<lparr>lcfg_rate = 1, lcfg_window = second, lcfg_room_ttl = second, lcfg_ban_ttl = second\<rparr>"

theorem likes_counted_exactly_witness:
  "\<exists>r d' w'. Like_Add sample_likes 5 7 50 (living_world, quiet_world) = (r, (d', w'))
     \<and> (live_totals d' 5 = 0 \<or> live_totals d' 5 = 50)"
proof -
  obtain r d' w' where a: "Like_Add sample_likes 5 7 50 (living_world, quiet_world) = (r, (d', w'))" by (metis prod.collapse)
  from likes_counted_exactly [OF _ a] have "live_totals d' 5 = 0 \<or> live_totals d' 5 = 50" by (auto simp: fun_eq_iff)
  with a show ?thesis by blast
qed

text \<open>
  C19. An enforced ban keeps its user out. Once the ban of a user has been enforced in the cache,
  no call of the service, by anyone and whatever fails, undoes it; and the user's own likes in
  the room are never accepted and change no total, even if the room database cannot be reached.
\<close>

theorem like_ban_enforced:
  assumes "at_redis (EnforceLikeBan i u True) (d0, w0) = (Inr v0, (d, w1))" and "likes_ok (lv_redis d)"
    and "Like_Add (like_live rs shards cfg) j v n (d, w) = (r, (d', w'))"
  shows "ban_enforced i u d' \<and> ((j, v) = (i, u) \<longrightarrow> (\<nexists>x. r = Inr x) \<and> live_totals d' = live_totals d)"
proof -
  note b = EnforceLikeBan_enforces [OF assms(1)]
  have "keeps (ban_enforced i u) (Like_Add (like_live rs shards cfg) j v n)"
    unfolding Like_Add_gate like_gate_def like_live_fields option.case
    by (intro keeps_intro keeps_enforced_status keeps_enforced_isBanned keeps_enforced_add)
  from keepsD [OF this b assms(3)] have kept: "ban_enforced i u d'" .
  moreover have "(\<nexists>x. r = Inr x) \<and> live_totals d' = live_totals d" if "(j, v) = (i, u)"
  proof (cases "n < 1 \<or> n > 100")
    case True
    with assms(3) show ?thesis by (auto simp: Like_Add_gate)
  next
    case False
    obtain g d2 w2 where gate: "like_gate (like_live rs shards cfg) i u n (d, w) = (g, (d2, w2))" by (metis prod.collapse)
    from gate_blocked [OF b gate] obtain e where "g = Inl e" ..
    with False gate assms(3) that have "r = Inl e" "d' = d2" by (auto simp: Like_Add_gate bind_def)
    with keepsD [OF live_likes.keeps_gate [of "live_totals d" rs shards cfg i u n] _ gate] assms(2) show ?thesis by simp
  qed
  ultimately show ?thesis by blast
qed

theorem like_ban_enforced_witness:
  "\<exists>r d w' d'. at_redis (EnforceLikeBan 5 7 True) (living_world, quiet_world) = (Inr (), (d, quiet_world))
     \<and> Like_Add sample_likes 5 7 50 (d, quiet_world) = (r, (d', w')) \<and> (\<nexists>x. r = Inr x)"
proof -
  let ?db = "set_text (likeBanKey 5 7) ''1'' None (lv_redis living_world)"
  let ?d = "living_world\<lparr>lv_redis := ?db\<rparr>"
  have e: "at_redis (EnforceLikeBan 5 7 True) (living_world, quiet_world) = (Inr (), (?d, quiet_world))"
    by (simp add: at_redis_def zoom_def EnforceLikeBan_def set_cmd_def ext_quiet quiet_world_def set_expiry_def)
  have ok: "likes_ok (lv_redis ?d)" by simp
  obtain r d' w' where a: "Like_Add sample_likes 5 7 50 (?d, quiet_world) = (r, (d', w'))" by (metis prod.collapse)
  from like_ban_enforced [OF e ok a] have "\<nexists>x. r = Inr x" by simp
  with e a show ?thesis by blast
qed

text \<open>
  C20. An eligible like is accepted. When every call completes, the room is living, the user not
  banned, the caches agree and the counters have room, the service accepts the likes and
  answers with the new total. The configured rate limit plays no part in the answer: the
  store of the program is not a limiter, so the service it builds has none.
\<close>

theorem eligible_like_accepted:
  assumes "faults w = []" and "likes_ok (lv_redis d)" and "1 \<le> n" and "n \<le> 100"
    and "room_by_id i (live_rooms_of d) = Some row" and "r_status row = StatusLiving" and "\<not> banned_in (live_rooms_of d) i u"
    and "says_living (lv_redis d) (rd_ms w) i" and "says_free (lv_redis d) (rd_ms w) i u"
    and "is_i64 (live_totals d i + n)" and "is_i64 (like_delta (lv_redis d) i + n)"
  shows "fst (Like_Add (like_live rs shards cfg) i u n (d, w))
    = Inr \<lparr>lr_accepted = n, lr_total = f64 (live_totals d i + n)\<rparr>"
proof -
  obtain d1 where st: "roomStatus (like_live rs shards cfg) i (d, w) = (Inr StatusLiving, (d1, w))"
    and d1: "lv_site d1 = lv_site d" "touched (likeRoomStatusKey i) (lv_redis d) (lv_redis d1)"
    using roomStatus_quiet [OF assms(1,5,6,8)] by blast
  have "says_free (lv_redis d1) (rd_ms w) i u" using d1(2) assms(9) by (auto simp: says_free_def touched_def)
  moreover have "\<not> banned_in (live_rooms_of d1) i u" using assms(7) d1(1) by simp
  ultimately
  obtain d2 where ban: "isBanned (like_live rs shards cfg) i u (d1, w) = (Inr False, (d2, w))"
    and d2: "touched (likeBanKey i u) (lv_redis d1) (lv_redis d2)"
    using isBanned_quiet [OF assms(1), of d1 i u] by blast
  have same: "likes_ok (lv_redis d2)" "like_total (lv_redis d2) = live_totals d" "like_delta (lv_redis d2) = like_delta (lv_redis d)"
    using d1(2) d2 assms(2) by (auto simp: touched_def)
  have n: "is_i64 n" using assms(3,4) by (simp add: is_i64_def)
  obtain db' where "AddLikes shards i n (lv_redis d2, w) = (Inr (f64 (live_totals d i + n)), (db', w))"
    using AddLikes_quiet [OF assms(1) same(1) n, of i shards] assms(10,11) same by auto
  then show ?thesis
    using assms(3,4) st ban by (simp add: Like_Add_def bind_def at_redis_def zoom_def ret_def)
qed

theorem eligible_like_accepted_witness:
  "fst (Like_Add sample_likes 5 7 50 (living_world, quiet_world)) = Inr \<lparr>lr_accepted = 50, lr_total = 50\<rparr>"
proof -
  have "fst (Like_Add sample_likes 5 7 50 (living_world, quiet_world)) = Inr \<lparr>lr_accepted = 50, lr_total = f64 (live_totals living_world 5 + 50)\<rparr>"
    by (rule eligible_like_accepted [where row = "closed_room\<lparr>r_status := StatusLiving\<rparr>"])
      (simp_all add: quiet_world_def closed_room_def room_by_id_def banned_in_def says_living_def says_free_def get_text_def is_i64_def)
  then show ?thesis by (simp add: f64_def)
qed

end
