(* ===== verification/Like_Snapshot.thy ===== *)
theory Like_Snapshot
  imports Redis_Counters Commerce_Schema
begin

text \<open>
  \<^verbatim>\<open>internal/like/snapshot.go\<close>: the worker that writes the like totals of active rooms to MySQL
  and, when it starts, raises the totals in Redis to the checkpoints. The loop over the pages of
  checkpoints runs on fuel; \<open>None\<close> is running out of it.
\<close>

section \<open>Checkpoints in MySQL\<close>

record checkpoint_row =
  cp_room :: int
  cp_count :: int
  cp_updated :: int

definition LoadAfter :: "int \<Rightarrow> int \<Rightarrow> (checkpoint_row list, (int \<times> int) list) prog" where
  "LoadAfter afterRoomID limit = read_ext (\<lambda>rows _. Inr (map (\<lambda>r. (cp_room r, cp_count r))
     (take (nat limit) (sort_key cp_room (filter (\<lambda>r. cp_room r > afterRoomID) rows)))))"

definition Save :: "int \<Rightarrow> int \<Rightarrow> (checkpoint_row list, unit) prog" where
  "Save roomID count = ext (\<lambda>rows w.
     if count < 0 then (Inl (check_violated ''room_like_snapshots_chk_1''), rows)
     else (Inr (), sql_upsert (\<lambda>r. cp_room r = roomID)
       (\<lambda>r. r\<lparr>cp_count := max (cp_count r) count, cp_updated := NOW3 w\<rparr>)
       \<lparr>cp_room = roomID, cp_count = count, cp_updated = NOW3 w\<rparr> rows))"

section \<open>The snapshotter\<close>

record 'd Snapshotter =
  sn_active :: "int \<Rightarrow> int \<Rightarrow> ('d, int list) prog"
  sn_total :: "int \<Rightarrow> ('d, int) prog"
  sn_restore :: "int \<Rightarrow> int \<Rightarrow> ('d, unit) prog"
  sn_load :: "int \<Rightarrow> int \<Rightarrow> ('d, (int \<times> int) list) prog"
  sn_save :: "int \<Rightarrow> int \<Rightarrow> ('d, unit) prog"
  sn_window :: int
  sn_batch :: int

definition join_errors :: "go_err list \<Rightarrow> ('d, unit) prog" where
  "join_errors es = (if es = [] then ret () else fail (Joined es))"

definition room_error :: "int \<Rightarrow> string \<Rightarrow> go_err \<Rightarrow> go_err" where
  "room_error roomID what e = errorf_pre (''room '' @ FormatInt roomID @ what) e"

text \<open>The errors of the rooms of one page.\<close>

fun restore_page :: "'d Snapshotter \<Rightarrow> (int \<times> int) list \<Rightarrow> ('d, go_err list) prog" where
  "restore_page s [] = ret []"
| "restore_page s ((roomID, count) # cs) =
     handle (sn_restore s roomID count)
       (\<lambda>e. bind (restore_page s cs) (\<lambda>es. ret (room_error roomID [] e # es)))
       (\<lambda>_. restore_page s cs)"

fun recover_loop :: "nat \<Rightarrow> 'd Snapshotter \<Rightarrow> int \<Rightarrow> int \<Rightarrow> ('d, go_err list option) prog" where
  "recover_loop 0 s batch afterRoomID = ret None"
| "recover_loop (Suc k) s batch afterRoomID =
     handle (sn_load s afterRoomID batch)
       (\<lambda>e. ret (Some [e]))
       (\<lambda>cps. bind (restore_page s cps) (\<lambda>es.
          if int (length cps) < batch then ret (Some es)
          else bind (recover_loop k s batch (fst (last cps))) (\<lambda>rest. ret (map_option (\<lambda>es'. es @ es') rest))))"

definition Recover :: "nat \<Rightarrow> 'd Snapshotter \<Rightarrow> ('d, unit option) prog" where
  "Recover k s =
     (let batch = (if sn_batch s \<le> 0 then 1000 else sn_batch s) in
      bind (recover_loop k s batch 0) (\<lambda>r. case r of
        None \<Rightarrow> ret None
      | Some es \<Rightarrow> bind (join_errors es) (\<lambda>_. ret (Some ()))))"

fun snapshot_rooms :: "'d Snapshotter \<Rightarrow> int list \<Rightarrow> ('d, go_err list) prog" where
  "snapshot_rooms s [] = ret []"
| "snapshot_rooms s (roomID # rooms) =
     handle (sn_total s roomID)
       (\<lambda>e. bind (snapshot_rooms s rooms) (\<lambda>es. ret (room_error roomID '' read'' e # es)))
       (\<lambda>count. handle (sn_save s roomID count)
          (\<lambda>e. bind (snapshot_rooms s rooms) (\<lambda>es. ret (room_error roomID '' write'' e # es)))
          (\<lambda>_. snapshot_rooms s rooms))"

definition Snapshot_Tick :: "'d Snapshotter \<Rightarrow> ('d, unit) prog" where
  "Snapshot_Tick s =
     bind now (\<lambda>t.
     bind (sn_active s (t - sn_window s) (sn_batch s)) (\<lambda>rooms.
     bind (snapshot_rooms s rooms) join_errors))"

section \<open>On Redis and MySQL\<close>

record snap_world =
  sw_redis :: redis_db
  sw_points :: "checkpoint_row list"

definition snap_redis :: "(redis_db, 'a) prog \<Rightarrow> (snap_world, 'a) prog" where
  "snap_redis = zoom sw_redis (\<lambda>d s. s\<lparr>sw_redis := d\<rparr>)"

definition snap_points :: "(checkpoint_row list, 'a) prog \<Rightarrow> (snap_world, 'a) prog" where
  "snap_points = zoom sw_points (\<lambda>d s. s\<lparr>sw_points := d\<rparr>)"

definition NewSnapshotter :: "int \<Rightarrow> int \<Rightarrow> int \<Rightarrow> snap_world Snapshotter" where
  "NewSnapshotter shards window batch =
     \<lparr>sn_active = (\<lambda>since n. snap_redis (ActiveRooms shards since n)), sn_total = (\<lambda>i. snap_redis (LikeSnapshot i)),
      sn_restore = (\<lambda>i n. snap_redis (RestoreLikeSnapshot i n)), sn_load = (\<lambda>i n. snap_points (LoadAfter i n)),
      sn_save = (\<lambda>i n. snap_points (Save i n)), sn_window = window, sn_batch = batch\<rparr>"

lemma snap_eqs:
  "snap_redis m (s, w) = (r, (s', w')) \<longleftrightarrow> (\<exists>d. m (sw_redis s, w) = (r, (d, w')) \<and> s' = s\<lparr>sw_redis := d\<rparr>)"
  "snap_points n (s, w) = (q, (s', w')) \<longleftrightarrow> (\<exists>d. n (sw_points s, w) = (q, (d, w')) \<and> s' = s\<lparr>sw_points := d\<rparr>)"
  by (auto simp: snap_redis_def snap_points_def zoom_eq)

section \<open>The loop ends\<close>

definition beyond :: "int \<Rightarrow> checkpoint_row list \<Rightarrow> nat" where
  "beyond i rows = length (filter (\<lambda>r. cp_room r > i) rows)"

lemma beyond_less:
  assumes "r \<in> set rows" and "i < cp_room r"
  shows "beyond (cp_room r) rows < beyond i rows"
proof -
  have "length (filter (\<lambda>x. cp_room x > cp_room r) (filter (\<lambda>x. cp_room x > i) rows)) < length (filter (\<lambda>x. cp_room x > i) rows)"
    by (rule length_filter_less [of r]) (use assms in auto)
  moreover have "filter (\<lambda>x. cp_room x > cp_room r) (filter (\<lambda>x. cp_room x > i) rows) = filter (\<lambda>x. cp_room x > cp_room r) rows"
    using assms(2) by (auto simp: filter_filter intro: filter_cong)
  ultimately show ?thesis unfolding beyond_def by (simp only:)
qed

lemma keeps_restore_page:
  "(\<And>i n. keeps I (sn_restore s i n)) \<Longrightarrow> keeps I (restore_page s cps)"
  by (induction s cps rule: restore_page.induct) (auto intro!: keeps_intro)

lemma restore_page_Inr:
  "(restore_page s cps) x = (r, y) \<Longrightarrow> \<exists>es. r = Inr es"
  by (induction s cps arbitrary: x r y rule: restore_page.induct)
    (fastforce simp: handle_eq bind_eq)+

lemma LoadAfter_page:
  assumes "LoadAfter i b (rows, w) = (Inr cps, (rows', w'))"
  shows "rows' = rows \<and> (\<forall>c \<in> set cps. \<exists>r \<in> set rows. fst c = cp_room r \<and> i < cp_room r)"
  using assms by (fastforce simp: LoadAfter_def elim!: read_ext_InrE dest!: in_set_takeD)

lemma recover_loop_ends:
  assumes "0 < b" and "beyond i (sw_points d) < k" and "recover_loop k (NewSnapshotter shards window batch) b i (d, w) = (r, (d', w'))"
  shows "\<exists>es. r = Inr (Some es)"
  using assms(2,3)
proof (induction k arbitrary: i d w r d' w')
  case (Suc k)
  let ?s = "NewSnapshotter shards window batch"
  obtain x d1 w1 where l: "sn_load ?s i b (d, w) = (x, (d1, w1))" by (metis prod.collapse)
  show ?case
  proof (cases x)
    case (Inl e)
    with Suc.prems(2) l show ?thesis by (simp add: handle_def)
  next
    case (Inr cps)
    with l have "LoadAfter i b (sw_points d, w) = (Inr cps, (sw_points d1, w1))"
      by (auto simp: NewSnapshotter_def snap_eqs)
    note page = LoadAfter_page [OF this]
    obtain y d2 w2 where p: "restore_page ?s cps (d1, w1) = (y, (d2, w2))" by (metis prod.collapse)
    obtain es where y: "y = Inr es" using restore_page_Inr [OF p] by blast
    have "keeps (\<lambda>x. sw_points x = sw_points d1) (restore_page ?s cps)"
      by (rule keeps_restore_page) (auto simp: NewSnapshotter_def snap_redis_def intro!: keeps_zoom keeps_const)
    from keepsD [OF this _ p] page have pts: "sw_points d2 = sw_points d" by simp
    show ?thesis
    proof (cases "int (length cps) < b")
      case True
      with Suc.prems(2) l Inr p y show ?thesis by (simp add: handle_def bind_def)
    next
      case False
      with assms(1) have "cps \<noteq> []" by auto
      then obtain row where "row \<in> set (sw_points d)" "fst (last cps) = cp_room row" "i < cp_room row"
        using page by (metis last_in_set)
      with beyond_less [OF this(1,3)] Suc.prems(1) pts have less: "beyond (fst (last cps)) (sw_points d2) < k" by simp
      obtain z d3 w3 where z: "recover_loop k ?s b (fst (last cps)) (d2, w2) = (z, (d3, w3))" by (metis prod.collapse)
      from Suc.IH [OF less z] Suc.prems(2) l Inr p y z False show ?thesis by (auto simp: handle_def bind_def)
    qed
  qed
qed simp

end
