(* ===== verification/Like_Recovery.thy ===== *)
theory Like_Recovery
  imports Like_Snapshot Redis_Limits
begin

text \<open>
  Recovery of the like totals: the loop always ends, a run in which every call completes raises
  each total to its checkpoint and lowers none, and checkpoints never go down.
\<close>

section \<open>Pages of a sorted table\<close>

definition point_of :: "checkpoint_row \<Rightarrow> int \<times> int" where
  "point_of r = (cp_room r, cp_count r)"

definition points_after :: "int \<Rightarrow> checkpoint_row list \<Rightarrow> (int \<times> int) list" where
  "points_after i rows = map point_of (sort_key cp_room (filter (\<lambda>r. cp_room r > i) rows))"

lemma points_after_sorted:
  "distinct (map cp_room rows) \<Longrightarrow> sorted_wrt (<) (map fst (points_after i rows))"
  by (auto simp: points_after_def point_of_def comp_def strict_sorted_iff distinct_map inj_on_def)

lemma set_points_after: "set (points_after i rows) = {(cp_room r, cp_count r) |r. r \<in> set rows \<and> i < cp_room r}"
  by (auto simp: points_after_def point_of_def)

lemma sorted_pairs_eq:
  assumes "sorted_wrt (<) (map fst xs)" and "sorted_wrt (<) (map fst ys)" and "set xs = set ys"
  shows "xs = (ys :: (int \<times> int) list)"
proof -
  have "map fst xs = map fst ys"
    using assms by (intro sorted_distinct_set_unique) (auto simp: strict_sorted_iff)
  moreover have "inj_on fst (set ys)" using assms(2) by (auto simp: strict_sorted_iff distinct_map)
  ultimately show ?thesis using assms(3) by (metis map_inj_on sup.idem)
qed

text \<open>What is left after a full page.\<close>

lemma points_after_page:
  assumes "distinct (map cp_room rows)" and "0 < n" and "n \<le> length (points_after i rows)"
  shows "points_after (fst (last (take n (points_after i rows)))) rows = drop n (points_after i rows)"
proof -
  let ?L = "points_after i rows"
  note s = points_after_sorted [OF assms(1)]
  have L: "?L = take n ?L @ drop n ?L" by simp
  have ne: "take n ?L \<noteq> []" using assms(2,3) by auto
  define l where "l = fst (last (take n ?L))"
  have sp: "sorted_wrt (<) (map fst (take n ?L) @ map fst (drop n ?L))"
    using s [of i] by (metis L map_append)
  then have st: "sorted_wrt (<) (map fst (take n ?L))" and sd: "sorted_wrt (<) (map fst (drop n ?L))"
    and lt: "\<forall>x \<in> set (map fst (take n ?L)). \<forall>y \<in> set (map fst (drop n ?L)). x < y"
    by (auto simp: sorted_wrt_append) 
  have lin: "l \<in> set (map fst (take n ?L))" using ne by (auto simp: l_def)
  have upto: "x \<le> l" if "x \<in> set (map fst (take n ?L))" for x
  proof -
    let ?T = "map fst (take n ?L)"
    have "?T = butlast ?T @ [l]" using ne by (metis append_butlast_last_id l_def last_map list.map_disc_iff)
    then have "sorted_wrt (<) (butlast ?T @ [l])" and "x \<in> set (butlast ?T @ [l])" using st that by metis+
    then show ?thesis by (auto simp: sorted_wrt_append)
  qed
  have "l > i" using lin by (auto simp: points_after_def point_of_def dest: in_set_takeD)
  have "set (points_after l rows) = set (drop n ?L)"
  proof
    show "set (points_after l rows) \<subseteq> set (drop n ?L)"
    proof
      fix c assume c: "c \<in> set (points_after l rows)"
      then have "c \<in> set ?L" "l < fst c" using \<open>l > i\<close> by (auto simp: set_points_after)
      moreover have "c \<notin> set (take n ?L)" using upto [of "fst c"] \<open>l < fst c\<close> by auto
      ultimately show "c \<in> set (drop n ?L)" by (metis L Un_iff set_append)
    qed
    show "set (drop n ?L) \<subseteq> set (points_after l rows)"
    proof
      fix c assume c: "c \<in> set (drop n ?L)"
      then have "l < fst c" using lt lin by auto
      moreover have "c \<in> set ?L" using c by (rule in_set_dropD)
      ultimately show "c \<in> set (points_after l rows)" by (auto simp: set_points_after)
    qed
  qed
  from sorted_pairs_eq [OF s sd this] show ?thesis by (simp add: l_def)
qed

section \<open>Raising the totals\<close>

definition raised :: "(int \<times> int) list \<Rightarrow> (int \<Rightarrow> int) \<Rightarrow> int \<Rightarrow> int" where
  "raised cps f i = (case map_of cps i of None \<Rightarrow> f i | Some c \<Rightarrow> max (f i) c)"

definition totals_small :: "redis_db \<Rightarrow> bool" where
  "totals_small db \<longleftrightarrow> likes_ok db \<and> (\<forall>i. small (like_total db i))"

lemma small_text: "small c \<Longrightarrow> lua_text c = FormatInt c"
  by (simp add: small_def lua_text_def)

lemma restore_script:
  assumes "totals_small db" and "small c"
  shows "\<exists>db'. restoreLikeSnapshotScript i c t db = (Inr (), db') \<and> totals_small db'
    \<and> like_total db' = (like_total db)(i := max (like_total db i) c)"
proof -
  have ok: "counter_ok db (roomLikeTotalKey i)" using assms(1) by (simp add: totals_small_def likes_ok_def)
  have cur: "(case (if texts db (roomLikeTotalKey i) = None then None else Some (counter db (roomLikeTotalKey i))) of
      None \<Rightarrow> 0 | Some v \<Rightarrow> v) = like_total db i"
    using get_text_counter(3) [OF ok] by (auto simp: like_total_def)
  have s: "f64 (like_total db i) = like_total db i" "f64 c = c" "lua_text c = FormatInt c" "is_i64 c"
    using assms smallD(1,3) small_text by (simp_all add: totals_small_def)
  let ?db = "if like_total db i < c then set_text (roomLikeTotalKey i) (FormatInt c) None db else db"
  have "restoreLikeSnapshotScript i c t db = (Inr (), ?db)"
    by (simp add: restoreLikeSnapshotScript_def int_key_counter [OF ok] cur s)
  moreover have "like_total ?db = (like_total db)(i := max (like_total db i) c)"
    using s(4) by (auto simp: like_total_def fun_eq_iff)
  moreover have "likes_ok ?db" using assms(1) s(4) by (auto simp: totals_small_def likes_ok_def)
  ultimately show ?thesis using assms by (auto simp: totals_small_def max_def)
qed

lemma raised_Cons:
  assumes "i \<notin> set (map fst cps)"
  shows "raised ((i, c) # cps) f = raised cps (f(i := max (f i) c))"
proof -
  have "map_of cps i = None" using assms by (simp add: map_of_eq_None_iff)
  then show ?thesis by (auto simp: raised_def fun_eq_iff split: option.splits)
qed

lemma restore_page_quiet:
  assumes "faults w = []" and "distinct (map fst cps)" and "\<forall>c \<in> set cps. small (snd c)" and "totals_small db"
  shows "\<exists>db'. restore_page (NewSnapshotter shards window batch) cps (\<lparr>sw_redis = db, sw_points = pts\<rparr>, w)
      = (Inr [], (\<lparr>sw_redis = db', sw_points = pts\<rparr>, w)) \<and> totals_small db' \<and> like_total db' = raised cps (like_total db)"
  using assms(2-4)
proof (induction cps arbitrary: db)
  case Nil
  then show ?case by (simp add: raised_def fun_eq_iff)
next
  case (Cons c cps)
  obtain i n where c: "c = (i, n)" by fastforce
  obtain d1 where r: "restoreLikeSnapshotScript i n (rd_ms w) db = (Inr (), d1)" "totals_small d1"
    "like_total d1 = (like_total db)(i := max (like_total db i) n)"
    using restore_script [OF Cons.prems(3), of n i "rd_ms w"] Cons.prems(2) by (auto simp: c)
  obtain d2 where p: "restore_page (NewSnapshotter shards window batch) cps (\<lparr>sw_redis = d1, sw_points = pts\<rparr>, w)
      = (Inr [], (\<lparr>sw_redis = d2, sw_points = pts\<rparr>, w))" "totals_small d2" "like_total d2 = raised cps (like_total d1)"
    using Cons.IH [OF _ _ r(2)] Cons.prems(1,2) by auto
  have "sn_restore (NewSnapshotter shards window batch) i n (\<lparr>sw_redis = db, sw_points = pts\<rparr>, w)
      = (Inr (), (\<lparr>sw_redis = d1, sw_points = pts\<rparr>, w))"
    using assms(1) r(1) by (simp add: NewSnapshotter_def snap_redis_def zoom_def RestoreLikeSnapshot_def ext_quiet)
  with p r(3) Cons.prems(1) show ?case by (simp add: c handle_def raised_Cons)
qed

lemma raised_append:
  "distinct (map fst (xs @ ys)) \<Longrightarrow> raised ys (raised xs f) = raised (xs @ ys) f"
  by (auto simp: raised_def fun_eq_iff map_add_def split: option.splits dest!: map_of_SomeD) force

definition points_ok :: "checkpoint_row list \<Rightarrow> bool" where
  "points_ok rows \<longleftrightarrow> distinct (map cp_room rows) \<and> (\<forall>r \<in> set rows. 0 < cp_room r \<and> 0 \<le> cp_count r \<and> small (cp_count r))"

lemma recover_loop_quiet:
  assumes "faults w = []" and "0 < b" and "points_ok pts" and "totals_small db" and "length (points_after i pts) < k"
  shows "\<exists>db'. recover_loop k (NewSnapshotter shards window batch) b i (\<lparr>sw_redis = db, sw_points = pts\<rparr>, w)
      = (Inr (Some []), (\<lparr>sw_redis = db', sw_points = pts\<rparr>, w)) \<and> totals_small db'
      \<and> like_total db' = raised (points_after i pts) (like_total db)"
  using assms(4,5)
proof (induction k arbitrary: i db)
  case (Suc k)
  let ?s = "NewSnapshotter shards window batch" and ?L = "points_after i pts"
  let ?page = "take (nat b) ?L"
  have load: "sn_load ?s i b (\<lparr>sw_redis = db, sw_points = pts\<rparr>, w) = (Inr ?page, (\<lparr>sw_redis = db, sw_points = pts\<rparr>, w))"
    using assms(1)
    by (simp add: NewSnapshotter_def snap_points_def zoom_def LoadAfter_def read_ext_quiet points_after_def take_map point_of_def [abs_def])
  have dist: "distinct (map fst ?L)"
    using points_after_sorted [of pts i] assms(3) by (simp add: points_ok_def strict_sorted_iff)
  have sm: "\<forall>c \<in> set ?L. small (snd c)" using assms(3) by (auto simp: points_ok_def set_points_after)
  have dpage: "distinct (map fst ?page)" using dist by (simp add: take_map [symmetric])
  have smp: "\<forall>c \<in> set ?page. small (snd c)" using sm by (auto dest: in_set_takeD)
  obtain d1 where p: "restore_page ?s ?page (\<lparr>sw_redis = db, sw_points = pts\<rparr>, w)
      = (Inr [], (\<lparr>sw_redis = d1, sw_points = pts\<rparr>, w))" "totals_small d1" "like_total d1 = raised ?page (like_total db)"
    using restore_page_quiet [OF assms(1) dpage smp Suc.prems(1)] by blast
  show ?case
  proof (cases "int (length ?page) < b")
    case True
    then have "?page = ?L" by (auto simp: min_def split: if_splits)
    with p load True show ?thesis by (simp add: handle_def bind_def ret_def)
  next
    case False
    then have le: "nat b \<le> length ?L" "0 < nat b" using assms(2) by (auto simp: min_def split: if_splits)
    let ?l = "fst (last ?page)"
    have rest: "points_after ?l pts = drop (nat b) ?L"
      using points_after_page [OF _ le(2,1)] assms(3) by (simp add: points_ok_def)
    then have "length (points_after ?l pts) < k" using Suc.prems(2) le by simp
    then obtain d2 where r: "recover_loop k ?s b ?l (\<lparr>sw_redis = d1, sw_points = pts\<rparr>, w)
        = (Inr (Some []), (\<lparr>sw_redis = d2, sw_points = pts\<rparr>, w))" "totals_small d2"
        "like_total d2 = raised (points_after ?l pts) (like_total d1)"
      using Suc.IH [OF p(2)] by blast
    have "distinct (map fst (?page @ drop (nat b) ?L))" using dist by simp
    from raised_append [OF this] r(3) p(3) rest have "like_total d2 = raised ?L (like_total db)" by simp
    with r(1,2) p(1) load False show ?thesis by (simp add: handle_def bind_def ret_def)
  qed
qed simp

section \<open>Checkpoints never go down\<close>

definition saved :: "checkpoint_row list \<Rightarrow> int \<Rightarrow> int option" where
  "saved rows i = map_option cp_count (find (\<lambda>r. cp_room r = i) rows)"

definition saved_least :: "int \<Rightarrow> int \<Rightarrow> checkpoint_row list \<Rightarrow> bool" where
  "saved_least i c rows \<longleftrightarrow> (\<exists>c'. saved rows i = Some c' \<and> c \<le> c')"

lemma saved_upsert:
  assumes "\<And>r. cp_room (f r) = cp_room r" and "cp_room row = j"
  shows "saved (sql_upsert (\<lambda>r. cp_room r = j) f row rows) i
    = (if i = j then Some (case find (\<lambda>r. cp_room r = j) rows of None \<Rightarrow> cp_count row | Some r \<Rightarrow> cp_count (f r)) else saved rows i)"
proof (cases "list_ex (\<lambda>r. cp_room r = j) rows")
  case True
  then obtain r where r: "find (\<lambda>r. cp_room r = j) rows = Some r" "cp_room r = j"
    by (cases "find (\<lambda>r. cp_room r = j) rows") (auto simp: find_None_all list_ex_iff dest: find_Some_in)
  let ?g = "\<lambda>r. if cp_room r = j then f r else r"
  have g: "find (\<lambda>r. cp_room r = i) (map ?g rows) = map_option ?g (find (\<lambda>r. cp_room r = i) rows)"
    using assms(1) by (intro find_map_upd) simp
  show ?thesis
  proof (cases "find (\<lambda>r. cp_room r = i) rows")
    case None
    with r g True show ?thesis by (cases "i = j") (simp_all add: saved_def sql_upsert_def)
  next
    case (Some x)
    then have "cp_room x = i" using find_Some_in by fastforce
    with Some r g True show ?thesis by (cases "i = j") (simp_all add: saved_def sql_upsert_def)
  qed
next
  case False
  then have "find (\<lambda>r. cp_room r = j) rows = None" by (auto simp: find_None_all list_ex_iff)
  with False assms(2) show ?thesis
    by (auto simp: saved_def sql_upsert_def find_append split: option.splits)
qed

lemma saved_least_upsert:
  assumes "saved_least i c rows"
  shows "saved_least i c (sql_upsert (\<lambda>r. cp_room r = j) (\<lambda>r. r\<lparr>cp_count := max (cp_count r) n, cp_updated := t\<rparr>)
       \<lparr>cp_room = j, cp_count = n, cp_updated = t\<rparr> rows)"
proof -
  from assms obtain c' z where z: "find (\<lambda>r. cp_room r = i) rows = Some z" "cp_count z = c'" "c \<le> c'"
    by (auto simp: saved_least_def saved_def)
  then have "saved rows i = Some c'" by (simp add: saved_def)
  with z show ?thesis by (auto simp: saved_least_def saved_upsert)
qed

lemma keeps_Save: "keeps (saved_least i c) (Save j n)"
  unfolding Save_def by (rule keeps_ext) (auto intro: saved_least_upsert)

lemma keeps_snap_redis: "keeps (\<lambda>d. P (sw_points d)) (snap_redis m)"
  unfolding snap_redis_def by (rule keeps_zoom) (simp_all add: keeps_const)

lemma keeps_snap_points: "keeps P m \<Longrightarrow> keeps (\<lambda>d. P (sw_points d)) (snap_points m)"
  unfolding snap_points_def by (rule keeps_zoom) simp_all

lemma keeps_snapshot_rooms:
  "keeps (\<lambda>d. saved_least i c (sw_points d)) (snapshot_rooms (NewSnapshotter shards window batch) rooms)"
proof (induction rooms)
  case (Cons r rooms)
  have "keeps (\<lambda>d. saved_least i c (sw_points d)) (sn_total (NewSnapshotter shards window batch) r)"
    and "keeps (\<lambda>d. saved_least i c (sw_points d)) (sn_save (NewSnapshotter shards window batch) r n)" for n
    by (simp_all add: NewSnapshotter_def keeps_snap_redis keeps_snap_points keeps_Save)
  with Cons show ?case by (auto intro!: keeps_intro)
qed (simp add: keeps_intro)

lemma keeps_Tick: "keeps (\<lambda>d. saved_least i c (sw_points d)) (Snapshot_Tick (NewSnapshotter shards window batch))"
proof -
  have "keeps (\<lambda>d. saved_least i c (sw_points d)) (sn_active (NewSnapshotter shards window batch) since n)" for since n
    by (simp add: NewSnapshotter_def keeps_snap_redis)
  then show ?thesis
    unfolding Snapshot_Tick_def join_errors_def by (auto intro!: keeps_intro keeps_snapshot_rooms)
qed

section \<open>Properties\<close>

text \<open>
  C23. Recovery always ends. Whatever calls fail, the loop over the pages of checkpoints returns:
  one more step than there are checkpoints is enough, so it never runs out of fuel.
\<close>

theorem like_recovery_ends:
  "fst (Recover (Suc (length (sw_points d))) (NewSnapshotter shards window batch) (d, w)) \<noteq> Inr None"
proof -
  let ?s = "NewSnapshotter shards window batch" and ?k = "Suc (length (sw_points d))"
  let ?b = "if batch \<le> 0 then 1000 else batch"
  obtain r d' w' where l: "recover_loop ?k ?s ?b 0 (d, w) = (r, (d', w'))" by (metis prod.collapse)
  have "beyond 0 (sw_points d) < ?k" unfolding beyond_def using length_filter_le less_Suc_eq_le by blast
  moreover have "0 < ?b" by simp
  ultimately obtain es where r: "r = Inr (Some es)" using recover_loop_ends [OF _ _ l] by blast
  have "sn_batch ?s = batch" by (simp add: NewSnapshotter_def)
  with l r show ?thesis
    by (cases "batch \<le> 0") (simp_all add: Recover_def bind_def join_errors_def ret_def fail_def del: recover_loop.simps)
qed

text \<open>
  C22. Recovery restores the totals. When every call completes, it raises the total of each room
  to the room's checkpoint where it was lower, keeps every other total, changes no checkpoint,
  and reports success, for any batch size.
\<close>

theorem like_recovery_restores:
  assumes "faults w = []" and "points_ok pts" and "totals_small db" and "length pts < k"
  shows "\<exists>db'. Recover k (NewSnapshotter shards window batch) (\<lparr>sw_redis = db, sw_points = pts\<rparr>, w)
      = (Inr (Some ()), (\<lparr>sw_redis = db', sw_points = pts\<rparr>, w))
    \<and> (\<forall>i. like_total db' i = (case map_of (map point_of pts) i of None \<Rightarrow> like_total db i | Some c \<Rightarrow> max (like_total db i) c))"
proof -
  let ?b = "if batch \<le> 0 then 1000 else batch"
  have "length (points_after 0 pts) \<le> length pts" by (simp add: points_after_def)
  with assms(4) have "length (points_after 0 pts) < k" by simp
  moreover have "0 < ?b" by simp
  ultimately obtain db' where r: "recover_loop k (NewSnapshotter shards window batch) ?b 0 (\<lparr>sw_redis = db, sw_points = pts\<rparr>, w)
      = (Inr (Some []), (\<lparr>sw_redis = db', sw_points = pts\<rparr>, w))" "like_total db' = raised (points_after 0 pts) (like_total db)"
    using recover_loop_quiet [OF assms(1) _ assms(2,3)] by blast
  have "map_of (points_after 0 pts) i = map_of (map point_of pts) i" for i
  proof (rule map_of_inject_set [THEN iffD2, THEN fun_cong])
    show "distinct (map fst (points_after 0 pts))"
      using points_after_sorted [of pts 0] assms(2) by (simp add: points_ok_def strict_sorted_iff)
    show "distinct (map fst (map point_of pts))" using assms(2) by (simp add: points_ok_def point_of_def comp_def)
    show "set (points_after 0 pts) = set (map point_of pts)"
      using assms(2) by (auto simp: set_points_after point_of_def points_ok_def)
  qed
  then have "like_total db' i = (case map_of (map point_of pts) i of None \<Rightarrow> like_total db i | Some c \<Rightarrow> max (like_total db i) c)" for i
    by (simp add: r(2) raised_def)
  moreover have "sn_batch (NewSnapshotter shards window batch) = batch" by (simp add: NewSnapshotter_def)
  ultimately show ?thesis using r(1) by (cases "batch \<le> 0") (simp_all add: Recover_def bind_def join_errors_def ret_def)
qed

theorem like_recovery_restores_witness:
  "\<exists>db'. Recover 2 (NewSnapshotter 16 0 1) (\<lparr>sw_redis = \<lparr>texts = (\<lambda>_. None), zsets = (\<lambda>_. None)\<rparr>,
        sw_points = [\<lparr>cp_room = 5, cp_count = 42, cp_updated = 0\<rparr>]\<rparr>, at_rest)
      = (Inr (Some ()), (\<lparr>sw_redis = db', sw_points = [\<lparr>cp_room = 5, cp_count = 42, cp_updated = 0\<rparr>]\<rparr>, at_rest))
     \<and> like_total db' 5 = 42"
proof -
  let ?db = "\<lparr>texts = (\<lambda>_. None), zsets = (\<lambda>_. None)\<rparr>" and ?pts = "[\<lparr>cp_room = 5, cp_count = 42, cp_updated = 0\<rparr>]"
  have t: "like_total ?db i = 0" for i by (simp add: like_total_def counter_def)
  have "totals_small ?db" by (simp add: totals_small_def likes_ok_def counter_ok_def t small_def)
  moreover have "points_ok ?pts" by (simp add: points_ok_def small_def)
  moreover have "faults at_rest = []" by (simp add: at_rest_def)
  ultimately show ?thesis
    using like_recovery_restores [of at_rest ?pts ?db 2 16 0 1] t by (auto simp: point_of_def)
qed

text \<open>
  Checkpoints never go down. Whatever calls fail, a round of the snapshot worker leaves
  every room's checkpoint at least as high as it was, even when the total in Redis is lower.
\<close>

theorem like_checkpoints_monotone:
  assumes "saved (sw_points d) i = Some c" and "Snapshot_Tick (NewSnapshotter shards window batch) (d, w) = (r, (d', w'))"
  shows "\<exists>c' \<ge> c. saved (sw_points d') i = Some c'"
proof -
  have "saved_least i c (sw_points d)" using assms(1) by (simp add: saved_least_def)
  from keepsD [OF keeps_Tick this assms(2)] show ?thesis by (auto simp: saved_least_def)
qed

theorem like_checkpoints_monotone_witness:
  "\<exists>c' \<ge> 42. saved (sw_points (fst (snd (Snapshot_Tick (NewSnapshotter 16 0 1)
     (\<lparr>sw_redis = \<lparr>texts = (\<lambda>_. None), zsets = (\<lambda>_. None)\<rparr>, sw_points = [\<lparr>cp_room = 5, cp_count = 42, cp_updated = 0\<rparr>]\<rparr>, at_rest))))) 5 = Some c'"
proof -
  let ?d = "\<lparr>sw_redis = \<lparr>texts = (\<lambda>_. None), zsets = (\<lambda>_. None)\<rparr>, sw_points = [\<lparr>cp_room = 5, cp_count = 42, cp_updated = 0\<rparr>]\<rparr>"
  obtain r d' w' where t: "Snapshot_Tick (NewSnapshotter 16 0 1) (?d, at_rest) = (r, (d', w'))" by (metis prod.collapse)
  have "saved (sw_points ?d) 5 = Some 42" by (simp add: saved_def)
  from like_checkpoints_monotone [OF this t] show ?thesis unfolding t by simp
qed

end
