(* ===== verification/Stats.thy ===== *)
theory Stats
  imports Platform Redis_Counters
begin

text \<open>
  \<^verbatim>\<open>internal/stats\<close> and \<^verbatim>\<open>internal/viewer\<close>: the room statistics, the aggregator that publishes
  them, and the presence of viewers. The aggregator works over any store and publisher; the
  locale \<open>stats_ports\<close> says what it relies on.
\<close>

section \<open>Statistics\<close>

record Snapshot =
  st_viewers :: int
  st_likes :: int
  st_delta :: int

definition snapshot_json :: "Snapshot \<Rightarrow> json" where
  "snapshot_json s = JObj [(''viewer_count'', JInt (st_viewers s)), (''like_count'', JInt (st_likes s)),
     (''like_delta'', JInt (st_delta s))]"

record 'd StatsStore =
  ss_active :: "int \<Rightarrow> int \<Rightarrow> ('d, int list) prog"
  ss_take :: "int \<Rightarrow> ('d, int) prog"
  ss_restore :: "int \<Rightarrow> int \<Rightarrow> ('d, unit) prog"
  ss_snapshot :: "int \<Rightarrow> ('d, Snapshot) prog"
  ss_last :: "int \<Rightarrow> ('d, int option) prog"
  ss_set_last :: "int \<Rightarrow> int \<Rightarrow> int \<Rightarrow> ('d, unit) prog"

text \<open>\<^verbatim>\<open>RedisStore\<close>: the operations of the Redis store, and the snapshot without a delta.\<close>

definition Stats_Snapshot :: "int \<Rightarrow> (redis_db, Snapshot) prog" where
  "Stats_Snapshot roomID = bind (Redis_EngagementSnapshot roomID) (\<lambda>v.
     ret \<lparr>st_viewers = es_viewers v, st_likes = es_likes v, st_delta = 0\<rparr>)"

definition redis_stats :: "int \<Rightarrow> live StatsStore" where
  "redis_stats shards =
     \<lparr>ss_active = (\<lambda>since n. at_redis (ActiveRooms shards since n)),
      ss_take = (\<lambda>i. at_redis (TakeLikeDelta i)),
      ss_restore = (\<lambda>i n. at_redis (RestoreLikeDelta shards i n)),
      ss_snapshot = (\<lambda>i. at_redis (Stats_Snapshot i)),
      ss_last = (\<lambda>i. at_redis (LastPublishedViewer i)),
      ss_set_last = (\<lambda>i n ttl. at_redis (SetPublishedViewer i n ttl))\<rparr>"

definition Stats_Get :: "'d StatsStore \<Rightarrow> int \<Rightarrow> ('d, Snapshot) prog" where
  "Stats_Get s roomID = ss_snapshot s roomID"

section \<open>The aggregator\<close>

record 'd Aggregator =
  ag_store :: "'d StatsStore"
  ag_publish :: "string \<Rightarrow> json \<Rightarrow> ('d, unit) prog"
  ag_window :: int
  ag_batch :: int

definition give_back :: "'d Aggregator \<Rightarrow> int \<Rightarrow> int \<Rightarrow> ('d, unit) prog" where
  "give_back a roomID delta = (if delta > 0 then ignore (ss_restore (ag_store a) roomID delta) else ret ())"

text \<open>The body of the loop over the rooms; every error is logged and the loop goes on.\<close>

definition stats_room :: "'d Aggregator \<Rightarrow> int \<Rightarrow> ('d, unit) prog" where
  "stats_room a roomID =
     handle (ss_take (ag_store a) roomID) (\<lambda>_. ret ()) (\<lambda>delta.
     handle (ss_snapshot (ag_store a) roomID) (\<lambda>_. give_back a roomID delta) (\<lambda>snap0.
     let snap = snap0\<lparr>st_delta := delta\<rparr> in
     handle (ss_last (ag_store a) roomID) (\<lambda>_. give_back a roomID delta) (\<lambda>previous.
     let viewerChanged = (previous \<noteq> Some (st_viewers snap)) in
     if delta = 0 \<and> \<not> viewerChanged then ret ()
     else bind idgen_New (\<lambda>i.
       bind (NewPriorityEvent i ''stats'' roomID ''P4'' (snapshot_json snap)) (\<lambda>wire.
       handle (ag_publish a (RoomStats roomID) (event_json wire)) (\<lambda>_. give_back a roomID delta) (\<lambda>_.
       ignore (ss_set_last (ag_store a) roomID (st_viewers snap) (i64 (2 * ag_window a)))))))))"

definition Stats_Tick :: "'d Aggregator \<Rightarrow> ('d, unit) prog" where
  "Stats_Tick a =
     bind now (\<lambda>t.
     bind (ss_active (ag_store a) (t - ag_window a) (ag_batch a)) (each (stats_room a)))"

definition NewAggregator :: "http_server \<Rightarrow> Centrifugo \<Rightarrow> int \<Rightarrow> int \<Rightarrow> int \<Rightarrow> live Aggregator" where
  "NewAggregator server c shards window batch =
     \<lparr>ag_store = redis_stats shards, ag_publish = (\<lambda>ch j. at_realtime (Publish server c ch j)), ag_window = window, ag_batch = batch\<rparr>"

section \<open>Viewers\<close>

record 'd ViewerStore =
  vs_touch :: "int \<Rightarrow> int \<Rightarrow> int \<Rightarrow> ('d, int) prog"
  vs_top :: "int \<Rightarrow> int \<Rightarrow> ('d, int list) prog"
  vs_add_gift :: "int \<Rightarrow> int \<Rightarrow> int \<Rightarrow> ('d, unit) prog"
  vs_online :: "int \<Rightarrow> int \<Rightarrow> ('d, int list) prog"
  vs_remove :: "int \<Rightarrow> int \<Rightarrow> ('d, int) prog"

record 'd ViewerService =
  vw_store :: "'d ViewerStore"
  vw_ttl :: int

record ViewerResult =
  vr_count :: int
  vr_expires_in :: int

definition Viewer_Top :: "'d ViewerService \<Rightarrow> int \<Rightarrow> ('d, int list) prog" where
  "Viewer_Top s roomID = vs_top (vw_store s) roomID 3"

definition Viewer_AddGiftValue :: "'d ViewerService \<Rightarrow> int \<Rightarrow> int \<Rightarrow> int \<Rightarrow> ('d, unit) prog" where
  "Viewer_AddGiftValue s roomID userID v = vs_add_gift (vw_store s) roomID userID v"

definition Viewer_Online :: "'d ViewerService \<Rightarrow> int \<Rightarrow> ('d, int list) prog" where
  "Viewer_Online s roomID = vs_online (vw_store s) roomID 100"

definition Viewer_Leave :: "'d ViewerService \<Rightarrow> int \<Rightarrow> int \<Rightarrow> ('d, int) prog" where
  "Viewer_Leave s roomID userID = vs_remove (vw_store s) roomID userID"

definition Viewer_NewService :: "'d ViewerStore \<Rightarrow> int \<Rightarrow> 'd ViewerService" where
  "Viewer_NewService store ttl = \<lparr>vw_store = store, vw_ttl = ttl\<rparr>"

definition Viewer_Touch :: "'d ViewerService \<Rightarrow> int \<Rightarrow> int \<Rightarrow> ('d, ViewerResult) prog" where
  "Viewer_Touch s roomID userID =
     bind (vs_touch (vw_store s) roomID userID (vw_ttl s)) (\<lambda>count.
     ret \<lparr>vr_count = count, vr_expires_in = go_quot (vw_ttl s) second\<rparr>)"

definition redis_viewers :: "(viewer_row list \<Rightarrow> viewer_row list) \<Rightarrow> int \<Rightarrow> live ViewerStore" where
  "redis_viewers srt shards =
     \<lparr>vs_touch = (\<lambda>i u ttl. at_redis (TouchViewer shards i u ttl)), vs_top = (\<lambda>i n. at_redis (TopViewers srt i n)),
      vs_add_gift = (\<lambda>i u v. at_redis (AddViewerGiftValue i u v)), vs_online = (\<lambda>i n. at_redis (OnlineViewers srt i n)),
      vs_remove = (\<lambda>i u. at_redis (RemoveViewer i u))\<rparr>"

section \<open>A round of the aggregator\<close>

lemma idgen_quiet:
  assumes "faults w = []"
  obtains ident w1 where "idgen_New (d, w) = (Inr ident, (d, w1))" and "faults w1 = []"
proof (cases "entropy w")
  case Nil
  with assms show ?thesis by (intro that) (auto simp: idgen_New_def)
next
  case (Cons b es)
  with assms show ?thesis
    by (intro that [of "case b of Some x \<Rightarrow> hex_encode x | None \<Rightarrow> FormatInt (go_now w)" "w\<lparr>entropy := es\<rparr>"])
      (auto simp: idgen_New_def split: option.splits)
qed

text \<open>
  What a round relies on when no call fails: the delta is taken and given back exactly, a
  publication is accepted or refused, and nothing else touches deltas or accepted messages.
\<close>

locale stats_ports =
  fixes a :: "'d Aggregator" and delta :: "'d \<Rightarrow> int \<Rightarrow> int" and accepted :: "'d \<Rightarrow> 'm list"
    and msg :: "string \<Rightarrow> json \<Rightarrow> 'm" and sound :: "'d \<Rightarrow> bool"
  assumes delta_i64: "sound d \<Longrightarrow> is_i64 (delta d i)"
    and take_quiet: "faults w = [] \<Longrightarrow> sound d \<Longrightarrow> \<exists>d'. ss_take (ag_store a) i (d, w) = (Inr (delta d i), (d', w))
      \<and> sound d' \<and> delta d' = (delta d)(i := 0) \<and> accepted d' = accepted d"
    and restore_quiet: "faults w = [] \<Longrightarrow> sound d \<Longrightarrow> delta d i = 0 \<Longrightarrow> 0 < n \<Longrightarrow> is_i64 n \<Longrightarrow>
      \<exists>d'. ss_restore (ag_store a) i n (d, w) = (Inr (), (d', w))
      \<and> sound d' \<and> delta d' = (delta d)(i := n) \<and> accepted d' = accepted d"
    and snapshot_quiet: "faults w = [] \<Longrightarrow> sound d \<Longrightarrow> \<exists>x d'. ss_snapshot (ag_store a) i (d, w) = (x, (d', w))
      \<and> sound d' \<and> delta d' = delta d \<and> accepted d' = accepted d"
    and last_quiet: "faults w = [] \<Longrightarrow> sound d \<Longrightarrow> \<exists>y. ss_last (ag_store a) i (d, w) = (y, (d, w))"
    and set_last_quiet: "faults w = [] \<Longrightarrow> sound d \<Longrightarrow> \<exists>z d'. ss_set_last (ag_store a) i n t (d, w) = (z, (d', w))
      \<and> sound d' \<and> delta d' = delta d \<and> accepted d' = accepted d"
    and publish_quiet: "faults w = [] \<Longrightarrow> sound d \<Longrightarrow> \<exists>p d'. ag_publish a ch j (d, w) = (p, (d', w))
      \<and> sound d' \<and> delta d' = delta d \<and> accepted d' = accepted d @ (if p = Inr () then [msg ch j] else [])"
begin

text \<open>The message of a room that reports a delta.\<close>

definition reports :: "int \<Rightarrow> int \<Rightarrow> 'm \<Rightarrow> bool" where
  "reports i n m \<longleftrightarrow> (\<exists>e s. m = msg (RoomStats i) (event_json e) \<and> ev_room_id e = i \<and> ev_type e = ''stats''
     \<and> ev_data e = snapshot_json s \<and> st_delta s = n)"

lemma give_back_quiet:
  assumes "faults w = []" and "sound d" and "delta d i = 0" and "is_i64 n" and "0 \<le> n"
  shows "\<exists>d'. give_back a i n (d, w) = (Inr (), (d', w)) \<and> sound d' \<and> delta d' = (delta d)(i := n) \<and> accepted d' = accepted d"
proof (cases "0 < n")
  case True
  from restore_quiet [OF assms(1-3) this assms(4)] True show ?thesis by (auto simp: give_back_def ignore_def)
next
  case False
  with assms have "n = 0" by simp
  with assms show ?thesis by (auto simp: give_back_def ret_def)
qed

lemma room_quiet:
  assumes "faults w = []" and "sound d" and "0 \<le> delta d i"
  shows "\<exists>d' w'. stats_room a i (d, w) = (Inr (), (d', w')) \<and> faults w' = [] \<and> sound d'
    \<and> ((delta d' = delta d \<and> accepted d' = accepted d)
       \<or> (delta d' = (delta d)(i := 0) \<and> (\<exists>m. accepted d' = accepted d @ [m] \<and> reports i (delta d i) m)))"
proof -
  obtain d1 where t: "ss_take (ag_store a) i (d, w) = (Inr (delta d i), (d1, w))" and d1: "sound d1"
    "delta d1 = (delta d)(i := 0)" "accepted d1 = accepted d" using take_quiet [OF assms(1,2)] by blast
  obtain x d2 where s: "ss_snapshot (ag_store a) i (d1, w) = (x, (d2, w))" and d2: "sound d2" "delta d2 = delta d1"
    "accepted d2 = accepted d1" using snapshot_quiet [OF assms(1) d1(1)] by blast
  have z: "delta d2 i = 0" using d2 d1 by simp
  note i64 = delta_i64 [OF assms(2), of i]
  have returned: "\<exists>d'. give_back a i (delta d i) (d3, w3) = (Inr (), (d', w3)) \<and> sound d' \<and> delta d' = delta d \<and> accepted d' = accepted d"
    if "faults w3 = []" "sound d3" "delta d3 = delta d2" "accepted d3 = accepted d2" for d3 w3
  proof -
    have "(delta d3)(i := delta d i) = delta d" using that(3) d2(2) d1(2) by auto
    moreover have "delta d3 i = 0" using z that(3) by simp
    ultimately show ?thesis using give_back_quiet [OF that(1,2) _ i64 assms(3), of i] that(4) d2(3) d1(3) by simp
  qed
  show ?thesis
  proof (cases x)
    case (Inl e)
    with returned [OF assms(1) d2(1)] t s assms(1) show ?thesis by (auto simp: stats_room_def handle_def)
  next
    case (Inr snap)
    obtain y where l: "ss_last (ag_store a) i (d2, w) = (y, (d2, w))" using last_quiet [OF assms(1) d2(1)] by blast
    show ?thesis
    proof (cases y)
      case (Inl e)
      with returned [OF assms(1) d2(1)] t s Inr l assms(1) show ?thesis by (auto simp: stats_room_def handle_def Let_def)
    next
      case y: (Inr previous)
      show ?thesis
      proof (cases "delta d i = 0 \<and> previous = Some (st_viewers snap)")
        case True
        with t s Inr l y assms(1) d1 d2 show ?thesis
          by (auto simp: stats_room_def handle_def Let_def ret_def fun_eq_iff)
      next
        case False
        obtain ident w1 where g: "idgen_New (d2, w) = (Inr ident, (d2, w1))" and w1: "faults w1 = []"
          using idgen_quiet [OF assms(1)] by metis
        let ?e = "\<lparr>ev_event_id = ident, ev_type = ''stats'', ev_room_id = i, ev_priority = ''P4'',
            ev_timestamp = unix_milli (go_now w1), ev_data = snapshot_json (snap\<lparr>st_delta := delta d i\<rparr>)\<rparr>"
        obtain p d3 where pub: "ag_publish a (RoomStats i) (event_json ?e) (d2, w1) = (p, (d3, w1))" and d3: "sound d3"
          "delta d3 = delta d2" "accepted d3 = accepted d2 @ (if p = Inr () then [msg (RoomStats i) (event_json ?e)] else [])"
          using publish_quiet [OF w1 d2(1)] by blast
        have run: "stats_room a i (d, w) = (case p of Inl e \<Rightarrow> give_back a i (delta d i) (d3, w1)
            | Inr _ \<Rightarrow> ignore (ss_set_last (ag_store a) i (st_viewers snap) (i64 (2 * ag_window a))) (d3, w1))"
          using t s Inr l y False g pub
          by (auto simp: stats_room_def handle_def Let_def bind_def NewPriorityEvent_def now_def ret_def)
        show ?thesis
        proof (cases p)
          case (Inl e)
          with returned [OF w1 d3(1,2)] d3(3) run w1 show ?thesis by auto
        next
          case p: (Inr u)
          then have "p = Inr ()" by simp
          obtain q d4 where sl: "ss_set_last (ag_store a) i (st_viewers snap) (i64 (2 * ag_window a)) (d3, w1) = (q, (d4, w1))"
            and d4: "sound d4" "delta d4 = delta d3" "accepted d4 = accepted d3" using set_last_quiet [OF w1 d3(1)] by blast
          have "reports i (delta d i) (msg (RoomStats i) (event_json ?e))" unfolding reports_def
            by (rule exI [of _ ?e], rule exI [of _ "snap\<lparr>st_delta := delta d i\<rparr>"]) simp
          with run p sl d4 d3 d2 d1 \<open>p = Inr ()\<close> w1 show ?thesis by (auto simp: ignore_def)
        qed
      qed
    qed
  qed
qed

text \<open>The accepted messages of a round and the deltas they report.\<close>

definition reported :: "int \<Rightarrow> (int \<times> int \<times> 'm) list \<Rightarrow> int" where
  "reported i ps = sum_list (map (\<lambda>(r, n, m). if r = i then n else 0) ps)"

lemma rooms_quiet:
  assumes "faults w = []" and "sound d" and "\<And>i. 0 \<le> delta d i"
  shows "\<exists>d' w' ps. each (stats_room a) rooms (d, w) = (Inr (), (d', w')) \<and> faults w' = [] \<and> sound d'
    \<and> accepted d' = accepted d @ map (\<lambda>(r, n, m). m) ps \<and> (\<forall>(r, n, m) \<in> set ps. reports r n m)
    \<and> (\<forall>i. delta d i = delta d' i + reported i ps)"
  using assms
proof (induction rooms arbitrary: d w)
  case Nil
  then show ?case by (intro exI [of _ d] exI [of _ w] exI [of _ "[]"]) (simp add: ret_def reported_def)
next
  case (Cons r rooms)
  obtain d1 w1 where run: "stats_room a r (d, w) = (Inr (), (d1, w1))" and w1: "faults w1 = []" and s1: "sound d1"
    and d1: "(delta d1 = delta d \<and> accepted d1 = accepted d)
       \<or> (delta d1 = (delta d)(r := 0) \<and> (\<exists>m. accepted d1 = accepted d @ [m] \<and> reports r (delta d r) m))"
    using room_quiet [OF Cons.prems(1,2), of r] Cons.prems(3) by blast
  have nn: "0 \<le> delta d1 i" for i using d1 Cons.prems(3) by auto
  obtain d2 w2 ps where rest: "each (stats_room a) rooms (d1, w1) = (Inr (), (d2, w2))" "faults w2 = []" "sound d2"
    "accepted d2 = accepted d1 @ map (\<lambda>(r, n, m). m) ps" "\<forall>(r, n, m) \<in> set ps. reports r n m"
    "\<forall>i. delta d1 i = delta d2 i + reported i ps"
    using Cons.IH [OF w1 s1 nn] by blast
  have run2: "each (stats_room a) (r # rooms) (d, w) = (Inr (), (d2, w2))" using run rest(1) by (simp add: bind_def)
  from d1 show ?case
  proof (elim disjE conjE exE)
    assume "delta d1 = delta d" "accepted d1 = accepted d"
    then have "accepted d2 = accepted d @ map (\<lambda>(r, n, m). m) ps" "\<forall>i. delta d i = delta d2 i + reported i ps"
      using rest(4,6) by simp_all
    with run2 rest(2,3,5) show ?thesis by blast
  next
    fix m assume e: "delta d1 = (delta d)(r := 0)" "accepted d1 = accepted d @ [m]" "reports r (delta d r) m"
    have "delta d i = delta d2 i + reported i ((r, delta d r, m) # ps)" for i
      using rest(6) [rule_format, of i] e(1) by (cases "i = r") (auto simp: reported_def)
    then have "\<forall>i. delta d i = delta d2 i + reported i ((r, delta d r, m) # ps)" by blast
    moreover have "accepted d2 = accepted d @ map (\<lambda>(r, n, m). m) ((r, delta d r, m) # ps)"
      "\<forall>(r', n, m') \<in> set ((r, delta d r, m) # ps). reports r' n m'" using rest(4,5) e(2,3) by auto
    ultimately show ?thesis using run2 rest(2,3) by blast
  qed
qed

end

end
