(* ===== verification/Stats_Rounds.thy ===== *)
theory Stats_Rounds
  imports Stats Like_Counting Gift_Delivery
begin

text \<open>
  The aggregator on Redis and the realtime server: which messages the server accepted, and that
  a round of the aggregator loses no like.
\<close>

section \<open>What the server accepted\<close>

definition body_accepted :: "int \<Rightarrow> string \<Rightarrow> bool" where
  "body_accepted code body \<longleftrightarrow> 200 \<le> code \<and> code < 300
     \<and> (let raw = take 1048576 body in raw = [] \<or> (case publishResponse raw of Some (Some e) \<Rightarrow> False | _ \<Rightarrow> True))"

definition accepts :: "http_server \<Rightarrow> http_log \<Rightarrow> http_request \<Rightarrow> bool" where
  "accepts server log rq \<longleftrightarrow> (case server log rq of (code, body) \<Rightarrow> body_accepted code body)"

definition accepted_requests :: "http_server \<Rightarrow> http_log \<Rightarrow> http_request list" where
  "accepted_requests server log = map (\<lambda>k. log ! k) (filter (\<lambda>k. accepts server (take k log) (log ! k)) [0..<length log])"

lemma accepted_requests_snoc:
  "accepted_requests server (log @ [rq]) = accepted_requests server log @ (if accepts server log rq then [rq] else [])"
proof -
  have "filter (\<lambda>k. accepts server (take k (log @ [rq])) ((log @ [rq]) ! k)) [0..<length log]
      = filter (\<lambda>k. accepts server (take k log) (log ! k)) [0..<length log]"
    by (intro filter_cong) (auto simp: nth_append)
  moreover have "map (\<lambda>k. (log @ [rq]) ! k) (filter P [0..<length log]) = map (\<lambda>k. log ! k) (filter P [0..<length log])" for P
    by (intro map_cong) (auto simp: nth_append)
  ultimately show ?thesis by (simp add: accepted_requests_def)
qed

lemma Publish_answer:
  assumes "faults w = []"
  shows "\<exists>p. Publish server c ch j (log, w) = (p, (log @ [publish_request c ch j], w))
    \<and> (p = Inr () \<longleftrightarrow> accepts server log (publish_request c ch j))"
proof -
  obtain code body where a: "server log (publish_request c ch j) = (code, body)" by fastforce
  show ?thesis
    using assms
    by (auto simp: Publish_def handle_def http_do_def ext_quiet a api_answer_def read_body_def read_ext_quiet accepts_def
        body_accepted_def Let_def fail_def ret_def split: option.splits)
qed

section \<open>The store\<close>

lemma take_delta_quiet:
  assumes "faults w = []" and "likes_ok db"
  shows "\<exists>db'. TakeLikeDelta i (db, w) = (Inr (like_delta db i), (db', w)) \<and> likes_ok db'
    \<and> like_delta db' = (like_delta db)(i := 0)"
proof -
  have ok: "counter_ok db (roomLikeDeltaKey i)" using assms(2) by (simp add: likes_ok_def)
  let ?db = "if texts db (roomLikeDeltaKey i) = None then db else del_text (roomLikeDeltaKey i) db"
  have "TakeLikeDelta i (db, w) = (Inr (like_delta db i), (?db, w))"
    using assms(1) get_text_counter(3) [OF ok] by (simp add: TakeLikeDelta_def ext_quiet int_key_counter [OF ok] like_delta_def)
  moreover have "likes_ok ?db" using assms(2) by (auto simp: likes_ok_def) (metis counter_del(2) counter_set_other(4))
  moreover have "like_delta ?db = (like_delta db)(i := 0)"
    using get_text_counter(3) [OF ok] by (auto simp: like_delta_def fun_eq_iff)
  ultimately show ?thesis by blast
qed

lemma restore_delta_quiet:
  assumes "faults w = []" and "likes_ok db" and "like_delta db i = 0" and "0 < n" and "is_i64 n"
  shows "\<exists>db'. RestoreLikeDelta shards i n (db, w) = (Inr (), (db', w)) \<and> likes_ok db' \<and> like_delta db' = (like_delta db)(i := n)"
proof -
  let ?d1 = "zadd (rd_ms w) (activeStatsRoomsKey (activeRoomShard shards i)) (unix_milli (go_now w)) (FormatInt i) db"
  have ok: "counter_ok ?d1 (roomLikeDeltaKey i)" using assms(2) by (simp add: likes_ok_def)
  have z: "counter ?d1 (roomLikeDeltaKey i) = 0" using assms(3) by (simp add: like_delta_def)
  let ?d2 = "set_text (roomLikeDeltaKey i) (FormatInt n) None ?d1"
  have "RestoreLikeDelta shards i n (db, w) = (Inr (), (?d2, w))"
    using assms(1,4,5) incr_by_counter [OF ok, of "rd_ms w" n] z
    by (simp add: RestoreLikeDelta_def index_room_def bind_def now_def ext_quiet ret_def)
  moreover have "likes_ok ?d2" using assms(2,5) by (simp add: likes_ok_def)
  moreover have "like_delta ?d2 = (like_delta db)(i := n)" using assms(5) by (auto simp: like_delta_def fun_eq_iff)
  ultimately show ?thesis by blast
qed

lemma snapshot_quiet:
  assumes "faults w = []"
  shows "\<exists>x db'. Stats_Snapshot i (db, w) = (x, (db', w)) \<and> texts db' = texts db"
proof -
  obtain v db' where s: "snapshotScript i (unix_milli (go_now w)) (rd_ms w) db = (v, db')" by fastforce
  then have "texts db' = texts db" by (auto simp: snapshotScript_def Let_def)
  with assms s show ?thesis
    by (auto simp: Stats_Snapshot_def Redis_EngagementSnapshot_def bind_def now_def ext_quiet fail_def ret_def
        split: prod.splits option.splits)
qed

lemma set_last_quiet:
  assumes "faults w = []" and "likes_ok db"
  shows "\<exists>z db'. SetPublishedViewer i n t (db, w) = (z, (db', w)) \<and> likes_ok db' \<and> like_delta db' = like_delta db"
  using assms
  by (auto simp: SetPublishedViewer_def set_cmd_def ext_quiet likes_ok_def like_delta_def fun_eq_iff)

interpretation live_stats: stats_ports "NewAggregator server c shards window batch" "\<lambda>d. like_delta (lv_redis d)"
  "\<lambda>d. accepted_requests server (lv_http d)" "publish_request c" "\<lambda>d. likes_ok (lv_redis d)"
proof unfold_locales
  fix d :: live and w :: io and i n t :: int and ch :: string and j :: json
  let ?a = "NewAggregator server c shards window batch"
  assume ok: "likes_ok (lv_redis d)"
  show "is_i64 (like_delta (lv_redis d) i)"
    using ok counter_ok_i64 by (simp add: likes_ok_def like_delta_def)
  assume q: "faults w = []"
  show "\<exists>d'. ss_take (ag_store ?a) i (d, w) = (Inr (like_delta (lv_redis d) i), (d', w)) \<and> likes_ok (lv_redis d')
      \<and> like_delta (lv_redis d') = (like_delta (lv_redis d))(i := 0) \<and> accepted_requests server (lv_http d') = accepted_requests server (lv_http d)"
    using take_delta_quiet [OF q ok, of i] by (fastforce simp: NewAggregator_def redis_stats_def intro: at_quiet)
  show "\<exists>d'. ss_restore (ag_store ?a) i n (d, w) = (Inr (), (d', w)) \<and> likes_ok (lv_redis d')
      \<and> like_delta (lv_redis d') = (like_delta (lv_redis d))(i := n) \<and> accepted_requests server (lv_http d') = accepted_requests server (lv_http d)"
    if "like_delta (lv_redis d) i = 0" "0 < n" "is_i64 n"
    using restore_delta_quiet [OF q ok that, of shards] by (fastforce simp: NewAggregator_def redis_stats_def intro: at_quiet)
  show "\<exists>x d'. ss_snapshot (ag_store ?a) i (d, w) = (x, (d', w)) \<and> likes_ok (lv_redis d')
      \<and> like_delta (lv_redis d') = like_delta (lv_redis d) \<and> accepted_requests server (lv_http d') = accepted_requests server (lv_http d)"
  proof -
    obtain x db' where "Stats_Snapshot i (lv_redis d, w) = (x, (db', w))" "texts db' = texts (lv_redis d)"
      using snapshot_quiet [OF q] by blast
    with likes_texts [of db' "lv_redis d"] ok show ?thesis
      by (intro exI [of _ x] exI [of _ "d\<lparr>lv_redis := db'\<rparr>"]) (simp add: NewAggregator_def redis_stats_def at_quiet)
  qed
  show "\<exists>y. ss_last (ag_store ?a) i (d, w) = (y, (d, w))"
    using q by (simp add: NewAggregator_def redis_stats_def at_redis_def zoom_def LastPublishedViewer_def read_ext_quiet)
  show "\<exists>z d'. ss_set_last (ag_store ?a) i n t (d, w) = (z, (d', w)) \<and> likes_ok (lv_redis d')
      \<and> like_delta (lv_redis d') = like_delta (lv_redis d) \<and> accepted_requests server (lv_http d') = accepted_requests server (lv_http d)"
    using set_last_quiet [OF q ok, of i n t] by (fastforce simp: NewAggregator_def redis_stats_def intro: at_quiet)
  show "\<exists>p d'. ag_publish ?a ch j (d, w) = (p, (d', w)) \<and> likes_ok (lv_redis d')
      \<and> like_delta (lv_redis d') = like_delta (lv_redis d)
      \<and> accepted_requests server (lv_http d') = accepted_requests server (lv_http d) @ (if p = Inr () then [publish_request c ch j] else [])"
  proof -
    obtain p where "Publish server c ch j (lv_http d, w) = (p, (lv_http d @ [publish_request c ch j], w))"
      "p = Inr () \<longleftrightarrow> accepts server (lv_http d) (publish_request c ch j)"
      using Publish_answer [OF q] by blast
    with ok show ?thesis
      by (intro exI [of _ p] exI [of _ "d\<lparr>lv_http := lv_http d @ [publish_request c ch j]\<rparr>"])
        (simp add: NewAggregator_def at_quiet accepted_requests_snoc)
  qed
qed

section \<open>Properties\<close>

lemma ActiveRooms_texts: "keeps (\<lambda>db. texts db = t) (ActiveRooms shards since n)"
proof -
  have page: "keeps (\<lambda>db. texts db = t) (shard_page since m s)" for m s
    unfolding shard_page_def by (rule keeps_ext) (simp add: Let_def)
  have "keeps (\<lambda>db. texts db = t) (scan_shards since m l ss out)" for m l ss out
    by (induction ss arbitrary: out) (auto intro!: keeps_intro page)
  then show ?thesis by (simp add: ActiveRooms_def Let_def)
qed

lemma ActiveRooms_quiet:
  assumes "faults w = []"
  shows "\<exists>x db'. ActiveRooms shards since n (db, w) = (x, (db', w)) \<and> texts db' = texts db"
proof -
  have page: "\<exists>x db'. shard_page since m s (db, w) = (x, (db', w))" for m s db
    using assms by (auto simp: shard_page_def ext_quiet split: prod.splits)
  have "\<exists>x db'. scan_shards since m l ss out (db, w) = (x, (db', w))" for m l ss out db
  proof (induction ss arbitrary: out db)
    case Nil
    then show ?case by (simp add: ret_def)
  next
    case (Cons s ss)
    obtain x db' where p: "shard_page since m s (db, w) = (x, (db', w))" using page by blast
    show ?case
    proof (cases x)
      case (Inl e)
      with p show ?thesis by (simp add: bind_def)
    next
      case (Inr v)
      with p Cons.IH [of _ db'] show ?thesis by (simp add: bind_def fail_def ret_def split: sum.splits option.splits)
    qed
  qed
  then obtain x db' where r: "ActiveRooms shards since n (db, w) = (x, (db', w))"
    unfolding ActiveRooms_def Let_def by blast
  with keepsD [OF ActiveRooms_texts refl r] show ?thesis by blast
qed

text \<open>A publication to the room's statistics channel that reports \<open>n\<close> likes.\<close>

definition like_report :: "Centrifugo \<Rightarrow> int \<Rightarrow> int \<Rightarrow> http_request \<Rightarrow> bool" where
  "like_report c i n rq \<longleftrightarrow> (\<exists>e s. rq = publish_request c (RoomStats i) (event_json e) \<and> ev_room_id e = i
     \<and> ev_type e = ''stats'' \<and> ev_data e = snapshot_json s \<and> st_delta s = n)"

definition likes_reported :: "int \<Rightarrow> (int \<times> int \<times> http_request) list \<Rightarrow> int" where
  "likes_reported i ps = sum_list (map (\<lambda>(r, n, m). if r = i then n else 0) ps)"

lemma live_reports: "stats_ports.reports (publish_request c) i n m = like_report c i n m"
  by (auto simp: live_stats.reports_def like_report_def)

text \<open>
  C21. A round in which every call of Redis and of the realtime server completes loses no like and
  reports none twice, whether the server takes or refuses the messages: the messages it accepted
  during the round are, in order, the reports of single rooms, and for every room the likes waiting
  before the round are the likes reported by those messages and the likes still waiting after it. A
  refused message leaves the room's likes waiting for the next round. (When a call is lost this does
  not hold: the delta is taken before it is reported, and a lost answer to the taking loses it.)
\<close>

theorem stats_round_conserves_likes:
  assumes "faults w = []" and "likes_ok (lv_redis d)" and "\<forall>i. 0 \<le> like_delta (lv_redis d) i"
  shows "\<exists>r d' w' ps. Stats_Tick (NewAggregator server c shards window batch) (d, w) = (r, (d', w'))
    \<and> accepted_requests server (lv_http d') = accepted_requests server (lv_http d) @ map (\<lambda>(i, n, m). m) ps
    \<and> (\<forall>(i, n, m) \<in> set ps. like_report c i n m)
    \<and> (\<forall>i. like_delta (lv_redis d) i = like_delta (lv_redis d') i + likes_reported i ps)"
proof -
  let ?a = "NewAggregator server c shards window batch"
  obtain x db' where act: "ActiveRooms shards (go_now w - window) batch (lv_redis d, w) = (x, (db', w))"
    and tx: "texts db' = texts (lv_redis d)" using ActiveRooms_quiet [OF assms(1)] by blast
  let ?d = "d\<lparr>lv_redis := db'\<rparr>"
  have run: "Stats_Tick ?a (d, w) = (case x of Inl e \<Rightarrow> (Inl e, (?d, w)) | Inr rooms \<Rightarrow> each (stats_room ?a) rooms (?d, w))"
    using act by (simp add: Stats_Tick_def bind_def now_def NewAggregator_def redis_stats_def at_quiet split: sum.splits)
  have same: "like_delta db' = like_delta (lv_redis d)" "likes_ok db'" using likes_texts [OF tx] assms(2) by simp_all
  show ?thesis
  proof (cases x)
    case (Inl e)
    with run same show ?thesis
      by (intro exI [of _ "Inl e"] exI [of _ ?d] exI [of _ w] exI [of _ "[]"]) (simp add: likes_reported_def)
  next
    case (Inr rooms)
    obtain d2 w2 ps where r: "each (stats_room ?a) rooms (?d, w) = (Inr (), (d2, w2))"
      "accepted_requests server (lv_http d2) = accepted_requests server (lv_http ?d) @ map (\<lambda>(r, n, m). m) ps"
      "\<forall>(r, n, m) \<in> set ps. stats_ports.reports (publish_request c) r n m"
      "\<forall>i. like_delta (lv_redis ?d) i = like_delta (lv_redis d2) i + stats_ports.reported i ps"
      using live_stats.rooms_quiet [OF assms(1), where d = ?d and server = server and c = c and shards = shards
        and window = window and batch = batch and rooms = rooms] same assms(3) by fastforce
    with Inr run same show ?thesis
      by (intro exI [of _ "Inr ()"] exI [of _ d2] exI [of _ w2] exI [of _ ps])
        (simp add: live_reports live_stats.reported_def likes_reported_def)
  qed
qed

text \<open>Room 5 is active and has three likes waiting; the round reports them.\<close>

definition liked_world :: live where
  "liked_world = living_world\<lparr>lv_redis := \<lparr>texts = [roomLikeDeltaKey 5 \<mapsto> \<lparr>rt_text = FormatInt 3, rt_expires = None\<rparr>],
     zsets = [activeStatsRoomsKey 0 \<mapsto> \<lparr>rz_items = [(FormatInt 5, 0)], rz_expires = None\<rparr>]\<rparr>\<rparr>"

abbreviation sample_aggregator :: "live Aggregator" where
  "sample_aggregator \<equiv> NewAggregator ok_server sample_centrifugo 1 second 10"

lemma liked_world_likes:
  "likes_ok (lv_redis liked_world)" "like_delta (lv_redis liked_world) i = (if i = 5 then 3 else 0)"
proof -
  let ?e = "\<lparr>texts = (\<lambda>_. None), zsets = [activeStatsRoomsKey 0 \<mapsto> \<lparr>rz_items = [(FormatInt 5, 0)], rz_expires = None\<rparr>]\<rparr> :: redis_db"
  have r: "lv_redis liked_world = set_text (roomLikeDeltaKey 5) (FormatInt 3) None ?e"
    by (simp add: liked_world_def set_text_def)
  have three: "is_i64 3" by (simp add: is_i64_def)
  have "likes_ok ?e" by (simp add: likes_ok_def counter_ok_def)
  with three show "likes_ok (lv_redis liked_world)" by (simp add: likes_ok_def r)
  show "like_delta (lv_redis liked_world) i = (if i = 5 then 3 else 0)"
    using three by (simp add: like_delta_def r) (simp add: counter_def)
qed

lemma liked_rooms:
  "\<exists>db. ActiveRooms 1 (go_now quiet_world - second) 10 (lv_redis liked_world, quiet_world) = (Inr [5], (db, quiet_world))
     \<and> texts db = texts (lv_redis liked_world)"
proof -
  have five: "ParseInt (FormatInt 5) = Some 5" by (rule ParseInt_FormatInt) (simp add: is_i64_def)
  have n: "go_quot (i64 (i64 11 - 1)) 1 = 10" by (simp add: i64_id is_i64_def go_quot_def)
  have since: "\<not> f64 (unix_milli (- second)) \<ge> 0" by (simp add: unix_milli_def f64_def)
  show ?thesis
    using since five
    by (simp add: ActiveRooms_def n shard_page_def ext_quiet quiet_world_def bind_def ret_def Let_def zrem_upto_def zitems_def
        zput_def zexpiry_def alive_def liked_world_def zsorted_def)
qed

lemma liked_room:
  assumes "texts (lv_redis d) = texts (lv_redis liked_world)" and "faults w = []"
  shows "\<exists>d' w'. stats_room sample_aggregator 5 (d, w) = (Inr (), (d', w')) \<and> like_delta (lv_redis d') 5 = 0"
proof -
  have ok: "likes_ok (lv_redis d)" and three: "like_delta (lv_redis d) 5 = 3"
    using likes_texts [OF assms(1)] liked_world_likes by simp_all
  let ?db = "del_text (roomLikeDeltaKey 5) (lv_redis d)"
  have take: "TakeLikeDelta 5 (lv_redis d, w) = (Inr 3, (?db, w))"
    using assms liked_world_likes(1) three ok int_key_counter [of "lv_redis d" "roomLikeDeltaKey 5"]
    by (simp add: TakeLikeDelta_def ext_quiet likes_ok_def like_delta_def) (simp add: liked_world_def)
  have t: "texts ?db k = None" for k using assms(1) by (simp add: del_text_def liked_world_def)
  obtain n db2 where snap: "Stats_Snapshot 5 (?db, w) = (Inr \<lparr>st_viewers = n, st_likes = 0, st_delta = 0\<rparr>, (db2, w))"
    and t2: "texts db2 = texts ?db"
  proof -
    have z: "ParseInt ''0'' = Some 0" by code_simp
    obtain n db2 where sc: "snapshotScript 5 (unix_milli (go_now w)) (rd_ms w) ?db = ((n, ''0''), db2)" and t2: "texts db2 = texts ?db"
      using t by (auto simp: snapshotScript_def Let_def get_text_def)
    with z assms(2) show thesis
      by (intro that [of n db2]) (simp_all add: Stats_Snapshot_def Redis_EngagementSnapshot_def bind_def now_def ext_quiet ret_def)
  qed
  have last: "LastPublishedViewer 5 (db2, w) = (Inr None, (db2, w))"
    using assms(2) t t2 by (simp add: LastPublishedViewer_def read_ext_quiet int_key_def get_text_def)
  obtain ident w1 where g: "idgen_New (d\<lparr>lv_redis := db2\<rparr>, w) = (Inr ident, (d\<lparr>lv_redis := db2\<rparr>, w1))" and w1: "faults w1 = []"
    using idgen_quiet [OF assms(2)] by metis
  have pub: "Publish ok_server sample_centrifugo ch j (lv_http d, w1) = (Inr (), (lv_http d @ [publish_request sample_centrifugo ch j], w1))" for ch j
    by (rule Publish_quiet [OF w1 ok_server_takes_all])
  have ok2: "likes_ok db2" using t t2 by (simp add: likes_ok_def counter_ok_def)
  obtain z db3 where set: "SetPublishedViewer 5 n (i64 (2 * second)) (db2, w1) = (z, (db3, w1))" and d3: "like_delta db3 = like_delta db2"
    using set_last_quiet [OF w1 ok2] by blast
  let ?a = sample_aggregator
  let ?d1 = "d\<lparr>lv_redis := ?db\<rparr>"
  let ?d2 = "d\<lparr>lv_redis := db2\<rparr>"
  let ?e = "\<lparr>ev_event_id = ident, ev_type = ''stats'', ev_room_id = 5, ev_priority = ''P4'', ev_timestamp = unix_milli (go_now w1),
           ev_data = snapshot_json \<lparr>st_viewers = n, st_likes = 0, st_delta = 3\<rparr>\<rparr>"
  let ?d3 = "?d2\<lparr>lv_http := lv_http d @ [publish_request sample_centrifugo (RoomStats 5) (event_json ?e)]\<rparr>"
  let ?d4 = "?d3\<lparr>lv_redis := db3\<rparr>"
  have f: "ss_take (ag_store ?a) 5 (d, w) = (Inr 3, (?d1, w))"
    "ss_snapshot (ag_store ?a) 5 (?d1, w) = (Inr \<lparr>st_viewers = n, st_likes = 0, st_delta = 0\<rparr>, (?d2, w))"
    "ss_last (ag_store ?a) 5 (?d2, w) = (Inr None, (?d2, w))"
    "ag_publish ?a (RoomStats 5) (event_json ?e) (?d2, w1) = (Inr (), (?d3, w1))"
    "ss_set_last (ag_store ?a) 5 n (i64 (2 * second)) (?d3, w1) = (z, (?d4, w1))"
    using set by (simp_all add: NewAggregator_def redis_stats_def at_redis_def at_realtime_def zoom_def take snap last pub)
  have ag: "ag_window ?a = second" by (simp add: NewAggregator_def)
  have "like_delta db3 5 = 0" using d3 t t2 by (simp add: like_delta_def counter_def)
  moreover have "stats_room sample_aggregator 5 (d, w) = (Inr (), (?d4, w1))"
    by (simp add: stats_room_def handle_def f f(5) [simplified] bind_def g NewPriorityEvent_def now_def ret_def ignore_def Let_def ag)
  ultimately show ?thesis by (intro exI [of _ ?d4] exI [of _ w1]) simp
qed

theorem stats_round_conserves_likes_witness:
  "\<exists>r d' w' ps. Stats_Tick sample_aggregator (liked_world, quiet_world) = (r, (d', w'))
     \<and> like_delta (lv_redis d') 5 = 0 \<and> likes_reported 5 ps = 3
     \<and> accepted_requests ok_server (lv_http d') = map (\<lambda>(i, n, m). m) ps"
proof -
  have q: "faults quiet_world = []" by (simp add: quiet_world_def)
  have pos: "\<forall>i. 0 \<le> like_delta (lv_redis liked_world) i" by (simp add: liked_world_likes)
  obtain db where act: "ActiveRooms 1 (go_now quiet_world - second) 10 (lv_redis liked_world, quiet_world) = (Inr [5], (db, quiet_world))"
    and t: "texts db = texts (lv_redis liked_world)" using liked_rooms by blast
  obtain d2 w2 where room: "stats_room sample_aggregator 5 (liked_world\<lparr>lv_redis := db\<rparr>, quiet_world) = (Inr (), (d2, w2))"
    and z: "like_delta (lv_redis d2) 5 = 0"
    using liked_room [of "liked_world\<lparr>lv_redis := db\<rparr>" quiet_world] t q by auto
  have run: "Stats_Tick sample_aggregator (liked_world, quiet_world) = (Inr (), (d2, w2))"
    using act room by (simp add: Stats_Tick_def bind_def now_def NewAggregator_def redis_stats_def at_quiet ret_def)
  obtain r d' w' ps where c: "Stats_Tick sample_aggregator (liked_world, quiet_world) = (r, (d', w'))"
    "accepted_requests ok_server (lv_http d') = accepted_requests ok_server (lv_http liked_world) @ map (\<lambda>(i, n, m). m) ps"
    "\<forall>i. like_delta (lv_redis liked_world) i = like_delta (lv_redis d') i + likes_reported i ps"
    using stats_round_conserves_likes [OF q liked_world_likes(1) pos, of ok_server sample_centrifugo 1 second 10] by blast
  have "accepted_requests ok_server (lv_http liked_world) = []"
    by (simp add: liked_world_def living_world_def sold_world_def accepted_requests_def)
  moreover have "d' = d2" using run c(1) by simp
  moreover have "likes_reported 5 ps = 3" using c(3) [rule_format, of 5] z \<open>d' = d2\<close> by (simp add: liked_world_likes)
  ultimately show ?thesis using c(1,2) z by auto
qed

end
