(* ===== verification/Crypto.thy ===== *)
theory Crypto
  imports Base64 "HOL-Library.Word"
begin

unbundle bit_operations_syntax

text \<open>
  What the identity service uses of the cryptographic standard library, on byte strings:
  SHA-256, HMAC with SHA-256, and PBKDF2 with HMAC-SHA-256 as the pseudorandom function.
\<close>

section \<open>Bytes and words\<close>

definition word_bytes :: "32 word \<Rightarrow> string" where
  "word_bytes x = map (\<lambda>k. char_of (unat (drop_bit k x) mod 256)) [24, 16, 8, 0]"

fun bytes_words :: "string \<Rightarrow> 32 word list" where
  "bytes_words (a # b # c # d # s) = word_of_nat (((num a * 256 + num b) * 256 + num c) * 256 + num d) # bytes_words s"
| "bytes_words _ = []"

definition rotr :: "nat \<Rightarrow> 32 word \<Rightarrow> 32 word" where
  "rotr n x = drop_bit n x OR push_bit (32 - n) x"

section \<open>SHA-256\<close>

text \<open>
  The constants are the first 32 bits of the fractional parts of the square roots of the first
  eight primes and of the cube roots of the first sixty-four; \<open>root_bits\<close> finds a root bit by bit.
\<close>

fun root_bits :: "nat \<Rightarrow> nat \<Rightarrow> nat \<Rightarrow> nat \<Rightarrow> nat" where
  "root_bits 0 k n r = r"
| "root_bits (Suc b) k n r = root_bits b k n (if (r + 2 ^ b) ^ k \<le> n then r + 2 ^ b else r)"

definition root_fraction :: "nat \<Rightarrow> nat \<Rightarrow> 32 word" where
  "root_fraction k p = word_of_nat (root_bits 40 k (p * 2 ^ (32 * k)) 0)"

definition primes_below :: "nat \<Rightarrow> nat list" where
  "primes_below n = filter (\<lambda>p. list_all (\<lambda>d. \<not> d dvd p) [2..<p]) [2..<n]"

definition sha_init :: "32 word list" where
  "sha_init = map (root_fraction 2) (primes_below 20)"

definition sha_constants :: "32 word list" where
  "sha_constants = map (root_fraction 3) (primes_below 312)"

text \<open>The message, a one bit, zeros up to the last eight bytes of a block, and the length in bits.\<close>

definition sha_pad :: "string \<Rightarrow> string" where
  "sha_pad s = s @ [char_of (128 :: nat)] @ replicate ((119 - length s mod 64) mod 64) (char_of (0 :: nat))
     @ map (\<lambda>k. char_of (8 * length s div 256 ^ k mod 256)) [7, 6, 5, 4, 3, 2, 1, 0]"

fun sha_schedule :: "nat \<Rightarrow> 32 word list \<Rightarrow> 32 word list" where
  "sha_schedule 0 ws = ws"
| "sha_schedule (Suc n) ws =
     (let k = length ws; x = ws ! (k - 15); y = ws ! (k - 2);
          s0 = rotr 7 x XOR rotr 18 x XOR drop_bit 3 x;
          s1 = rotr 17 y XOR rotr 19 y XOR drop_bit 10 y
      in sha_schedule n (ws @ [ws ! (k - 16) + s0 + ws ! (k - 7) + s1]))"

fun sha_round :: "32 word list \<Rightarrow> 32 word \<times> 32 word \<Rightarrow> 32 word list" where
  "sha_round [a, b, c, d, e, f, g, h] (k, w) =
     (let t1 = h + (rotr 6 e XOR rotr 11 e XOR rotr 25 e) + ((e AND f) XOR (NOT e AND g)) + k + w;
          t2 = (rotr 2 a XOR rotr 13 a XOR rotr 22 a) + ((a AND b) XOR (a AND c) XOR (b AND c))
      in [t1 + t2, a, b, c, d + t1, e, f, g])"
| "sha_round st _ = st"

definition sha_block :: "32 word list \<Rightarrow> 32 word list \<Rightarrow> 32 word list" where
  "sha_block st ws = map2 (+) st (foldl sha_round st (zip sha_constants (sha_schedule 48 ws)))"

fun blocks :: "nat \<Rightarrow> 'a list \<Rightarrow> 'a list list" where
  "blocks 0 xs = []"
| "blocks (Suc n) xs = take 16 xs # blocks n (drop 16 xs)"

definition sha256 :: "string \<Rightarrow> string" where
  "sha256 s = (let ws = bytes_words (sha_pad s)
     in concat (map word_bytes (foldl sha_block sha_init (blocks (length ws div 16) ws))))"

section \<open>HMAC and PBKDF2\<close>

definition xor_byte :: "nat \<Rightarrow> char \<Rightarrow> char" where
  "xor_byte n c = char_of (num c XOR n)"

definition hmac_sha256 :: "string \<Rightarrow> string \<Rightarrow> string" where
  "hmac_sha256 key msg =
     (let k0 = (if length key > 64 then sha256 key else key);
          k = k0 @ replicate (64 - length k0) (char_of (0 :: nat))
      in sha256 (map (xor_byte 92) k @ sha256 (map (xor_byte 54) k @ msg)))"

fun pbkdf2_rounds :: "nat \<Rightarrow> string \<Rightarrow> string \<Rightarrow> string \<Rightarrow> string" where
  "pbkdf2_rounds 0 password u acc = acc"
| "pbkdf2_rounds (Suc n) password u acc =
     (let v = hmac_sha256 password u in pbkdf2_rounds n password v (map2 (\<lambda>x y. xor_byte (num y) x) acc v))"

definition pbkdf2_block :: "string \<Rightarrow> string \<Rightarrow> nat \<Rightarrow> nat \<Rightarrow> string" where
  "pbkdf2_block password salt iter i =
     (let u = hmac_sha256 password (salt @ word_bytes (word_of_nat i)) in pbkdf2_rounds (iter - 1) password u u)"

definition pbkdf2 :: "string \<Rightarrow> string \<Rightarrow> nat \<Rightarrow> nat \<Rightarrow> string" where
  "pbkdf2 password salt iter n =
     take n (concat (map (\<lambda>i. pbkdf2_block password salt iter (Suc i)) [0..<(n + 31) div 32]))"

section \<open>Sizes\<close>

lemma length_word_bytes [simp]: "length (word_bytes x) = 4"
  by (simp add: word_bytes_def)

lemma length_sha_round [simp]: "length (sha_round st kw) = length st"
  by (cases "(st, kw)" rule: sha_round.cases) (simp_all add: Let_def)

lemma length_foldl_same: "(\<And>s x. length s = n \<Longrightarrow> length (f s x) = n) \<Longrightarrow> length s = n \<Longrightarrow> length (foldl f s xs) = n"
  by (induction xs arbitrary: s) auto

lemma length_sha_block [simp]: "length (sha_block st ws) = length st"
  using length_foldl_same [of "length st" sha_round st] by (simp add: sha_block_def)

lemma length_concat_const: "(\<And>x. length (f x) = n) \<Longrightarrow> length (concat (map f xs)) = n * length xs"
  by (induction xs) auto

lemma length_sha256 [simp]: "length (sha256 s) = 32"
proof -
  have "length sha_init = 8" unfolding sha_init_def length_map by code_simp
  then have "length (foldl sha_block sha_init bs) = 8" for bs by (rule length_foldl_same [rotated]) simp
  then show ?thesis by (simp add: sha256_def Let_def length_concat_const [where n = 4])
qed

lemma length_hmac [simp]: "length (hmac_sha256 k m) = 32"
  by (simp add: hmac_sha256_def Let_def)

lemma length_pbkdf2_rounds [simp]: "length acc = 32 \<Longrightarrow> length (pbkdf2_rounds n p u acc) = 32"
  by (induction n arbitrary: u acc) (simp_all add: Let_def)

lemma length_pbkdf2 [simp]: "length (pbkdf2 password salt iter n) = n"
proof -
  have "length (pbkdf2_block password salt iter i) = 32" for i by (simp add: pbkdf2_block_def Let_def)
  then have "length (concat (map (\<lambda>i. pbkdf2_block password salt iter (Suc i)) xs)) = 32 * length xs" for xs
    by (intro length_concat_const) simp
  moreover have "n \<le> 32 * ((n + 31) div 32)" by presburger
  ultimately show ?thesis by (simp add: pbkdf2_def)
qed


end
