(* ===== verification/Tokens.thy ===== *)
theory Tokens
  imports Crypto Effects
begin

text \<open>
  \<^verbatim>\<open>internal/auth/token.go\<close> and \<^verbatim>\<open>internal/token/hs256.go\<close>: the access tokens of the platform
  and the connection and subscription tokens of the realtime server, all of them JSON Web
  Tokens signed with HMAC-SHA-256.
\<close>

section \<open>Splitting\<close>

text \<open>\<^verbatim>\<open>strings.Split\<close> at a separator of one byte.\<close>

fun Split :: "char \<Rightarrow> string \<Rightarrow> string list" where
  "Split c [] = [[]]"
| "Split c (x # s) = (if x = c then [] # Split c s
     else case Split c s of p # ps \<Rightarrow> (x # p) # ps | [] \<Rightarrow> [[x]])"

lemma Split_piece: "c \<notin> set x \<Longrightarrow> Split c (x @ c # s) = x # Split c s"
  by (induction x) auto

lemma Split_last: "c \<notin> set x \<Longrightarrow> Split c x = [x]"
  by (induction x) auto

lemma Split_cut: "Split c s = p # q # ps \<Longrightarrow> \<exists>t. s = p @ c # t \<and> Split c t = q # ps"
proof (induction s arbitrary: p)
  case (Cons x s)
  show ?case
  proof (cases "x = c")
    case True
    with Cons.prems show ?thesis by auto
  next
    case False
    with Cons.prems obtain p' where "p = x # p'" "Split c s = p' # q # ps" by (auto split: list.splits)
    with Cons.IH show ?thesis by fastforce
  qed
qed simp

lemma Split_not_Nil: "Split c s \<noteq> []"
  by (cases s) (auto split: list.splits)

lemma Split_one: "Split c s = [p] \<Longrightarrow> s = p"
  by (induction s arbitrary: p) (auto simp: Split_not_Nil split: if_splits list.splits)

section \<open>Signing\<close>

definition encode :: "string \<Rightarrow> string" where
  "encode b = b64_encode True False b"

definition jwt_header :: json where
  "jwt_header = JObj [(''alg'', JStr ''HS256''), (''typ'', JStr ''JWT'')]"

definition signHS256 :: "string \<Rightarrow> json \<Rightarrow> string" where
  "signHS256 secret claims =
     (let unsigned = encode (jprint jwt_header) @ ''.'' @ encode (jprint claims)
      in unsigned @ ''.'' @ encode (hmac_sha256 secret unsigned))"

section \<open>Access tokens\<close>

record TokenManager =
  tm_secret :: string
  tm_ttl :: int

record Claims =
  cl_user :: int
  cl_exp :: int

record jwtHeader =
  hd_alg :: string
  hd_typ :: string

record accessClaims =
  ac_sub :: string
  ac_exp :: int
  ac_iat :: int
  ac_typ :: string

definition access_json :: "accessClaims \<Rightarrow> json" where
  "access_json c = JObj [(''sub'', JStr (ac_sub c)), (''exp'', JInt (ac_exp c)), (''iat'', JInt (ac_iat c)), (''typ'', JStr (ac_typ c))]"

definition header_fields :: "jwtHeader fields" where
  "header_fields = [(''alg'', value_field as_string (\<lambda>x. hd_alg_update (\<lambda>_. x))),
     (''typ'', value_field as_string (\<lambda>x. hd_typ_update (\<lambda>_. x)))]"

definition access_fields :: "accessClaims fields" where
  "access_fields = [(''sub'', value_field as_string (\<lambda>x. ac_sub_update (\<lambda>_. x))),
     (''exp'', value_field as_int64 (\<lambda>x. ac_exp_update (\<lambda>_. x))),
     (''iat'', value_field as_int64 (\<lambda>x. ac_iat_update (\<lambda>_. x))),
     (''typ'', value_field as_string (\<lambda>x. ac_typ_update (\<lambda>_. x)))]"

definition Issue :: "TokenManager \<Rightarrow> int \<Rightarrow> ('d, string \<times> int) prog" where
  "Issue m userID =
     (if userID \<le> 0 then fail (Plain ''user id is required'')
      else bind now (\<lambda>t. let exp = t + tm_ttl m in
        ret (signHS256 (tm_secret m) (access_json \<lparr>ac_sub = FormatInt userID, ac_exp = unix_sec exp, ac_iat = unix_sec t,
               ac_typ = ''access''\<rparr>), exp)))"

text \<open>\<^verbatim>\<open>time.Unix(sec, 0)\<close>: seconds are counted from year one in 64 bits.\<close>

definition time_Unix :: "int \<Rightarrow> int" where
  "time_Unix s = (i64 (s + 62135596800) - 62135596800) * second"

text \<open>The checks of \<^verbatim>\<open>Verify\<close> before the expiry: the subject and the expiry time.\<close>

definition token_claims :: "TokenManager \<Rightarrow> string \<Rightarrow> string + int \<times> int" where
  "token_claims m raw =
     (if raw = [] \<or> length raw > 4096 then Inl ''invalid token''
      else case Split (CHR ''.'') raw of
        [p0, p1, p2] \<Rightarrow>
          (case b64_decode True False p0 of None \<Rightarrow> Inl ''invalid token header''
           | Some headerRaw \<Rightarrow>
          (case unmarshal header_fields \<lparr>hd_alg = [], hd_typ = []\<rparr> headerRaw of None \<Rightarrow> Inl ''invalid token header''
           | Some header \<Rightarrow>
           if hd_alg header \<noteq> ''HS256'' \<or> hd_typ header \<noteq> ''JWT'' then Inl ''invalid token header''
           else let unsigned = p0 @ ''.'' @ p1 in
          (case b64_decode True False p2 of None \<Rightarrow> Inl ''invalid token signature''
           | Some gotSig \<Rightarrow>
           if gotSig \<noteq> hmac_sha256 (tm_secret m) unsigned then Inl ''invalid token signature''
           else
          (case b64_decode True False p1 of None \<Rightarrow> Inl ''invalid token payload''
           | Some payload \<Rightarrow>
          (case unmarshal access_fields \<lparr>ac_sub = [], ac_exp = 0, ac_iat = 0, ac_typ = []\<rparr> payload of
             None \<Rightarrow> Inl ''invalid token claims''
           | Some c \<Rightarrow>
           if ac_typ c \<noteq> ''access'' then Inl ''invalid token claims''
           else
          (case ParseInt (ac_sub c) of None \<Rightarrow> Inl ''invalid token subject''
           | Some uid \<Rightarrow> if uid \<le> 0 then Inl ''invalid token subject'' else Inr (uid, time_Unix (ac_exp c))))))))
      | _ \<Rightarrow> Inl ''invalid token'')"

definition Verify :: "TokenManager \<Rightarrow> string \<Rightarrow> ('d, Claims) prog" where
  "Verify m raw =
     (case token_claims m raw of
        Inl e \<Rightarrow> fail (Plain e)
      | Inr (uid, exp) \<Rightarrow> bind now (\<lambda>t.
          if \<not> exp > t then fail (Plain ''token expired'') else ret \<lparr>cl_user = uid, cl_exp = exp\<rparr>))"

section \<open>Tokens of the realtime server\<close>

record Issuer =
  is_secret :: string
  is_ttl :: int

definition connection_json :: "string \<Rightarrow> int \<Rightarrow> int \<Rightarrow> json" where
  "connection_json sub exp iat = JObj [(''sub'', JStr sub), (''exp'', JInt exp), (''iat'', JInt iat)]"

definition subscription_json :: "string \<Rightarrow> string \<Rightarrow> int \<Rightarrow> int \<Rightarrow> int \<Rightarrow> json" where
  "subscription_json sub channel exp expire_at iat = JObj [(''sub'', JStr sub), (''channel'', JStr channel),
     (''exp'', JInt exp), (''expire_at'', JInt expire_at), (''iat'', JInt iat)]"

definition ConnectionToken :: "Issuer \<Rightarrow> string \<Rightarrow> ('d, string \<times> int) prog" where
  "ConnectionToken i userID =
     (if TrimSpace userID = [] then fail (Plain ''user id is required'')
      else bind now (\<lambda>t. let exp = t + is_ttl i;
             unsigned = encode (jprint jwt_header) @ ''.'' @ encode (jprint (connection_json userID (unix_sec exp) (unix_sec t)))
        in ret (unsigned @ ''.'' @ encode (hmac_sha256 (is_secret i) unsigned), exp)))"

definition SubscriptionToken :: "Issuer \<Rightarrow> string \<Rightarrow> string \<Rightarrow> int \<Rightarrow> ('d, string \<times> int) prog" where
  "SubscriptionToken i userID channel ttl =
     (let userID = TrimSpace userID; channel = TrimSpace channel in
      if userID = [] \<or> channel = [] then fail (Plain ''user id and channel are required'')
      else let ttl = (if ttl \<le> 0 then 5 * minute else ttl) in
        bind now (\<lambda>t. let exp = t + ttl;
             unsigned = encode (jprint jwt_header) @ ''.''
               @ encode (jprint (subscription_json userID channel (unix_sec exp) (unix_sec exp) (unix_sec t)))
        in ret (unsigned @ ''.'' @ encode (hmac_sha256 (is_secret i) unsigned), exp)))"

text \<open>Both sign as \<open>signHS256\<close> does.\<close>

lemma ConnectionToken_signs:
  "ConnectionToken i u = (if TrimSpace u = [] then fail (Plain ''user id is required'')
     else bind now (\<lambda>t. ret (signHS256 (is_secret i) (connection_json u (unix_sec (t + is_ttl i)) (unix_sec t)), t + is_ttl i)))"
  by (simp add: ConnectionToken_def signHS256_def Let_def)

lemma SubscriptionToken_signs:
  "SubscriptionToken i u ch ttl = (if TrimSpace u = [] \<or> TrimSpace ch = [] then fail (Plain ''user id and channel are required'')
     else let exp = (\<lambda>t. t + (if ttl \<le> 0 then 5 * minute else ttl)) in
       bind now (\<lambda>t. ret (signHS256 (is_secret i)
         (subscription_json (TrimSpace u) (TrimSpace ch) (unix_sec (exp t)) (unix_sec (exp t)) (unix_sec t)), exp t)))"
  by (simp add: SubscriptionToken_def signHS256_def Let_def)

section \<open>Reading a signed token\<close>

lemma b64_char_range: "c \<in> set (b64_encode url False s) \<Longrightarrow> \<exists>n < 64. c = b64_char url n"
proof (induction url "False" s rule: b64_encode.induct)
  case (2 url a)
  then consider "c = b64_char url (num a div 4)" | "c = b64_char url (num a mod 4 * 16)" by auto
  then show ?case using char_sextets(1,2) by cases metis+
next
  case (3 url a b)
  then consider "c = b64_char url (num a div 4)" | "c = b64_char url (num a mod 4 * 16 + num b div 16)"
    | "c = b64_char url (num b mod 16 * 4)" by auto
  then show ?case using char_sextets(1,3,4) by cases metis+
next
  case (4 url a b d r)
  from 4(2) consider "c = b64_char url (num a div 4)" | "c = b64_char url (num a mod 4 * 16 + num b div 16)"
    | "c = b64_char url (num b mod 16 * 4 + num d div 64)" | "c = b64_char url (num d mod 64)"
    | "c \<in> set (b64_encode url False r)" by auto
  then show ?case using char_sextets(1,3,5,6) 4(1) by cases metis+
qed simp

lemma b64_char_code: "n < 64 \<Longrightarrow> (of_char (b64_char url n) :: nat) \<noteq> 46 \<and> (of_char (b64_char url n) :: nat) \<noteq> 36"
  by (auto simp: b64_char_def)

lemma b64_no_mark: "CHR ''.'' \<notin> set (b64_encode url False s)" "CHR ''$'' \<notin> set (b64_encode url False s)"
proof -
  have "(of_char c :: nat) \<noteq> 46 \<and> (of_char c :: nat) \<noteq> 36" if "c \<in> set (b64_encode url False s)" for c
    using b64_char_range [OF that] b64_char_code by blast
  then show "CHR ''.'' \<notin> set (b64_encode url False s)" "CHR ''$'' \<notin> set (b64_encode url False s)" by force+
qed

lemma dot_not_in_encode: "CHR ''.'' \<notin> set (encode s)"
  by (simp add: encode_def b64_no_mark)

lemma Split_token: "Split (CHR ''.'') (encode a @ ''.'' @ encode b @ ''.'' @ encode c) = [encode a, encode b, encode c]"
  using dot_not_in_encode by (simp add: Split_piece Split_last)

lemma b64_decode_encode_url [simp]: "b64_decode True False (encode s) = Some s"
  by (simp add: encode_def)

end
