(* ===== verification/Access_Tokens.thy ===== *)
theory Access_Tokens
  imports Tokens
begin

text \<open>
  What the tokens guarantee: an issued access token is accepted until it expires, an accepted
  token carries the signature of its text, and the tokens of the realtime server are never
  access tokens.
\<close>

section \<open>Reading the parts back\<close>

lemma plain_quote: "(\<And>c. c \<in> set s \<Longrightarrow> byte c < 128 \<and> escape_rune (byte c, [c]) = [c]) \<Longrightarrow> quote_str s = dquote # s @ [dquote]"
proof -
  assume plain: "\<And>c. c \<in> set s \<Longrightarrow> byte c < 128 \<and> escape_rune (byte c, [c]) = [c]"
  have "concat (map escape_rune (rune_segs s)) = s" using plain
    by (induction s) (simp_all add: rune_segs_ascii)
  then show ?thesis by (simp add: quote_str_def)
qed

lemma utf8_ok_ascii: "\<forall>c \<in> set s. byte c < 128 \<Longrightarrow> utf8_ok s"
  by (induction s) (auto simp: utf8_ok_def rune_segs_ascii rune_error_def)

lemma FormatInt_digits: "0 \<le> i \<Longrightarrow> c \<in> set (FormatInt i) \<Longrightarrow> 48 \<le> byte c \<and> byte c \<le> 57"
  using nat_digits_all by (auto simp: FormatInt_def)

lemma quote_FormatInt: "0 \<le> i \<Longrightarrow> quote_str (FormatInt i) = dquote # FormatInt i @ [dquote]"
  by (rule plain_quote) (auto dest!: FormatInt_digits simp: escape_rune_def rune_error_def)

lemma utf8_ok_FormatInt: "0 \<le> i \<Longrightarrow> utf8_ok (FormatInt i)"
  by (rule utf8_ok_ascii) (auto dest!: FormatInt_digits)

lemma length_nat_digits: "n < 10 ^ Suc k \<Longrightarrow> length (nat_digits n) \<le> Suc k"
proof (induction k arbitrary: n)
  case 0
  then show ?case by (subst nat_digits.simps) simp
next
  case (Suc k)
  have "n div 10 < 10 ^ Suc k" using Suc.prems by (simp add: less_mult_imp_div_less)
  from Suc.IH [OF this] show ?case by (subst nat_digits.simps) simp
qed

lemma length_FormatInt: "0 \<le> i \<Longrightarrow> is_i64 i \<Longrightarrow> length (FormatInt i) \<le> 19"
  using length_nat_digits [of "nat i" 18] by (simp add: FormatInt_def is_i64_def)

lemma length_encode: "3 * length (encode s) \<le> 4 * length s + 2"
proof -
  have "3 * length (b64_encode url False s) \<le> 4 * length s + 2" for url
    by (induction url "False" s rule: b64_encode.induct) auto
  then show ?thesis by (simp add: encode_def)
qed

lemma header_doc: "doc_ok jwt_header"
  by (simp add: jwt_header_def utf8_ok_ascii byte_def)

lemma header_read: "unmarshal header_fields \<lparr>hd_alg = [], hd_typ = []\<rparr> (jprint jwt_header) = Some \<lparr>hd_alg = ''HS256'', hd_typ = ''JWT''\<rparr>"
proof -
  have str: "value_field as_string p (jprint (JStr s)) r = Some (p s r)" if "utf8_ok s" for p s and r :: jwtHeader
    using that by (subst value_field_print) simp_all
  have "utf8_ok ''HS256''" "utf8_ok ''JWT''" by (simp_all add: utf8_ok_ascii byte_def)
  then show ?thesis
    unfolding jwt_header_def
    by (subst unmarshal_print [OF header_doc [unfolded jwt_header_def]])
      (simp add: header_fields_def field_for_def str del: jprint.simps)
qed

lemma access_doc: "utf8_ok (ac_sub c) \<Longrightarrow> utf8_ok (ac_typ c) \<Longrightarrow> is_i64 (ac_exp c) \<Longrightarrow> is_i64 (ac_iat c) \<Longrightarrow> doc_ok (access_json c)"
  by (simp add: access_json_def utf8_ok_ascii byte_def)

lemma access_read:
  assumes "utf8_ok (ac_sub c)" "utf8_ok (ac_typ c)" "is_i64 (ac_exp c)" "is_i64 (ac_iat c)"
  shows "unmarshal access_fields \<lparr>ac_sub = [], ac_exp = 0, ac_iat = 0, ac_typ = []\<rparr> (jprint (access_json c)) = Some c"
proof -
  have str: "value_field as_string p (jprint (JStr s)) r = Some (p s r)" if "utf8_ok s" for p s and r :: accessClaims
    using that by (subst value_field_print) simp_all
  have i: "value_field as_int64 p (jprint (JInt i)) r = Some (p i r)" if "is_i64 i" for p i and r :: accessClaims
    using that by (subst value_field_print) (simp_all add: ParseInt_FormatInt)
  from assms show ?thesis
    unfolding access_json_def
    by (subst unmarshal_print [OF access_doc [OF assms, unfolded access_json_def]])
      (simp add: access_fields_def field_for_def str i del: jprint.simps)
qed

section \<open>Checking a signed token\<close>

text \<open>What the checks say of a token signed with some secret, whatever its claims.\<close>

lemma signed_claims:
  assumes "length (signHS256 secret j) \<le> 4096"
  shows "token_claims m (signHS256 secret j) =
    (if hmac_sha256 secret (encode (jprint jwt_header) @ ''.'' @ encode (jprint j))
        \<noteq> hmac_sha256 (tm_secret m) (encode (jprint jwt_header) @ ''.'' @ encode (jprint j)) then Inl ''invalid token signature''
     else case unmarshal access_fields \<lparr>ac_sub = [], ac_exp = 0, ac_iat = 0, ac_typ = []\<rparr> (jprint j) of
            None \<Rightarrow> Inl ''invalid token claims''
          | Some c \<Rightarrow> if ac_typ c \<noteq> ''access'' then Inl ''invalid token claims''
             else (case ParseInt (ac_sub c) of None \<Rightarrow> Inl ''invalid token subject''
               | Some uid \<Rightarrow> if uid \<le> 0 then Inl ''invalid token subject'' else Inr (uid, time_Unix (ac_exp c))))"
proof -
  let ?u = "encode (jprint jwt_header) @ ''.'' @ encode (jprint j)"
  have raw: "signHS256 secret j = encode (jprint jwt_header) @ ''.'' @ encode (jprint j) @ ''.'' @ encode (hmac_sha256 secret ?u)"
    by (simp add: signHS256_def Let_def)
  have split: "Split (CHR ''.'') (signHS256 secret j) = [encode (jprint jwt_header), encode (jprint j), encode (hmac_sha256 secret ?u)]"
    unfolding raw by (rule Split_token)
  have ne: "signHS256 secret j \<noteq> []" by (simp add: raw)
  show ?thesis
    unfolding token_claims_def split using assms ne by (simp add: header_read Let_def)
qed

lemma length_jwt_header: "length (encode (jprint jwt_header)) \<le> 40"
proof -
  have "length (jprint jwt_header) = 27" unfolding jwt_header_def by code_simp
  with length_encode [of "jprint jwt_header"] show ?thesis by simp
qed

lemma length_signed: "3 * length (signHS256 secret j) \<le> 4 * length (jprint j) + 264"
proof -
  let ?u = "encode (jprint jwt_header) @ ''.'' @ encode (jprint j)"
  have "length (signHS256 secret j)
      = length (encode (jprint jwt_header)) + length (encode (jprint j)) + length (encode (hmac_sha256 secret ?u)) + 2"
    by (simp add: signHS256_def Let_def)
  moreover have "3 * length (encode (hmac_sha256 secret ?u)) \<le> 130" using length_encode [of "hmac_sha256 secret ?u"] by simp
  ultimately show ?thesis using length_jwt_header length_encode [of "jprint j"] by linarith
qed

lemma length_access: "0 \<le> u \<Longrightarrow> is_i64 u \<Longrightarrow> 0 \<le> e \<Longrightarrow> is_i64 e \<Longrightarrow> 0 \<le> i \<Longrightarrow> is_i64 i \<Longrightarrow>
    length (jprint (access_json \<lparr>ac_sub = FormatInt u, ac_exp = e, ac_iat = i, ac_typ = ''access''\<rparr>)) \<le> 200"
proof -
  assume a: "0 \<le> u" "is_i64 u" "0 \<le> e" "is_i64 e" "0 \<le> i" "is_i64 i"
  have q: "quote_str s = dquote # s @ [dquote]" if "s \<in> {''sub'', ''exp'', ''iat'', ''typ'', ''access''}" for s
    using that by (intro plain_quote) (auto simp: escape_rune_def rune_error_def byte_def)
  show ?thesis
    using a length_FormatInt [of u] length_FormatInt [of e] length_FormatInt [of i] by (simp add: access_json_def q quote_FormatInt)
qed

section \<open>Properties\<close>

text \<open>The times at hand: after 1970 and before 64-bit seconds could overflow.\<close>

definition clock_ok :: "int \<Rightarrow> bool" where
  "clock_ok t \<longleftrightarrow> 0 \<le> t \<and> unix_sec t < 2 ^ 62"

lemma clock_ok_i64: "clock_ok t \<Longrightarrow> 0 \<le> unix_sec t \<and> is_i64 (unix_sec t) \<and> time_Unix (unix_sec t) = unix_sec t * second"
proof -
  assume "clock_ok t"
  then have "0 \<le> unix_sec t" "unix_sec t < 2 ^ 62" by (auto simp: clock_ok_def unix_sec_def)
  then have "0 \<le> unix_sec t" "is_i64 (unix_sec t)" "is_i64 (unix_sec t + 62135596800)" by (auto simp: is_i64_def)
  then show ?thesis by (simp add: time_Unix_def i64_id)
qed

lemma issued_claims:
  assumes "0 < u" and "is_i64 u" and "Issue m u (d, w) = (Inr (tok, exp), s)"
    and "clock_ok (go_now w)" and "clock_ok exp"
  shows "token_claims m tok = Inr (u, unix_sec exp * second)"
proof -
  let ?c = "\<lparr>ac_sub = FormatInt u, ac_exp = unix_sec exp, ac_iat = unix_sec (go_now w), ac_typ = ''access''\<rparr>"
  have tok: "tok = signHS256 (tm_secret m) (access_json ?c)" "exp = go_now w + tm_ttl m"
    using assms(1,3) by (auto simp: Issue_def bind_def now_def ret_def Let_def)
  note t = clock_ok_i64 [OF assms(4)] clock_ok_i64 [OF assms(5)]
  have "length tok \<le> 4096"
    using length_access [of u "unix_sec exp" "unix_sec (go_now w)"] length_signed [of "tm_secret m" "access_json ?c"] assms(1,2) t
    unfolding tok(1) by linarith
  moreover have "unmarshal access_fields \<lparr>ac_sub = [], ac_exp = 0, ac_iat = 0, ac_typ = []\<rparr> (jprint (access_json ?c)) = Some ?c"
    using t assms(1) by (intro access_read) (simp_all add: utf8_ok_FormatInt utf8_ok_ascii byte_def)
  ultimately show ?thesis
    unfolding tok(1) using assms(1,2) t by (simp add: signed_claims ParseInt_FormatInt)
qed

text \<open>
  C24. An access token issued to a user is accepted by the same manager, as that user's, until the
  second it expires in, and refused as expired from then on.
\<close>

theorem access_token_verifies:
  assumes "0 < u" and "is_i64 u" and "Issue m u (d, w) = (Inr (tok, exp), s)"
    and "clock_ok (go_now w)" and "clock_ok exp"
  shows "Verify m tok (d', w') =
    (if go_now w' < unix_sec exp * second then (Inr \<lparr>cl_user = u, cl_exp = unix_sec exp * second\<rparr>, (d', w'))
     else (Inl (Plain ''token expired''), (d', w')))"
  using issued_claims [OF assms] by (simp add: Verify_def bind_def now_def ret_def fail_def)

abbreviation token_world :: io where
  "token_world \<equiv> \<lparr>faults = [], go_now = 0, db_now = 0, rd_now = 0, entropy = []\<rparr>"

abbreviation sample_manager :: TokenManager where
  "sample_manager \<equiv> \<lparr>tm_secret = ''secret'', tm_ttl = second\<rparr>"

lemma sample_issue: "\<exists>tok. Issue sample_manager 7 ((), token_world) = (Inr (tok, second), ((), token_world))"
  by (simp add: Issue_def bind_def now_def ret_def Let_def)

lemma sample_clock: "clock_ok (go_now token_world)" "clock_ok second" "is_i64 7"
  by (simp_all add: clock_ok_def unix_sec_def is_i64_def)

theorem access_token_verifies_witness:
  "\<exists>tok. Issue sample_manager 7 ((), token_world) = (Inr (tok, second), ((), token_world))
     \<and> Verify sample_manager tok ((), token_world) = (Inr \<lparr>cl_user = 7, cl_exp = second\<rparr>, ((), token_world))"
proof -
  obtain tok where t: "Issue sample_manager 7 ((), token_world) = (Inr (tok, second), ((), token_world))" using sample_issue ..
  from access_token_verifies [OF _ sample_clock(3) t sample_clock(1,2), of "()" token_world] t show ?thesis
    by (auto simp: unix_sec_def)
qed

text \<open>
  C25. Nothing but a signed, unexpired token is accepted: its text is two parts and the encoded
  HMAC of exactly those parts under the manager's secret, its claims are of an access token for
  the user answered, and its expiry is still to come.
\<close>

theorem access_token_authentic:
  assumes "Verify m raw (d, w) = (Inr c, s)"
  shows "\<exists>p0 p1 p2 a payload. raw = p0 @ ''.'' @ p1 @ ''.'' @ p2
    \<and> b64_decode True False p2 = Some (hmac_sha256 (tm_secret m) (p0 @ ''.'' @ p1))
    \<and> b64_decode True False p1 = Some payload
    \<and> unmarshal access_fields \<lparr>ac_sub = [], ac_exp = 0, ac_iat = 0, ac_typ = []\<rparr> payload = Some a
    \<and> ac_typ a = ''access'' \<and> ParseInt (ac_sub a) = Some (cl_user c) \<and> 0 < cl_user c
    \<and> cl_exp c = time_Unix (ac_exp a) \<and> go_now w < cl_exp c"
proof -
  obtain exp where t: "token_claims m raw = Inr (cl_user c, exp)" and c: "cl_exp c = exp" "go_now w < exp"
    using assms by (auto simp: Verify_def bind_def now_def split: sum.splits if_splits)
  obtain p0 p1 p2 where sp: "Split (CHR ''.'') raw = [p0, p1, p2]"
    using t by (auto simp: token_claims_def split: if_splits list.splits)
  obtain r1 where r1: "raw = p0 @ CHR ''.'' # r1" "Split (CHR ''.'') r1 = [p1, p2]" using Split_cut [OF sp] by auto
  obtain r2 where r2: "r1 = p1 @ CHR ''.'' # r2" "Split (CHR ''.'') r2 = [p2]" using Split_cut [OF r1(2)] by auto
  have raw: "raw = p0 @ ''.'' @ p1 @ ''.'' @ p2" using r1(1) r2(1) Split_one [OF r2(2)] by simp
  from t have "\<exists>a payload. b64_decode True False p2 = Some (hmac_sha256 (tm_secret m) (p0 @ ''.'' @ p1))
    \<and> b64_decode True False p1 = Some payload
    \<and> unmarshal access_fields \<lparr>ac_sub = [], ac_exp = 0, ac_iat = 0, ac_typ = []\<rparr> payload = Some a
    \<and> ac_typ a = ''access'' \<and> ParseInt (ac_sub a) = Some (cl_user c) \<and> 0 < cl_user c \<and> exp = time_Unix (ac_exp a)"
    unfolding token_claims_def sp by (auto simp: Let_def split: if_splits option.splits)
  with raw c show ?thesis by blast
qed

theorem access_token_authentic_witness:
  "\<exists>p0 p1 p2 raw. Verify sample_manager raw ((), token_world) = (Inr \<lparr>cl_user = 7, cl_exp = second\<rparr>, ((), token_world))
     \<and> raw = p0 @ ''.'' @ p1 @ ''.'' @ p2
     \<and> b64_decode True False p2 = Some (hmac_sha256 ''secret'' (p0 @ ''.'' @ p1))"
proof -
  obtain tok where t: "Issue sample_manager 7 ((), token_world) = (Inr (tok, second), ((), token_world))" using sample_issue ..
  from issued_claims [OF _ sample_clock(3) t sample_clock(1,2)]
  have "Verify sample_manager tok ((), token_world) = (Inr \<lparr>cl_user = 7, cl_exp = second\<rparr>, ((), token_world))"
    by (simp add: Verify_def bind_def now_def ret_def unix_sec_def)
  with access_token_authentic [OF this] show ?thesis by auto
qed

lemma untyped_refused:
  assumes "doc_ok (JObj fs)" and "list_all (\<lambda>f. fst f \<in> {''sub'', ''channel'', ''exp'', ''expire_at'', ''iat''}) fs"
  shows "token_claims m (signHS256 secret (JObj fs)) \<noteq> Inr x"
proof (cases "length (signHS256 secret (JObj fs)) \<le> 4096")
  case True
  have keeps: "ac_typ r' = ac_typ r" if "decode_members access_fields (map (\<lambda>f. (fst f, jprint (snd f))) fs) r = Some r'" for r r'
    using assms(2) that
  proof (induction fs arbitrary: r)
    case (Cons f fs)
    then have f: "fst f \<in> {''sub'', ''channel'', ''exp'', ''expire_at'', ''iat''}" by simp
    have step: "ac_typ r1 = ac_typ r"
      if "field_for access_fields (fst f) = Some g" "g (jprint (snd f)) r = Some r1" for g r1
      using f that by (auto simp: field_for_def access_fields_def value_field_def json_fold_def runes_def rune_segs_ascii byte_def
          split: option.splits if_splits)
    show ?case
    proof (cases "field_for access_fields (fst f)")
      case None
      with Cons show ?thesis by simp
    next
      case (Some g)
      with Cons.prems(2) obtain r1 where r1: "g (jprint (snd f)) r = Some r1"
        "decode_members access_fields (map (\<lambda>f. (fst f, jprint (snd f))) fs) r1 = Some r'"
        by (auto split: option.splits)
      from step [OF Some r1(1)] Cons.IH [OF _ r1(2)] Cons.prems(1) show ?thesis by simp
    qed
  qed simp
  have "ac_typ c = []" if "unmarshal access_fields \<lparr>ac_sub = [], ac_exp = 0, ac_iat = 0, ac_typ = []\<rparr> (jprint (JObj fs)) = Some c" for c
    using keeps that unfolding unmarshal_print [OF assms(1)] by fastforce
  with signed_claims [OF True] show ?thesis by (auto split: option.splits)
next
  case False
  then show ?thesis by (simp add: token_claims_def)
qed

text \<open>
  C26. A token of the realtime server is never an access token, under any two secrets: the claims
  of a connection or subscription token lack the type that \<open>Verify\<close> asks for.
\<close>

theorem realtime_token_refused:
  assumes "ConnectionToken i userID (d, w) = (Inr (tok, exp), s) \<and> utf8_ok userID
    \<or> SubscriptionToken i userID channel ttl (d, w) = (Inr (tok, exp), s) \<and> utf8_ok (TrimSpace userID) \<and> utf8_ok (TrimSpace channel)"
    and "clock_ok (go_now w)" and "clock_ok exp"
  shows "\<exists>e. Verify m tok (d', w') = (Inl e, (d', w'))"
proof -
  note t = clock_ok_i64 [OF assms(2)] clock_ok_i64 [OF assms(3)]
  have k: "utf8_ok ''sub''" "utf8_ok ''exp''" "utf8_ok ''iat''" "utf8_ok ''channel''" "utf8_ok ''expire_at''"
    by (simp_all add: utf8_ok_ascii byte_def)
  have "token_claims m tok \<noteq> Inr x" for x
    using assms(1)
  proof (elim disjE conjE)
    assume c: "ConnectionToken i userID (d, w) = (Inr (tok, exp), s)" and u: "utf8_ok userID"
    then have "tok = signHS256 (is_secret i) (connection_json userID (unix_sec exp) (unix_sec (go_now w)))"
      by (auto simp: ConnectionToken_signs bind_def now_def ret_def fail_def split: if_splits)
    then show ?thesis unfolding connection_json_def using untyped_refused t k u by simp
  next
    assume c: "SubscriptionToken i userID channel ttl (d, w) = (Inr (tok, exp), s)"
      and u: "utf8_ok (TrimSpace userID)" "utf8_ok (TrimSpace channel)"
    then have "tok = signHS256 (is_secret i)
        (subscription_json (TrimSpace userID) (TrimSpace channel) (unix_sec exp) (unix_sec exp) (unix_sec (go_now w)))"
      by (auto simp: SubscriptionToken_signs bind_def now_def ret_def fail_def Let_def split: if_splits)
    then show ?thesis unfolding subscription_json_def using untyped_refused t k u by simp
  qed
  then show ?thesis by (cases "token_claims m tok") (auto simp: Verify_def fail_def)
qed

theorem realtime_token_refused_witness:
  "\<exists>tok. ConnectionToken \<lparr>is_secret = ''secret'', is_ttl = second\<rparr> ''7'' ((), token_world) = (Inr (tok, second), ((), token_world))
     \<and> (\<exists>e. Verify sample_manager tok ((), token_world) = (Inl e, ((), token_world)))"
proof -
  have "TrimSpace ''7'' = ''7''" by code_simp
  then obtain tok where c: "ConnectionToken \<lparr>is_secret = ''secret'', is_ttl = second\<rparr> ''7'' ((), token_world)
      = (Inr (tok, second), ((), token_world))"
    by (auto simp: ConnectionToken_signs bind_def now_def ret_def)
  have "utf8_ok ''7''" by (simp add: utf8_ok_ascii byte_def)
  with realtime_token_refused [OF disjI1 sample_clock(1,2), OF conjI, OF c, of sample_manager "()" token_world] c show ?thesis by blast
qed

end
