(* ===== verification/Auth.thy ===== *)
theory Auth
  imports Access_Tokens Identity
begin

text \<open>
  \<^verbatim>\<open>internal/auth/password.go\<close> and \<^verbatim>\<open>internal/auth/service.go\<close>: stored passwords, registration
  and login. The tables of letters and digits of the Unicode library (\<open>U\<close>), the collation key
  of the database (\<open>ck\<close>) and the column default of avatars are arguments.
\<close>

section \<open>Passwords\<close>

definition passwordScheme :: string where "passwordScheme = ''pbkdf2-sha256''"
definition passwordIterations :: int where "passwordIterations = 210000"
definition passwordKeyBytes :: nat where "passwordKeyBytes = 32"

definition encode_std :: "string \<Rightarrow> string" where
  "encode_std b = b64_encode False False b"

text \<open>The salt is the next sixteen bytes of the random source.\<close>

definition rand_Read :: "('d, string) prog" where
  "rand_Read = (\<lambda>(d, w). case entropy w of
       Some b # es \<Rightarrow> (Inr b, (d, w\<lparr>entropy := es\<rparr>))
     | None # es \<Rightarrow> (Inl (Plain ''random source failed''), (d, w\<lparr>entropy := es\<rparr>))
     | [] \<Rightarrow> (Inl (Plain ''random source failed''), (d, w)))"

definition HashPassword :: "string \<Rightarrow> ('d, string) prog" where
  "HashPassword password =
     (if length password < 8 \<or> length password > 128 then fail (Plain ''password must be 8-128 characters'')
      else handle rand_Read (\<lambda>err. fail (errorf_pre ''generate password salt'' err))
        (\<lambda>salt. let key = pbkdf2 password salt (nat passwordIterations) passwordKeyBytes in
          ret (passwordScheme @ ''$'' @ FormatInt passwordIterations @ ''$'' @ encode_std salt @ ''$'' @ encode_std key)))"

definition VerifyPassword :: "string \<Rightarrow> string \<Rightarrow> bool" where
  "VerifyPassword encoded password =
     (case Split (CHR ''$'') encoded of
        [scheme, rounds, salt64, key64] \<Rightarrow>
          if scheme \<noteq> passwordScheme then False
          else (case ParseInt rounds of None \<Rightarrow> False | Some iterations \<Rightarrow>
            if iterations < 100000 \<or> iterations > 2000000 then False
            else (case b64_decode False False salt64 of None \<Rightarrow> False | Some salt \<Rightarrow>
              if length salt < 8 then False
              else (case b64_decode False False key64 of None \<Rightarrow> False | Some expected \<Rightarrow>
                if length expected < 16 then False
                else pbkdf2 password salt (nat iterations) (length expected) = expected)))
      | _ \<Rightarrow> False)"

section \<open>The service\<close>

record AuthService =
  au_U :: unicode
  au_ck :: "string \<Rightarrow> string"
  au_avatar :: string
  au_tokens :: TokenManager

record AuthResult =
  ar_user :: User
  ar_token :: string
  ar_expires :: int

definition auth_result :: "AuthService \<Rightarrow> User \<Rightarrow> ('d, AuthResult) prog" where
  "auth_result s u = bind (Issue (au_tokens s) (u_id u)) (\<lambda>(tok, exp).
     ret \<lparr>ar_user = u, ar_token = tok, ar_expires = unix_sec exp\<rparr>)"

definition validUsername :: "unicode \<Rightarrow> string \<Rightarrow> bool" where
  "validUsername U s \<longleftrightarrow> 3 \<le> length s \<and> length s \<le> 32
     \<and> list_all (\<lambda>r. \<not> ((\<not> is_letter U r \<and> \<not> is_digit U r \<and> r \<noteq> 95) \<or> r > 127)) (runes s)"

definition invalid_input :: "string \<Rightarrow> go_err" where
  "invalid_input why = errorf_post (Sentinel Auth_ErrInvalidInput) why"

definition Register :: "AuthService \<Rightarrow> string \<Rightarrow> string \<Rightarrow> string \<Rightarrow> (identity_db, AuthResult) prog" where
  "Register s username nickname password =
     (let username = ToLower (au_U s) (TrimSpace username); nickname = TrimSpace nickname in
      if \<not> validUsername (au_U s) username
      then fail (invalid_input ''username must be 3-32 letters, digits or underscore'')
      else if nickname = [] \<or> length (runes nickname) > 32
      then fail (invalid_input ''nickname must be 1-32 characters'')
      else if length password < 8 \<or> length password > 128
      then fail (invalid_input ''password must be 8-128 characters'')
      else handle (Auth_ByUsername (au_ck s) username)
        (\<lambda>err. if \<not> errors_is err Auth_ErrUserNotFound then fail err
          else bind (HashPassword password) (\<lambda>hash.
            handle (Auth_Create (au_ck s) (au_avatar s) username nickname hash)
              (\<lambda>err. if Contains_str (ToLower (au_U s) (error_text err)) ''duplicate''
                 then fail (Sentinel Auth_ErrUsernameTaken) else fail err)
              (auth_result s)))
        (\<lambda>_. fail (Sentinel Auth_ErrUsernameTaken)))"

definition Login :: "AuthService \<Rightarrow> string \<Rightarrow> string \<Rightarrow> (identity_db, AuthResult) prog" where
  "Login s username password =
     (let username = ToLower (au_U s) (TrimSpace username) in
      handle (Auth_ByUsername (au_ck s) username)
        (\<lambda>err. if errors_is err Auth_ErrUserNotFound then fail (Sentinel Auth_ErrInvalidCredentials) else fail err)
        (\<lambda>u. if u_status u \<noteq> 1 then fail (Sentinel Auth_ErrUserDisabled)
          else if \<not> VerifyPassword (u_password_hash u) password then fail (Sentinel Auth_ErrInvalidCredentials)
          else auth_result s u))"

definition Auth_User :: "int \<Rightarrow> (identity_db, User) prog" where
  "Auth_User i = Auth_ByID i"

section \<open>Lemmas\<close>

lemma Split_password:
  "Split (CHR ''$'') (passwordScheme @ ''$'' @ FormatInt passwordIterations @ ''$'' @ encode_std salt @ ''$'' @ encode_std key)
    = [passwordScheme, FormatInt passwordIterations, encode_std salt, encode_std key]"
proof -
  have "CHR ''$'' \<notin> set (FormatInt passwordIterations)" using FormatInt_digits [of passwordIterations "CHR ''$''"]
    by (auto simp: passwordIterations_def byte_def)
  moreover have "CHR ''$'' \<notin> set passwordScheme" by (simp add: passwordScheme_def)
  ultimately show ?thesis by (simp add: Split_piece Split_last encode_std_def b64_no_mark)
qed

text \<open>A stored password is accepted exactly when the derived keys agree.\<close>

lemma verify_hashed:
  assumes "HashPassword password (d, w) = (Inr enc, s)"
  shows "\<exists>salt. entropy w \<noteq> [] \<and> hd (entropy w) = Some salt \<and> (8 \<le> length salt \<longrightarrow>
    VerifyPassword enc other \<longleftrightarrow> pbkdf2 other salt (nat passwordIterations) passwordKeyBytes = pbkdf2 password salt (nat passwordIterations) passwordKeyBytes)"
proof -
  obtain salt where e: "entropy w \<noteq> []" "hd (entropy w) = Some salt" and enc: "enc = passwordScheme @ ''$'' @ FormatInt passwordIterations
      @ ''$'' @ encode_std salt @ ''$'' @ encode_std (pbkdf2 password salt (nat passwordIterations) passwordKeyBytes)"
    using assms by (auto simp: HashPassword_def rand_Read_def handle_def fail_def ret_def Let_def split: if_splits list.splits option.splits)
  have p: "ParseInt (FormatInt passwordIterations) = Some passwordIterations"
    by (rule ParseInt_FormatInt) (simp add: passwordIterations_def is_i64_def)
  have r: "\<not> (passwordIterations < 100000 \<or> passwordIterations > 2000000)" by (simp add: passwordIterations_def)
  have k: "\<not> length (pbkdf2 password salt (nat passwordIterations) passwordKeyBytes) < 16" by (simp add: passwordKeyBytes_def)
  have dec: "b64_decode False False (encode_std x) = Some x" for x by (simp add: encode_std_def)
  have "VerifyPassword enc other \<longleftrightarrow> pbkdf2 other salt (nat passwordIterations) passwordKeyBytes
      = pbkdf2 password salt (nat passwordIterations) passwordKeyBytes" if "8 \<le> length salt"
    unfolding VerifyPassword_def enc Split_password using p r k dec that by simp
  with e show ?thesis by blast
qed


section \<open>Accounts\<close>

text \<open>What a registration asks for that can be stored, and a name that is in use.\<close>

definition acceptable :: "unicode \<Rightarrow> string \<Rightarrow> string \<Rightarrow> string \<Rightarrow> bool" where
  "acceptable U username nickname password \<longleftrightarrow> validUsername U (ToLower U (TrimSpace username))
     \<and> TrimSpace nickname \<noteq> [] \<and> length (runes (TrimSpace nickname)) \<le> 32
     \<and> 8 \<le> length password \<and> length password \<le> 128"

definition name_taken :: "(string \<Rightarrow> string) \<Rightarrow> string \<Rightarrow> identity_db \<Rightarrow> bool" where
  "name_taken ck n db \<longleftrightarrow> list_ex (\<lambda>u. ck (u_username u) = ck n) (users db)"

text \<open>The stored form of a password: scheme, iterations, salt and derived key.\<close>

definition password_text :: "string \<Rightarrow> string \<Rightarrow> string" where
  "password_text password salt = ''pbkdf2-sha256$'' @ FormatInt 210000 @ ''$'' @ encode_std salt @ ''$'' @ encode_std (pbkdf2 password salt 210000 32)"

lemma stored_text:
  "passwordScheme @ ''$'' @ FormatInt passwordIterations @ ''$'' @ encode_std salt @ ''$''
     @ encode_std (pbkdf2 password salt (nat passwordIterations) passwordKeyBytes) = password_text password salt"
  by (simp add: password_text_def passwordScheme_def passwordIterations_def passwordKeyBytes_def)

text \<open>No two accounts share a name, up to collation, or a number.\<close>

definition accounts_ok :: "(string \<Rightarrow> string) \<Rightarrow> identity_db \<Rightarrow> bool" where
  "accounts_ok ck db \<longleftrightarrow> distinct (map (ck \<circ> u_username) (users db)) \<and> distinct (map u_id (users db))"

text \<open>The row a registration inserts.\<close>

definition insert_user :: "string \<Rightarrow> string \<Rightarrow> string \<Rightarrow> string \<Rightarrow> io \<Rightarrow> identity_db \<Rightarrow> identity_db" where
  "insert_user avatar username nickname hash w db = db\<lparr>users := users db @
     [\<lparr>u_id = next_id u_id (users db), u_username = username, u_nickname = nickname, u_avatar = avatar,
       u_password_hash = hash, u_status = 1, u_created_at = NOW3 w\<rparr>]\<rparr>"

lemma insert_keeps_accounts:
  assumes "accounts_ok ck db" and "\<not> list_ex (\<lambda>u. ck (u_username u) = ck username) (users db)"
  shows "accounts_ok ck (insert_user avatar username nickname hash w db)"
proof -
  have "next_id u_id (users db) \<notin> u_id ` set (users db)"
    using next_id_fresh [of _ "users db" u_id] less_irrefl by (metis imageE)
  moreover have "ck username \<notin> (ck \<circ> u_username) ` set (users db)" using assms(2) by (auto simp: list_ex_iff)
  ultimately show ?thesis using assms(1) by (simp add: accounts_ok_def insert_user_def)
qed

lemma keeps_Auth_Create: "keeps (accounts_ok ck) (Auth_Create ck avatar username nickname hash)"
  unfolding Auth_Create_def Auth_ByID_def
proof (intro keeps_intro keeps_ext)
  fix d w
  assume "accounts_ok ck d"
  then show "accounts_ok ck (snd (if list_ex (\<lambda>u. ck (u_username u) = ck username) (users d)
      then (Inl (dup_entry username ''users.uk_users_username''), d)
      else let i = next_id u_id (users d) in (Inr i, d\<lparr>users := users d @ [\<lparr>u_id = i, u_username = username, u_nickname = nickname,
            u_avatar = avatar, u_password_hash = hash, u_status = 1, u_created_at = NOW3 w\<rparr>]\<rparr>)))"
    using insert_keeps_accounts [of ck d username avatar nickname hash w] by (simp add: insert_user_def Let_def)
qed

lemma keeps_rand_Read [keeps_intro]: "keeps I rand_Read"
  by (auto simp: keeps_def rand_Read_def split: list.splits option.splits)

lemma keeps_Issue [keeps_intro]: "keeps I (Issue m u)"
  unfolding Issue_def Let_def by (intro keeps_intro)

lemma keeps_auth_result [keeps_intro]: "keeps I (auth_result s u)"
  unfolding auth_result_def by (intro keeps_intro)

lemma keeps_HashPassword [keeps_intro]: "keeps I (HashPassword p)"
  unfolding HashPassword_def Let_def by (intro keeps_intro)

section \<open>Registering and logging in\<close>

lemma HashPassword_D: "HashPassword p (d, w) = (r, (d', w')) \<Longrightarrow> d' = d \<and> faults w' = faults w \<and> clocks w' = clocks w"
  by (auto simp: HashPassword_def rand_Read_def handle_def fail_def ret_def Let_def clocks_def split: if_splits list.splits option.splits)

lemma Create_D:
  assumes "Auth_Create ck avatar username nickname hash (d, w) = (Inr u, (d', w'))"
  shows "\<exists>w1. \<not> list_ex (\<lambda>u. ck (u_username u) = ck username) (users d) \<and> d' = insert_user avatar username nickname hash w1 d
    \<and> u = last (users d')"
proof -
  obtain i d1 w1 where c: "ext (\<lambda>db w. if list_ex (\<lambda>u. ck (u_username u) = ck username) (users db)
       then (Inl (dup_entry username ''users.uk_users_username''), db)
       else let i = next_id u_id (users db) in
         (Inr i, db\<lparr>users := users db @ [\<lparr>u_id = i, u_username = username, u_nickname = nickname,
            u_avatar = avatar, u_password_hash = hash, u_status = 1, u_created_at = NOW3 w\<rparr>]\<rparr>)) (d, w) = (Inr i, (d1, w1))"
    and b: "Auth_ByID i (d1, w1) = (Inr u, (d', w'))"
    using assms unfolding Auth_Create_def by (auto simp: bind_Inr)
  from c have d1: "\<not> list_ex (\<lambda>u. ck (u_username u) = ck username) (users d)" "i = next_id u_id (users d)"
    "d1 = insert_user avatar username nickname hash w1 d"
    by (auto elim!: ext_InrE simp: insert_user_def Let_def split: if_splits)
  have "d' = d1 \<and> find (\<lambda>u. u_id u = i) (users d1) = Some u"
    using b by (auto simp: Auth_ByID_def select_user_def handle_eq elim!: read_ext_InrE split: option.splits)
  moreover have "find (\<lambda>u. u_id u = i) (users d) = None"
    using next_id_fresh [of _ "users d" u_id] d1(2) by (fastforce simp: find_None_all)
  ultimately show ?thesis using d1 by (auto simp: insert_user_def find_append)
qed

lemma user_lookup_D: "select_user P (d, w) = (r, (d', w')) \<Longrightarrow> d' = d \<and> entropy w' = entropy w"
  by (cases "faults w"; cases "hd (faults w)")
    (auto simp: select_user_def handle_eq read_ext_def ext_def split: outcome.splits option.splits prod.splits)

lemma user_lookup_quiet:
  "faults w = [] \<Longrightarrow> select_user P (d, w) =
    ((case find P (users d) of None \<Rightarrow> Inl (Sentinel Auth_ErrUserNotFound) | Some u \<Rightarrow> Inr u), (d, w))"
  by (simp add: select_user_def handle_def read_ext_quiet fail_def ret_def split: option.splits)

lemma Register_D:
  assumes "Register s username nickname password (d, w) = (Inr res, (d', w'))"
  shows "\<exists>hash w0 w1 s1. entropy w0 = entropy w \<and> HashPassword password (d, w0) = (Inr hash, s1)
    \<and> \<not> list_ex (\<lambda>u. au_ck s (u_username u) = au_ck s (ToLower (au_U s) (TrimSpace username))) (users d)
    \<and> d' = insert_user (au_avatar s) (ToLower (au_U s) (TrimSpace username)) (TrimSpace nickname) hash w1 d
    \<and> ar_user res = last (users d')"
proof -
  let ?n = "ToLower (au_U s) (TrimSpace username)"
  obtain e w0 d0 where a: "Auth_ByUsername (au_ck s) ?n (d, w) = (Inl e, (d0, w0))"
    and b: "bind (HashPassword password) (\<lambda>hash.
            handle (Auth_Create (au_ck s) (au_avatar s) ?n (TrimSpace nickname) hash)
              (\<lambda>err. if Contains_str (ToLower (au_U s) (error_text err)) ''duplicate''
                 then fail (Sentinel Auth_ErrUsernameTaken) else fail err)
              (auth_result s)) (d0, w0) = (Inr res, (d', w'))"
    using assms by (auto simp: Register_def Let_def handle_eq split: if_splits)
  have d0: "d0 = d" "entropy w0 = entropy w" using user_lookup_D a unfolding Auth_ByUsername_def by blast+
  obtain hash d1 w1 where h: "HashPassword password (d, w0) = (Inr hash, (d1, w1))"
    and c: "handle (Auth_Create (au_ck s) (au_avatar s) ?n (TrimSpace nickname) hash)
              (\<lambda>err. if Contains_str (ToLower (au_U s) (error_text err)) ''duplicate''
                 then fail (Sentinel Auth_ErrUsernameTaken) else fail err)
              (auth_result s) (d1, w1) = (Inr res, (d', w'))"
    using b d0 by (auto simp: bind_Inr)
  have "d1 = d" using HashPassword_D [OF h] by simp
  then obtain u d2 w2 where cr: "Auth_Create (au_ck s) (au_avatar s) ?n (TrimSpace nickname) hash (d, w1) = (Inr u, (d2, w2))"
    and r: "auth_result s u (d2, w2) = (Inr res, (d', w'))"
    using c by (auto simp: handle_eq split: if_splits)
  have d': "d' = d2" "ar_user res = u" using r by (auto simp: auth_result_def Issue_def bind_def now_def ret_def fail_def Let_def split: if_splits)
  from Create_D [OF cr] d' d0(2) h show ?thesis by blast
qed

lemma name_taken_find: "name_taken ck n d \<longleftrightarrow> find (\<lambda>u. ck (u_username u) = ck n) (users d) \<noteq> None"
  by (auto simp: name_taken_def list_ex_iff find_None_iff)

lemma lookup_name:
  assumes "Auth_ByUsername ck n (d, w) = (x, (d1, w1))"
  shows "d1 = d \<and> entropy w1 = entropy w \<and> (\<forall>u. x = Inr u \<longrightarrow> name_taken ck n d)
    \<and> (\<forall>e. x = Inl e \<longrightarrow> errors_is e Auth_ErrUserNotFound \<longrightarrow> \<not> name_taken ck n d)"
  using assms user_lookup_D [of "\<lambda>u. ck (u_username u) = ck n" d w x d1 w1]
  by (auto simp: Auth_ByUsername_def select_user_def handle_eq name_taken_find
      dest!: read_ext_D split: option.splits if_splits)

lemma HashPassword_text:
  assumes "HashPassword password (d, w) = (r, (d', w'))"
  shows "\<forall>hash. r = Inr hash \<longrightarrow> (\<exists>salt es. entropy w = Some salt # es \<and> hash = password_text password salt)"
  using assms stored_text [of _ password]
  by (auto simp: HashPassword_def rand_Read_def handle_def fail_def ret_def Let_def
      split: if_splits list.splits option.splits)

lemma Auth_Create_cases:
  assumes "Auth_Create ck avatar n nick hash (d, w) = (x, (d', w'))" and "\<not> name_taken ck n d"
  shows "d' = d \<and> (\<forall>u. x \<noteq> Inr u) \<or> (\<exists>w1. d' = insert_user avatar n nick hash w1 d \<and> (\<forall>u. x = Inr u \<longrightarrow> u = last (users d')))"
proof (cases x)
  case (Inr u)
  with Create_D assms(1) show ?thesis by blast
next
  case (Inl e)
  with assms show ?thesis
    by (auto simp: Auth_Create_def bind_eq Auth_ByID_def insert_user_def Let_def name_taken_def
        dest!: ext_D user_lookup_D split: if_splits)
qed

lemma auth_result_D: "auth_result s u (d, w) = (r, (d', w')) \<Longrightarrow> d' = d \<and> (\<forall>res. r = Inr res \<longrightarrow> ar_user res = u)"
  by (auto simp: auth_result_def Issue_def bind_def now_def ret_def fail_def Let_def split: if_splits)

text \<open>A registration past its checks: the lookup, then the hash and the insert.\<close>

definition register_new :: "AuthService \<Rightarrow> string \<Rightarrow> string \<Rightarrow> string \<Rightarrow> (identity_db, AuthResult) prog" where
  "register_new s n nick password = bind (HashPassword password) (\<lambda>hash.
     handle (Auth_Create (au_ck s) (au_avatar s) n nick hash)
       (\<lambda>err. if Contains_str (ToLower (au_U s) (error_text err)) ''duplicate''
          then fail (Sentinel Auth_ErrUsernameTaken) else fail err)
       (auth_result s))"

lemma Register_eq:
  "acceptable (au_U s) username nickname password \<Longrightarrow> Register s username nickname password =
     handle (Auth_ByUsername (au_ck s) (ToLower (au_U s) (TrimSpace username)))
       (\<lambda>err. if \<not> errors_is err Auth_ErrUserNotFound then fail err
         else register_new s (ToLower (au_U s) (TrimSpace username)) (TrimSpace nickname) password)
       (\<lambda>_. fail (Sentinel Auth_ErrUsernameTaken))"
  unfolding register_new_def by (auto simp: Register_def acceptable_def Let_def)

lemma Register_refuses:
  "\<not> acceptable (au_U s) username nickname password \<Longrightarrow> Register s username nickname password =
     fail (invalid_input (if \<not> validUsername (au_U s) (ToLower (au_U s) (TrimSpace username))
       then ''username must be 3-32 letters, digits or underscore''
       else if TrimSpace nickname = [] \<or> length (runes (TrimSpace nickname)) > 32
       then ''nickname must be 1-32 characters'' else ''password must be 8-128 characters''))"
  by (auto simp: Register_def acceptable_def Let_def)

lemma register_new_cases:
  assumes "register_new s n nick password (d, w) = (r, (d', w'))" and "\<not> name_taken (au_ck s) n d"
  shows "d' = d \<and> (\<forall>res. r \<noteq> Inr res) \<or> (\<exists>salt es w1. entropy w = Some salt # es
    \<and> d' = insert_user (au_avatar s) n nick (password_text password salt) w1 d \<and> (\<forall>res. r = Inr res \<longrightarrow> ar_user res = last (users d')))"
proof -
  obtain h d1 w1 where h: "HashPassword password (d, w) = (h, (d1, w1))" by (metis prod.collapse)
  have d1: "d1 = d" using HashPassword_D [OF h] by simp
  show ?thesis
  proof (cases h)
    case (Inl e)
    with assms(1) h d1 show ?thesis by (auto simp: register_new_def bind_def)
  next
    case (Inr hash)
    then obtain salt es where e: "entropy w = Some salt # es" "hash = password_text password salt"
      using HashPassword_text [OF h] by blast
    obtain x d2 w2 where c: "Auth_Create (au_ck s) (au_avatar s) n nick hash (d, w1) = (x, (d2, w2))" by (metis prod.collapse)
    have "d' = d2 \<and> (\<forall>res. r = Inr res \<longrightarrow> (\<exists>u. x = Inr u \<and> ar_user res = u))"
      using assms(1) h Inr c d1
      by (cases x) (auto simp: register_new_def bind_def handle_def fail_def dest: auth_result_D split: if_splits)
    with Auth_Create_cases [OF c assms(2)] e show ?thesis by blast
  qed
qed

lemma register_new_quiet:
  assumes "faults w = []" and "entropy w = Some salt # es" and "8 \<le> length password" "length password \<le> 128"
    and "\<not> name_taken (au_ck s) n d"
  shows "\<exists>res. fst (register_new s n nick password (d, w)) = Inr res"
proof -
  have h: "HashPassword password (d, w) = (Inr (password_text password salt), (d, w\<lparr>entropy := es\<rparr>))"
    using assms(2-4) stored_text [of salt password] by (simp add: HashPassword_def rand_Read_def handle_def ret_def Let_def)
  let ?w = "w\<lparr>entropy := es\<rparr>"
  let ?d = "insert_user (au_avatar s) n nick (password_text password salt) ?w d"
  have q: "faults ?w = []" using assms(1) by simp
  have "find (\<lambda>u. u_id u = next_id u_id (users d)) (users d) = None"
    using next_id_fresh [of _ "users d" u_id] by (fastforce simp: find_None_all)
  then have u: "find (\<lambda>u. u_id u = next_id u_id (users d)) (users ?d) = Some (last (users ?d))"
    by (simp add: insert_user_def find_append)
  have "Auth_Create (au_ck s) (au_avatar s) n nick (password_text password salt) (d, ?w) = (Inr (last (users ?d)), (?d, ?w))"
    using assms(5) u by (simp add: Auth_Create_def bind_def ext_quiet [OF q] Auth_ByID_def user_lookup_quiet [OF q]
        name_taken_def insert_user_def Let_def)
  moreover have "0 < u_id (last (users ?d))"
    using fold_max_ge(2) [of 0 u_id "users d"] by (simp add: insert_user_def next_id_def)
  ultimately show ?thesis
    using h by (simp add: register_new_def bind_def handle_def auth_result_def Issue_def now_def ret_def Let_def)
qed

text \<open>
  C28. What a registration does. Under any failures: bad input is refused with the first reason that
  applies (name, nickname, password, in this order) before any call is made. A name that an account
  already has, after trimming and lower-casing and up to the collation of the database, is refused
  with nothing changed and no salt drawn, as taken if the lookup does not fail. Otherwise the table
  is unchanged and the registration fails, or one active account was added with the next number, the
  trimmed, lower-cased name, the trimmed nickname and the password in its salted stored form, which
  is the account a success answers; without failures it succeeds. Accounts stay apart in name and number.
\<close>

theorem registration_decides:
  assumes "Register s username nickname password (d, w) = (r, (d', w'))"
    and "n = ToLower (au_U s) (TrimSpace username)" and "nick = TrimSpace nickname"
  shows "(\<not> acceptable (au_U s) username nickname password \<longrightarrow> d' = d \<and> w' = w \<and>
       r = Inl (invalid_input (if \<not> validUsername (au_U s) n then ''username must be 3-32 letters, digits or underscore''
         else if nick = [] \<or> length (runes nick) > 32 then ''nickname must be 1-32 characters''
         else ''password must be 8-128 characters'')))
    \<and> (acceptable (au_U s) username nickname password \<longrightarrow> name_taken (au_ck s) n d \<longrightarrow>
       d' = d \<and> entropy w' = entropy w \<and> (\<forall>res. r \<noteq> Inr res) \<and> (faults w = [] \<longrightarrow> r = Inl (Sentinel Auth_ErrUsernameTaken)))
    \<and> (acceptable (au_U s) username nickname password \<longrightarrow> \<not> name_taken (au_ck s) n d \<longrightarrow>
       (d' = d \<and> (\<forall>res. r \<noteq> Inr res)
        \<or> (\<exists>salt es w1. entropy w = Some salt # es
           \<and> d' = insert_user (au_avatar s) n nick (password_text password salt) w1 d
           \<and> (\<forall>res. r = Inr res \<longrightarrow> ar_user res = last (users d'))))
       \<and> (faults w = [] \<longrightarrow> (\<exists>salt es. entropy w = Some salt # es) \<longrightarrow> (\<exists>res. r = Inr res)))
    \<and> (accounts_ok (au_ck s) d \<longrightarrow> accounts_ok (au_ck s) d')"
proof (cases "acceptable (au_U s) username nickname password")
  case False
  with assms show ?thesis by (auto simp: Register_refuses fail_def)
next
  case ok: True
  obtain x d1 w1 where l: "Auth_ByUsername (au_ck s) n (d, w) = (x, (d1, w1))" by (metis prod.collapse)
  note look = lookup_name [OF l]
  have quiet: "faults w = [] \<Longrightarrow> w1 = w \<and> (name_taken (au_ck s) n d \<longrightarrow> (\<exists>u. x = Inr u))
      \<and> (\<not> name_taken (au_ck s) n d \<longrightarrow> x = Inl (Sentinel Auth_ErrUserNotFound))"
    using l by (auto simp: Auth_ByUsername_def user_lookup_quiet name_taken_find split: option.splits)
  have run: "(r, (d', w')) = (case x of Inr u \<Rightarrow> (Inl (Sentinel Auth_ErrUsernameTaken), (d, w1))
      | Inl e \<Rightarrow> if errors_is e Auth_ErrUserNotFound then register_new s n nick password (d, w1) else (Inl e, (d, w1)))"
    using assms look l by (auto simp: Register_eq [OF ok] handle_def fail_def split: sum.splits)
  show ?thesis
  proof (cases "name_taken (au_ck s) n d")
    case True
    with look run quiet ok show ?thesis by (auto split: sum.splits if_splits)
  next
    case free: False
    have q: "\<exists>res. r = Inr res" if "faults w = []" "entropy w = Some salt # es" for salt es
      using register_new_quiet [OF that _ _ free, of password nick] quiet [OF that(1)] free run ok
      by (auto simp: acceptable_def) (metis fst_conv)
    have "d' = d \<and> (\<forall>res. r \<noteq> Inr res) \<or> (\<exists>salt es w1. entropy w = Some salt # es
        \<and> d' = insert_user (au_avatar s) n nick (password_text password salt) w1 d \<and> (\<forall>res. r = Inr res \<longrightarrow> ar_user res = last (users d')))"
      using look run register_new_cases [of s n nick password d w1 r d' w', OF _ free] by (auto split: sum.splits if_splits)
    moreover from this insert_keeps_accounts free have "accounts_ok (au_ck s) d \<longrightarrow> accounts_ok (au_ck s) d'"
      unfolding name_taken_def by blast
    ultimately show ?thesis using ok free q by blast
  qed
qed

text \<open>
  C27. Whoever registered can log in. After a successful registration, a login under the same name
  (up to case and surrounding space) answers the registered account if its password derives the
  stored key, the registration's own password among them, and is refused as invalid otherwise.
\<close>

theorem registered_can_login:
  assumes "Register s username nickname password (d, w) = (Inr res, (d', w'))"
    and "\<forall>b. Some b \<in> set (entropy w) \<longrightarrow> 8 \<le> length b" and "faults w2 = []"
    and "ToLower (au_U s) (TrimSpace name) = ToLower (au_U s) (TrimSpace username)"
  shows "\<exists>salt tok exp. Some salt \<in> set (entropy w) \<and> Login s name other (d', w2) =
    (if pbkdf2 other salt 210000 32 = pbkdf2 password salt 210000 32
     then Inr \<lparr>ar_user = ar_user res, ar_token = tok, ar_expires = exp\<rparr>
     else Inl (Sentinel Auth_ErrInvalidCredentials), (d', w2))"
proof -
  let ?n = "ToLower (au_U s) (TrimSpace username)"
  obtain hash w0 w1 s1 where h: "entropy w0 = entropy w" "HashPassword password (d, w0) = (Inr hash, s1)"
    and free: "\<not> list_ex (\<lambda>u. au_ck s (u_username u) = au_ck s ?n) (users d)"
    and d': "d' = insert_user (au_avatar s) ?n (TrimSpace nickname) hash w1 d" "ar_user res = last (users d')"
    using Register_D [OF assms(1)] by blast
  obtain salt where e: "entropy w \<noteq> []" "hd (entropy w) = Some salt"
    and v: "8 \<le> length salt \<longrightarrow> VerifyPassword hash other \<longleftrightarrow> pbkdf2 other salt (nat passwordIterations) passwordKeyBytes
      = pbkdf2 password salt (nat passwordIterations) passwordKeyBytes"
    using verify_hashed [OF h(2), of other] h(1) by auto
  then have salt: "Some salt \<in> set (entropy w)" using hd_in_set by metis
  with assms(2) v have v: "VerifyPassword hash other \<longleftrightarrow> pbkdf2 other salt 210000 32 = pbkdf2 password salt 210000 32"
    by (simp add: passwordIterations_def passwordKeyBytes_def)
  let ?u = "last (users d')"
  have "find (\<lambda>u. au_ck s (u_username u) = au_ck s ?n) (users d) = None"
    using free by (simp add: find_None_all list_ex_iff)
  then have "find (\<lambda>u. au_ck s (u_username u) = au_ck s ?n) (users d') = Some ?u"
    by (simp add: d'(1) insert_user_def find_append)
  then have by_name: "Auth_ByUsername (au_ck s) ?n (d', w2) = (Inr ?u, (d', w2))"
    by (simp add: Auth_ByUsername_def user_lookup_quiet [OF assms(3)])
  have u: "u_status ?u = 1" "u_password_hash ?u = hash" "0 < u_id ?u"
    using fold_max_ge(2) [of 0 u_id "users d"] by (simp_all add: d'(1) insert_user_def next_id_def)
  from u(3) obtain tok exp where r: "auth_result s ?u (d', w2) = (Inr \<lparr>ar_user = ?u, ar_token = tok, ar_expires = exp\<rparr>, (d', w2))"
    by (auto simp: auth_result_def Issue_def bind_def now_def ret_def Let_def)
  have "Login s name other (d', w2) = (if VerifyPassword hash other then auth_result s ?u (d', w2)
      else (Inl (Sentinel Auth_ErrInvalidCredentials), (d', w2)))"
    by (simp add: Login_def assms(4) handle_def by_name u fail_def)
  then show ?thesis using r v salt d'(2) by auto
qed

abbreviation sample_auth :: AuthService where
  "sample_auth \<equiv> \<lparr>au_U = ascii_only, au_ck = (\<lambda>x. x), au_avatar = [], au_tokens = sample_manager\<rparr>"

abbreviation salted_world :: io where
  "salted_world \<equiv> \<lparr>faults = [], go_now = 0, db_now = 0, rd_now = 0, entropy = [Some ''0123456789abcdef'']\<rparr>"

lemma sample_register: "\<exists>res d' w'. Register sample_auth '' Alice'' ''Al'' ''password1'' (\<lparr>users = []\<rparr>, salted_world) = (Inr res, (d', w'))"
proof -
  have n: "ToLower ascii_only (TrimSpace '' Alice'') = ''alice''" "TrimSpace ''Al'' = ''Al''" "validUsername ascii_only ''alice''"
    "length (runes ''Al'') = 2" by code_simp+
  obtain h w1 where h: "HashPassword ''password1'' (\<lparr>users = []\<rparr>, salted_world) = (Inr h, (\<lparr>users = []\<rparr>, w1))" "faults w1 = []"
    by (simp add: HashPassword_def handle_def rand_Read_def ret_def Let_def)
  have "Register sample_auth '' Alice'' ''Al'' ''password1'' (\<lparr>users = []\<rparr>, salted_world)
      = handle (Auth_Create (\<lambda>x. x) [] ''alice'' ''Al'' h)
              (\<lambda>err. if Contains_str (ToLower ascii_only (error_text err)) ''duplicate''
                 then fail (Sentinel Auth_ErrUsernameTaken) else fail err)
              (auth_result sample_auth) (\<lparr>users = []\<rparr>, w1)"
    using h(1) by (simp add: Register_def Let_def n handle_def Auth_ByUsername_def user_lookup_quiet bind_def)
  also have "\<exists>res d' w'. \<dots> = (Inr res, (d', w'))"
    using h(2) by (simp add: handle_def Auth_Create_def bind_def ext_quiet next_id_def Let_def Auth_ByID_def user_lookup_quiet
        auth_result_def Issue_def now_def ret_def)
  finally show ?thesis .
qed

theorem registered_can_login_witness:
  "\<exists>res d' w' tok exp. Register sample_auth '' Alice'' ''Al'' ''password1'' (\<lparr>users = []\<rparr>, salted_world) = (Inr res, (d', w'))
     \<and> Login sample_auth ''ALICE'' ''password1'' (d', token_world)
       = (Inr \<lparr>ar_user = ar_user res, ar_token = tok, ar_expires = exp\<rparr>, (d', token_world))"
proof -
  obtain res d' w' where r: "Register sample_auth '' Alice'' ''Al'' ''password1'' (\<lparr>users = []\<rparr>, salted_world) = (Inr res, (d', w'))"
    using sample_register by blast
  have "ToLower ascii_only (TrimSpace ''ALICE'') = ToLower ascii_only (TrimSpace '' Alice'')" by code_simp
  with registered_can_login [OF r, of token_world "''ALICE''" "''password1''"] r show ?thesis by auto
qed

theorem registration_decides_witness:
  "\<exists>res d' w' w''. Register sample_auth '' Alice'' ''Al'' ''password1'' (\<lparr>users = []\<rparr>, salted_world) = (Inr res, (d', w'))
     \<and> map u_username (users d') = [''alice''] \<and> map u_password_hash (users d') = [password_text ''password1'' ''0123456789abcdef'']
     \<and> Register sample_auth ''ALICE '' ''Al'' ''password2'' (d', salted_world) = (Inl (Sentinel Auth_ErrUsernameTaken), (d', w''))
     \<and> entropy w'' = entropy salted_world"
proof -
  obtain res d' w' where r: "Register sample_auth '' Alice'' ''Al'' ''password1'' (\<lparr>users = []\<rparr>, salted_world) = (Inr res, (d', w'))"
    using sample_register by blast
  have n: "ToLower ascii_only (TrimSpace '' Alice'') = ''alice''" "ToLower ascii_only (TrimSpace ''ALICE '') = ''alice''"
    "acceptable ascii_only '' Alice'' ''Al'' ''password1''" "acceptable ascii_only ''ALICE '' ''Al'' ''password2''" by code_simp+
  obtain salt es w1 where e: "entropy salted_world = Some salt # es"
    "d' = insert_user [] ''alice'' (TrimSpace ''Al'') (password_text ''password1'' salt) w1 \<lparr>users = []\<rparr>"
    using registration_decides [OF r refl refl] n by (auto simp: name_taken_def)
  then have d: "map u_username (users d') = [''alice'']" "map u_password_hash (users d') = [password_text ''password1'' ''0123456789abcdef'']"
    by (simp_all add: insert_user_def)
  obtain r2 d2 w2 where r2: "Register sample_auth ''ALICE '' ''Al'' ''password2'' (d', salted_world) = (r2, (d2, w2))"
    by (metis prod.collapse)
  have "name_taken (\<lambda>x. x) ''alice'' d'" using e(2) by (simp add: name_taken_def insert_user_def)
  with registration_decides [OF r2 refl refl] n have "r2 = Inl (Sentinel Auth_ErrUsernameTaken)" "d2 = d'" "entropy w2 = entropy salted_world"
    by auto
  with r r2 d show ?thesis by (intro exI [of _ res] exI [of _ d'] exI [of _ w'] exI [of _ w2]) (simp only: simp_thms)
qed

end
