(* ===== verification/Go_Float.thy ===== *)
theory Go_Float
  imports Complex_Main Json_Struct
begin

text \<open>
  Go's \<^verbatim>\<open>float64\<close>: a finite double is the rational number it denotes, next to the infinities
  and the not-a-number value. Every operation rounds the exact result to the nearest double,
  ties to even, down to the subnormals and up to overflow. The two zeros are not told apart
  (no value of the model can come out as the negative one).
\<close>

section \<open>Values\<close>

datatype float64 = Fin rat | Infinite bool | NaN

definition half_even :: "rat \<Rightarrow> int" where
  "half_even q = (let f = \<lfloor>q\<rfloor>; r = q - of_int f in
     if r < 1 / 2 then f else if r > 1 / 2 then f + 1 else if even f then f else f + 1)"

function bits :: "int \<Rightarrow> nat" where
  "bits x = (if x \<le> 0 then 0 else Suc (bits (x div 2)))"
  by auto
termination by (relation "measure nat") auto

declare bits.simps [simp del]

text \<open>The exponent of the largest power of two up to a positive number.\<close>

definition binade :: "rat \<Rightarrow> int" where
  "binade x = (case quotient_of x of (n, d) \<Rightarrow>
     let e = int (bits n) - int (bits d) in if 2 powi e \<le> x then e else e - 1)"

definition ulp :: "rat \<Rightarrow> rat" where
  "ulp x = 2 powi (max (binade x - 52) (-1074))"

definition rnd :: "rat \<Rightarrow> float64" where
  "rnd x = (if x = 0 then Fin 0
     else let v = of_int (half_even (\<bar>x\<bar> / ulp \<bar>x\<bar>)) * ulp \<bar>x\<bar> in
       if v \<ge> 2 powi 1024 then Infinite (x < 0) else Fin (sgn x * v))"

section \<open>Operations\<close>

definition f_of_int :: "int \<Rightarrow> float64" where
  "f_of_int i = rnd (of_int i)"

fun f_mul :: "float64 \<Rightarrow> float64 \<Rightarrow> float64" where
  "f_mul (Fin x) (Fin y) = rnd (x * y)"
| "f_mul (Infinite s) (Fin y) = (if y = 0 then NaN else Infinite (s \<noteq> (y < 0)))"
| "f_mul (Fin x) (Infinite s) = (if x = 0 then NaN else Infinite (s \<noteq> (x < 0)))"
| "f_mul (Infinite s) (Infinite t) = Infinite (s \<noteq> t)"
| "f_mul _ _ = NaN"

fun f_div :: "float64 \<Rightarrow> float64 \<Rightarrow> float64" where
  "f_div (Fin x) (Fin y) = (if y = 0 then (if x = 0 then NaN else Infinite (x < 0)) else rnd (x / y))"
| "f_div (Infinite s) (Fin y) = Infinite (s \<noteq> (y < 0))"
| "f_div (Fin x) (Infinite s) = Fin 0"
| "f_div _ _ = NaN"

fun f_add :: "float64 \<Rightarrow> float64 \<Rightarrow> float64" where
  "f_add (Fin x) (Fin y) = rnd (x + y)"
| "f_add (Infinite s) (Fin y) = Infinite s"
| "f_add (Fin x) (Infinite s) = Infinite s"
| "f_add (Infinite s) (Infinite t) = (if s = t then Infinite s else NaN)"
| "f_add _ _ = NaN"

text \<open>Comparisons; nothing compares with \<open>NaN\<close>.\<close>

fun f_less :: "float64 \<Rightarrow> float64 \<Rightarrow> bool" where
  "f_less (Fin x) (Fin y) = (x < y)"
| "f_less (Infinite s) (Fin y) = s"
| "f_less (Fin x) (Infinite s) = (\<not> s)"
| "f_less (Infinite s) (Infinite t) = (s \<and> \<not> t)"
| "f_less _ _ = False"

definition f_le :: "float64 \<Rightarrow> float64 \<Rightarrow> bool" where
  "f_le x y \<longleftrightarrow> f_less x y \<or> (x = y \<and> x \<noteq> NaN)"

text \<open>\<^verbatim>\<open>math.Min\<close> and \<^verbatim>\<open>math.Max\<close>.\<close>

definition f_min :: "float64 \<Rightarrow> float64 \<Rightarrow> float64" where
  "f_min x y = (if x = Infinite True \<or> y = Infinite True then Infinite True
     else if x = NaN \<or> y = NaN then NaN else if f_less x y then x else y)"

definition f_max :: "float64 \<Rightarrow> float64 \<Rightarrow> float64" where
  "f_max x y = (if x = Infinite False \<or> y = Infinite False then Infinite False
     else if x = NaN \<or> y = NaN then NaN else if f_less y x then x else y)"

text \<open>\<^verbatim>\<open>Duration.Seconds\<close>.\<close>

definition dur_seconds :: "int \<Rightarrow> float64" where
  "dur_seconds d = f_add (f_of_int (go_quot d second)) (f_div (f_of_int (go_rem d second)) (Fin 1000000000))"

section \<open>Printing\<close>

text \<open>
  The text \<^verbatim>\<open>encoding/json\<close> writes: the shortest decimal that reads back as the number, the
  nearest of that length, in exponent form below a millionth and from 10 to the 21 on. The digits
  are the integer \<open>c\<close>, their value \<open>c\<close> times \<open>10\<close> to the \<open>k\<close>.
\<close>

definition decade :: "rat \<Rightarrow> int" where
  "decade x = (let e = 30103 * binade x div 100000 in
     if 10 powi (e + 1) \<le> x then e + 1 else if 10 powi e \<le> x then e else e - 1)"

definition decimal_of :: "rat \<Rightarrow> nat \<Rightarrow> (int \<times> int) option" where
  "decimal_of x n = (let k = decade x + 1 - int n; q = x / 10 powi k; f = \<lfloor>q\<rfloor>;
       ok = (\<lambda>c. rnd (of_int c * 10 powi k) = Fin x) in
     if ok f \<and> ok (f + 1) then Some (if q - of_int f \<le> of_int (f + 1) - q then f else f + 1, k)
     else if ok f then Some (f, k) else if ok (f + 1) then Some (f + 1, k) else None)"

definition shortest :: "rat \<Rightarrow> (int \<times> int) option" where
  "shortest x = (case find (\<lambda>r. r \<noteq> None) (map (decimal_of x) [1..<18]) of Some r \<Rightarrow> r | None \<Rightarrow> None)"

definition zeros :: "int \<Rightarrow> string" where
  "zeros n = replicate (nat n) (CHR ''0'')"

definition plain_decimal :: "string \<Rightarrow> int \<Rightarrow> string" where
  "plain_decimal ds k =
     (let p = int (length ds) + k in
      if k \<ge> 0 then ds @ zeros k
      else if p > 0 then take (nat p) ds @ ''.'' @ drop (nat p) ds
      else ''0.'' @ zeros (- p) @ ds)"

definition exp_decimal :: "string \<Rightarrow> int \<Rightarrow> string" where
  "exp_decimal ds k =
     (let e = int (length ds) + k - 1 in
      take 1 ds @ (if length ds > 1 then ''.'' @ drop 1 ds else []) @ ''e''
      @ (if e < 0 then ''-'' else ''+'') @ FormatInt \<bar>e\<bar>)"

definition trim_zeros :: "string \<Rightarrow> int \<Rightarrow> string \<times> int" where
  "trim_zeros ds k = (let t = rev (dropWhile (\<lambda>c. c = CHR ''0'') (rev ds)) in (t, k + int (length ds - length t)))"

text \<open>An infinite value or \<open>NaN\<close> cannot be written.\<close>

fun float_json :: "float64 \<Rightarrow> json option" where
  "float_json (Fin x) =
     (if x = 0 then Some (JNum ''0'')
      else case shortest \<bar>x\<bar> of None \<Rightarrow> None | Some (c, k) \<Rightarrow>
        (case trim_zeros (FormatInt c) k of (ds, k') \<Rightarrow>
          Some (JNum ((if x < 0 then ''-'' else [])
            @ (if f_less (Fin \<bar>x\<bar>) (rnd (1 / 1000000)) \<or> \<bar>x\<bar> \<ge> 1000000000000000000000 then exp_decimal ds k' else plain_decimal ds k')))))"
| "float_json _ = None"

section \<open>Reading\<close>

text \<open>\<^verbatim>\<open>strconv.ParseFloat\<close> on the literal of a JSON number.\<close>

fun digits_int :: "string \<Rightarrow> int" where
  "digits_int s = foldl (\<lambda>v c. 10 * v + (byte c - 48)) 0 s"

definition number_value :: "string \<Rightarrow> rat" where
  "number_value s =
     (let neg = HasPrefix s ''-''; s = (if neg then tl s else s);
          m = takeWhile (\<lambda>c. c \<noteq> CHR ''e'' \<and> c \<noteq> CHR ''E'') s; x = drop (Suc (length m)) s;
          whole = takeWhile (\<lambda>c. c \<noteq> CHR ''.'') m; frac = drop (Suc (length whole)) m;
          e = (if HasPrefix x ''-'' then - digits_int (tl x) else if HasPrefix x ''+'' then digits_int (tl x) else digits_int x)
      in (if neg then -1 else 1) * of_int (digits_int (whole @ frac)) * 10 powi (e - int (length frac)))"

fun as_float :: "json \<Rightarrow> float64 option" where
  "as_float (JNum n) = (case rnd (number_value n) of Fin x \<Rightarrow> Some (Fin x) | _ \<Rightarrow> None)"
| "as_float _ = None"

section \<open>Rounding error\<close>

lemma half_even_error: "\<bar>of_int (half_even q) - q\<bar> \<le> 1 / 2"
proof -
  have "of_int \<lfloor>q\<rfloor> \<le> q" "q < of_int \<lfloor>q\<rfloor> + 1" by linarith+
  then show ?thesis by (auto simp: half_even_def Let_def abs_le_iff)
qed

lemma bits_bounds: "0 < x \<Longrightarrow> 2 ^ (bits x - 1) \<le> x \<and> x < 2 ^ bits x \<and> 0 < bits x"
proof (induction x rule: bits.induct)
  case (1 x)
  show ?case
  proof (cases "x = 1")
    case True
    then show ?thesis by (simp add: bits.simps [of 1] bits.simps [of 0])
  next
    case False
    with 1 have h: "2 ^ (bits (x div 2) - 1) \<le> x div 2" "x div 2 < 2 ^ bits (x div 2)" "0 < bits (x div 2)" by auto
    have b: "bits x = Suc (bits (x div 2))" using 1(2) by (subst bits.simps) simp
    obtain k where k: "bits (x div 2) = Suc k" using h(3) by (cases "bits (x div 2)") auto
    have "2 * 2 ^ k \<le> x" "x < 2 * (2 * 2 ^ k)" using h k by auto
    then show ?thesis by (simp add: b k)
  qed
qed

lemma powi_bits:
  "2 ^ a / 2 ^ b = (2 :: rat) powi (int a - int b)"
  by (simp add: power_int_diff)

lemma binade_bounds: assumes "0 < x" shows "2 powi binade x \<le> x \<and> x < 2 powi (binade x + 1)"
proof -
  obtain n d where nd: "quotient_of x = (n, d)" by fastforce
  have d: "0 < d" using quotient_of_denom_pos [OF nd] .
  have x: "x = of_int n / of_int d" using quotient_of_div [OF nd] .
  have n: "0 < n" using assms d by (simp add: x zero_less_divide_iff)
  have bn: "(2 :: rat) ^ (bits n - 1) \<le> of_int n" "(of_int n :: rat) < 2 ^ bits n"
    using bits_bounds [OF n] by (metis of_int_le_iff of_int_numeral of_int_power, metis of_int_less_iff of_int_numeral of_int_power)
  have bd: "(2 :: rat) ^ (bits d - 1) \<le> of_int d" "(of_int d :: rat) < 2 ^ bits d"
    using bits_bounds [OF d] by (metis of_int_le_iff of_int_numeral of_int_power, metis of_int_less_iff of_int_numeral of_int_power)
  have "2 ^ (bits n - 1) / 2 ^ bits d \<le> x" unfolding x using bn bd d n by (intro frac_le) auto
  then have lo: "2 powi (int (bits n) - int (bits d) - 1) \<le> x"
    using bits_bounds [OF n] by (simp add: powi_bits algebra_simps of_nat_diff)
  have "x < 2 ^ bits n / 2 ^ (bits d - 1)" unfolding x using bn bd d n by (intro frac_less) auto
  then have hi: "x < 2 powi (int (bits n) - int (bits d) + 1)"
    using bits_bounds [OF d] by (simp add: powi_bits algebra_simps of_nat_diff)
  from lo hi show ?thesis by (auto simp: binade_def nd Let_def)
qed

text \<open>A rounded number is off by at most one part in two to the 53, above the subnormals.\<close>

lemma rounded_error:
  assumes "2 powi (- 1022) \<le> x"
  shows "\<bar>of_int (half_even (x / ulp x)) * ulp x - x\<bar> \<le> x / 2 ^ 53"
proof -
  have "(0 :: rat) < 2 powi (- 1022)" by simp
  with assms have pos: "0 < x" by linarith
  note b = binade_bounds [OF pos]
  have "(2 :: rat) powi (- 1022) < 2 powi (binade x + 1)" using assms b by linarith
  then have "- 1022 < binade x + 1"
    using power_int_increasing [of "binade x + 1" "- 1022" "2 :: rat"] by linarith
  then have u: "ulp x = 2 powi (binade x - 52)" by (simp add: ulp_def)
  have upos: "0 < ulp x" by (simp add: u)
  have "of_int (half_even (x / ulp x)) * ulp x - x = (of_int (half_even (x / ulp x)) - x / ulp x) * ulp x"
    using upos by (simp add: left_diff_distrib)
  then have "\<bar>of_int (half_even (x / ulp x)) * ulp x - x\<bar> = \<bar>of_int (half_even (x / ulp x)) - x / ulp x\<bar> * ulp x"
    using upos by (simp add: abs_mult)
  also have "\<dots> \<le> 1 / 2 * ulp x" using half_even_error upos by (intro mult_right_mono) auto
  also have "\<dots> = 2 powi binade x / 2 ^ 53" by (simp add: u power_int_diff)
  also have "\<dots> \<le> x / 2 ^ 53" using b by (intro divide_right_mono) auto
  finally show ?thesis .
qed

lemma normal_pos:
  assumes "2 powi (- 1022) \<le> (x :: rat)"
  shows "0 < x"
proof -
  have "(0 :: rat) < 2 powi (- 1022)" by simp
  also note assms
  finally show ?thesis .
qed

lemma rnd_error:
  assumes "rnd x = Fin y" and "2 powi (- 1022) \<le> x"
  shows "\<bar>y - x\<bar> \<le> x / 2 ^ 53"
  using rounded_error [OF assms(2)] normal_pos [OF assms(2)] assms(1)
  by (auto simp: rnd_def Let_def split: if_splits)

text \<open>No overflow on the way to a number of moderate size.\<close>

lemma rnd_finite:
  assumes "2 powi (- 1022) \<le> x" and "x \<le> 2 ^ 1000"
  shows "\<exists>y. rnd x = Fin y"
proof -
  define v where "v = of_int (half_even (x / ulp x)) * ulp x"
  have pos: "0 < x" using normal_pos [OF assms(1)] .
  define e where "e = x / 2 ^ 53"
  have e: "e \<le> x" using pos by (simp add: e_def divide_le_eq)
  have "\<bar>v - x\<bar> \<le> e" using rounded_error [OF assms(1)] by (simp only: v_def e_def)
  with e assms(2) have "v \<le> 2 ^ 1000 + 2 ^ 1000" by linarith
  also have "(2 :: rat) ^ 1000 + 2 ^ 1000 < 2 powi 1024" by (simp add: power_int_def)
  finally have "\<not> 2 powi 1024 \<le> v" by (simp only: not_le)
  then show ?thesis unfolding rnd_def Let_def abs_of_pos [OF pos] v_def by auto
qed

lemma rnd_small:
  assumes "rnd x = Fin y" and "0 < x" and "x < 2 powi (- 1022)"
  shows "y \<le> 2 powi (- 1022)"
proof -
  note b = binade_bounds [OF assms(2)]
  have "(2 :: rat) powi binade x < 2 powi (- 1022)" using assms(3) b by linarith
  then have "binade x < - 1022" using power_int_increasing [of "- 1022" "binade x" "2 :: rat"] by linarith
  then have u: "ulp x = 2 powi (- 1074)" by (simp add: ulp_def)
  have "x / ulp x < 2 powi (- 1022) / 2 powi (- 1074)" unfolding u using assms(3) by (intro divide_strict_right_mono) auto
  also have "\<dots> = (2 :: rat) powi 52" by (simp flip: power_int_diff)
  finally have "x / ulp x < of_int (2 ^ 52)" by simp
  then have "\<lfloor>x / ulp x\<rfloor> < 2 ^ 52" by (subst floor_less_iff) simp
  then have "half_even (x / ulp x) \<le> 2 ^ 52" by (auto simp: half_even_def Let_def)
  then have "(of_int (half_even (x / ulp x)) :: rat) \<le> of_int (2 ^ 52)" by (subst of_int_le_iff)
  then have "of_int (half_even (x / ulp x)) * ulp x \<le> of_int (2 ^ 52) * ulp x" unfolding u by (intro mult_right_mono) auto
  also have "\<dots> = 2 powi 52 * 2 powi (- 1074)" by (simp add: u)
  also have "\<dots> = 2 powi (- 1022)" by (simp flip: power_int_add)
  finally show ?thesis using assms(1,2) by (auto simp: rnd_def Let_def split: if_splits)
qed

text \<open>Integers below two to the 53 are doubles.\<close>

lemma half_even_int [simp]: "half_even (of_int i) = i"
  by (simp add: half_even_def)

lemma rnd_nat: assumes "0 < i" and "i < 2 ^ 53" shows "rnd (of_int i) = Fin (of_int i)"
proof -
  let ?x = "of_int i :: rat"
  have pos: "0 < ?x" using assms(1) by simp
  note b = binade_bounds [OF pos]
  have "?x < of_int (2 ^ 53)" using assms(2) by (simp only: of_int_less_iff)
  then have "?x < 2 powi 53" by simp
  with b have "(2 :: rat) powi binade ?x < 2 powi 53" by linarith
  then have hi: "binade ?x < 53" using power_int_increasing [of 53 "binade ?x" "2 :: rat"] by linarith
  have "(2 :: rat) powi 0 < 2 powi (binade ?x + 1)" using b assms(1) by simp
  then have lo: "0 \<le> binade ?x" using power_int_increasing [of "binade ?x + 1" 0 "2 :: rat"] by linarith
  have u: "ulp ?x = 2 powi (binade ?x - 52)" using lo by (simp add: ulp_def)
  have "?x / ulp ?x = ?x * 2 powi (52 - binade ?x)" by (simp add: u power_int_diff)
  also have "\<dots> = of_int (i * 2 ^ nat (52 - binade ?x))" using hi by (simp add: power_int_def)
  finally have q: "?x / ulp ?x = of_int (i * 2 ^ nat (52 - binade ?x))" .
  have "of_int (half_even (?x / ulp ?x)) * ulp ?x = ?x"
    unfolding q half_even_int unfolding q [symmetric] by (simp add: u)
  moreover have "?x < 2 powi 1024"
    using \<open>?x < 2 powi 53\<close> power_int_increasing [of 53 1024 "2 :: rat"] by linarith
  ultimately show ?thesis using pos by (simp add: rnd_def)
qed

lemma f_of_nat: "0 \<le> i \<Longrightarrow> i < 2 ^ 53 \<Longrightarrow> f_of_int i = Fin (of_int i)"
  using rnd_nat [of i] by (cases "i = 0") (auto simp: f_of_int_def rnd_def)

end
