(* ===== verification/Traffic.thy ===== *)
theory Traffic
  imports Go_Float Platform
begin

unbundle bit_operations_syntax

text \<open>
  \<^verbatim>\<open>internal/traffic/policy.go\<close>: how much of a room's messages is broadcast. Metrics are left out.
\<close>

section \<open>The policy\<close>

definition ModeNormal :: string where "ModeNormal = ''NORMAL''"
definition ModeHot :: string where "ModeHot = ''HOT''"
definition ModeProtect :: string where "ModeProtect = ''PROTECT''"

record TrafficConfig =
  HotViewers :: int
  ProtectViewers :: int
  HotDanmakuRate :: int
  ProtectDanmakuRate :: int
  HotSampleRate :: float64
  ProtectSampleRate :: float64
  RateWindow :: int
  AdaptiveEnabled :: bool
  TargetFanoutRate :: float64
  HotFanoutRate :: float64
  ProtectFanoutRate :: float64
  MinSampleRate :: float64

record 'd Policy =
  po_pressure :: "int \<Rightarrow> string \<Rightarrow> int \<Rightarrow> ('d, int \<times> int) prog"
  po_cfg :: TrafficConfig

text \<open>\<^verbatim>\<open>hash/fnv.New64a\<close>.\<close>

definition fnv64a :: "string \<Rightarrow> 64 word" where
  "fnv64a s = foldl (\<lambda>h c. (h XOR of_char c) * 1099511628211) 14695981039346656037 s"

definition bucket :: "string \<Rightarrow> int" where
  "bucket key = uint (fnv64a key mod 10000)"

definition keep :: "string \<Rightarrow> float64 \<Rightarrow> bool" where
  "keep key sample =
     (if f_le (Fin 1) sample then True
      else if f_le sample (Fin 0) then False
      else f_less (f_of_int (bucket key)) (f_mul sample (Fin 10000)))"

definition rate_per_second :: "TrafficConfig \<Rightarrow> int \<Rightarrow> float64" where
  "rate_per_second cfg observed =
     (let r = (if RateWindow cfg > 0 then f_div (f_of_int observed) (dur_seconds (RateWindow cfg)) else f_of_int observed)
      in if f_less r (Fin 0) then Fin 0 else r)"

definition traffic_mode :: "TrafficConfig \<Rightarrow> int \<Rightarrow> int \<Rightarrow> float64 \<Rightarrow> string" where
  "traffic_mode cfg viewers observed fanout =
     (if viewers \<ge> ProtectViewers cfg \<or> observed \<ge> ProtectDanmakuRate cfg \<or> f_le (ProtectFanoutRate cfg) fanout then ModeProtect
      else if viewers \<ge> HotViewers cfg \<or> observed \<ge> HotDanmakuRate cfg \<or> f_le (HotFanoutRate cfg) fanout then ModeHot
      else ModeNormal)"

definition sample_rate :: "TrafficConfig \<Rightarrow> string \<Rightarrow> float64 \<Rightarrow> float64" where
  "sample_rate cfg mode fanout =
     (if mode \<noteq> ModeNormal then
        (if AdaptiveEnabled cfg \<and> f_less (Fin 0) fanout \<and> f_less (Fin 0) (TargetFanoutRate cfg)
         then f_min (Fin 1) (f_max (MinSampleRate cfg) (f_div (TargetFanoutRate cfg) fanout))
         else if mode = ModeProtect then ProtectSampleRate cfg else HotSampleRate cfg)
      else Fin 1)"

definition Decide :: "'d Policy \<Rightarrow> int \<Rightarrow> string \<Rightarrow> ('d, string \<times> bool \<times> float64 \<times> float64) prog" where
  "Decide p roomID mid =
     bind (po_pressure p roomID mid (RateWindow (po_cfg p))) (\<lambda>(viewers, observed).
       let cfg = po_cfg p;
           fanout = f_mul (f_of_int viewers) (rate_per_second cfg observed);
           mode = traffic_mode cfg viewers observed fanout;
           sample = sample_rate cfg mode fanout
       in ret (mode, keep mid sample, sample, fanout))"

definition NewPolicy :: "TrafficConfig \<Rightarrow> live Policy" where
  "NewPolicy cfg = \<lparr>po_pressure = (\<lambda>i m w. at_redis (DanmakuPressure i m w)), po_cfg = cfg\<rparr>"

section \<open>Properties\<close>

lemma bucket_bounds: "0 \<le> bucket key" "bucket key < 10000"
  by (simp_all add: bucket_def uint_mod)

lemma mode_names [simp]: "ModeNormal \<noteq> ModeHot" "ModeNormal \<noteq> ModeProtect" "ModeHot \<noteq> ModeProtect"
  "ModeHot \<noteq> ModeNormal" "ModeProtect \<noteq> ModeNormal" "ModeProtect \<noteq> ModeHot"
  by (simp_all add: ModeNormal_def ModeHot_def ModeProtect_def)

lemma f_min_one: "f_min (Fin 1) y = Fin s \<Longrightarrow> s \<le> 1"
  by (cases y) (auto simp: f_min_def split: if_splits)

lemma f_max_lo: "f_max (Fin a) y = Fin s \<Longrightarrow> a \<le> s"
  by (cases y) (auto simp: f_max_def split: if_splits)

text \<open>A division of positive doubles is never negative or undefined.\<close>

lemma rnd_pos: "0 < x \<Longrightarrow> rnd x = Infinite False \<or> (\<exists>y. rnd x = Fin y \<and> 0 \<le> y)"
proof -
  assume "0 < x"
  moreover have "0 < ulp x" by (simp add: ulp_def)
  ultimately have "0 \<le> \<lfloor>x / ulp x\<rfloor>" by simp
  then have "0 \<le> half_even (x / ulp x)" by (auto simp: half_even_def Let_def)
  with \<open>0 < x\<close> \<open>0 < ulp x\<close> show ?thesis by (auto simp: rnd_def Let_def)
qed

text \<open>The adaptive rate: the target over the fan-out, between the least rate and one.\<close>

lemma adaptive_rate:
  assumes "0 \<le> lo" and "lo \<le> 1" and "0 < t" and "0 < f"
  shows "\<exists>s. f_min (Fin 1) (f_max (Fin lo) (f_div (Fin t) (Fin f))) = Fin s \<and> lo \<le> s \<and> s \<le> 1
    \<and> (s = 1 \<or> s = lo \<or> rnd (t / f) = Fin s)"
proof -
  have "f_div (Fin t) (Fin f) = rnd (t / f)" using assms(4) by simp
  moreover have "rnd (t / f) = Infinite False \<or> (\<exists>y. rnd (t / f) = Fin y \<and> 0 \<le> y)"
    using rnd_pos [of "t / f"] assms(3,4) by simp
  ultimately show ?thesis using assms(1,2) by (auto simp: f_min_def f_max_def)
qed

lemma rate_error:
  assumes "rnd (t / f) = Fin r" and "0 < t" and "0 < f" and "2 powi (- 1022) < r"
  shows "\<bar>r * f - t\<bar> \<le> t / 2 ^ 53"
proof -
  have "0 < t / f" using assms(2,3) by simp
  then have "2 powi (- 1022) \<le> t / f" using rnd_small [OF assms(1)] assms(4) by linarith
  from rnd_error [OF assms(1) this] have "\<bar>r - t / f\<bar> * f \<le> t / f / 2 ^ 53 * f"
    using assms(3) by (intro mult_right_mono) auto
  moreover have "\<bar>r - t / f\<bar> * f = \<bar>r * f - t\<bar>"
    using assms(3) abs_mult [of "r - t / f" f] by (simp add: left_diff_distrib)
  ultimately show ?thesis using assms(3) by simp
qed

lemma kept_fanout:
  fixes r f t k :: rat
  assumes "\<bar>k - 10000 * r\<bar> \<le> 1 + 10000 * r / 2 ^ 53" and "\<bar>r * f - t\<bar> \<le> t / 2 ^ 53" and "0 < f" and "0 < t"
  shows "\<bar>k / 10000 * f - t\<bar> \<le> f / 10000 + t / 2 ^ 51"
proof -
  have "\<bar>k - 10000 * r\<bar> * f \<le> (1 + 10000 * r / 2 ^ 53) * f" using assms(1,3) by (intro mult_right_mono) auto
  moreover have "\<bar>k - 10000 * r\<bar> * f = \<bar>k * f - 10000 * (r * f)\<bar>"
    using assms(3) abs_mult [of "k - 10000 * r" f] by (simp add: left_diff_distrib mult.assoc)
  moreover have "(1 + 10000 * r / 2 ^ 53) * f = f + 10000 * (r * f) / 2 ^ 53" by (simp add: distrib_right mult.assoc)
  ultimately have k: "\<bar>k * f - 10000 * (r * f)\<bar> \<le> f + 10000 * (r * f) / 2 ^ 53" by simp
  define g h where "g = r * f" and "h = k * f"
  have "\<bar>h / 10000 - t\<bar> \<le> f / 10000 + t / 2 ^ 51"
  proof (rule abs_leI)
    have "h - 10000 * g \<le> f + 10000 * g / 2 ^ 53" "10000 * g - h \<le> f + 10000 * g / 2 ^ 53"
      "g - t \<le> t / 2 ^ 53" "t - g \<le> t / 2 ^ 53"
      using k [folded g_def h_def] assms(2) [folded g_def] by (simp_all only: abs_le_iff minus_diff_eq)
    moreover have "(2 :: rat) ^ 53 = 9007199254740992" "(2 :: rat) ^ 51 = 2251799813685248" by simp_all
    ultimately show "h / 10000 - t \<le> f / 10000 + t / 2 ^ 51" "- (h / 10000 - t) \<le> f / 10000 + t / 2 ^ 51"
      using assms(4) by simp_all
  qed
  then show ?thesis by (simp add: h_def)
qed

text \<open>
  Of the ten thousand buckets those below \<open>k\<close> are kept, and \<open>k\<close> is ten thousand times the rate up to
  one bucket and the rounding of the product.
\<close>

lemma kept_buckets:
  assumes "2 powi (- 1022) \<le> r" and "r < 1"
  shows "\<exists>k. 0 \<le> k \<and> k \<le> 10000 \<and> \<bar>of_int k - 10000 * r\<bar> \<le> 1 + 10000 * r / 2 ^ 53
    \<and> (\<forall>key. f_less (f_of_int (bucket key)) (f_mul (Fin r) (Fin 10000)) \<longleftrightarrow> uint (fnv64a key) mod 10000 < k)"
proof -
  have r: "0 < r" using normal_pos [OF assms(1)] .
  then have lo: "2 powi (- 1022) \<le> r * 10000" using assms(1) by linarith
  have "(10000 :: rat) \<le> 2 ^ 1000"
    using power_increasing [of 14 1000 "2 :: rat"] by simp
  then obtain y where y: "rnd (r * 10000) = Fin y" using rnd_finite [OF lo] assms(2) by auto
  note err = rnd_error [OF y lo]
  have "r * 10000 / 2 ^ 53 \<le> r * 10000" using r by (simp add: divide_le_eq)
  with err have y0: "0 \<le> y" by linarith
  let ?k = "min \<lceil>y\<rceil> 10000"
  have c: "y \<le> of_int \<lceil>y\<rceil>" "of_int \<lceil>y\<rceil> < y + 1" by linarith+
  have "\<bar>of_int ?k - 10000 * r\<bar> \<le> 1 + 10000 * r / 2 ^ 53"
  proof (cases "\<lceil>y\<rceil> \<le> 10000")
    case True
    then have "of_int ?k = (of_int \<lceil>y\<rceil> :: rat)" by simp
    with c err show ?thesis unfolding mult.commute [of r] by linarith
  next
    case False
    then have "10000 < y" by linarith
    moreover have "of_int ?k = (10000 :: rat)" using False by simp
    ultimately show ?thesis using err assms(2) unfolding mult.commute [of r] by linarith
  qed
  moreover have "f_less (f_of_int (bucket key)) (f_mul (Fin r) (Fin 10000)) \<longleftrightarrow> uint (fnv64a key) mod 10000 < ?k" for key
  proof -
    have b: "bucket key = uint (fnv64a key) mod 10000" by (simp add: bucket_def uint_mod)
    have "f_less (f_of_int (bucket key)) (f_mul (Fin r) (Fin 10000)) \<longleftrightarrow> of_int (bucket key) < y"
      using bucket_bounds [of key] by (simp add: f_of_nat y)
    also have "\<dots> \<longleftrightarrow> bucket key < ?k" using bucket_bounds(2) [of key] by (simp add: less_ceiling_iff)
    finally show ?thesis by (simp only: b)
  qed
  moreover have "0 \<le> ?k" using y0 by simp
  ultimately show ?thesis by (intro exI [of _ ?k]) auto
qed

text \<open>
  C29. Shedding aims at the target. When a decision is made in adaptive mode with a finite positive
  target and a least rate that is a normal double of at most one, and the room is not in the normal
  mode and its estimated fan-out is a finite positive number, the sample rate is a number between the least rate
  and one, and a message goes out exactly when its hash, modulo ten thousand, is below a number \<open>k\<close>
  of buckets, which is ten thousand times the rate up to one bucket and rounding. Unless the rate
  sits at either end, the fan-out of the kept share of the buckets is the target up to one bucket of
  the fan-out and one part in two to the 51. In the normal mode every message is broadcast.
\<close>

theorem traffic_meets_target:
  assumes "Decide p roomID mid (d, w) = (Inr (mode, sent, sample, fanout), s)"
    and "AdaptiveEnabled (po_cfg p)" and "TargetFanoutRate (po_cfg p) = Fin t" and "0 < t"
    and "MinSampleRate (po_cfg p) = Fin lo" and "2 powi (- 1022) \<le> lo" and "lo \<le> 1"
  shows "(mode = ModeNormal \<longrightarrow> sent \<and> sample = Fin 1)
    \<and> (\<forall>f. mode \<noteq> ModeNormal \<longrightarrow> fanout = Fin f \<longrightarrow> 0 < f \<longrightarrow>
         (\<exists>r k. sample = Fin r \<and> lo \<le> r \<and> r \<le> 1 \<and> 0 \<le> k \<and> k \<le> 10000
           \<and> (sent \<longleftrightarrow> uint (fnv64a mid) mod 10000 < k)
           \<and> \<bar>of_int k - 10000 * r\<bar> \<le> 1 + 10000 * r / 2 ^ 53
           \<and> (r = lo \<or> r = 1 \<or> \<bar>r * f - t\<bar> \<le> t / 2 ^ 53 \<and> \<bar>of_int k / 10000 * f - t\<bar> \<le> f / 10000 + t / 2 ^ 51)))"
proof -
  let ?c = "po_cfg p"
  obtain viewers observed where
    mode: "mode = traffic_mode ?c viewers observed fanout" and sample: "sample = sample_rate ?c mode fanout"
    and sent: "sent = keep mid sample"
    using assms(1) by (auto simp: Decide_def bind_Inr ret_def Let_def)
  have normal: "sent \<and> sample = Fin 1" if "mode = ModeNormal"
    using that by (simp add: sent sample sample_rate_def keep_def f_le_def)
  have "\<exists>r k. sample = Fin r \<and> lo \<le> r \<and> r \<le> 1 \<and> 0 \<le> k \<and> k \<le> 10000
      \<and> (sent \<longleftrightarrow> uint (fnv64a mid) mod 10000 < k) \<and> \<bar>of_int k - 10000 * r\<bar> \<le> 1 + 10000 * r / 2 ^ 53
      \<and> (r = lo \<or> r = 1 \<or> \<bar>r * f - t\<bar> \<le> t / 2 ^ 53 \<and> \<bar>of_int k / 10000 * f - t\<bar> \<le> f / 10000 + t / 2 ^ 51)"
    if m: "mode \<noteq> ModeNormal" and f: "fanout = Fin f" "0 < f" for f
  proof -
    have lo: "0 < lo" using normal_pos [OF assms(6)] .
    have smp: "sample = f_min (Fin 1) (f_max (Fin lo) (f_div (Fin t) (Fin f)))"
      using m f assms(2-5) by (simp add: sample sample_rate_def)
    obtain r where r: "sample = Fin r" "lo \<le> r" "r \<le> 1" "r = 1 \<or> r = lo \<or> rnd (t / f) = Fin r"
      using adaptive_rate [OF less_imp_le [OF lo] assms(7,4) f(2)] unfolding smp by blast
    have rate: "r = lo \<or> r = 1 \<or> \<bar>r * f - t\<bar> \<le> t / 2 ^ 53"
      using r(4) rate_error [OF _ assms(4) f(2)] r(2) assms(6) by fastforce
    show ?thesis
    proof (cases "r = 1")
      case True
      have "sent" by (simp add: sent r(1) True keep_def f_le_def)
      with r True show ?thesis by (intro exI [of _ r] exI [of _ 10000]) simp
    next
      case False
      with r(3) have "r < 1" by simp
      have "2 powi (- 1022) \<le> r" using assms(6) r(2) by linarith
      from kept_buckets [OF this \<open>r < 1\<close>] obtain k where k: "0 \<le> k" "k \<le> 10000"
        "\<bar>of_int k - 10000 * r\<bar> \<le> 1 + 10000 * r / 2 ^ 53"
        "f_less (f_of_int (bucket mid)) (f_mul (Fin r) (Fin 10000)) \<longleftrightarrow> uint (fnv64a mid) mod 10000 < k"
        by blast
      have "sent = f_less (f_of_int (bucket mid)) (f_mul (Fin r) (Fin 10000))"
        using r(1,2) lo \<open>r < 1\<close> by (simp add: sent keep_def f_le_def)
      moreover have "\<bar>of_int k / 10000 * f - t\<bar> \<le> f / 10000 + t / 2 ^ 51" if "\<bar>r * f - t\<bar> \<le> t / 2 ^ 53"
        using kept_fanout [OF k(3) that f(2) assms(4)] .
      ultimately show ?thesis using r k rate by (intro exI [of _ r] exI [of _ k]) auto
    qed
  qed
  with normal show ?thesis by blast
qed

abbreviation sample_policy :: "unit Policy" where
  "sample_policy \<equiv> \<lparr>po_pressure = (\<lambda>_ _ _. ret (5000, 20)), po_cfg =
     \<lparr>HotViewers = 100, ProtectViewers = 200, HotDanmakuRate = 50, ProtectDanmakuRate = 100, HotSampleRate = Fin (1 / 2),
      ProtectSampleRate = Fin (1 / 4), RateWindow = 0, AdaptiveEnabled = True, TargetFanoutRate = Fin 25000,
      HotFanoutRate = Fin 30000, ProtectFanoutRate = Fin 40000, MinSampleRate = Fin (1 / 16)\<rparr>\<rparr>"

lemma sample_fanout: "f_mul (f_of_int 5000) (f_of_int 20) = Fin 100000" "f_less (f_of_int 20) (Fin 0) = False"
  using rnd_nat [of 100000] by (simp_all add: f_of_nat)

theorem traffic_meets_target_witness:
  "\<exists>sent r. Decide sample_policy 1 ''m1'' ((), \<lparr>faults = [], go_now = 0, db_now = 0, rd_now = 0, entropy = []\<rparr>)
      = (Inr (ModeProtect, sent, Fin r, Fin 100000), ((), \<lparr>faults = [], go_now = 0, db_now = 0, rd_now = 0, entropy = []\<rparr>))
    \<and> 1 / 16 \<le> r \<and> r \<le> 1"
proof -
  let ?w = "\<lparr>faults = [], go_now = 0, db_now = 0, rd_now = 0, entropy = []\<rparr> :: io"
  obtain sent sample where d: "Decide sample_policy 1 ''m1'' ((), ?w) = (Inr (ModeProtect, sent, sample, Fin 100000), ((), ?w))"
    by (simp add: Decide_def bind_def ret_def rate_per_second_def sample_fanout traffic_mode_def Let_def)
  have "(2 :: rat) powi (- 1022) \<le> 2 powi (- 4)" by (rule power_int_increasing) auto
  also have "(2 :: rat) powi (- 4) = 1 / 16" by (simp add: power_int_def power_divide)
  finally have "2 powi (- 1022) \<le> (1 / 16 :: rat)" .
  then show ?thesis using traffic_meets_target [OF d, of 25000 "1 / 16"] d by auto
qed

end
