(* ===== verification/Danmaku_Filter.thy ===== *)
theory Danmaku_Filter
  imports Go_Text "HOL-Library.Sublist"
begin

text \<open>
  \<^verbatim>\<open>internal/danmaku/filter.go\<close>: the trie of sensitive words, and what it decides: whether
  some word occurs in a text, case and surrounding space aside.
\<close>

datatype trieNode = Node (children: "int \<Rightarrow> trieNode option") (terminal: bool)

definition empty_node :: trieNode where
  "empty_node = Node (\<lambda>_. None) False"

text \<open>The loop over the runes of a word: it walks down, adding nodes, and marks the last one.\<close>

fun add_word :: "int list \<Rightarrow> trieNode \<Rightarrow> trieNode" where
  "add_word [] (Node m b) = Node m True"
| "add_word (r # rs) (Node m b) =
     Node (m(r \<mapsto> add_word rs (case m r of None \<Rightarrow> empty_node | Some n \<Rightarrow> n))) b"

definition filter_word :: "unicode \<Rightarrow> string \<Rightarrow> int list" where
  "filter_word U raw = runes (ToLower U (TrimSpace raw))"

definition NewSensitiveFilter :: "unicode \<Rightarrow> string list \<Rightarrow> trieNode" where
  "NewSensitiveFilter U words =
     foldl (\<lambda>root raw. let word = filter_word U raw in if word = [] then root else add_word word root) empty_node words"

text \<open>The inner loop, from one position on, and the loop over the positions.\<close>

fun match_from :: "trieNode \<Rightarrow> int list \<Rightarrow> bool" where
  "match_from n [] = False"
| "match_from n (r # rs) =
     (case children n r of None \<Rightarrow> False | Some m \<Rightarrow> if terminal m then True else match_from m rs)"

fun match_anywhere :: "trieNode \<Rightarrow> int list \<Rightarrow> bool" where
  "match_anywhere root [] = False"
| "match_anywhere root (r # rs) = (if match_from root (r # rs) then True else match_anywhere root rs)"

text \<open>A missing filter contains nothing.\<close>

definition Contains :: "unicode \<Rightarrow> trieNode option \<Rightarrow> string \<Rightarrow> bool" where
  "Contains U f s = (case f of None \<Rightarrow> False | Some root \<Rightarrow> match_anywhere root (runes (ToLower U s)))"

section \<open>The words of a trie\<close>

text \<open>The abstraction: whether the trie holds a word.\<close>

fun holds :: "trieNode \<Rightarrow> int list \<Rightarrow> bool" where
  "holds n [] = terminal n"
| "holds n (r # rs) = (case children n r of None \<Rightarrow> False | Some m \<Rightarrow> holds m rs)"

lemma holds_empty [simp]: "holds empty_node w = False"
  by (cases w) (simp_all add: empty_node_def)

lemma holds_add: "holds (add_word w n) v = (v = w \<or> holds n v)"
proof (induction w n arbitrary: v rule: add_word.induct)
  case (1 m b)
  then show ?case by (cases v) auto
next
  case (2 r rs m b)
  show ?case
  proof (cases v)
    case (Cons x xs)
    with 2 show ?thesis by (cases "m r") auto
  qed simp
qed

lemma match_from_prefix: "match_from n rs = (\<exists>w. w \<noteq> [] \<and> prefix w rs \<and> holds n w)"
proof (induction n rs rule: match_from.induct)
  case (2 n r rs)
  show ?case
  proof (cases "children n r")
    case None
    then show ?thesis by (auto simp: prefix_Cons)
  next
    case (Some m)
    have "(\<exists>w. w \<noteq> [] \<and> prefix w (r # rs) \<and> holds n w) = (\<exists>w. prefix w rs \<and> holds m w)"
      using Some by (auto simp: prefix_Cons)
    also have "\<dots> = (terminal m \<or> (\<exists>w. w \<noteq> [] \<and> prefix w rs \<and> holds m w))"
      by (metis holds.simps(1) Nil_prefix)
    finally show ?thesis using Some 2 by simp
  qed
qed simp

lemma match_anywhere_sublist: "match_anywhere n rs = (\<exists>w. w \<noteq> [] \<and> sublist w rs \<and> holds n w)"
proof (induction rs)
  case (Cons r rs)
  have "match_anywhere n (r # rs) = (match_from n (r # rs) \<or> match_anywhere n rs)" by simp
  also have "\<dots> = (\<exists>w. w \<noteq> [] \<and> (prefix w (r # rs) \<or> sublist w rs) \<and> holds n w)"
    unfolding match_from_prefix Cons by blast
  finally show ?case by (simp add: sublist_Cons_right)
qed simp

lemma holds_filter: "holds (NewSensitiveFilter U words) v \<longleftrightarrow> v \<noteq> [] \<and> v \<in> filter_word U ` set words"
proof -
  have "holds (foldl (\<lambda>root raw. let word = filter_word U raw in if word = [] then root else add_word word root) t words) v
      \<longleftrightarrow> holds t v \<or> (v \<noteq> [] \<and> v \<in> filter_word U ` set words)" for t
    by (induction words arbitrary: t) (auto simp: Let_def holds_add)
  then show ?thesis by (simp add: NewSensitiveFilter_def)
qed

text \<open>
  C30. The trie decides exactly what it stands for: a text is refused if and only if one of the
  configured words, lowered, trimmed and not empty, is a contiguous part of the lowered text.
\<close>

theorem filter_refines_substring:
  "Contains U (Some (NewSensitiveFilter U words)) s =
     list_ex (\<lambda>raw. filter_word U raw \<noteq> [] \<and> sublist (filter_word U raw) (runes (ToLower U s))) words"
  by (auto simp: Contains_def match_anywhere_sublist holds_filter list_ex_iff)

end
