(* ===== verification/Danmaku.thy ===== *)
theory Danmaku
  imports Danmaku_Filter Traffic Gift_Admission
begin

text \<open>
  \<^verbatim>\<open>internal/danmaku\<close>: sending a message to a room. The service works over any rooms, users,
  limiter, traffic policy, publisher and event producer; the locale \<open>danmaku_ports\<close> says what it
  relies on, and the service on the stores of the program is an instance. Spans and logging
  are left out.
\<close>

section \<open>Messages\<close>

record danmaku_event =
  de_message_id :: string
  de_room_id :: int
  de_user_id :: int
  de_nickname :: string
  de_content :: string
  de_created_at :: int
  de_broadcasted :: bool
  de_traffic_mode :: string
  de_sample_rate :: float64
  de_fanout :: float64

text \<open>\<^verbatim>\<open>json.Marshal(e)\<close>; it fails for an infinite rate and for a year the time format cannot hold.\<close>

definition danmaku_json :: "danmaku_event \<Rightarrow> json option" where
  "danmaku_json e =
     (case (time_json (de_created_at e), float_json (de_sample_rate e), float_json (de_fanout e)) of
        (Some t, Some r, Some f) \<Rightarrow> Some (JObj
          [(''message_id'', JStr (de_message_id e)), (''room_id'', JInt (de_room_id e)), (''user_id'', JInt (de_user_id e)),
           (''nickname'', JStr (de_nickname e)), (''content'', JStr (de_content e)), (''created_at'', t),
           (''broadcasted'', JBool (de_broadcasted e)), (''traffic_mode'', JStr (de_traffic_mode e)),
           (''sample_rate'', r), (''estimated_fanout_per_sec'', f)])
      | _ \<Rightarrow> None)"

definition unsupported_value :: go_err where
  "unsupported_value = Plain ''json: unsupported value''"

fun as_bool :: "json \<Rightarrow> bool option" where
  "as_bool (JBool b) = Some b"
| "as_bool _ = None"

definition danmaku_fields :: "danmaku_event fields" where
  "danmaku_fields =
    [(''message_id'', value_field as_string (\<lambda>x. de_message_id_update (\<lambda>_. x))),
     (''room_id'', value_field as_int64 (\<lambda>x. de_room_id_update (\<lambda>_. x))),
     (''user_id'', value_field as_int64 (\<lambda>x. de_user_id_update (\<lambda>_. x))),
     (''nickname'', value_field as_string (\<lambda>x. de_nickname_update (\<lambda>_. x))),
     (''content'', value_field as_string (\<lambda>x. de_content_update (\<lambda>_. x))),
     (''created_at'', value_field as_time (\<lambda>x. de_created_at_update (\<lambda>_. x))),
     (''broadcasted'', value_field as_bool (\<lambda>x. de_broadcasted_update (\<lambda>_. x))),
     (''traffic_mode'', value_field as_string (\<lambda>x. de_traffic_mode_update (\<lambda>_. x))),
     (''sample_rate'', value_field as_float (\<lambda>x. de_sample_rate_update (\<lambda>_. x))),
     (''estimated_fanout_per_sec'', value_field as_float (\<lambda>x. de_fanout_update (\<lambda>_. x)))]"

definition zero_danmaku :: danmaku_event where
  "zero_danmaku = \<lparr>de_message_id = [], de_room_id = 0, de_user_id = 0, de_nickname = [], de_content = [],
     de_created_at = zero_time, de_broadcasted = False, de_traffic_mode = [], de_sample_rate = Fin 0, de_fanout = Fin 0\<rparr>"

section \<open>The service\<close>

record 'd DanmakuService =
  dm_access :: "int \<Rightarrow> int \<Rightarrow> ('d, RoomAccess) prog"
  dm_user :: "int \<Rightarrow> ('d, User) prog"
  dm_allow :: "string \<Rightarrow> int \<Rightarrow> int \<Rightarrow> ('d, bool) prog"
  dm_filter :: "trieNode option"
  dm_publish :: "string \<Rightarrow> json \<Rightarrow> ('d, unit) prog"
  dm_producer :: "(danmaku_event \<Rightarrow> ('d, unit) prog) option"
  dm_traffic :: "(int \<Rightarrow> string \<Rightarrow> ('d, string \<times> bool \<times> float64 \<times> float64) prog) option"
  dm_rate :: int
  dm_window :: int

definition Danmaku_NewService :: "'d DanmakuService \<Rightarrow> 'd DanmakuService" where
  "Danmaku_NewService s = s\<lparr>dm_rate := if dm_rate s \<le> 0 then 5 else dm_rate s,
     dm_window := if dm_window s \<le> 0 then 10 * second else dm_window s\<rparr>"

text \<open>The decimal digits of a positive number; nothing is written of a negative one.\<close>

fun itoa_digits :: "nat \<Rightarrow> string" where
  "itoa_digits v = (if v = 0 then [] else itoa_digits (v div 10) @ [digit_char (v mod 10)])"

declare itoa_digits.simps [simp del]

definition itoa :: "int \<Rightarrow> string" where
  "itoa v = (if v = 0 then ''0'' else itoa_digits (nat v))"

definition danmaku_user_key :: "int \<Rightarrow> string" where
  "danmaku_user_key userID = ''live:limit:danmaku:user:'' @ itoa userID"

definition valid_content :: "string \<Rightarrow> bool" where
  "valid_content content \<longleftrightarrow> \<not> (content = [] \<or> length (runes content) > 200)"

text \<open>The traffic decision, the broadcast, and the hand-over for persistence.\<close>

definition shape_event :: "'d DanmakuService \<Rightarrow> danmaku_event \<Rightarrow> ('d, danmaku_event) prog" where
  "shape_event s e =
     (case dm_traffic s of None \<Rightarrow> ret e
      | Some decide \<Rightarrow> bind (decide (de_room_id e) (de_message_id e)) (\<lambda>(mode, broadcast, sampleRate, fanout).
          ret (e\<lparr>de_broadcasted := broadcast, de_sample_rate := sampleRate, de_fanout := fanout,
                 de_traffic_mode := if mode \<noteq> [] then mode else de_traffic_mode e\<rparr>)))"

definition broadcast_event :: "'d DanmakuService \<Rightarrow> danmaku_event \<Rightarrow> ('d, unit) prog" where
  "broadcast_event s e =
     (if de_broadcasted e then bind idgen_New (\<lambda>i.
        case danmaku_json e of
          None \<Rightarrow> fail (errorf_pre ''marshal publish'' unsupported_value)
        | Some j \<Rightarrow> bind (NewPriorityEvent i ''danmaku'' (de_room_id e) ''P3'' j) (\<lambda>wire.
            dm_publish s (RoomStream (de_room_id e)) (event_json wire)))
      else ret ())"

definition persist_event :: "'d DanmakuService \<Rightarrow> danmaku_event \<Rightarrow> ('d, unit) prog" where
  "persist_event s e = (case dm_producer s of None \<Rightarrow> ret () | Some produce \<Rightarrow> ignore (produce e))"

definition new_event :: "int \<Rightarrow> int \<Rightarrow> string \<Rightarrow> string \<Rightarrow> string \<Rightarrow> int \<Rightarrow> danmaku_event" where
  "new_event roomID userID nick content mid t =
     \<lparr>de_message_id = mid, de_room_id = roomID, de_user_id = userID, de_nickname = nick, de_content = content,
      de_created_at = t, de_broadcasted = True, de_traffic_mode = ''NORMAL'', de_sample_rate = Fin 1, de_fanout = Fin 0\<rparr>"

text \<open>A send in two halves: who may send what, and the event made, broadcast and handed over.\<close>

definition admit_sender :: "unicode \<Rightarrow> 'd DanmakuService \<Rightarrow> int \<Rightarrow> int \<Rightarrow> string \<Rightarrow> ('d, User) prog" where
  "admit_sender U s roomID userID content =
     (if \<not> valid_content content then fail (Sentinel Danmaku_ErrInvalidContent)
      else bind (dm_access s roomID userID) (\<lambda>access.
        if rm_status (ra_room access) \<noteq> StatusLiving then fail (Sentinel Room_ErrNotLiving)
        else if ra_banned access then fail (Sentinel Room_ErrBanned)
        else if ra_muted access then fail (Sentinel Danmaku_ErrMuted)
        else bind (dm_allow s (danmaku_user_key userID) (dm_rate s) (dm_window s)) (\<lambda>allowed.
          if \<not> allowed then fail (Sentinel Danmaku_ErrRateLimited)
          else if Contains U (dm_filter s) content then fail (Sentinel Danmaku_ErrSensitive)
          else dm_user s userID)))"

definition post_event :: "'d DanmakuService \<Rightarrow> int \<Rightarrow> int \<Rightarrow> string \<Rightarrow> User \<Rightarrow> ('d, danmaku_event) prog" where
  "post_event s roomID userID content u =
     bind idgen_New (\<lambda>mid. bind now (\<lambda>t.
     bind (shape_event s (new_event roomID userID (u_nickname u) content mid t)) (\<lambda>e.
     bind (broadcast_event s e) (\<lambda>_.
     bind (persist_event s e) (\<lambda>_. ret e)))))"

definition Danmaku_Send :: "unicode \<Rightarrow> 'd DanmakuService \<Rightarrow> int \<Rightarrow> int \<Rightarrow> string \<Rightarrow> ('d, danmaku_event) prog" where
  "Danmaku_Send U s roomID userID content0 =
     (let content = TrimSpace content0 in
      bind (admit_sender U s roomID userID content) (post_event s roomID userID content))"

section \<open>Producers\<close>

definition NoopProducer :: "danmaku_event \<Rightarrow> ('d, unit) prog" where
  "NoopProducer e = ret ()"

definition ProduceDanmaku ::
  "(string \<times> string) list \<Rightarrow> (string \<Rightarrow> string \<Rightarrow> string \<Rightarrow> ('d, unit) prog) \<Rightarrow> string \<Rightarrow> danmaku_event \<Rightarrow> ('d, unit) prog" where
  "ProduceDanmaku trace produce topic e =
     (case danmaku_json e of
        None \<Rightarrow> fail unsupported_value
      | Some j \<Rightarrow> bind (NewEnvelopeContext trace (de_message_id e) EventTypeDanmakuSent (de_room_id e) j) (\<lambda>envelope.
          case marshal_envelope envelope of
            Inl err \<Rightarrow> fail err
          | Inr raw \<Rightarrow> produce topic (FormatInt (de_room_id e)) raw))"

section \<open>What a send relies on\<close>

lemma idgen_returns: obtains i w' where "idgen_New (d, w) = (Inr i, (d, w'))"
  using idgen_D [of d w] by (cases "idgen_New (d, w)") auto

locale danmaku_ports =
  fixes U :: unicode and s :: "'d DanmakuService" and posted :: "'d \<Rightarrow> 'm list" and msg :: "string \<Rightarrow> json \<Rightarrow> 'm"
    and eligible :: "'d \<Rightarrow> io \<Rightarrow> int \<Rightarrow> int \<Rightarrow> bool"
  assumes access_answers: "dm_access s i u (d, w) = (r, (d', w')) \<Longrightarrow> posted d' = posted d
      \<and> (\<forall>a. r = Inr a \<longrightarrow> rm_status (ra_room a) = StatusLiving \<longrightarrow> \<not> ra_banned a \<longrightarrow> \<not> ra_muted a \<longrightarrow> eligible d w i u)"
    and allow_silent: "dm_allow s k n t (d, w) = (b, (d', w')) \<Longrightarrow> posted d' = posted d"
    and user_silent: "dm_user s u (d, w) = (x, (d', w')) \<Longrightarrow> posted d' = posted d"
    and traffic_silent: "dm_traffic s = Some decide \<Longrightarrow> decide i m (d, w) = (y, (d', w')) \<Longrightarrow> posted d' = posted d"
    and producer_silent: "dm_producer s = Some produce \<Longrightarrow> produce e (d, w) = (z, (d', w')) \<Longrightarrow> posted d' = posted d"
    and publish_posts: "dm_publish s c j (d, w) = (p, (d', w')) \<Longrightarrow>
      posted d' = posted d @ [msg c j] \<or> (posted d' = posted d \<and> p \<noteq> Inr ())"
begin

text \<open>The message a broadcast posts.\<close>

definition carries :: "danmaku_event \<Rightarrow> 'm \<Rightarrow> bool" where
  "carries e m \<longleftrightarrow> (\<exists>wire j. m = msg (RoomStream (de_room_id e)) (event_json wire) \<and> danmaku_json e = Some j
     \<and> ev_data wire = j \<and> ev_type wire = ''danmaku'' \<and> ev_room_id wire = de_room_id e)"

lemma broadcast_posts:
  assumes "broadcast_event s e (d, w) = (r, (d', w'))"
  shows "(posted d' = posted d \<and> (r = Inr () \<longrightarrow> \<not> de_broadcasted e))
    \<or> (de_broadcasted e \<and> (\<exists>m. posted d' = posted d @ [m] \<and> carries e m))"
proof (cases "de_broadcasted e")
  case False
  with assms show ?thesis by (simp add: broadcast_event_def)
next
  case True
  obtain ident w1 where i: "idgen_New (d, w) = (Inr ident, (d, w1))" by (rule idgen_returns)
  show ?thesis
  proof (cases "danmaku_json e")
    case None
    with assms True i show ?thesis by (auto simp: broadcast_event_def bind_def fail_def)
  next
    case (Some j)
    let ?wire = "\<lparr>ev_event_id = ident, ev_type = ''danmaku'', ev_room_id = de_room_id e, ev_priority = ''P3'',
        ev_timestamp = unix_milli (go_now w1), ev_data = j\<rparr>"
    have p: "dm_publish s (RoomStream (de_room_id e)) (event_json ?wire) (d, w1) = (r, (d', w'))"
      using assms True i Some by (simp add: broadcast_event_def bind_def NewPriorityEvent_def now_def ret_def)
    have "carries e (msg (RoomStream (de_room_id e)) (event_json ?wire))"
      unfolding carries_def using Some by (intro exI [of _ ?wire] exI [of _ j]) simp
    with publish_posts [OF p] True show ?thesis by blast
  qed
qed

lemma shape_keeps:
  assumes "shape_event s e (d, w) = (r, (d', w'))"
  shows "posted d' = posted d \<and> (\<forall>x. r = Inr x \<longrightarrow> de_room_id x = de_room_id e \<and> de_user_id x = de_user_id e
    \<and> de_content x = de_content e)"
proof (cases "dm_traffic s")
  case None
  with assms show ?thesis by (auto simp: shape_event_def)
next
  case (Some decide)
  obtain y d1 w1 where q: "decide (de_room_id e) (de_message_id e) (d, w) = (y, (d1, w1))" by (metis prod.collapse)
  from assms Some q have "d' = d1" "\<forall>x. r = Inr x \<longrightarrow> de_room_id x = de_room_id e \<and> de_user_id x = de_user_id e
    \<and> de_content x = de_content e"
    by (auto simp: shape_event_def bind_def ret_def split: sum.splits prod.splits)
  with traffic_silent [OF Some q] show ?thesis by blast
qed

lemma persist_keeps:
  assumes "persist_event s e (d, w) = (r, (d', w'))"
  shows "posted d' = posted d \<and> r = Inr ()"
proof (cases "dm_producer s")
  case None
  with assms show ?thesis by (simp add: persist_event_def)
next
  case (Some produce)
  obtain y d1 w1 where q: "produce e (d, w) = (y, (d1, w1))" by (metis prod.collapse)
  from assms Some q have "d' = d1 \<and> r = Inr ()" by (simp add: persist_event_def ignore_def)
  with producer_silent [OF Some q] show ?thesis by blast
qed

lemma admit_keeps:
  assumes "admit_sender U s i u t (d, w) = (r, (d', w'))"
  shows "posted d' = posted d"
    and "\<And>x. r = Inr x \<Longrightarrow> eligible d w i u \<and> valid_content t \<and> \<not> Contains U (dm_filter s) t"
proof -
  obtain x d1 w1 where access: "dm_access s i u (d, w) = (x, (d1, w1))" by (metis prod.collapse)
  obtain b d2 w2 where allow: "dm_allow s (danmaku_user_key u) (dm_rate s) (dm_window s) (d1, w1) = (b, (d2, w2))"
    by (metis prod.collapse)
  obtain y d3 w3 where user: "dm_user s u (d2, w2) = (y, (d3, w3))" by (metis prod.collapse)
  note q = access_answers [OF access] allow_silent [OF allow] user_silent [OF user]
  have "d' \<in> {d, d1, d2, d3} \<and> (\<forall>z. r = Inr z \<longrightarrow> valid_content t \<and> \<not> Contains U (dm_filter s) t
      \<and> (\<exists>a. x = Inr a \<and> rm_status (ra_room a) = StatusLiving \<and> \<not> ra_banned a \<and> \<not> ra_muted a))"
    using assms unfolding admit_sender_def
    by (auto simp: bind_def access allow user fail_def split: if_splits sum.splits)
  with q show "posted d' = posted d"
    and "\<And>x. r = Inr x \<Longrightarrow> eligible d w i u \<and> valid_content t \<and> \<not> Contains U (dm_filter s) t" by auto
qed

lemma post_posts:
  assumes "post_event s i u t usr (d, w) = (r, (d', w'))"
  shows "(posted d' = posted d \<and> (\<forall>e. r = Inr e \<longrightarrow> \<not> de_broadcasted e))
     \<or> (\<exists>e m. posted d' = posted d @ [m] \<and> carries e m \<and> de_broadcasted e
           \<and> de_room_id e = i \<and> de_user_id e = u \<and> de_content e = t \<and> (\<forall>x. r = Inr x \<longrightarrow> x = e))"
proof -
  obtain mid w4 where g: "idgen_New (d, w) = (Inr mid, (d, w4))" by (rule idgen_returns)
  let ?e0 = "new_event i u (u_nickname usr) t mid (go_now w4)"
  obtain z d5 w5 where shape: "shape_event s ?e0 (d, w4) = (z, (d5, w5))" by (metis prod.collapse)
  note p5 = shape_keeps [OF shape]
  show ?thesis
  proof (cases z)
    case (Inl e)
    with assms g shape p5 show ?thesis by (auto simp: post_event_def bind_def now_def)
  next
    case z: (Inr e)
    obtain q d6 w6 where cast: "broadcast_event s e (d5, w5) = (q, (d6, w6))" by (metis prod.collapse)
    obtain n d7 w7 where keep: "persist_event s e (d6, w6) = (n, (d7, w7))" by (metis prod.collapse)
    note p7 = persist_keeps [OF keep]
    have run: "(r, (d', w')) = (case q of Inl err \<Rightarrow> (Inl err, (d6, w6)) | Inr _ \<Rightarrow> (Inr e, (d7, w7)))"
      using assms g shape z cast keep p7
      by (auto simp: post_event_def bind_def now_def ret_def split: sum.splits)
    have e: "de_room_id e = i" "de_user_id e = u" "de_content e = t" "posted d5 = posted d"
      using p5 z by (auto simp: new_event_def)
    show ?thesis using broadcast_posts [OF cast] run e p7
      by (cases q) auto
  qed
qed

text \<open>Whatever fails, a send posts at most its own message, and only for a sender who may send it.\<close>

lemma Send_posts:
  assumes "Danmaku_Send U s i u t (d, w) = (r, (d', w'))"
  shows "(posted d' = posted d \<and> (\<forall>e. r = Inr e \<longrightarrow> \<not> de_broadcasted e))
     \<or> (\<exists>e m. posted d' = posted d @ [m] \<and> carries e m \<and> de_broadcasted e
           \<and> de_room_id e = i \<and> de_user_id e = u \<and> de_content e = TrimSpace t \<and> (\<forall>x. r = Inr x \<longrightarrow> x = e))" (is ?posts)
    and "posted d' \<noteq> posted d \<or> (\<exists>e. r = Inr e) \<Longrightarrow>
       eligible d w i u \<and> valid_content (TrimSpace t) \<and> \<not> Contains U (dm_filter s) (TrimSpace t)"
proof -
  obtain x d1 w1 where admit: "admit_sender U s i u (TrimSpace t) (d, w) = (x, (d1, w1))" by (metis prod.collapse)
  note q = admit_keeps [OF admit]
  have run: "(\<exists>err. x = Inl err \<and> r = Inl err \<and> d' = d1)
      \<or> (\<exists>usr. x = Inr usr \<and> post_event s i u (TrimSpace t) usr (d1, w1) = (r, (d', w')))"
    using assms admit by (auto simp: Danmaku_Send_def Let_def bind_eq)
  then show ?posts using q(1) post_posts by fastforce
  show "eligible d w i u \<and> valid_content (TrimSpace t) \<and> \<not> Contains U (dm_filter s) (TrimSpace t)"
    if "posted d' \<noteq> posted d \<or> (\<exists>e. r = Inr e)"
    using run that q by auto
qed

end

end
