(* ===== verification/Danmaku_Live.thy ===== *)
theory Danmaku_Live
  imports Danmaku Gift_Delivery
begin

text \<open>
  The message service on the stores of the program, and who may post a message.
\<close>

definition danmaku_live ::
  "unicode \<Rightarrow> RoomService \<Rightarrow> http_server \<Rightarrow> Centrifugo \<Rightarrow> string list \<Rightarrow> TrafficConfig option \<Rightarrow>
   ((string \<times> string) list \<times> string) option \<Rightarrow> int \<Rightarrow> int \<Rightarrow> live DanmakuService" where
  "danmaku_live U rs server c words policy topic rate window = Danmaku_NewService
     \<lparr>dm_access = (\<lambda>i u. at_site (GetRoomAccess rs i u)), dm_user = (\<lambda>u. at_site (on_users (Auth_ByID u))),
      dm_allow = (\<lambda>k n t. at_redis (Allow k n t)), dm_filter = Some (NewSensitiveFilter U words),
      dm_publish = (\<lambda>ch j. at_realtime (Publish server c ch j)),
      dm_producer = map_option (\<lambda>(trace, t). ProduceDanmaku trace (\<lambda>t' k v. at_broker (ProduceAsync trace t' k v)) t) topic,
      dm_traffic = map_option (\<lambda>cfg. Decide (NewPolicy cfg)) policy, dm_rate = rate, dm_window = window\<rparr>"

lemma danmaku_live_fields [simp]:
  "dm_access (danmaku_live U rs server c words policy topic rate window) = (\<lambda>i u. at_site (GetRoomAccess rs i u))"
  "dm_user (danmaku_live U rs server c words policy topic rate window) = (\<lambda>u. at_site (on_users (Auth_ByID u)))"
  "dm_allow (danmaku_live U rs server c words policy topic rate window) = (\<lambda>k n t. at_redis (Allow k n t))"
  "dm_filter (danmaku_live U rs server c words policy topic rate window) = Some (NewSensitiveFilter U words)"
  "dm_publish (danmaku_live U rs server c words policy topic rate window) = (\<lambda>ch j. at_realtime (Publish server c ch j))"
  "dm_producer (danmaku_live U rs server c words policy topic rate window)
     = map_option (\<lambda>(trace, t). ProduceDanmaku trace (\<lambda>t' k v. at_broker (ProduceAsync trace t' k v)) t) topic"
  "dm_traffic (danmaku_live U rs server c words policy topic rate window) = map_option (\<lambda>cfg. Decide (NewPolicy cfg)) policy"
  by (simp_all add: danmaku_live_def Danmaku_NewService_def)

text \<open>The rooms as the sender may find them: living, and neither banned nor muted.\<close>

definition may_speak :: "live \<Rightarrow> io \<Rightarrow> int \<Rightarrow> int \<Rightarrow> bool" where
  "may_speak d w i u \<longleftrightarrow> (\<exists>row. room_by_id i (live_rooms_of d) = Some row \<and> r_status row = StatusLiving)
     \<and> \<not> banned_in (live_rooms_of d) i u \<and> \<not> muted_in (live_rooms_of d) (NOW3 w) i u"

lemma GetRoomAccess_D:
  assumes "GetRoomAccess rs i u (x, w) = (r, (x', w'))"
  shows "x' = x \<and> (\<forall>a. r = Inr a \<longrightarrow> (\<exists>row. room_by_id i (room_data x) = Some row \<and> rm_status (ra_room a) = r_status row)
    \<and> ra_banned a = banned_in (room_data x) i u \<and> ra_muted a = muted_in (room_data x) (NOW3 w) i u)"
  using assms
  by (auto simp: GetRoomAccess_def bind_eq on_rooms_eq Repo_IsBanned_def Repo_IsMuted_def room_view_def
      NOW3_def clocks_def
      dest!: Room_Get_D read_ext_D split: if_splits)

lemma live_http_at [simp]:
  "lv_http (d\<lparr>lv_site := a\<rparr>) = lv_http d" "lv_http (d\<lparr>lv_redis := b\<rparr>) = lv_http d" "lv_http (d\<lparr>lv_kafka := k\<rparr>) = lv_http d"
  by simp_all

lemma Decide_http:
  assumes "Decide (NewPolicy cfg) i m (d, w) = (y, (d', w'))"
  shows "lv_http d' = lv_http d"
  using assms by (auto simp: Decide_def NewPolicy_def bind_eq at_eqs ret_def Let_def split: prod.splits)

lemma ProduceDanmaku_http:
  assumes "ProduceDanmaku trace (\<lambda>t' k v. at_broker (ProduceAsync trace t' k v)) t e (d, w) = (z, (d', w'))"
  shows "lv_http d' = lv_http d"
  using assms
  by (auto simp: ProduceDanmaku_def NewEnvelopeContext_def bind_eq at_eqs ret_def now_def fail_def split: option.splits sum.splits)

interpretation live_danmaku: danmaku_ports U "danmaku_live U rs server c words policy topic rate window"
  lv_http "publish_request c" may_speak
proof (unfold_locales, goal_cases)
  case (1 i u d w r d' w')
  then show ?case by (auto simp: at_eqs may_speak_def dest!: GetRoomAccess_D)
next
  case (6 ch j d w p d' w')
  then show ?case by (auto simp: at_eqs elim: Publish_cases)
qed (auto simp: at_eqs dest: Decide_http ProduceDanmaku_http)

text \<open>A room message on its way to the realtime server.\<close>

definition room_message :: "Centrifugo \<Rightarrow> danmaku_event \<Rightarrow> http_request \<Rightarrow> bool" where
  "room_message c e m \<longleftrightarrow> (\<exists>wire j. m = publish_request c (RoomStream (de_room_id e)) (event_json wire) \<and> danmaku_json e = Some j
     \<and> ev_data wire = j \<and> ev_type wire = ''danmaku'' \<and> ev_room_id wire = de_room_id e)"

text \<open>
  C31. Who may speak. Whatever calls fail: sending a message reaches the realtime server at most once,
  with the sender's own text in the stream of the room; and if it does, or if the call succeeds, the
  room is living, the sender neither banned nor muted at that time, the text not empty and at most two
  hundred characters, and no configured sensitive word is part of it.
\<close>

theorem danmaku_admission:
  assumes "Danmaku_Send U (danmaku_live U rs server c words policy topic rate window) i u t (d, w) = (r, (d', w'))"
  shows "(lv_http d' = lv_http d \<and> (\<forall>e. r = Inr e \<longrightarrow> \<not> de_broadcasted e)
      \<or> (\<exists>e m. lv_http d' = lv_http d @ [m] \<and> room_message c e m \<and> de_room_id e = i \<and> de_user_id e = u
           \<and> de_content e = TrimSpace t \<and> (\<forall>x. r = Inr x \<longrightarrow> x = e)))
    \<and> (lv_http d' \<noteq> lv_http d \<or> (\<exists>e. r = Inr e) \<longrightarrow>
         may_speak d w i u \<and> valid_content (TrimSpace t)
         \<and> \<not> list_ex (\<lambda>raw. filter_word U raw \<noteq> [] \<and> sublist (filter_word U raw) (runes (ToLower U (TrimSpace t)))) words)"
proof -
  have "room_message c e m = live_danmaku.carries c e m" for e m
    unfolding room_message_def live_danmaku.carries_def by blast
  moreover have "Contains U (Some (NewSensitiveFilter U words)) s =
     list_ex (\<lambda>raw. filter_word U raw \<noteq> [] \<and> sublist (filter_word U raw) (runes (ToLower U s))) words" for s
    by (auto simp: Contains_def match_anywhere_sublist holds_filter list_ex_iff)
  ultimately show ?thesis
    using live_danmaku.Send_posts [OF assms] by (simp only: danmaku_live_fields) blast
qed

text \<open>A message of a muted sender: nothing is posted and the call fails.\<close>

definition muted_world :: live where
  "muted_world = (sold_world StatusLiving)\<lparr>lv_site := (lv_site (sold_world StatusLiving))\<lparr>room_data :=
     (live_rooms_of (sold_world StatusLiving))\<lparr>room_mutes := [\<lparr>m_room_id = 5, m_user_id = 7, m_muted_until = None,
        m_created_by = 3, m_reason = [], m_created_at = 0, m_updated_at = 0\<rparr>]\<rparr>\<rparr>\<rparr>"

theorem danmaku_admission_witness:
  "\<exists>r d' w'. Danmaku_Send ascii_only (danmaku_live ascii_only (Room_NewService True) ok_server sample_centrifugo [''bad''] None None 0 0)
       5 7 ''hello'' (muted_world, quiet_world) = (r, (d', w'))
     \<and> lv_http d' = [] \<and> (\<nexists>e. r = Inr e)"
proof -
  obtain r d' w' where g: "Danmaku_Send ascii_only (danmaku_live ascii_only (Room_NewService True) ok_server sample_centrifugo [''bad''] None None 0 0)
       5 7 ''hello'' (muted_world, quiet_world) = (r, (d', w'))"
    by (metis prod.collapse)
  have "\<not> may_speak muted_world quiet_world 5 7"
    by (simp add: may_speak_def muted_world_def muted_in_def mute_active_def)
  with danmaku_admission [OF g] g show ?thesis by (intro exI conjI) (auto simp: muted_world_def sold_world_def)
qed

end
