(* ===== verification/Danmaku_Store.thy ===== *)
theory Danmaku_Store
  imports Danmaku Gift_Delivery
begin

text \<open>
  The consumer that stores messages (\<^verbatim>\<open>PersistenceHandler\<close> in \<^verbatim>\<open>internal/danmaku/kafka.go\<close>),
  alone and under the consumer loop with its dead letters. The collation key of the table
  (\<open>ck\<close>), Go's quoting of a text (\<open>quoted\<close>) and what the server's column checks refuse
  (\<open>refuse\<close>) are arguments.
\<close>

section \<open>The handler\<close>

record danmaku_row =
  dr_id :: int
  dr_message_id :: string
  dr_room_id :: int
  dr_user_id :: int
  dr_nickname :: string
  dr_content :: string
  dr_created_at :: int

text \<open>What a record asks to be stored.\<close>

definition danmaku_of :: "(string \<Rightarrow> string) \<Rightarrow> Record \<Rightarrow> go_err + danmaku_event" where
  "danmaku_of quoted r =
     (case unmarshal_envelope (value_bytes r) of
        None \<Rightarrow> Inl (Permanent (errorf_pre ''decode danmaku envelope'' json_error))
      | Some envelope \<Rightarrow>
     (case ValidateRoomEnvelope envelope of
        Some err \<Rightarrow> Inl (Permanent (errorf_pre ''invalid danmaku envelope'' err))
      | None \<Rightarrow>
      if EventType envelope \<noteq> EventTypeDanmakuSent
      then Inl (Permanent (Plain (''unexpected danmaku event type '' @ quoted (EventType envelope))))
      else (case unmarshal danmaku_fields zero_danmaku (Payload envelope) of
        None \<Rightarrow> Inl (Permanent (errorf_pre ''decode danmaku payload'' json_error))
      | Some e \<Rightarrow>
          if de_message_id e = [] \<or> de_room_id e \<le> 0 \<or> de_user_id e \<le> 0 \<or> de_content e = []
          then Inl (Permanent (Plain ''invalid danmaku payload'')) else Inr e)))"

definition row_of :: "int \<Rightarrow> danmaku_event \<Rightarrow> danmaku_row" where
  "row_of i e = \<lparr>dr_id = i, dr_message_id = de_message_id e, dr_room_id = de_room_id e, dr_user_id = de_user_id e,
     dr_nickname = de_nickname e, dr_content = de_content e, dr_created_at = datetime3 (de_created_at e)\<rparr>"

text \<open>\<^verbatim>\<open>INSERT ... ON DUPLICATE KEY UPDATE message_id=message_id\<close>.\<close>

definition insert_danmaku ::
  "(string \<Rightarrow> string) \<Rightarrow> (danmaku_row \<Rightarrow> go_err option) \<Rightarrow> danmaku_event \<Rightarrow> (danmaku_row list, nat) prog" where
  "insert_danmaku ck refuse e = ext (\<lambda>rows _.
     let row = row_of (next_id dr_id rows) e in
     case refuse row of Some err \<Rightarrow> (Inl err, rows)
     | None \<Rightarrow> if list_ex (\<lambda>r. ck (dr_message_id r) = ck (dr_message_id row)) rows then (Inr 0, rows)
               else (Inr 1, rows @ [row]))"

definition Danmaku_Handle ::
  "(string \<Rightarrow> string) \<Rightarrow> (string \<Rightarrow> string) \<Rightarrow> (danmaku_row \<Rightarrow> go_err option) \<Rightarrow> Record \<Rightarrow> (danmaku_row list, unit) prog" where
  "Danmaku_Handle ck quoted refuse r =
     bind (lift (danmaku_of quoted r)) (\<lambda>e. bind (insert_danmaku ck refuse e) (\<lambda>n. ret ()))"

section \<open>What it does to the table\<close>

definition stored :: "(string \<Rightarrow> string) \<Rightarrow> danmaku_row list \<Rightarrow> string \<Rightarrow> bool" where
  "stored ck rows i \<longleftrightarrow> list_ex (\<lambda>r. ck (dr_message_id r) = ck i) rows"

lemma Handle_cases:
  assumes "Danmaku_Handle ck quoted refuse r (rows, w) = (x, (rows', w'))"
  obtains (refused) "rows' = rows" and "x \<noteq> Inr ()"
  | (known) e where "danmaku_of quoted r = Inr e" and "stored ck rows (de_message_id e)" and "rows' = rows"
  | (added) e where "danmaku_of quoted r = Inr e" and "\<not> stored ck rows (de_message_id e)"
      and "rows' = rows @ [row_of (next_id dr_id rows) e]"
proof (cases "danmaku_of quoted r")
  case (Inl err)
  with assms show thesis by (intro refused) (auto simp: Danmaku_Handle_def lift_def bind_def)
next
  case (Inr e)
  let ?row = "row_of (next_id dr_id rows) e"
  obtain y where i: "insert_danmaku ck refuse e (rows, w) = (y, (rows', w'))" and y: "x = Inr () \<longrightarrow> (\<exists>n. y = Inr n)"
    using assms Inr by (auto simp: Danmaku_Handle_def lift_def bind_eq)
  have id: "dr_message_id ?row = de_message_id e" by (simp add: row_of_def)
  show thesis
  proof (cases "rows' = rows")
    case True
    show thesis
    proof (cases "x = Inr ()")
      case False
      with True show thesis by (rule refused)
    next
      case ok: True
      with i y True have "stored ck rows (de_message_id e)"
        by (auto simp: insert_danmaku_def stored_def Let_def id elim!: ext_InrE split: option.splits if_splits)
      with Inr True show thesis by (intro known)
    qed
  next
    case False
    then have "\<not> stored ck rows (de_message_id e) \<and> rows' = rows @ [?row]"
      using i by (auto simp: insert_danmaku_def stored_def Let_def id dest!: ext_D split: option.splits if_splits)
    with Inr show thesis by (intro added) auto
  qed
qed

lemma stored_append: "stored ck (rows @ [row_of i e]) j = (stored ck rows j \<or> ck (de_message_id e) = ck j)"
  by (simp add: stored_def row_of_def)

section \<open>Under the consumer loop\<close>

record archive_world =
  aw_rows :: "danmaku_row list"
  aw_kafka :: kafka_log

definition on_rows :: "(danmaku_row list, 'a) prog \<Rightarrow> (archive_world, 'a) prog" where
  "on_rows = zoom aw_rows (\<lambda>d s. s\<lparr>aw_rows := d\<rparr>)"

definition archive_letters :: "DeadLetter \<Rightarrow> (archive_world, unit) prog" where
  "archive_letters d = zoom aw_kafka (\<lambda>l s. s\<lparr>aw_kafka := l\<rparr>) (WriteDeadLetter ProduceRawSync d)"

lemma WriteDeadLetter_log:
  assumes "WriteDeadLetter ProduceRawSync (dead_of grp r e t) (l, w) = (x, (l', w'))"
  shows "set l \<subseteq> set l' \<and> (x = Inr () \<longrightarrow> dead_lettered grp l' r)"
proof (cases "\<exists>raw. Validate (dead_of grp r e t) = None \<and> marshal_dead (dead_of grp r e t) = Inr raw")
  case False
  with assms show ?thesis by (auto simp: WriteDeadLetter_def split: option.splits sum.splits)
next
  case True
  then obtain raw where v: "Validate (dead_of grp r e t) = None" "marshal_dead (dead_of grp r e t) = Inr raw" by blast
  with assms obtain key y where "produceSync [] (rec_topic r @ DeadLetterTopicSuffix) key (Some raw) False (l, w)
      = (y, (l', w'))" and xy: "x = Inr () \<longrightarrow> y = Inr ()"
    by (auto simp: WriteDeadLetter_def handle_eq ProduceRawSync_def Let_def dead_of_def)
  from produceSync_cases [OF this(1)] obtain m where m: "msg_topic m = rec_topic r @ DeadLetterTopicSuffix"
    "msg_value m = Some raw" "l' = l @ [m] \<or> l' = l \<and> y \<noteq> Inr ()" by auto
  moreover have "dead_lettered grp (l @ [m]) r"
    unfolding dead_lettered_def using m(1,2) v(2) by (intro bexI [of _ m]) auto
  ultimately show ?thesis using xy by auto
qed

definition archive_settled :: "(string \<Rightarrow> string) \<Rightarrow> (string \<Rightarrow> string) \<Rightarrow> string \<Rightarrow> archive_world \<Rightarrow> Record \<Rightarrow> bool" where
  "archive_settled ck quoted grp s r \<longleftrightarrow>
     (\<exists>e. danmaku_of quoted r = Inr e \<and> stored ck (aw_rows s) (de_message_id e)) \<or> dead_lettered grp (aw_kafka s) r"

lemma archive_letter_cases:
  assumes "writeDeadLetter grp (Some archive_letters) r e (s, w) = (x, (s', w'))"
  shows "aw_rows s' = aw_rows s" and "set (aw_kafka s) \<subseteq> set (aw_kafka s')"
    and "x = Inr () \<Longrightarrow> dead_lettered grp (aw_kafka s') r"
proof -
  have "archive_letters (dead_of grp r e (go_now w)) (s, w) = (x, (s', w'))"
    using assms by (simp add: writeDeadLetter_def bind_eq NewDeadLetter_eq)
  then obtain l where "WriteDeadLetter ProduceRawSync (dead_of grp r e (go_now w)) (aw_kafka s, w) = (x, (l, w'))"
    and s': "s' = s\<lparr>aw_kafka := l\<rparr>" by (auto simp: archive_letters_def zoom_eq)
  from WriteDeadLetter_log [OF this(1)] s'
  show "aw_rows s' = aw_rows s" "set (aw_kafka s) \<subseteq> set (aw_kafka s')" "x = Inr () \<Longrightarrow> dead_lettered grp (aw_kafka s') r"
    by auto
qed

interpretation danmaku_archive: record_handler
  grp "Some archive_letters" "\<lambda>r. on_rows (Danmaku_Handle ck quoted refuse r)" "archive_settled ck quoted grp"
proof (unfold_locales, goal_cases)
  case (1 r d w d' w')
  then show ?case
    by (auto simp: on_rows_def zoom_eq archive_settled_def stored_append elim!: Handle_cases)
next
  case (2 r d w x d' w' r')
  then show ?case
    by (auto simp: on_rows_def zoom_eq archive_settled_def stored_append elim!: Handle_cases)
next
  case (3 r e d w d' w')
  from archive_letter_cases(3) [OF 3] show ?case by (simp add: archive_settled_def)
next
  case (4 r e d w x d' w' r')
  from archive_letter_cases(1,2) [OF 4(1)] 4(2) dead_lettered_mono show ?case by (auto simp: archive_settled_def)
qed

definition one_row_each :: "(string \<Rightarrow> string) \<Rightarrow> danmaku_row list \<Rightarrow> bool" where
  "one_row_each ck rows \<longleftrightarrow> distinct (map (ck \<circ> dr_message_id) rows)"

text \<open>Rows that hold the messages of the given records.\<close>

definition rows_of :: "(string \<Rightarrow> string) \<Rightarrow> Record list \<Rightarrow> danmaku_row list \<Rightarrow> bool" where
  "rows_of quoted rs rows \<longleftrightarrow> (\<forall>row \<in> set rows. \<exists>r \<in> set rs. \<exists>e. danmaku_of quoted r = Inr e \<and> row = row_of (dr_id row) e)"

lemma rows_of_mono: "rows_of quoted rs rows \<Longrightarrow> set rs \<subseteq> set rs' \<Longrightarrow> rows_of quoted rs' rows"
  unfolding rows_of_def by blast

lemma rows_of_append: "rows_of quoted rs (a @ b) \<longleftrightarrow> rows_of quoted rs a \<and> rows_of quoted rs b"
  unfolding rows_of_def by auto

lemma rows_of_Nil [simp]: "rows_of quoted rs []"
  by (simp add: rows_of_def)

abbreviation archive_grows :: "(string \<Rightarrow> string) \<Rightarrow> (string \<Rightarrow> string) \<Rightarrow> Record list \<Rightarrow> archive_world \<Rightarrow> archive_world \<Rightarrow> bool" where
  "archive_grows ck quoted rs s s' \<equiv> (\<exists>new. aw_rows s' = aw_rows s @ new \<and> rows_of quoted rs new)
     \<and> (one_row_each ck (aw_rows s) \<longrightarrow> one_row_each ck (aw_rows s'))"

lemma Handle_grows:
  assumes "on_rows (Danmaku_Handle ck quoted refuse r) (s, w) = (x, (s', w'))" and "r \<in> set rs"
  shows "archive_grows ck quoted rs s s'"
proof -
  from assms(1) obtain rows' where "Danmaku_Handle ck quoted refuse r (aw_rows s, w) = (x, (rows', w'))"
    and s': "aw_rows s' = rows'" by (auto simp: on_rows_def zoom_eq)
  from this(1) show ?thesis
  proof (cases rule: Handle_cases)
    case (added e)
    let ?row = "row_of (next_id dr_id (aw_rows s)) e"
    have "rows_of quoted rs [?row]" using added(1) assms(2) by (auto simp: rows_of_def row_of_def)
    moreover have "one_row_each ck (aw_rows s) \<longrightarrow> one_row_each ck (aw_rows s @ [?row])"
      using added(2) by (auto simp: one_row_each_def stored_def row_of_def list_ex_iff)
    ultimately show ?thesis unfolding s' added(3) by blast
  qed (simp_all add: s')
qed

text \<open>A step of the loop changes the data only as one attempt of a record at hand does.\<close>

lemma consumer_step_data:
  assumes "consumer_step grp dlq h s s'" and "\<And>d. P d d"
    and "\<And>r d w x d' w'. r \<in> set (pending (ls_phase s)) \<Longrightarrow> attempt_record grp dlq h r (d, w) = (x, (d', w')) \<Longrightarrow> P d d'"
  shows "P (ls_data s) (ls_data s')"
  using assms(1) by cases (auto simp: assms(2) intro!: assms(3))

lemma consumer_step_fetched: "consumer_step grp dlq h s s' \<Longrightarrow> set (ls_fetched s) \<subseteq> set (ls_fetched s')"
  by (erule consumer_stepE) auto

lemma archive_step_grows:
  assumes "consumer_step grp (Some archive_letters) (\<lambda>r. on_rows (Danmaku_Handle ck quoted refuse r)) s s'" and "in_order s"
  shows "archive_grows ck quoted (ls_fetched s) (ls_data s) (ls_data s')"
proof (rule consumer_step_data [OF assms(1)])
  fix r d w x d' w'
  assume "r \<in> set (pending (ls_phase s))"
  then have r: "r \<in> set (ls_fetched s)" using assms(2) by (auto simp: in_order_def)
  assume "attempt_record grp (Some archive_letters) (\<lambda>r. on_rows (Danmaku_Handle ck quoted refuse r)) r (d, w) = (x, (d', w'))"
  moreover obtain y d1 w1 where h: "on_rows (Danmaku_Handle ck quoted refuse r) (d, w) = (y, (d1, w1))"
    by (metis prod.collapse)
  ultimately have rest: "d' = d1 \<or> (\<exists>e z. writeDeadLetter grp (Some archive_letters) r e (d1, w1) = (z, (d', w')))"
    by (auto simp: attempt_record_def handle_eq split: if_splits)
  from rest archive_letter_cases(1) have "aw_rows d' = aw_rows d1" by blast
  with Handle_grows [OF h r] show "archive_grows ck quoted (ls_fetched s) d d'" by simp
qed simp

lemma archive_reach_grows:
  assumes "consumer_reach grp (Some archive_letters) (\<lambda>r. on_rows (Danmaku_Handle ck quoted refuse r)) (consumer_start d) s"
  shows "archive_grows ck quoted (ls_fetched s) d (ls_data s)"
  using assms
proof (induction rule: consumer_reach.induct)
  case start
  then show ?case by (simp add: consumer_start_def)
next
  case (step s s')
  note f = consumer_step_fetched [OF step(2)]
  obtain a b where "aw_rows (ls_data s) = aw_rows d @ a" "rows_of quoted (ls_fetched s) a"
    "aw_rows (ls_data s') = aw_rows (ls_data s) @ b" "rows_of quoted (ls_fetched s) b"
    using step(3) archive_step_grows [OF step(2) consumer_reach_in_order [OF step(1)]] by blast
  then have "aw_rows (ls_data s') = aw_rows d @ (a @ b) \<and> rows_of quoted (ls_fetched s') (a @ b)"
    using rows_of_mono [OF _ f] by (simp add: rows_of_append)
  with step(3) archive_step_grows [OF step(2) consumer_reach_in_order [OF step(1)]] show ?case by blast
qed

text \<open>
  C32. Messages are stored, once, and nothing else is. However often the broker redelivers, wherever
  calls fail and whenever the loop is cancelled: for every record whose offset was committed, its
  message is in the table or a dead letter that preserves the record is in the broker's log; rows
  are only added, and every added row holds the message of a fetched record that is a valid message
  event, field by field; and a message has at most one row.
\<close>

theorem danmaku_stored_once:
  assumes "consumer_reach grp (Some archive_letters) (\<lambda>r. on_rows (Danmaku_Handle ck quoted refuse r)) (consumer_start d) s"
    and "one_row_each ck (aw_rows d)"
  shows "(\<forall>r \<in> set (ls_committed s). archive_settled ck quoted grp (ls_data s) r)
    \<and> (\<exists>new. aw_rows (ls_data s) = aw_rows d @ new
         \<and> (\<forall>row \<in> set new. \<exists>r \<in> set (ls_fetched s). \<exists>e. danmaku_of quoted r = Inr e \<and> row = row_of (dr_id row) e))
    \<and> one_row_each ck (aw_rows (ls_data s))"
  using danmaku_archive.reach_settled [OF assms(1)] archive_reach_grows [OF assms(1)] assms(2)
  unfolding rows_of_def by auto

text \<open>A message event that is stored, and a record that is none.\<close>

definition sample_message :: json where
  "sample_message = JObj [(''message_id'', JStr ''m1''), (''room_id'', JInt 5), (''user_id'', JInt 7), (''content'', JStr ''hello'')]"

definition sample_danmaku :: Envelope where
  "sample_danmaku = \<lparr>EventID = ''m1'', EventType = EventTypeDanmakuSent, RoomID = 5, CreatedAt = go_now noon, Trace = [],
     Payload = jprint sample_message\<rparr>"

definition sample_said :: danmaku_event where
  "sample_said = zero_danmaku\<lparr>de_message_id := ''m1'', de_room_id := 5, de_user_id := 7, de_content := ''hello''\<rparr>"

lemma sample_texts: "utf8_ok ''m1''" "utf8_ok ''hello''" "utf8_ok EventTypeDanmakuSent"
  "utf8_ok ''message_id''" "utf8_ok ''user_id''" "utf8_ok ''content''"
  by (rule ascii_utf8_ok, simp add: byte_def EventTypeDanmakuSent_def)+

lemma sample_message_ok: "doc_ok sample_message"
  by (simp add: sample_message_def sample_texts envelope_keys_ok is_i64_def)

lemma sample_message_read: "unmarshal danmaku_fields zero_danmaku (jprint sample_message) = Some sample_said"
proof -
  have str: "value_field as_string q (jprint (JStr s)) r = Some (q s r)" if "utf8_ok s" for q s and r :: danmaku_event
    using that by (subst value_field_print) simp_all
  have i: "value_field as_int64 q (jprint (JInt i)) r = Some (q i r)" if "is_i64 i" for q i and r :: danmaku_event
    using that by (subst value_field_print) (simp_all add: ParseInt_FormatInt)
  show ?thesis
    unfolding sample_message_def unmarshal_print [OF sample_message_ok [unfolded sample_message_def]]
    by (simp add: sample_said_def danmaku_fields_def field_for_def str i sample_texts is_i64_def del: jprint.simps)
qed

lemma sample_danmaku_ok: "envelope_ok sample_danmaku sample_message"
  using sample_message_ok sample_texts sample_dead(2) by (simp add: sample_danmaku_def envelope_ok_def is_i64_def dead_ok_def dead_of_def)

lemma sample_danmaku_stored: "\<exists>raw. danmaku_of id (sample_record\<lparr>rec_value := Some raw\<rparr>) = Inr sample_said"
proof -
  obtain t where t: "time_json (CreatedAt sample_danmaku) = Some t" using sample_danmaku_ok by (auto simp: envelope_ok_def)
  define raw where "raw = jprint (envelope_json sample_danmaku t sample_message)"
  have m: "marshal_envelope sample_danmaku = Inr raw" unfolding raw_def by (rule marshal_envelope_print [OF sample_danmaku_ok t])
  have n: "TrimSpace ''m1'' \<noteq> []" "TrimSpace EventTypeDanmakuSent \<noteq> []" "go_now noon \<noteq> zero_time"
    unfolding EventTypeDanmakuSent_def noon_def zero_time_def
    by (rule TrimSpace_head, simp_all add: byte_def is_space_def)+
  have v: "jprint sample_message \<noteq> []" "json_valid (jprint sample_message)"
    using jprint_not_Nil [OF sample_message_ok] json_parse_print [OF sample_message_ok] by (simp_all add: json_valid_def)
  have "danmaku_of id (sample_record\<lparr>rec_value := Some raw\<rparr>) = Inr sample_said"
    using unmarshal_marshal_envelope [OF sample_danmaku_ok m] n v sample_message_read
    by (simp add: danmaku_of_def value_bytes_def ValidateRoomEnvelope_def sample_danmaku_def sample_said_def)
  then show ?thesis by (rule exI)
qed

theorem danmaku_stored_once_witness:
  "(\<exists>s. consumer_reach ''live'' (Some archive_letters) (\<lambda>r. on_rows (Danmaku_Handle id id (\<lambda>_. None) r))
       (consumer_start \<lparr>aw_rows = [], aw_kafka = []\<rparr>) s \<and> ls_committed s = [sample_record]
     \<and> archive_settled id id ''live'' (ls_data s) sample_record)
   \<and> (\<exists>raw s. danmaku_of id (sample_record\<lparr>rec_value := Some raw\<rparr>) = Inr sample_said
     \<and> consumer_reach ''live'' (Some archive_letters) (\<lambda>r. on_rows (Danmaku_Handle id id (\<lambda>_. None) r))
       (consumer_start \<lparr>aw_rows = [], aw_kafka = []\<rparr>) s
     \<and> ls_committed s = [sample_record\<lparr>rec_value := Some raw\<rparr>]
     \<and> aw_rows (ls_data s) = [row_of 1 sample_said] \<and> one_row_each id (aw_rows (ls_data s)))"
proof (rule conjI)
  let ?e = "Permanent (errorf_pre ''decode danmaku envelope'' json_error)"
  let ?d = "\<lparr>aw_rows = [], aw_kafka = []\<rparr>"
  have bad: "danmaku_of id sample_record = Inl ?e"
    by (simp add: danmaku_of_def sample_record_def value_bytes_def unmarshal_envelope_def unmarshal_def json_parse_def
        expect_def HasPrefix_def byte_def eval_nat_numeral Let_def dquote_def)
  obtain raw where m: "marshal_dead (dead_of ''live'' sample_record ?e (go_now noon)) = Inr raw"
    using sample_dead(2) by (auto simp: marshal_dead_def dead_of_def dead_ok_def)
  have v: "Validate (dead_of ''live'' sample_record ?e (go_now noon)) = None"
  proof -
    have "TrimSpace (take 2048 (error_text ?e)) \<noteq> []"
      unfolding Permanent_def errorf_pre_def error_text.simps append.simps take_Suc_Cons
        take_Cons_numeral by (rule TrimSpace_head) (simp_all add: byte_def is_space_def)
    with sample_dead(1) show ?thesis by (simp add: Validate_def dead_of_def split: if_splits)
  qed
  have "\<exists>d. attempt_record ''live'' (Some archive_letters) (\<lambda>r. on_rows (Danmaku_Handle id id (\<lambda>_. None) r)) sample_record
      (?d, noon) = (Inr Dead_lettered, (d, noon))"
    using bad m v
    by (simp add: attempt_record_def Danmaku_Handle_def handle_def bind_def lift_def writeDeadLetter_def on_rows_def
        NewDeadLetter_eq archive_letters_def WriteDeadLetter_def Let_def zoom_def ProduceRawSync_def
        produceSync_def ext_quiet noon_def ret_def)
  then obtain d where "attempt_record ''live'' (Some archive_letters) (\<lambda>r. on_rows (Danmaku_Handle id id (\<lambda>_. None) r)) sample_record
      (?d, noon) = (Inr Dead_lettered, (d, noon))" ..
  from single_commit [OF this] obtain s where s: "consumer_reach ''live'' (Some archive_letters)
      (\<lambda>r. on_rows (Danmaku_Handle id id (\<lambda>_. None) r)) (consumer_start ?d) s" "ls_committed s = [sample_record]" by auto
  from danmaku_stored_once [OF s(1)] s show "\<exists>s. consumer_reach ''live'' (Some archive_letters)
      (\<lambda>r. on_rows (Danmaku_Handle id id (\<lambda>_. None) r)) (consumer_start ?d) s \<and> ls_committed s = [sample_record]
      \<and> archive_settled id id ''live'' (ls_data s) sample_record"
    by (intro exI [of _ s]) (simp add: one_row_each_def)
next
  let ?d = "\<lparr>aw_rows = [], aw_kafka = []\<rparr>"
  let ?h = "\<lambda>r. on_rows (Danmaku_Handle id id (\<lambda>_. None) r)"
  obtain raw where e: "danmaku_of id (sample_record\<lparr>rec_value := Some raw\<rparr>) = Inr sample_said"
    using sample_danmaku_stored by blast
  let ?r = "sample_record\<lparr>rec_value := Some raw\<rparr>"
  have "attempt_record ''live'' (Some archive_letters) ?h ?r (?d, noon)
      = (Inr Handled, (?d\<lparr>aw_rows := [row_of 1 sample_said]\<rparr>, noon))"
    using e by (simp add: attempt_record_def Danmaku_Handle_def insert_danmaku_def handle_def bind_def lift_def on_rows_def
        zoom_def ext_quiet noon_def ret_def next_id_def Let_def)
  from single_commit [OF this] obtain s where s: "consumer_reach ''live'' (Some archive_letters) ?h (consumer_start ?d) s"
    "ls_committed s = [?r]" "ls_data s = ?d\<lparr>aw_rows := [row_of 1 sample_said]\<rparr>" by auto
  from danmaku_stored_once [OF s(1)] have "one_row_each id (aw_rows (ls_data s))" by (simp add: one_row_each_def)
  with s e show "\<exists>raw s. danmaku_of id (sample_record\<lparr>rec_value := Some raw\<rparr>) = Inr sample_said
      \<and> consumer_reach ''live'' (Some archive_letters) ?h (consumer_start ?d) s
      \<and> ls_committed s = [sample_record\<lparr>rec_value := Some raw\<rparr>]
      \<and> aw_rows (ls_data s) = [row_of 1 sample_said] \<and> one_row_each id (aw_rows (ls_data s))"
    by (intro exI [of _ raw] exI [of _ s]) simp
qed

end
