(* ===== verification/Http.thy ===== *)
theory Http
  imports Tokens Realtime
begin

text \<open>
  What the HTTP servers of \<^verbatim>\<open>internal/httpapi\<close>, \<^verbatim>\<open>internal/commerceapi\<close> and
  \<^verbatim>\<open>internal/gateway\<close> share: requests and replies, the routing of \<^verbatim>\<open>http.ServeMux\<close>, bodies
  read by \<^verbatim>\<open>decodeJSON\<close>, replies written by \<^verbatim>\<open>writeJSON\<close> and \<^verbatim>\<open>writeError\<close>, and the
  middlewares that authenticate, number and recover a request.

  A handler is a program that ends in a reply; one that ends in an error has panicked. Paths are
  clean, as the multiplexer makes them by redirects, header names are in canonical form, and
  the reply is what the handler writes, which the server leaves out for a \<^verbatim>\<open>HEAD\<close> request.
\<close>

section \<open>Requests and replies\<close>

record http_call =
  hc_method :: string
  hc_path :: string
  hc_values :: "(string \<times> string) list"
  hc_query :: "(string \<times> string) list"
  hc_headers :: "(string \<times> string) list"
  hc_body :: string

record http_reply =
  hr_code :: int
  hr_headers :: "(string \<times> string) list"
  hr_body :: string

type_synonym 'd handler = "http_call \<Rightarrow> ('d, http_reply) prog"

text \<open>\<^verbatim>\<open>Header.Get\<close>, \<^verbatim>\<open>Query().Get\<close> and \<^verbatim>\<open>PathValue\<close>: the first value, or the empty text.\<close>

definition value_of :: "(string \<times> string) list \<Rightarrow> string \<Rightarrow> string" where
  "value_of vs k = (case map_of vs k of None \<Rightarrow> [] | Some v \<Rightarrow> v)"

definition writeJSON :: "int \<Rightarrow> json option \<Rightarrow> http_reply" where
  "writeJSON code v = \<lparr>hr_code = code, hr_headers = [(''Content-Type'', ''application/json'')],
     hr_body = (case v of None \<Rightarrow> [] | Some j \<Rightarrow> jprint j @ [CHR 0x0A])\<rparr>"

definition writeError :: "int \<Rightarrow> string \<Rightarrow> string \<Rightarrow> http_reply" where
  "writeError code errCode msg = writeJSON code (Some (JObj [(''code'', JStr errCode), (''message'', JStr msg)]))"

lemma code_writeJSON [simp]: "hr_code (writeJSON c v) = c"
  by (simp add: writeJSON_def)

lemma code_writeError [simp]: "hr_code (writeError c e m) = c"
  by (simp add: writeError_def)

text \<open>An object some of whose members may not have a JSON form.\<close>

fun members_json :: "(string \<times> json option) list \<Rightarrow> (string \<times> json) list option" where
  "members_json [] = Some []"
| "members_json ((k, v) # vs) =
     (case (v, members_json vs) of (Some j, Some js) \<Rightarrow> Some ((k, j) # js) | _ \<Rightarrow> None)"

definition object_json :: "(string \<times> json option) list \<Rightarrow> json option" where
  "object_json vs = map_option JObj (members_json vs)"

fun elems_json :: "json option list \<Rightarrow> json list option" where
  "elems_json [] = Some []"
| "elems_json (v # vs) = (case (v, elems_json vs) of (Some j, Some js) \<Rightarrow> Some (j # js) | _ \<Rightarrow> None)"

definition array_json :: "json option list \<Rightarrow> json option" where
  "array_json vs = map_option JArr (elems_json vs)"

section \<open>Routing\<close>

datatype seg = Lit string | Wild string | Rest

text \<open>A pattern: literal segments, wildcards in braces, and a final slash for a whole subtree.\<close>

definition seg_of :: "string \<Rightarrow> seg" where
  "seg_of s = (if s = [] then Rest else if HasPrefix s ''{'' then Wild (butlast (tl s)) else Lit s)"

definition pattern :: "string \<Rightarrow> seg list" where
  "pattern s = map seg_of (tl (Split (CHR ''/'') s))"

fun match_path :: "seg list \<Rightarrow> string list \<Rightarrow> (string \<times> string) list option" where
  "match_path [] [] = Some []"
| "match_path (Lit t # ps) (s # ss) = (if s = t then match_path ps ss else None)"
| "match_path (Wild n # ps) (s # ss) = (if s = [] then None else map_option ((#) (n, s)) (match_path ps ss))"
| "match_path [Rest] (s # ss) = Some []"
| "match_path _ _ = None"

definition path_segments :: "string \<Rightarrow> string list" where
  "path_segments s = tl (Split (CHR ''/'') s)"

type_synonym 'd route = "string \<times> seg list \<times> 'd handler"

definition route :: "string \<Rightarrow> string \<Rightarrow> 'd handler \<Rightarrow> 'd route" where
  "route m p h = (m, pattern p, h)"

definition method_ok :: "string \<Rightarrow> string \<Rightarrow> bool" where
  "method_ok pm m \<longleftrightarrow> pm = m \<or> (pm = ''GET'' \<and> m = ''HEAD'')"

text \<open>
  The route of a request. In every table of the program a request matches one pattern, or a more
  specific pattern comes first.
\<close>

fun find_route :: "'d route list \<Rightarrow> http_call \<Rightarrow> ('d handler \<times> (string \<times> string) list) option" where
  "find_route [] rq = None"
| "find_route ((m, p, h) # rs) rq =
     (case (if method_ok m (hc_method rq) then match_path p (path_segments (hc_path rq)) else None) of
        Some vs \<Rightarrow> Some (h, vs) | None \<Rightarrow> find_route rs rq)"

definition text_reply :: "int \<Rightarrow> string \<Rightarrow> http_reply" where
  "text_reply code t = \<lparr>hr_code = code, hr_headers = [(''Content-Type'', ''text/plain; charset=utf-8'')], hr_body = t @ [CHR 0x0A]\<rparr>"

definition mux :: "'d route list \<Rightarrow> 'd handler" where
  "mux rs rq =
     (case find_route rs rq of
        Some (h, vs) \<Rightarrow> h (rq\<lparr>hc_values := vs\<rparr>)
      | None \<Rightarrow> ret (if list_ex (\<lambda>(m, p, h). match_path p (path_segments (hc_path rq)) \<noteq> None) rs
                    then text_reply 405 ''Method Not Allowed'' else text_reply 404 ''404 page not found''))"

section \<open>Reading a request\<close>

definition pathInt64 :: "http_call \<Rightarrow> string \<Rightarrow> (int \<Rightarrow> ('d, http_reply) prog) \<Rightarrow> ('d, http_reply) prog" where
  "pathInt64 rq name k =
     (case ParseInt (value_of (hc_values rq) name) of
        None \<Rightarrow> ret (writeError 400 ''BAD_REQUEST'' (name @ '' must be a positive integer''))
      | Some v \<Rightarrow> if v \<le> 0 then ret (writeError 400 ''BAD_REQUEST'' (name @ '' must be a positive integer'')) else k v)"

text \<open>
  \<^verbatim>\<open>decodeJSON\<close>: the first value of the first \<open>mx\<close> bytes, decoded without unknown fields, and
  nothing but white space behind it. A \<^verbatim>\<open>null\<close> at the very end of a body that was cut is not
  recognised, since the decoder asks for one byte more.
\<close>

definition decode_strict :: "'r fields \<Rightarrow> 'r \<Rightarrow> string \<Rightarrow> 'r option" where
  "decode_strict fs zero s =
     (case json_parse s of
        None \<Rightarrow> None
      | Some JNull \<Rightarrow> Some zero
      | Some _ \<Rightarrow> (case object_members s of
           None \<Rightarrow> None
         | Some ms \<Rightarrow> if list_all (\<lambda>(k, _). field_for fs k \<noteq> None) ms then decode_members fs ms zero else None))"

definition decodeJSON :: "nat \<Rightarrow> 'r fields \<Rightarrow> 'r \<Rightarrow> string \<Rightarrow> string + 'r" where
  "decodeJSON mx fs zero body =
     (let buf = take mx body in
      case parse_value (2 * length buf + 2) buf of
        None \<Rightarrow> Inl ''invalid json body''
      | Some (v, rest) \<Rightarrow>
          if v = JNull \<and> rest = [] \<and> mx < length body then Inl ''invalid json body''
          else (case decode_strict fs zero (consumed buf rest) of
                  None \<Rightarrow> Inl ''invalid json body''
                | Some r \<Rightarrow> if skip_ws rest = [] \<and> length body \<le> mx then Inr r
                            else Inl ''json body must contain exactly one object''))"

section \<open>Middlewares\<close>

definition requireAuth :: "TokenManager \<Rightarrow> (http_call \<Rightarrow> int \<Rightarrow> ('d, http_reply) prog) \<Rightarrow> 'd handler" where
  "requireAuth m nxt rq =
     (let h = TrimSpace (value_of (hc_headers rq) ''Authorization'') in
      if \<not> HasPrefix h ''Bearer '' then ret (writeError 401 ''UNAUTHORIZED'' ''missing bearer token'')
      else handle (Verify m (TrimSpace (TrimPrefix h ''Bearer '')))
        (\<lambda>err. ret (writeError 401 ''UNAUTHORIZED'' (error_text err)))
        (\<lambda>claims. nxt rq (cl_user claims)))"

definition recoverer :: "'d handler \<Rightarrow> 'd handler" where
  "recoverer nxt rq = handle (nxt rq) (\<lambda>_. ret (writeError 500 ''INTERNAL_ERROR'' ''internal server error'')) ret"

text \<open>A request without an identifier gets one; the reply carries it.\<close>

definition requestID :: "'d handler \<Rightarrow> 'd handler" where
  "requestID nxt rq =
     bind (let i = value_of (hc_headers rq) ''X-Request-ID'' in if i = [] then idgen_New else ret i) (\<lambda>i.
     bind (nxt (rq\<lparr>hc_headers := (''X-Request-ID'', i) # filter (\<lambda>(k, _). k \<noteq> ''X-Request-ID'') (hc_headers rq)\<rparr>)) (\<lambda>reply.
     ret (reply\<lparr>hr_headers := (''X-Request-ID'', i) # hr_headers reply\<rparr>)))"

text \<open>A nil dereference: a panic.\<close>

definition nil_dereference :: go_err where
  "nil_dereference = Plain ''runtime error: invalid memory address or nil pointer dereference''"

definition need :: "'s option \<Rightarrow> ('s \<Rightarrow> ('d, 'a) prog) \<Rightarrow> ('d, 'a) prog" where
  "need x k = (case x of None \<Rightarrow> fail nil_dereference | Some v \<Rightarrow> k v)"

section \<open>Who is asking\<close>

text \<open>The user an access token in the request stands for, at the time of the process's clock.\<close>

definition bearer :: "TokenManager \<Rightarrow> http_call \<Rightarrow> int \<Rightarrow> int option" where
  "bearer m rq t =
     (let h = TrimSpace (value_of (hc_headers rq) ''Authorization'') in
      if \<not> HasPrefix h ''Bearer '' then None
      else case token_claims m (TrimSpace (TrimPrefix h ''Bearer '')) of
        Inl _ \<Rightarrow> None | Inr (u, exp) \<Rightarrow> if exp > t then Some u else None)"

text \<open>An authenticated handler runs for the bearer's user, or the request ends in a 401.\<close>

lemma requireAuth_cases:
  assumes "requireAuth m nxt rq (d, w) = (r, s')"
  shows "(\<exists>u. bearer m rq (go_now w) = Some u \<and> nxt rq u (d, w) = (r, s'))
    \<or> (bearer m rq (go_now w) = None \<and> s' = (d, w) \<and> (\<exists>reply. r = Inr reply \<and> hr_code reply = 401))"
  using assms
  by (auto simp: requireAuth_def bearer_def Verify_def Let_def handle_eq bind_def now_def ret_def fail_def
      split: if_splits sum.splits prod.splits)

lemma mux_cases:
  assumes "mux rs rq s = (r, s')"
  obtains (routed) h vs where "find_route rs rq = Some (h, vs)" and "h (rq\<lparr>hc_values := vs\<rparr>) s = (r, s')"
  | (unrouted) reply where "find_route rs rq = None" and "s' = s" and "r = Inr reply" and "hr_code reply \<in> {404, 405}"
  using assms by (cases "find_route rs rq") (auto simp: mux_def text_reply_def)

lemma find_route_in: "find_route rs rq = Some (h, vs) \<Longrightarrow>
    \<exists>m p. (m, p, h) \<in> set rs \<and> method_ok m (hc_method rq) \<and> match_path p (path_segments (hc_path rq)) = Some vs"
  by (induction rs rq rule: find_route.induct) (auto split: option.splits if_splits)

lemma bearer_headers [simp]:
  "bearer m (rq\<lparr>hc_values := vs\<rparr>) t = bearer m rq t"
  by (simp add: bearer_def)

lemma value_of_request_id:
  "k \<noteq> ''X-Request-ID'' \<Longrightarrow>
     value_of ((''X-Request-ID'', i) # filter (\<lambda>(k, _). k \<noteq> ''X-Request-ID'') hs) k = value_of hs k"
  by (induction hs) (auto simp: value_of_def)

lemma bearer_request_id [simp]:
  "bearer m (rq\<lparr>hc_headers := (''X-Request-ID'', i) # filter (\<lambda>(k, _). k \<noteq> ''X-Request-ID'') (hc_headers rq)\<rparr>) t = bearer m rq t"
  by (simp add: bearer_def value_of_request_id)

lemma find_route_request_id [simp]:
  "find_route rs (rq\<lparr>hc_headers := hs\<rparr>) = find_route rs rq"
  by (induction rs rq rule: find_route.induct) (auto split: option.splits)

end
