(* ===== verification/Commerce_Api.thy ===== *)
theory Commerce_Api
  imports Http Gift_Service Stats
begin

text \<open>
  \<^verbatim>\<open>internal/commerceapi/server.go\<close>: the HTTP surface of the wallet and of the gifts, over any
  stores. A slice without elements is nil, and printed as \<^verbatim>\<open>null\<close>. Metrics, spans, logging and
  the deadline of the readiness probe are left out.
\<close>

section \<open>Answers and bodies\<close>

definition balance_json :: "Balance \<Rightarrow> json" where
  "balance_json b = JObj [(''user_id'', JInt (bal_user_id b)), (''balance'', JInt (bal_balance b))]"

definition transaction_json :: "wallet_tx \<Rightarrow> json option" where
  "transaction_json t = object_json
     [(''transaction_no'', Some (JStr (transaction_no t))), (''user_id'', Some (JInt (tx_user t))),
      (''biz_type'', Some (JStr (biz_type t))), (''biz_id'', Some (JStr (biz_id t))), (''amount'', Some (JInt (amount t))),
      (''balance_before'', Some (JInt (balance_before t))), (''balance_after'', Some (JInt (balance_after t))),
      (''created_at'', time_json (tx_created_at t))]"

definition gift_json :: "Gift \<Rightarrow> json option" where
  "gift_json g = Some (JObj [(''gift_id'', JInt (gift_id g)), (''name'', JStr (gift_name g)), (''price'', JInt (gift_price g)),
     (''status'', JInt (gift_status g))])"

definition order_json :: "Order \<Rightarrow> json option" where
  "order_json v = object_json
     ([(''order_no'', Some (JStr (OrderNo v)))]
      @ (if RequestID v = [] then [] else [(''request_id'', Some (JStr (RequestID v)))])
      @ [(''user_id'', Some (JInt (UserID v))), (''anchor_id'', Some (JInt (AnchorID v))),
         (''room_id'', Some (JInt (Order_RoomID v))), (''gift_id'', Some (JInt (GiftID v))),
         (''gift_name'', Some (JStr (GiftName v))), (''gift_count'', Some (JInt (GiftCount v))),
         (''unit_price'', Some (JInt (UnitPrice v))), (''total_amount'', Some (JInt (TotalAmount v))),
         (''status'', Some (JStr (Order_Status v))), (''created_at'', time_json (Order_CreatedAt v))])"

definition send_json :: "SendResult \<Rightarrow> json option" where
  "send_json r = object_json
     [(''order'', order_json (sr_order r)), (''idempotent_replay'', Some (JBool (IdempotentReplay r))),
      (''event_queued'', Some (JBool (EventQueued r)))]"

definition slice_json :: "('a \<Rightarrow> json option) \<Rightarrow> 'a list \<Rightarrow> json option" where
  "slice_json f xs = object_json [(''items'', if xs = [] then Some JNull else array_json (map f xs))]"

definition credit_fields :: "int fields" where
  "credit_fields = [(''amount'', value_field as_int64 (\<lambda>x _. x))]"

definition gift_fields :: "(int \<times> int) fields" where
  "gift_fields = [(''gift_id'', value_field as_int64 (\<lambda>x r. (x, snd r))), (''count'', value_field as_int64 (\<lambda>x r. (fst r, x)))]"

section \<open>The server\<close>

record 'd CommerceServer =
  cm_tokens :: TokenManager
  cm_unicode :: unicode
  cm_gifts :: "'d GiftService"
  cm_balance :: "int \<Rightarrow> ('d, Balance) prog"
  cm_transactions :: "int \<Rightarrow> ('d, wallet_tx list) prog"
  cm_credit :: "int \<Rightarrow> int \<Rightarrow> ('d, Balance) prog"
  cm_viewers :: "'d ViewerService option"
  cm_mysql :: "('d, unit) prog option"
  cm_redis :: "('d, unit) prog option"

definition commerce_health :: "'d handler" where
  "commerce_health rq = ret (writeJSON 200 (Some (JObj [(''service'', JStr ''live-commerce''), (''status'', JStr ''ok'')])))"

definition probe :: "string \<Rightarrow> ('d, unit) prog option \<Rightarrow> ('d, json list) prog" where
  "probe name ping = (case ping of None \<Rightarrow> ret [] | Some p \<Rightarrow> handle p (\<lambda>_. ret [JStr name]) (\<lambda>_. ret []))"

definition commerce_ready :: "'d CommerceServer \<Rightarrow> 'd handler" where
  "commerce_ready s rq =
     bind (probe ''mysql'' (cm_mysql s)) (\<lambda>f1.
     bind (probe ''redis'' (cm_redis s)) (\<lambda>f2.
     ret (if f1 @ f2 \<noteq> []
       then writeJSON 503 (Some (JObj [(''failed'', JArr (f1 @ f2)), (''status'', JStr ''not_ready'')]))
       else writeJSON 200 (Some (JObj [(''service'', JStr ''live-commerce''), (''status'', JStr ''ready'')])))))"

definition listGifts :: "'d CommerceServer \<Rightarrow> 'd handler" where
  "listGifts s rq = handle (Gift_List (cm_gifts s))
     (\<lambda>_. ret (writeError 500 ''INTERNAL_ERROR'' ''failed to list gifts''))
     (\<lambda>items. ret (writeJSON 200 (slice_json gift_json items)))"

definition walletBalance :: "'d CommerceServer \<Rightarrow> http_call \<Rightarrow> int \<Rightarrow> ('d, http_reply) prog" where
  "walletBalance s rq userID = handle (cm_balance s userID)
     (\<lambda>_. ret (writeError 500 ''INTERNAL_ERROR'' ''failed to load wallet''))
     (\<lambda>v. ret (writeJSON 200 (Some (balance_json v))))"

definition walletTransactions :: "'d CommerceServer \<Rightarrow> http_call \<Rightarrow> int \<Rightarrow> ('d, http_reply) prog" where
  "walletTransactions s rq userID = handle (cm_transactions s userID)
     (\<lambda>_. ret (writeError 500 ''INTERNAL_ERROR'' ''failed to load wallet transactions''))
     (\<lambda>items. ret (writeJSON 200 (slice_json transaction_json items)))"

definition devWalletCredit :: "'d CommerceServer \<Rightarrow> http_call \<Rightarrow> int \<Rightarrow> ('d, http_reply) prog" where
  "devWalletCredit s rq userID =
     (case decodeJSON 8192 credit_fields 0 (hc_body rq) of
        Inl err \<Rightarrow> ret (writeError 400 ''BAD_REQUEST'' err)
      | Inr amt \<Rightarrow> handle (cm_credit s userID amt)
          (\<lambda>err. ret (if errors_is err Wallet_ErrCreditDisabled then writeError 404 ''NOT_FOUND'' ''endpoint is disabled''
                  else if errors_is err Wallet_ErrInvalidCredit then writeError 400 ''INVALID_CREDIT_AMOUNT'' (error_text err)
                  else writeError 500 ''INTERNAL_ERROR'' ''failed to credit wallet''))
          (\<lambda>v. ret (writeJSON 200 (Some (balance_json v)))))"

definition handleGiftError :: "go_err \<Rightarrow> http_reply" where
  "handleGiftError err =
     (if errors_is err Gift_ErrInvalidCount then writeError 400 ''INVALID_GIFT_COUNT'' (error_text err)
      else if errors_is err Gift_ErrInvalidRequestID then writeError 400 ''INVALID_IDEMPOTENCY_KEY'' (error_text err)
      else if errors_is err Gift_ErrGiftNotFound then writeError 404 ''GIFT_NOT_FOUND'' (error_text err)
      else if errors_is err Gift_ErrGiftOffline then writeError 409 ''GIFT_OFFLINE'' (error_text err)
      else if errors_is err Gift_ErrInsufficientBalance then writeError 409 ''INSUFFICIENT_BALANCE'' (error_text err)
      else if errors_is err Gift_ErrIdempotencyConflict then writeError 409 ''IDEMPOTENCY_CONFLICT'' (error_text err)
      else if errors_is err Gift_ErrRateLimited then writeError 429 ''GIFT_RATE_LIMITED'' (error_text err)
      else if errors_is err Room_ErrNotFound then writeError 404 ''ROOM_NOT_FOUND'' (error_text err)
      else if errors_is err Room_ErrNotLiving then writeError 409 ''ROOM_NOT_LIVING'' (error_text err)
      else if errors_is err Room_ErrBanned then writeError 403 ''ROOM_BANNED'' (error_text err)
      else writeError 500 ''GIFT_FAILED'' ''failed to send gift'')"

definition positivePathInt :: "http_call \<Rightarrow> string \<Rightarrow> int option" where
  "positivePathInt rq name =
     (case ParseInt (value_of (hc_values rq) name) of None \<Rightarrow> None | Some v \<Rightarrow> if v \<le> 0 then None else Some v)"

definition sendGift :: "'d CommerceServer \<Rightarrow> http_call \<Rightarrow> int \<Rightarrow> ('d, http_reply) prog" where
  "sendGift s rq userID =
     (case positivePathInt rq ''room_id'' of
        None \<Rightarrow> ret (writeError 400 ''BAD_REQUEST'' ''room_id must be a positive integer'')
      | Some roomID \<Rightarrow>
        let requestID = TrimSpace (value_of (hc_headers rq) ''Idempotency-Key'') in
        if requestID = [] then ret (writeError 400 ''IDEMPOTENCY_KEY_REQUIRED'' ''Idempotency-Key header is required'')
        else (case decodeJSON 8192 gift_fields (0, 0) (hc_body rq) of
            Inl _ \<Rightarrow> ret (writeError 400 ''BAD_REQUEST'' ''valid gift_id and count are required'')
          | Inr (giftID, count) \<Rightarrow>
              if giftID \<le> 0 then ret (writeError 400 ''BAD_REQUEST'' ''valid gift_id and count are required'')
              else handle (Gift_Send (cm_unicode s) (cm_gifts s) roomID userID giftID count requestID)
                (\<lambda>err. ret (handleGiftError err))
                (\<lambda>result.
                  bind (case cm_viewers s of
                      Some v \<Rightarrow> if EventQueued result
                        then ignore (Viewer_AddGiftValue v roomID userID (TotalAmount (sr_order result))) else ret ()
                    | None \<Rightarrow> ret ()) (\<lambda>_.
                  ret (writeJSON 200 (send_json result))))))"

definition giftOrder :: "'d CommerceServer \<Rightarrow> http_call \<Rightarrow> int \<Rightarrow> ('d, http_reply) prog" where
  "giftOrder s rq userID =
     (let orderNo = TrimSpace (value_of (hc_values rq) ''order_no'') in
      if length orderNo < 2 \<or> length orderNo > 64 then ret (writeError 400 ''BAD_REQUEST'' ''invalid order_no'')
      else handle (Gift_Order (cm_gifts s) orderNo userID)
        (\<lambda>err. ret (if errors_is err Gift_ErrOrderNotFound then writeError 404 ''GIFT_ORDER_NOT_FOUND'' (error_text err)
                else if errors_is err Gift_ErrOrderForbidden then writeError 403 ''FORBIDDEN'' (error_text err)
                else writeError 500 ''INTERNAL_ERROR'' ''failed to load gift order''))
        (\<lambda>v. ret (writeJSON 200 (order_json v))))"

definition commerce_routes :: "'d CommerceServer \<Rightarrow> 'd route list" where
  "commerce_routes s =
     (let auth = requireAuth (cm_tokens s) in
      [route ''GET'' ''/health'' commerce_health,
       route ''GET'' ''/ready'' (commerce_ready s),
       route ''GET'' ''/api/v1/gifts'' (listGifts s),
       route ''GET'' ''/api/v1/wallet'' (auth (walletBalance s)),
       route ''GET'' ''/api/v1/wallet/transactions'' (auth (walletTransactions s)),
       route ''POST'' ''/api/v1/wallet/dev-credit'' (auth (devWalletCredit s)),
       route ''POST'' ''/api/v1/rooms/{room_id}/gifts'' (auth (sendGift s)),
       route ''GET'' ''/api/v1/gift-orders/{order_no}'' (auth (giftOrder s))])"

text \<open>\<^verbatim>\<open>New(d).Handler()\<close>.\<close>

definition Commerce_New :: "'d CommerceServer \<Rightarrow> 'd handler" where
  "Commerce_New s = recoverer (mux (commerce_routes s))"

lemma commerce_patterns:
  "pattern ''/health'' = [Lit ''health'']"
  "pattern ''/ready'' = [Lit ''ready'']"
  "pattern ''/api/v1/gifts'' = [Lit ''api'', Lit ''v1'', Lit ''gifts'']"
  "pattern ''/api/v1/wallet'' = [Lit ''api'', Lit ''v1'', Lit ''wallet'']"
  "pattern ''/api/v1/wallet/transactions'' = [Lit ''api'', Lit ''v1'', Lit ''wallet'', Lit ''transactions'']"
  "pattern ''/api/v1/wallet/dev-credit'' = [Lit ''api'', Lit ''v1'', Lit ''wallet'', Lit ''dev-credit'']"
  "pattern ''/api/v1/rooms/{room_id}/gifts'' = [Lit ''api'', Lit ''v1'', Lit ''rooms'', Wild ''room_id'', Lit ''gifts'']"
  "pattern ''/api/v1/gift-orders/{order_no}'' = [Lit ''api'', Lit ''v1'', Lit ''gift-orders'', Wild ''order_no'']"
  by code_simp+

end
