(* ===== verification/Http_Views.thy ===== *)
theory Http_Views
  imports Http Room_Repo Auth Stats Like Danmaku
begin

text \<open>
  The JSON forms of the values the handlers answer with, and the bodies they read: the struct
  tags of \<^verbatim>\<open>internal/room/model.go\<close>, \<^verbatim>\<open>internal/auth\<close>, \<^verbatim>\<open>internal/like\<close>,
  \<^verbatim>\<open>internal/viewer\<close> and of the request types in \<^verbatim>\<open>internal/httpapi/server.go\<close>. A password
  hash and an account's status have none.
\<close>

section \<open>Answers\<close>

definition omit_empty :: "string \<Rightarrow> string \<Rightarrow> (string \<times> json option) list" where
  "omit_empty k s = (if s = [] then [] else [(k, Some (JStr s))])"

definition omit_nil_time :: "string \<Rightarrow> int option \<Rightarrow> (string \<times> json option) list" where
  "omit_nil_time k t = (case t of None \<Rightarrow> [] | Some x \<Rightarrow> [(k, time_json x)])"

definition room_members :: "Room \<Rightarrow> (string \<times> json option) list" where
  "room_members v = [(''room_id'', Some (JInt (rm_id v))), (''anchor_id'', Some (JInt (rm_anchor_id v)))]
     @ omit_empty ''anchor_nickname'' (rm_anchor_nickname v)
     @ [(''title'', Some (JStr (rm_title v))), (''status'', Some (JStr (rm_status v)))]
     @ omit_nil_time ''started_at'' (rm_started_at v) @ omit_nil_time ''ended_at'' (rm_ended_at v)
     @ [(''created_at'', time_json (rm_created_at v))]"

definition room_json :: "Room \<Rightarrow> json option" where
  "room_json v = object_json (room_members v)"

definition access_room_json :: "RoomAccess \<Rightarrow> json option" where
  "access_room_json a = object_json
     [(''room'', room_json (ra_room a)), (''banned'', Some (JBool (ra_banned a))), (''muted'', Some (JBool (ra_muted a)))]"

definition mute_json :: "Mute \<Rightarrow> json option" where
  "mute_json m = object_json
     ([(''user_id'', Some (JInt (mu_user_id m))), (''nickname'', Some (JStr (mu_nickname m)))]
      @ omit_nil_time ''muted_until'' (mu_muted_until m)
      @ [(''reason'', Some (JStr (mu_reason m))), (''updated_at'', time_json (mu_updated_at m))])"

definition ban_json :: "Ban \<Rightarrow> json option" where
  "ban_json b = object_json
     [(''user_id'', Some (JInt (ba_user_id b))), (''nickname'', Some (JStr (ba_nickname b))),
      (''reason'', Some (JStr (ba_reason b))), (''created_at'', time_json (ba_created_at b))]"

definition user_json :: "User \<Rightarrow> json option" where
  "user_json u = object_json
     [(''id'', Some (JInt (u_id u))), (''username'', Some (JStr (u_username u))), (''nickname'', Some (JStr (u_nickname u))),
      (''avatar'', Some (JStr (u_avatar u))), (''created_at'', time_json (u_created_at u))]"

definition auth_json :: "AuthResult \<Rightarrow> json option" where
  "auth_json a = object_json
     [(''user'', user_json (ar_user a)), (''access_token'', Some (JStr (ar_token a))), (''expire_at'', Some (JInt (ar_expires a)))]"

definition like_json :: "LikeResult \<Rightarrow> json" where
  "like_json r = JObj [(''accepted'', JInt (lr_accepted r)), (''total'', JInt (lr_total r))]"

definition viewer_json :: "ViewerResult \<Rightarrow> json" where
  "viewer_json r = JObj [(''viewer_count'', JInt (vr_count r)), (''expires_in_seconds'', JInt (vr_expires_in r))]"

text \<open>A room in a list, with its counts.\<close>

definition room_item_json :: "Room \<times> int \<times> int \<Rightarrow> json option" where
  "room_item_json = (\<lambda>(v, viewers, likes). object_json
     (room_members v @ [(''viewer_count'', Some (JInt viewers)), (''like_count'', Some (JInt likes))]))"

record historyMessage =
  hm_type :: string
  hm_message_id :: string
  hm_room_id :: int
  hm_user_id :: int
  hm_nickname :: string
  hm_content :: string
  hm_gift_name :: string
  hm_count :: int
  hm_created_at :: int

definition history_json :: "historyMessage \<Rightarrow> json option" where
  "history_json m = object_json
     ([(''type'', Some (JStr (hm_type m))), (''message_id'', Some (JStr (hm_message_id m))),
       (''room_id'', Some (JInt (hm_room_id m))), (''user_id'', Some (JInt (hm_user_id m))),
       (''nickname'', Some (JStr (hm_nickname m))), (''content'', Some (JStr (hm_content m)))]
      @ omit_empty ''gift_name'' (hm_gift_name m)
      @ (if hm_count m = 0 then [] else [(''count'', Some (JInt (hm_count m)))])
      @ [(''created_at'', time_json (hm_created_at m))])"

definition items_json :: "('a \<Rightarrow> json option) \<Rightarrow> 'a list \<Rightarrow> json option" where
  "items_json f xs = object_json [(''items'', array_json (map f xs))]"

section \<open>Bodies\<close>

record registerRequest =
  rr_username :: string
  rr_nickname :: string
  rr_password :: string

definition registerRequest_fields :: "registerRequest fields" where
  "registerRequest_fields =
    [(''username'', value_field as_string (\<lambda>x. rr_username_update (\<lambda>_. x))),
     (''nickname'', value_field as_string (\<lambda>x. rr_nickname_update (\<lambda>_. x))),
     (''password'', value_field as_string (\<lambda>x. rr_password_update (\<lambda>_. x)))]"

definition loginRequest_fields :: "registerRequest fields" where
  "loginRequest_fields =
    [(''username'', value_field as_string (\<lambda>x. rr_username_update (\<lambda>_. x))),
     (''password'', value_field as_string (\<lambda>x. rr_password_update (\<lambda>_. x)))]"

definition no_register :: registerRequest where
  "no_register = \<lparr>rr_username = [], rr_nickname = [], rr_password = []\<rparr>"

text \<open>Structs of one field: the title of a room, the text of a message, a number of likes.\<close>

definition createRoomRequest_fields :: "string fields" where
  "createRoomRequest_fields = [(''title'', value_field as_string (\<lambda>x _. x))]"

definition danmakuRequest_fields :: "string fields" where
  "danmakuRequest_fields = [(''content'', value_field as_string (\<lambda>x _. x))]"

definition likeRequest_fields :: "int fields" where
  "likeRequest_fields = [(''count'', value_field as_int64 (\<lambda>x _. x))]"

record muteRequest =
  mq_user_id :: int
  mq_duration :: int
  mq_reason :: string

definition muteRequest_fields :: "muteRequest fields" where
  "muteRequest_fields =
    [(''user_id'', value_field as_int64 (\<lambda>x. mq_user_id_update (\<lambda>_. x))),
     (''duration_seconds'', value_field as_int64 (\<lambda>x. mq_duration_update (\<lambda>_. x))),
     (''reason'', value_field as_string (\<lambda>x. mq_reason_update (\<lambda>_. x)))]"

definition banRequest_fields :: "muteRequest fields" where
  "banRequest_fields =
    [(''user_id'', value_field as_int64 (\<lambda>x. mq_user_id_update (\<lambda>_. x))),
     (''reason'', value_field as_string (\<lambda>x. mq_reason_update (\<lambda>_. x)))]"

definition no_target :: muteRequest where
  "no_target = \<lparr>mq_user_id = 0, mq_duration = 0, mq_reason = []\<rparr>"

end
