(* ===== verification/Http_Server.thy ===== *)
theory Http_Server
  imports Http_Views
begin

text \<open>
  \<^verbatim>\<open>internal/httpapi/server.go\<close>: the handlers of the three services and their route tables, over
  any stores. A dependency the code may find missing is an option; spans, metrics, logging and
  the deadline of the readiness probe are left out.
\<close>

section \<open>The server\<close>

record 'd RoomAPI =
  api_create :: "int \<Rightarrow> string \<Rightarrow> ('d, Room) prog"
  api_get :: "int \<Rightarrow> ('d, Room) prog"
  api_list :: "string \<Rightarrow> int \<Rightarrow> ('d, Room list) prog"
  api_start :: "int \<Rightarrow> int \<Rightarrow> ('d, Room) prog"
  api_stop :: "int \<Rightarrow> int \<Rightarrow> ('d, Room) prog"
  api_join :: "int \<Rightarrow> int \<Rightarrow> ('d, Room) prog"
  api_access :: "int \<Rightarrow> int \<Rightarrow> ('d, RoomAccess) prog"
  api_is_muted :: "int \<Rightarrow> int \<Rightarrow> ('d, bool) prog"
  api_is_banned :: "int \<Rightarrow> int \<Rightarrow> ('d, bool) prog"
  api_mute :: "int \<Rightarrow> int \<Rightarrow> int \<Rightarrow> int \<Rightarrow> string \<Rightarrow> ('d, unit) prog"
  api_unmute :: "int \<Rightarrow> int \<Rightarrow> int \<Rightarrow> ('d, unit) prog"
  api_list_mutes :: "int \<Rightarrow> int \<Rightarrow> ('d, Mute list) prog"
  api_ban :: "int \<Rightarrow> int \<Rightarrow> int \<Rightarrow> string \<Rightarrow> ('d, unit) prog"
  api_unban :: "int \<Rightarrow> int \<Rightarrow> int \<Rightarrow> ('d, unit) prog"
  api_list_bans :: "int \<Rightarrow> int \<Rightarrow> ('d, Ban list) prog"

record 'd AuthAPI =
  au_register :: "string \<Rightarrow> string \<Rightarrow> string \<Rightarrow> ('d, AuthResult) prog"
  au_login :: "string \<Rightarrow> string \<Rightarrow> ('d, AuthResult) prog"
  au_user :: "int \<Rightarrow> ('d, User) prog"

record 'd RealtimeController =
  rc_ping :: "('d, unit) prog"
  rc_publish :: "string \<Rightarrow> json \<Rightarrow> ('d, unit) prog"
  rc_unsubscribe :: "string \<Rightarrow> string \<Rightarrow> ('d, unit) prog"

record 'd GovernanceStore =
  gv_remove_viewer :: "int \<Rightarrow> int \<Rightarrow> ('d, int) prog"
  gv_enforce :: "int \<Rightarrow> int \<Rightarrow> bool \<Rightarrow> ('d, unit) prog"

text \<open>
  The dependencies; the server keeps those its constructor passes on. \<open>sv_redis_governance\<close> is the
  Redis client as a governance store, when it is one.
\<close>

record 'd Server =
  sv_mysql :: "('d, unit) prog option"
  sv_history :: "(int \<Rightarrow> int \<Rightarrow> ('d, historyMessage list) prog) option"
  sv_redis :: "('d, unit) prog"
  sv_redis_governance :: "'d GovernanceStore option"
  sv_centrifugo :: "'d RealtimeController option"
  sv_governance :: "'d GovernanceStore option"
  sv_auth :: "'d AuthAPI"
  sv_profiles :: "int \<Rightarrow> ('d, User) prog"
  sv_app_tokens :: TokenManager
  sv_cf_tokens :: "Issuer option"
  sv_cf_ttl :: int
  sv_rooms :: "'d RoomAPI option"
  sv_danmaku :: "string \<Rightarrow> int \<Rightarrow> int \<Rightarrow> ('d, danmaku_event) prog"
  sv_likes :: "'d LikeService"
  sv_viewers :: "'d ViewerService"
  sv_stats :: "'d StatsStore option"
  sv_unicode :: unicode

text \<open>The zero \<^verbatim>\<open>Deps\<close>: calling a service that is nil panics.\<close>

definition nil_call :: "('d, 'a) prog" where
  "nil_call = fail nil_dereference"

definition no_deps :: "unicode \<Rightarrow> 'd Server" where
  "no_deps U = \<lparr>sv_mysql = None, sv_history = None, sv_redis = nil_call, sv_redis_governance = None, sv_centrifugo = None,
     sv_governance = None, sv_auth = \<lparr>au_register = (\<lambda>_ _ _. nil_call), au_login = (\<lambda>_ _. nil_call), au_user = (\<lambda>_. nil_call)\<rparr>,
     sv_profiles = (\<lambda>_. nil_call), sv_app_tokens = \<lparr>tm_secret = [], tm_ttl = 0\<rparr>, sv_cf_tokens = None, sv_cf_ttl = 0,
     sv_rooms = None, sv_danmaku = (\<lambda>_ _ _. nil_call),
     sv_likes = \<lparr>ls_room = (\<lambda>_. nil_call), ls_banned = (\<lambda>_ _. nil_call), ls_store = (\<lambda>_ _. nil_call), ls_limiter = None,
       ls_cache = None, ls_config = \<lparr>lcfg_rate = 0, lcfg_window = 0, lcfg_room_ttl = 0, lcfg_ban_ttl = 0\<rparr>\<rparr>,
     sv_viewers = \<lparr>vw_store = \<lparr>vs_touch = (\<lambda>_ _ _. nil_call), vs_top = (\<lambda>_ _. nil_call), vs_add_gift = (\<lambda>_ _ _. nil_call),
       vs_online = (\<lambda>_ _. nil_call), vs_remove = (\<lambda>_ _. nil_call)\<rparr>, vw_ttl = 0\<rparr>,
     sv_stats = None, sv_unicode = U\<rparr>"

definition handleRoomError :: "go_err \<Rightarrow> http_reply" where
  "handleRoomError err =
     (if errors_is err Room_ErrNotFound then writeError 404 ''ROOM_NOT_FOUND'' (error_text err)
      else if errors_is err Room_ErrNotLiving then writeError 409 ''ROOM_NOT_LIVING'' (error_text err)
      else if errors_is err Room_ErrBanned then writeError 403 ''ROOM_BANNED'' (error_text err)
      else if errors_is err Room_ErrForbidden then writeError 403 ''FORBIDDEN'' (error_text err)
      else if errors_is err Room_ErrUserNotFound then writeError 404 ''USER_NOT_FOUND'' (error_text err)
      else if errors_is err Room_ErrInvalidInput then writeError 400 ''INVALID_ROOM_INPUT'' (error_text err)
      else if errors_is err Room_ErrSelfModeration then writeError 400 ''SELF_MODERATION_NOT_ALLOWED'' (error_text err)
      else if errors_is err Room_ErrInvalidState then writeError 409 ''INVALID_ROOM_STATE'' (error_text err)
      else writeError 500 ''INTERNAL_ERROR'' ''room operation failed'')"

text \<open>The most common ending: the error of a room operation, or its value.\<close>

definition answer_room :: "('d, 'a) prog \<Rightarrow> ('a \<Rightarrow> ('d, http_reply) prog) \<Rightarrow> ('d, http_reply) prog" where
  "answer_room m k = handle m (\<lambda>err. ret (handleRoomError err)) k"

definition maxInt64 :: "int \<Rightarrow> int \<Rightarrow> int" where
  "maxInt64 a b = (if a > b then a else b)"

section \<open>Health\<close>

definition health_page :: "'d handler" where
  "health_page rq = ret (writeJSON 200 (Some (JObj [(''milestone'', JStr ''M8''), (''status'', JStr ''ok'')])))"

definition failing :: "string \<Rightarrow> ('d, unit) prog \<Rightarrow> ('d, string list) prog" where
  "failing name m = handle m (\<lambda>_. ret [name]) (\<lambda>_. ret [])"

text \<open>A nil slice is printed as \<^verbatim>\<open>null\<close>.\<close>

definition names_json :: "string list \<Rightarrow> json" where
  "names_json xs = (if xs = [] then JNull else JArr (map JStr xs))"

definition ready :: "'d Server \<Rightarrow> 'd handler" where
  "ready s rq =
     need (sv_mysql s) (\<lambda>mysql. bind (failing ''mysql'' mysql) (\<lambda>f1.
     bind (failing ''redis'' (sv_redis s)) (\<lambda>f2.
     if f1 @ f2 \<noteq> []
     then ret (writeJSON 503 (Some (JObj [(''failed'', names_json (f1 @ f2)), (''status'', JStr ''not_ready'')])))
     else bind (case sv_centrifugo s of None \<Rightarrow> ret [] | Some c \<Rightarrow> failing ''centrifugo'' (rc_ping c)) (\<lambda>degraded.
       ret (writeJSON 200 (Some (JObj [(''degraded'', names_json degraded), (''status'', JStr ''ready'')])))))))"

section \<open>Accounts\<close>

definition register :: "'d Server \<Rightarrow> 'd handler" where
  "register s rq =
     (case decodeJSON 32768 registerRequest_fields no_register (hc_body rq) of
        Inl err \<Rightarrow> ret (writeError 400 ''BAD_REQUEST'' err)
      | Inr inp \<Rightarrow> handle (au_register (sv_auth s) (rr_username inp) (rr_nickname inp) (rr_password inp))
          (\<lambda>err. ret (if errors_is err Auth_ErrUsernameTaken then writeError 409 ''USERNAME_TAKEN'' (error_text err)
                  else if errors_is err Auth_ErrInvalidInput then writeError 400 ''INVALID_AUTH_INPUT'' (error_text err)
                  else writeError 500 ''INTERNAL_ERROR'' ''register failed''))
          (\<lambda>out. ret (writeJSON 201 (auth_json out))))"

definition login :: "'d Server \<Rightarrow> 'd handler" where
  "login s rq =
     (case decodeJSON 16384 loginRequest_fields no_register (hc_body rq) of
        Inl err \<Rightarrow> ret (writeError 400 ''BAD_REQUEST'' err)
      | Inr inp \<Rightarrow> handle (au_login (sv_auth s) (rr_username inp) (rr_password inp))
          (\<lambda>err. ret (if errors_is err Auth_ErrInvalidCredentials then writeError 401 ''INVALID_CREDENTIALS'' (error_text err)
                  else if errors_is err Auth_ErrUserDisabled then writeError 403 ''USER_DISABLED'' (error_text err)
                  else writeError 500 ''INTERNAL_ERROR'' ''login failed''))
          (\<lambda>out. ret (writeJSON 200 (auth_json out))))"

definition user_page :: "'d Server \<Rightarrow> int \<Rightarrow> ('d, http_reply) prog" where
  "user_page s userID = handle (au_user (sv_auth s) userID)
     (\<lambda>_. ret (writeError 404 ''USER_NOT_FOUND'' ''user not found''))
     (\<lambda>u. ret (writeJSON 200 (user_json u)))"

definition me :: "'d Server \<Rightarrow> http_call \<Rightarrow> int \<Rightarrow> ('d, http_reply) prog" where
  "me s rq userID = user_page s userID"

definition realtimeToken :: "'d Server \<Rightarrow> http_call \<Rightarrow> int \<Rightarrow> ('d, http_reply) prog" where
  "realtimeToken s rq userID =
     need (sv_cf_tokens s) (\<lambda>issuer. handle (ConnectionToken issuer (FormatInt userID))
       (\<lambda>_. ret (writeError 500 ''INTERNAL_ERROR'' ''failed to issue realtime token''))
       (\<lambda>(jwt, exp). ret (writeJSON 200 (Some (JObj [(''expire_at'', JInt (unix_sec exp)), (''token'', JStr jwt)])))))"

section \<open>Rooms\<close>

text \<open>The query's limit, between 1 and 100.\<close>

definition limit_of :: "int \<Rightarrow> http_call \<Rightarrow> int option" where
  "limit_of dflt rq =
     (let raw = TrimSpace (value_of (hc_query rq) ''limit'') in
      if raw = [] then Some dflt
      else case ParseInt raw of None \<Rightarrow> None | Some v \<Rightarrow> if v < 1 \<or> v > 100 then None else Some v)"

definition bad_limit :: http_reply where
  "bad_limit = writeError 400 ''INVALID_LIMIT'' ''limit must be between 1 and 100''"

definition list_item :: "'d Server \<Rightarrow> Room \<Rightarrow> ('d, Room \<times> int \<times> int) prog" where
  "list_item s v =
     (case sv_stats s of None \<Rightarrow> ret (v, 0, 0)
      | Some st \<Rightarrow> handle (Stats_Get st (rm_id v)) (\<lambda>_. ret (v, 0, 0)) (\<lambda>snap. ret (v, st_viewers snap, st_likes snap)))"

definition listRooms :: "'d Server \<Rightarrow> 'd handler" where
  "listRooms s rq =
     (let status0 = ToUpper (sv_unicode s) (TrimSpace (value_of (hc_query rq) ''status''));
          status = (if status0 = [] then StatusLiving else status0)
      in case limit_of 24 rq of None \<Rightarrow> ret bad_limit
         | Some limit \<Rightarrow> need (sv_rooms s) (\<lambda>rooms. handle (api_list rooms status limit)
             (\<lambda>err. ret (if errors_is err Room_ErrInvalidInput then writeError 400 ''INVALID_ROOM_FILTER'' (error_text err)
                     else writeError 500 ''INTERNAL_ERROR'' ''failed to list rooms''))
             (\<lambda>items. bind (map_prog (list_item s) items) (\<lambda>out. ret (writeJSON 200 (items_json room_item_json out))))))"

definition createRoom :: "'d Server \<Rightarrow> http_call \<Rightarrow> int \<Rightarrow> ('d, http_reply) prog" where
  "createRoom s rq userID =
     (case decodeJSON 16384 createRoomRequest_fields [] (hc_body rq) of
        Inl err \<Rightarrow> ret (writeError 400 ''BAD_REQUEST'' err)
      | Inr title \<Rightarrow> need (sv_rooms s) (\<lambda>rooms. handle (api_create rooms userID title)
          (\<lambda>err. ret (if errors_is err Room_ErrInvalidInput then writeError 400 ''INVALID_ROOM_INPUT'' (error_text err)
                  else writeError 500 ''INTERNAL_ERROR'' ''create room failed''))
          (\<lambda>v. ret (writeJSON 201 (room_json v)))))"

definition getRoom :: "'d Server \<Rightarrow> 'd handler" where
  "getRoom s rq = pathInt64 rq ''room_id'' (\<lambda>roomID. need (sv_rooms s) (\<lambda>rooms.
     answer_room (api_get rooms roomID) (\<lambda>v. ret (writeJSON 200 (room_json v)))))"

definition startRoom :: "'d Server \<Rightarrow> http_call \<Rightarrow> int \<Rightarrow> ('d, http_reply) prog" where
  "startRoom s rq userID = pathInt64 rq ''room_id'' (\<lambda>roomID. need (sv_rooms s) (\<lambda>rooms.
     answer_room (api_start rooms roomID userID) (\<lambda>v. ret (writeJSON 200 (room_json v)))))"

definition stopRoom :: "'d Server \<Rightarrow> http_call \<Rightarrow> int \<Rightarrow> ('d, http_reply) prog" where
  "stopRoom s rq userID = pathInt64 rq ''room_id'' (\<lambda>roomID. need (sv_rooms s) (\<lambda>rooms.
     answer_room (api_stop rooms roomID userID) (\<lambda>v. ret (writeJSON 200 (room_json v)))))"

text \<open>The subscription tokens of a room's two channels.\<close>

definition subscriptions :: "Issuer \<Rightarrow> int \<Rightarrow> int \<Rightarrow> int \<Rightarrow> ('d, json list) prog" where
  "subscriptions issuer ttl roomID userID =
     map_prog (\<lambda>ch. bind (SubscriptionToken issuer (FormatInt userID) ch ttl)
       (\<lambda>(tok, _). ret (JObj [(''channel'', JStr ch), (''token'', JStr tok)]))) [RoomStream roomID, RoomStats roomID]"

definition joined_json :: "Room \<Rightarrow> json list \<Rightarrow> int \<Rightarrow> Snapshot \<Rightarrow> int \<Rightarrow> json option" where
  "joined_json v subs userID snapshot expires = object_json
     [(''heartbeat_interval_seconds'', Some (JInt (maxInt64 5 (go_quot expires 3)))),
      (''personal_channel'', Some (JStr (Personal userID))), (''room'', room_json v),
      (''stats'', Some (snapshot_json snapshot)), (''subscriptions'', Some (JArr subs))]"

definition joinRoom :: "'d Server \<Rightarrow> http_call \<Rightarrow> int \<Rightarrow> ('d, http_reply) prog" where
  "joinRoom s rq userID = pathInt64 rq ''room_id'' (\<lambda>roomID. need (sv_rooms s) (\<lambda>rooms.
     answer_room (api_join rooms roomID userID) (\<lambda>v.
     handle (Viewer_Touch (sv_viewers s) roomID userID)
       (\<lambda>_. ret (writeError 503 ''STATS_UNAVAILABLE'' ''viewer tracking unavailable''))
       (\<lambda>viewer.
     handle (case sv_stats s of None \<Rightarrow> ret \<lparr>st_viewers = 0, st_likes = 0, st_delta = 0\<rparr> | Some st \<Rightarrow> Stats_Get st roomID)
       (\<lambda>_. ret (writeError 503 ''STATS_UNAVAILABLE'' ''room stats unavailable''))
       (\<lambda>snapshot0. let snapshot = snapshot0\<lparr>st_viewers := vr_count viewer\<rparr> in
     case sv_cf_tokens s of
       None \<Rightarrow> ret (writeError 503 ''REALTIME_UNAVAILABLE'' ''realtime token issuer unavailable'')
     | Some issuer \<Rightarrow> handle (subscriptions issuer (sv_cf_ttl s) roomID userID)
         (\<lambda>_. ret (writeError 500 ''INTERNAL_ERROR'' ''failed to authorize room subscription''))
         (\<lambda>subs. ret (writeJSON 200 (joined_json v subs userID snapshot (vr_expires_in viewer)))))))))"

definition leaveRoom :: "'d Server \<Rightarrow> http_call \<Rightarrow> int \<Rightarrow> ('d, http_reply) prog" where
  "leaveRoom s rq userID = pathInt64 rq ''room_id'' (\<lambda>roomID.
     handle (Viewer_Leave (sv_viewers s) roomID userID)
       (\<lambda>_. ret (writeError 503 ''STATS_UNAVAILABLE'' ''viewer tracking unavailable''))
       (\<lambda>count. ret (writeJSON 200 (Some (JObj [(''viewer_count'', JInt count)])))))"

section \<open>Interaction\<close>

text \<open>The errors of a room on the way of a message or a like.\<close>

definition room_refusal :: "go_err \<Rightarrow> bool" where
  "room_refusal err \<longleftrightarrow> errors_is err Room_ErrNotFound \<or> errors_is err Room_ErrNotLiving \<or> errors_is err Room_ErrBanned"

definition danmaku_refusal :: "go_err \<Rightarrow> http_reply" where
  "danmaku_refusal err =
     (if errors_is err Danmaku_ErrRateLimited then writeError 429 ''RATE_LIMITED'' (error_text err)
      else if errors_is err Danmaku_ErrMuted then writeError 403 ''USER_MUTED'' (error_text err)
      else if errors_is err Danmaku_ErrSensitive then writeError 422 ''SENSITIVE_CONTENT'' (error_text err)
      else if errors_is err Danmaku_ErrInvalidContent then writeError 400 ''INVALID_DANMAKU'' (error_text err)
      else if room_refusal err then handleRoomError err
      else writeError 502 ''DANMAKU_FAILED'' ''failed to send danmaku'')"

definition sendDanmaku :: "'d Server \<Rightarrow> http_call \<Rightarrow> int \<Rightarrow> ('d, http_reply) prog" where
  "sendDanmaku s rq userID = pathInt64 rq ''room_id'' (\<lambda>roomID.
     case decodeJSON 8192 danmakuRequest_fields [] (hc_body rq) of
       Inl err \<Rightarrow> ret (writeError 400 ''BAD_REQUEST'' err)
     | Inr content \<Rightarrow> handle (sv_danmaku s content roomID userID)
         (\<lambda>err. ret (danmaku_refusal err)) (\<lambda>e. ret (writeJSON 200 (danmaku_json e))))"

definition like_refusal :: "go_err \<Rightarrow> http_reply" where
  "like_refusal err =
     (if errors_is err Like_ErrInvalidCount then writeError 400 ''INVALID_LIKE_COUNT'' (error_text err)
      else if errors_is err Like_ErrRateLimited then writeError 429 ''LIKE_RATE_LIMITED'' (error_text err)
      else if room_refusal err then handleRoomError err
      else writeError 503 ''LIKE_UNAVAILABLE'' ''failed to record like'')"

definition likeRoom :: "'d Server \<Rightarrow> http_call \<Rightarrow> int \<Rightarrow> ('d, http_reply) prog" where
  "likeRoom s rq userID = pathInt64 rq ''room_id'' (\<lambda>roomID.
     case decodeJSON 8192 likeRequest_fields 0 (hc_body rq) of
       Inl err \<Rightarrow> ret (writeError 400 ''BAD_REQUEST'' err)
     | Inr count \<Rightarrow> handle (Like_Add (sv_likes s) roomID userID count)
         (\<lambda>err. ret (like_refusal err)) (\<lambda>result. ret (writeJSON 202 (Some (like_json result)))))"

definition heartbeatRoom :: "'d Server \<Rightarrow> http_call \<Rightarrow> int \<Rightarrow> ('d, http_reply) prog" where
  "heartbeatRoom s rq userID = pathInt64 rq ''room_id'' (\<lambda>roomID. need (sv_rooms s) (\<lambda>rooms.
     answer_room (api_get rooms roomID) (\<lambda>v.
     if rm_status v \<noteq> StatusLiving then ret (handleRoomError (Sentinel Room_ErrNotLiving))
     else handle (api_is_banned rooms roomID userID)
       (\<lambda>_. ret (writeError 500 ''INTERNAL_ERROR'' ''failed to check room access''))
       (\<lambda>banned. if banned then ret (handleRoomError (Sentinel Room_ErrBanned))
         else handle (Viewer_Touch (sv_viewers s) roomID userID)
           (\<lambda>_. ret (writeError 503 ''STATS_UNAVAILABLE'' ''viewer tracking unavailable''))
           (\<lambda>result. ret (writeJSON 200 (Some (viewer_json result))))))))"

section \<open>Queries\<close>

definition roomStats :: "'d Server \<Rightarrow> 'd handler" where
  "roomStats s rq = pathInt64 rq ''room_id'' (\<lambda>roomID. need (sv_rooms s) (\<lambda>rooms.
     answer_room (api_get rooms roomID) (\<lambda>_. need (sv_stats s) (\<lambda>st.
       handle (Stats_Get st roomID)
         (\<lambda>_. ret (writeError 503 ''STATS_UNAVAILABLE'' ''room stats unavailable''))
         (\<lambda>v. ret (writeJSON 200 (Some (snapshot_json v))))))))"

text \<open>The profiles of the given users that can be read, in their order.\<close>

definition profile_json :: "User \<Rightarrow> json" where
  "profile_json u = JObj [(''avatar'', JStr (u_avatar u)), (''nickname'', JStr (u_nickname u)), (''user_id'', JInt (u_id u))]"

definition profile_items :: "'d Server \<Rightarrow> int list \<Rightarrow> ('d, json list) prog" where
  "profile_items s ids = bind (map_prog (\<lambda>i. attempt (sv_profiles s i)) ids)
     (\<lambda>rs. ret (List.map_filter (\<lambda>r. case r of Inl _ \<Rightarrow> None | Inr u \<Rightarrow> Some (profile_json u)) rs))"

definition topViewers :: "'d Server \<Rightarrow> 'd handler" where
  "topViewers s rq = pathInt64 rq ''room_id'' (\<lambda>roomID.
     handle (Viewer_Top (sv_viewers s) roomID)
       (\<lambda>_. ret (writeError 503 ''STATS_UNAVAILABLE'' ''viewer ranking unavailable''))
       (\<lambda>ids. bind (profile_items s ids) (\<lambda>items. ret (writeJSON 200 (Some (JObj [(''items'', JArr items)]))))))"

definition roomViewers :: "'d Server \<Rightarrow> 'd handler" where
  "roomViewers s rq = pathInt64 rq ''room_id'' (\<lambda>roomID.
     handle (Viewer_Online (sv_viewers s) roomID)
       (\<lambda>_. ret (writeError 503 ''STATS_UNAVAILABLE'' ''viewer list unavailable''))
       (\<lambda>ids. bind (profile_items s ids) (\<lambda>items. ret (writeJSON 200 (Some (JObj [(''items'', JArr items)]))))))"

text \<open>The loop that swaps the ends of the list, up to its middle.\<close>

function swap_ends :: "nat \<Rightarrow> nat \<Rightarrow> 'a list \<Rightarrow> 'a list" where
  "swap_ends left right items =
     (if left < right then swap_ends (left + 1) (right - 1) (items[left := items ! right, right := items ! left]) else items)"
  by pat_completeness auto
termination by (relation "measure (\<lambda>(l, r, _). r - l)") auto

declare swap_ends.simps [simp del]

definition roomMessages :: "'d Server \<Rightarrow> 'd handler" where
  "roomMessages s rq = pathInt64 rq ''room_id'' (\<lambda>roomID.
     case sv_history s of
       None \<Rightarrow> ret (writeError 503 ''HISTORY_UNAVAILABLE'' ''message history unavailable'')
     | Some query \<Rightarrow> (case limit_of 50 rq of None \<Rightarrow> ret bad_limit
       | Some limit \<Rightarrow> handle (query roomID limit)
           (\<lambda>_. ret (writeError 500 ''INTERNAL_ERROR'' ''failed to load message history''))
           (\<lambda>items. ret (writeJSON 200 (items_json history_json (swap_ends 0 (length items - 1) items))))))"

section \<open>Moderation\<close>

definition notice :: "'d RealtimeController \<Rightarrow> string \<Rightarrow> int \<Rightarrow> int \<Rightarrow> json \<Rightarrow> ('d, unit) prog" where
  "notice c kind roomID userID data =
     bind idgen_New (\<lambda>i. bind (NewPriorityEvent i kind roomID ''P0'' data) (\<lambda>event.
       rc_publish c (Personal userID) (event_json event)))"

definition muteUser :: "'d Server \<Rightarrow> http_call \<Rightarrow> int \<Rightarrow> ('d, http_reply) prog" where
  "muteUser s rq actorID = pathInt64 rq ''room_id'' (\<lambda>roomID.
     case decodeJSON 8192 muteRequest_fields no_target (hc_body rq) of
       Inl _ \<Rightarrow> ret (writeError 400 ''BAD_REQUEST'' ''valid user_id and duration_seconds between 0 and 2592000 are required'')
     | Inr inp \<Rightarrow>
       if mq_user_id inp \<le> 0 \<or> mq_duration inp < 0 \<or> mq_duration inp > 30 * 24 * 60 * 60
       then ret (writeError 400 ''BAD_REQUEST'' ''valid user_id and duration_seconds between 0 and 2592000 are required'')
       else need (sv_rooms s) (\<lambda>rooms.
         answer_room (api_mute rooms roomID actorID (mq_user_id inp) (i64 (mq_duration inp * second)) (mq_reason inp)) (\<lambda>_.
         bind (case sv_centrifugo s of None \<Rightarrow> ret ()
               | Some c \<Rightarrow> ignore (notice c ''room_muted'' roomID (mq_user_id inp) (JObj
                   [(''duration_seconds'', JInt (mq_duration inp)), (''reason'', JStr (TrimSpace (mq_reason inp))),
                    (''user_id'', JInt (mq_user_id inp))]))) (\<lambda>_.
         ret (writeJSON 200 (Some (JObj [(''status'', JStr ''muted''), (''user_id'', JInt (mq_user_id inp))])))))))"

definition listMutes :: "'d Server \<Rightarrow> http_call \<Rightarrow> int \<Rightarrow> ('d, http_reply) prog" where
  "listMutes s rq actorID = pathInt64 rq ''room_id'' (\<lambda>roomID. need (sv_rooms s) (\<lambda>rooms.
     answer_room (api_list_mutes rooms roomID actorID) (\<lambda>items. ret (writeJSON 200 (items_json mute_json items)))))"

definition unmuteUser :: "'d Server \<Rightarrow> http_call \<Rightarrow> int \<Rightarrow> ('d, http_reply) prog" where
  "unmuteUser s rq actorID = pathInt64 rq ''room_id'' (\<lambda>roomID. pathInt64 rq ''user_id'' (\<lambda>targetID. need (sv_rooms s) (\<lambda>rooms.
     answer_room (api_unmute rooms roomID actorID targetID) (\<lambda>_.
       ret (writeJSON 200 (Some (JObj [(''status'', JStr ''unmuted''), (''user_id'', JInt targetID)])))))))"

text \<open>\<^verbatim>\<open>enforceBan\<close>: every step is tried, and the errors are joined.\<close>

definition errors_of :: "string \<Rightarrow> ('d, 'a) prog \<Rightarrow> ('d, go_err list) prog" where
  "errors_of p m = handle m (\<lambda>e. ret [errorf_pre p e]) (\<lambda>_. ret [])"

definition evict :: "'d GovernanceStore option \<Rightarrow> int \<Rightarrow> int \<Rightarrow> ('d, go_err list) prog" where
  "evict g roomID userID =
     (case g of None \<Rightarrow> ret [Plain ''governance store unavailable'']
      | Some g \<Rightarrow> bind (errors_of ''cache ban'' (gv_enforce g roomID userID True)) (\<lambda>e1.
          bind (errors_of ''remove viewer'' (gv_remove_viewer g roomID userID)) (\<lambda>e2. ret (e1 @ e2))))"

definition disconnect :: "'d RealtimeController option \<Rightarrow> int \<Rightarrow> int \<Rightarrow> string \<Rightarrow> ('d, go_err list) prog" where
  "disconnect c roomID userID reason =
     (case c of None \<Rightarrow> ret [Plain ''centrifugo unavailable'']
      | Some c \<Rightarrow> bind (errors_of ''publish ban notice'' (notice c ''room_banned'' roomID userID
            (JObj [(''reason'', JStr reason), (''user_id'', JInt userID)]))) (\<lambda>e3.
          bind (map_prog (\<lambda>channel. errors_of (''unsubscribe '' @ channel) (rc_unsubscribe c (FormatInt userID) channel))
            [RoomStream roomID, RoomStats roomID]) (\<lambda>es. ret (e3 @ concat es))))"

definition enforceBan :: "'d Server \<Rightarrow> int \<Rightarrow> int \<Rightarrow> string \<Rightarrow> ('d, unit) prog" where
  "enforceBan s roomID userID reason =
     bind (evict (sv_governance s) roomID userID) (\<lambda>e1.
     bind (disconnect (sv_centrifugo s) roomID userID reason) (\<lambda>e2.
     if e1 @ e2 = [] then ret () else fail (Joined (e1 @ e2))))"

definition banUser :: "'d Server \<Rightarrow> http_call \<Rightarrow> int \<Rightarrow> ('d, http_reply) prog" where
  "banUser s rq actorID = pathInt64 rq ''room_id'' (\<lambda>roomID.
     case decodeJSON 8192 banRequest_fields no_target (hc_body rq) of
       Inl _ \<Rightarrow> ret (writeError 400 ''BAD_REQUEST'' ''valid user_id is required'')
     | Inr inp \<Rightarrow>
       if mq_user_id inp \<le> 0 then ret (writeError 400 ''BAD_REQUEST'' ''valid user_id is required'')
       else need (sv_rooms s) (\<lambda>rooms.
         answer_room (api_ban rooms roomID actorID (mq_user_id inp) (mq_reason inp)) (\<lambda>_.
         handle (enforceBan s roomID (mq_user_id inp) (TrimSpace (mq_reason inp)))
           (\<lambda>_. ret (writeError 503 ''BAN_ENFORCEMENT_FAILED'' ''ban saved but immediate eviction failed; retry safely''))
           (\<lambda>_. ret (writeJSON 200 (Some (JObj [(''status'', JStr ''banned''), (''user_id'', JInt (mq_user_id inp))])))))))"

definition listBans :: "'d Server \<Rightarrow> http_call \<Rightarrow> int \<Rightarrow> ('d, http_reply) prog" where
  "listBans s rq actorID = pathInt64 rq ''room_id'' (\<lambda>roomID. need (sv_rooms s) (\<lambda>rooms.
     answer_room (api_list_bans rooms roomID actorID) (\<lambda>items. ret (writeJSON 200 (items_json ban_json items)))))"

definition unbanUser :: "'d Server \<Rightarrow> http_call \<Rightarrow> int \<Rightarrow> ('d, http_reply) prog" where
  "unbanUser s rq actorID = pathInt64 rq ''room_id'' (\<lambda>roomID. pathInt64 rq ''user_id'' (\<lambda>targetID. need (sv_rooms s) (\<lambda>rooms.
     answer_room (api_unban rooms roomID actorID targetID) (\<lambda>_.
       bind (case sv_governance s of None \<Rightarrow> ret () | Some g \<Rightarrow> ignore (gv_enforce g roomID targetID False)) (\<lambda>_.
       ret (writeJSON 200 (Some (JObj [(''status'', JStr ''unbanned''), (''user_id'', JInt targetID)]))))))))"

section \<open>The three services\<close>

definition serve :: "'d route list \<Rightarrow> 'd handler" where
  "serve rs = requestID (recoverer (mux rs))"

definition interaction_routes :: "'d Server \<Rightarrow> 'd route list" where
  "interaction_routes s =
    (let auth = requireAuth (sv_app_tokens s) in
     [route ''GET'' ''/health'' health_page,
      route ''GET'' ''/ready'' (ready s),
      route ''POST'' ''/api/v1/rooms/{room_id}/join'' (auth (joinRoom s)),
      route ''POST'' ''/api/v1/rooms/{room_id}/leave'' (auth (leaveRoom s)),
      route ''POST'' ''/api/v1/rooms/{room_id}/danmaku'' (auth (sendDanmaku s)),
      route ''POST'' ''/api/v1/rooms/{room_id}/like'' (auth (likeRoom s)),
      route ''POST'' ''/api/v1/rooms/{room_id}/heartbeat'' (auth (heartbeatRoom s))])"

definition NewInteraction :: "'d Server \<Rightarrow> 'd handler" where
  "NewInteraction d = serve (interaction_routes (d\<lparr>sv_history := None, sv_governance := None\<rparr>))"

text \<open>The internal pages of the identity service.\<close>

definition access_page :: "'d Server \<Rightarrow> 'd handler" where
  "access_page s rq = pathInt64 rq ''room_id'' (\<lambda>roomID. pathInt64 rq ''user_id'' (\<lambda>userID. need (sv_rooms s) (\<lambda>rooms.
     answer_room (api_access rooms roomID userID) (\<lambda>access. ret (writeJSON 200 (access_room_json access))))))"

definition internal_user :: "'d Server \<Rightarrow> 'd handler" where
  "internal_user s rq = pathInt64 rq ''user_id'' (user_page s)"

definition internal_join :: "'d Server \<Rightarrow> 'd handler" where
  "internal_join s rq = pathInt64 rq ''room_id'' (\<lambda>roomID. pathInt64 rq ''user_id'' (\<lambda>userID. need (sv_rooms s) (\<lambda>rooms.
     answer_room (api_join rooms roomID userID) (\<lambda>v. ret (writeJSON 200 (room_json v))))))"

definition identity_routes :: "'d Server \<Rightarrow> 'd route list" where
  "identity_routes s =
    (let auth = requireAuth (sv_app_tokens s) in
     [route ''GET'' ''/health'' health_page,
      route ''GET'' ''/ready'' (ready s),
      route ''POST'' ''/api/v1/auth/register'' (register s),
      route ''POST'' ''/api/v1/auth/login'' (login s),
      route ''GET'' ''/api/v1/me'' (auth (me s)),
      route ''POST'' ''/api/v1/realtime/token'' (auth (realtimeToken s)),
      route ''POST'' ''/api/v1/rooms'' (auth (createRoom s)),
      route ''GET'' ''/api/v1/rooms'' (listRooms s),
      route ''GET'' ''/api/v1/rooms/{room_id}'' (getRoom s),
      route ''POST'' ''/api/v1/rooms/{room_id}/start'' (auth (startRoom s)),
      route ''POST'' ''/api/v1/rooms/{room_id}/stop'' (auth (stopRoom s)),
      route ''POST'' ''/api/v1/rooms/{room_id}/mutes'' (auth (muteUser s)),
      route ''GET'' ''/api/v1/rooms/{room_id}/mutes'' (auth (listMutes s)),
      route ''DELETE'' ''/api/v1/rooms/{room_id}/mutes/{user_id}'' (auth (unmuteUser s)),
      route ''POST'' ''/api/v1/rooms/{room_id}/bans'' (auth (banUser s)),
      route ''GET'' ''/api/v1/rooms/{room_id}/bans'' (auth (listBans s)),
      route ''DELETE'' ''/api/v1/rooms/{room_id}/bans/{user_id}'' (auth (unbanUser s)),
      route ''GET'' ''/internal/v1/rooms/{room_id}/access/{user_id}'' (access_page s),
      route ''GET'' ''/internal/v1/rooms/{room_id}'' (getRoom s),
      route ''GET'' ''/internal/v1/users/{user_id}'' (internal_user s),
      route ''POST'' ''/internal/v1/rooms/{room_id}/join/{user_id}'' (internal_join s)])"

definition NewIdentityRoom :: "'d Server \<Rightarrow> 'd handler" where
  "NewIdentityRoom d = serve (identity_routes (d\<lparr>sv_history := None,
     sv_governance := (case sv_governance d of Some g \<Rightarrow> Some g | None \<Rightarrow> sv_redis_governance d)\<rparr>))"

text \<open>The query service passes on neither rooms, tokens nor the realtime server.\<close>

definition query_routes :: "'d Server \<Rightarrow> 'd route list" where
  "query_routes s =
     [route ''GET'' ''/health'' health_page,
      route ''GET'' ''/ready'' (ready s),
      route ''GET'' ''/api/v1/rooms/{room_id}/messages'' (roomMessages s),
      route ''GET'' ''/api/v1/rooms/{room_id}/top-viewers'' (topViewers s),
      route ''GET'' ''/api/v1/rooms/{room_id}/viewers'' (roomViewers s),
      route ''GET'' ''/api/v1/rooms/{room_id}/stats'' (roomStats s)]"

definition NewQuery :: "'d Server \<Rightarrow> 'd handler" where
  "NewQuery d = serve (query_routes (d\<lparr>sv_centrifugo := None, sv_governance := None, sv_cf_tokens := None, sv_rooms := None\<rparr>))"

text \<open>The patterns of the tables, read.\<close>

lemma patterns:
  "pattern ''/health'' = [Lit ''health'']"
  "pattern ''/ready'' = [Lit ''ready'']"
  "pattern ''/api/v1/rooms/{room_id}/join'' = [Lit ''api'', Lit ''v1'', Lit ''rooms'', Wild ''room_id'', Lit ''join'']"
  "pattern ''/api/v1/rooms/{room_id}/leave'' = [Lit ''api'', Lit ''v1'', Lit ''rooms'', Wild ''room_id'', Lit ''leave'']"
  "pattern ''/api/v1/rooms/{room_id}/danmaku'' = [Lit ''api'', Lit ''v1'', Lit ''rooms'', Wild ''room_id'', Lit ''danmaku'']"
  "pattern ''/api/v1/rooms/{room_id}/like'' = [Lit ''api'', Lit ''v1'', Lit ''rooms'', Wild ''room_id'', Lit ''like'']"
  "pattern ''/api/v1/rooms/{room_id}/heartbeat'' = [Lit ''api'', Lit ''v1'', Lit ''rooms'', Wild ''room_id'', Lit ''heartbeat'']"
  "pattern ''/api/v1/auth/register'' = [Lit ''api'', Lit ''v1'', Lit ''auth'', Lit ''register'']"
  "pattern ''/api/v1/auth/login'' = [Lit ''api'', Lit ''v1'', Lit ''auth'', Lit ''login'']"
  "pattern ''/api/v1/me'' = [Lit ''api'', Lit ''v1'', Lit ''me'']"
  "pattern ''/api/v1/realtime/token'' = [Lit ''api'', Lit ''v1'', Lit ''realtime'', Lit ''token'']"
  "pattern ''/api/v1/rooms'' = [Lit ''api'', Lit ''v1'', Lit ''rooms'']"
  "pattern ''/api/v1/rooms/{room_id}'' = [Lit ''api'', Lit ''v1'', Lit ''rooms'', Wild ''room_id'']"
  "pattern ''/api/v1/rooms/{room_id}/start'' = [Lit ''api'', Lit ''v1'', Lit ''rooms'', Wild ''room_id'', Lit ''start'']"
  "pattern ''/api/v1/rooms/{room_id}/stop'' = [Lit ''api'', Lit ''v1'', Lit ''rooms'', Wild ''room_id'', Lit ''stop'']"
  "pattern ''/api/v1/rooms/{room_id}/mutes'' = [Lit ''api'', Lit ''v1'', Lit ''rooms'', Wild ''room_id'', Lit ''mutes'']"
  "pattern ''/api/v1/rooms/{room_id}/mutes/{user_id}'' = [Lit ''api'', Lit ''v1'', Lit ''rooms'', Wild ''room_id'', Lit ''mutes'', Wild ''user_id'']"
  "pattern ''/api/v1/rooms/{room_id}/bans'' = [Lit ''api'', Lit ''v1'', Lit ''rooms'', Wild ''room_id'', Lit ''bans'']"
  "pattern ''/api/v1/rooms/{room_id}/bans/{user_id}'' = [Lit ''api'', Lit ''v1'', Lit ''rooms'', Wild ''room_id'', Lit ''bans'', Wild ''user_id'']"
  "pattern ''/internal/v1/rooms/{room_id}/access/{user_id}'' = [Lit ''internal'', Lit ''v1'', Lit ''rooms'', Wild ''room_id'', Lit ''access'', Wild ''user_id'']"
  "pattern ''/internal/v1/rooms/{room_id}'' = [Lit ''internal'', Lit ''v1'', Lit ''rooms'', Wild ''room_id'']"
  "pattern ''/internal/v1/users/{user_id}'' = [Lit ''internal'', Lit ''v1'', Lit ''users'', Wild ''user_id'']"
  "pattern ''/internal/v1/rooms/{room_id}/join/{user_id}'' = [Lit ''internal'', Lit ''v1'', Lit ''rooms'', Wild ''room_id'', Lit ''join'', Wild ''user_id'']"
  "pattern ''/api/v1/rooms/{room_id}/messages'' = [Lit ''api'', Lit ''v1'', Lit ''rooms'', Wild ''room_id'', Lit ''messages'']"
  "pattern ''/api/v1/rooms/{room_id}/top-viewers'' = [Lit ''api'', Lit ''v1'', Lit ''rooms'', Wild ''room_id'', Lit ''top-viewers'']"
  "pattern ''/api/v1/rooms/{room_id}/viewers'' = [Lit ''api'', Lit ''v1'', Lit ''rooms'', Wild ''room_id'', Lit ''viewers'']"
  "pattern ''/api/v1/rooms/{room_id}/stats'' = [Lit ''api'', Lit ''v1'', Lit ''rooms'', Wild ''room_id'', Lit ''stats'']"
  by code_simp+

end
