(* ===== verification/Http_Calls.thy ===== *)
theory Http_Calls
  imports Http Access_Tokens
begin

text \<open>
  Requests that carry an access token: \<open>bearer\<close> finds the user a token was issued for, and a
  request that a table routes is answered by its handler.
\<close>

section \<open>Trimming plain text\<close>

definition plain_char :: "char \<Rightarrow> bool" where
  "plain_char c \<longleftrightarrow> 0 \<le> byte c \<and> byte c < 128 \<and> \<not> is_space (byte c)"

lemma rune_segs_plain: "\<forall>c \<in> set s. byte c < 128 \<Longrightarrow> rune_segs s = map (\<lambda>c. (byte c, [c])) s"
  by (induction s) (auto simp: rune_segs_ascii)

lemma TrimSpace_ends:
  assumes "\<forall>c \<in> set s. byte c < 128" and "s \<noteq> [] \<Longrightarrow> \<not> is_space (byte (hd s)) \<and> \<not> is_space (byte (last s))"
  shows "TrimSpace s = s"
proof (cases s rule: rev_cases)
  case (snoc t x)
  have start: "\<not> P (hd xs) \<Longrightarrow> dropWhile P xs = xs" if "xs \<noteq> []" for P and xs :: "(int \<times> string) list"
    using that by (cases xs) auto
  have "dropWhile (\<lambda>seg. is_space (fst seg)) (map (\<lambda>c. (byte c, [c])) s) = map (\<lambda>c. (byte c, [c])) s"
    using assms(2) snoc by (intro start) (cases t; simp)+
  moreover have "dropWhile (\<lambda>seg. is_space (fst seg)) (rev (map (\<lambda>c. (byte c, [c])) s)) = rev (map (\<lambda>c. (byte c, [c])) s)"
    using assms(2) snoc by simp
  moreover have "concat (map snd (map (\<lambda>c. (byte c, [c])) s)) = s" by (induction s) auto
  ultimately show ?thesis using assms(1) by (simp add: TrimSpace_def rune_segs_plain)
qed simp

lemma TrimSpace_plain: "list_all plain_char s \<Longrightarrow> TrimSpace s = s"
  by (rule TrimSpace_ends) (auto simp: list_all_iff plain_char_def)

section \<open>Tokens in a header\<close>

lemma byte_char_of: "k < 256 \<Longrightarrow> byte (char_of (k :: nat)) = int k"
  using of_nat_of_char [of "char_of k", where 'a = int] by (simp add: byte_def)

lemma b64_plain: "n < 64 \<Longrightarrow> plain_char (b64_char True n)"
  by (auto simp: b64_char_def plain_char_def byte_char_of is_space_def) (simp_all add: byte_def)

lemma encode_plain: "list_all plain_char (encode s)"
  using b64_char_range [of _ True s] b64_plain by (force simp: encode_def list_all_iff)

lemma token_plain: "list_all plain_char (signHS256 secret j)"
proof -
  have "plain_char (CHR ''.'')" by (simp add: plain_char_def byte_def is_space_def)
  then show ?thesis using encode_plain by (simp add: signHS256_def Let_def)
qed

definition bearer_header :: "string \<Rightarrow> (string \<times> string) list" where
  "bearer_header tok = [(''Authorization'', ''Bearer '' @ tok)]"

lemma bearer_token:
  assumes "value_of (hc_headers rq) ''Authorization'' = ''Bearer '' @ tok" and "list_all plain_char tok" and "tok \<noteq> []"
  shows "bearer m rq t = (case token_claims m tok of Inl _ \<Rightarrow> None | Inr (u, exp) \<Rightarrow> if exp > t then Some u else None)"
proof -
  have "TrimSpace (''Bearer '' @ tok) = ''Bearer '' @ tok"
    using assms(2,3) by (intro TrimSpace_ends) (auto simp: list_all_iff plain_char_def byte_def is_space_def)
  moreover have "HasPrefix (''Bearer '' @ tok) ''Bearer ''" by (simp add: HasPrefix_def)
  ultimately show ?thesis
    using assms(1) TrimSpace_plain [OF assms(2)] by (simp add: bearer_def TrimPrefix_def Let_def)
qed

lemma bearer_issued:
  assumes "Issue m u (d, w) = (Inr (tok, exp), s)" and "0 < u" and "is_i64 u" and "clock_ok (go_now w)" and "clock_ok exp"
    and "value_of (hc_headers rq) ''Authorization'' = ''Bearer '' @ tok" and "t < unix_sec exp * second"
  shows "bearer m rq t = Some u"
proof -
  have tok: "tok = signHS256 (tm_secret m) (access_json \<lparr>ac_sub = FormatInt u, ac_exp = unix_sec exp, ac_iat = unix_sec (go_now w), ac_typ = ''access''\<rparr>)"
    using assms(1,2) by (auto simp: Issue_def bind_def now_def ret_def Let_def)
  then have "tok \<noteq> []" by (simp add: signHS256_def Let_def)
  with bearer_token [OF assms(6)] token_plain tok issued_claims [OF assms(2,3,1,4,5)] assms(7) show ?thesis by simp
qed

lemma requireAuth_bearer:
  assumes "bearer m rq (go_now w) = Some u"
  shows "requireAuth m nxt rq (d, w) = nxt rq u (d, w)"
  using assms
  by (auto simp: requireAuth_def bearer_def Verify_def Let_def handle_def bind_def now_def ret_def
      split: if_splits sum.splits)

section \<open>Answers\<close>

text \<open>A request with an identifier, to a page of the table.\<close>

lemma serve_page:
  assumes "find_route rs rq = Some (h, vs)" and "value_of (hc_headers rq) ''X-Request-ID'' = i" and "i \<noteq> []"
    and "h (rq\<lparr>hc_headers := (''X-Request-ID'', i) # filter (\<lambda>(k, _). k \<noteq> ''X-Request-ID'') (hc_headers rq), hc_values := vs\<rparr>) s
      = (r, s')"
  shows "requestID (recoverer (mux rs)) rq s = (Inr (case r of Inr reply \<Rightarrow> reply\<lparr>hr_headers := (''X-Request-ID'', i) # hr_headers reply\<rparr>
      | Inl _ \<Rightarrow> (writeError 500 ''INTERNAL_ERROR'' ''internal server error'')
          \<lparr>hr_headers := [(''X-Request-ID'', i), (''Content-Type'', ''application/json'')]\<rparr>), s')"
  using assms
  by (auto simp: requestID_def recoverer_def mux_def bind_def handle_def ret_def Let_def writeError_def writeJSON_def split: sum.splits)

text \<open>One without gets one.\<close>

lemma serve_numbered:
  assumes "find_route rs rq = Some (h, vs)" and "value_of (hc_headers rq) ''X-Request-ID'' = []"
    and "idgen_New s = (Inr i, s1)"
    and "h (rq\<lparr>hc_headers := (''X-Request-ID'', i) # filter (\<lambda>(k, _). k \<noteq> ''X-Request-ID'') (hc_headers rq), hc_values := vs\<rparr>) s1
      = (r, s')"
  shows "requestID (recoverer (mux rs)) rq s = (Inr (case r of Inr reply \<Rightarrow> reply\<lparr>hr_headers := (''X-Request-ID'', i) # hr_headers reply\<rparr>
      | Inl _ \<Rightarrow> (writeError 500 ''INTERNAL_ERROR'' ''internal server error'')
          \<lparr>hr_headers := [(''X-Request-ID'', i), (''Content-Type'', ''application/json'')]\<rparr>), s')"
  using assms
  by (auto simp: requestID_def recoverer_def mux_def bind_def handle_def ret_def Let_def writeError_def writeJSON_def split: sum.splits)

end
