(* ===== verification/Http_Authority.thy ===== *)
theory Http_Authority
  imports Http_Server Http_Calls Room_Lifecycle Gift_Admission Gift_Delivery
begin

text \<open>
  Who may do what over HTTP. The locale \<open>quiet_services\<close> says which calls leave a state predicate
  alone; inside it every handler of the identity service but \<open>start\<close> and \<open>stop\<close> does. The service
  on the stores of the program is an instance.
\<close>

section \<open>Invariants through the handlers\<close>

lemma keeps_pathInt64 [keeps_intro]: "(\<And>v. keeps I (k v)) \<Longrightarrow> keeps I (pathInt64 rq name k)"
  unfolding pathInt64_def by (auto split: option.split intro!: keeps_intro)

lemma keeps_need [keeps_intro]: "(\<And>v. x = Some v \<Longrightarrow> keeps I (k v)) \<Longrightarrow> keeps I (need x k)"
  unfolding need_def by (auto split: option.split intro!: keeps_intro)

lemma keeps_answer_room [keeps_intro]: "keeps I m \<Longrightarrow> (\<And>v. keeps I (k v)) \<Longrightarrow> keeps I (answer_room m k)"
  unfolding answer_room_def by (intro keeps_intro)

lemma keeps_Verify [keeps_intro]: "keeps I (Verify m t)"
  unfolding Verify_def by (auto split: sum.split prod.split intro!: keeps_intro)

lemma keeps_requireAuth [keeps_intro]: "(\<And>u. keeps I (nxt rq u)) \<Longrightarrow> keeps I (requireAuth m nxt rq)"
  unfolding requireAuth_def Let_def by (intro keeps_intro)

lemma keeps_failing [keeps_intro]: "keeps I m \<Longrightarrow> keeps I (failing name m)"
  unfolding failing_def by (intro keeps_intro)

lemma keeps_errors_of [keeps_intro]: "keeps I m \<Longrightarrow> keeps I (errors_of p m)"
  unfolding errors_of_def by (intro keeps_intro)

lemma keeps_known [keeps_intro]:
  "keeps I n \<Longrightarrow> (\<And>v. x = Some v \<Longrightarrow> keeps I (k v)) \<Longrightarrow> keeps I (case x of None \<Rightarrow> n | Some v \<Rightarrow> k v)"
  by (auto split: option.split)

lemma keeps_notice [keeps_intro]: "(\<And>ch j. keeps I (rc_publish c ch j)) \<Longrightarrow> keeps I (notice c k i u j)"
  unfolding notice_def NewPriorityEvent_def by (intro keeps_intro)

lemma keeps_tokens [keeps_intro]:
  "keeps I (ConnectionToken i u)" "keeps I (SubscriptionToken i u ch ttl)"
  unfolding ConnectionToken_def SubscriptionToken_def Let_def by (auto intro!: keeps_intro)

lemma keeps_unit:
  assumes "keeps I (bind m (\<lambda>_. ret ()))"
  shows "keeps I m"
proof (rule keepsI)
  fix d w r d' w'
  assume "I d" and "m (d, w) = (r, (d', w'))"
  then have "bind m (\<lambda>_. ret ()) (d, w) = ((case r of Inl e \<Rightarrow> Inl e | Inr _ \<Rightarrow> Inr ()), (d', w'))"
    by (simp add: bind_def ret_def split: sum.split)
  from keepsD [OF assms \<open>I d\<close> this] show "I d'" .
qed

section \<open>The services a state predicate is safe from\<close>

locale quiet_services =
  fixes s :: "'d Server" and J :: "'d \<Rightarrow> bool"
  assumes pings: "sv_mysql s = Some m \<Longrightarrow> keeps J m" "keeps J (sv_redis s)"
    and realtime: "sv_centrifugo s = Some c \<Longrightarrow> keeps J (rc_ping c)" "sv_centrifugo s = Some c \<Longrightarrow> keeps J (rc_publish c ch j)"
      "sv_centrifugo s = Some c \<Longrightarrow> keeps J (rc_unsubscribe c x ch)"
    and governance: "sv_governance s = Some g \<Longrightarrow> keeps J (gv_remove_viewer g i u)"
      "sv_governance s = Some g \<Longrightarrow> keeps J (gv_enforce g i u b)"
    and accounts: "keeps J (au_register (sv_auth s) n k p)" "keeps J (au_login (sv_auth s) n p)" "keeps J (au_user (sv_auth s) u)"
    and statistics: "sv_stats s = Some st \<Longrightarrow> keeps J (ss_snapshot st i)"
    and rooms: "sv_rooms s = Some api \<Longrightarrow> keeps J (api_create api u t)" "sv_rooms s = Some api \<Longrightarrow> keeps J (api_get api i)"
      "sv_rooms s = Some api \<Longrightarrow> keeps J (api_list api t i)" "sv_rooms s = Some api \<Longrightarrow> keeps J (api_join api i u)"
      "sv_rooms s = Some api \<Longrightarrow> keeps J (api_access api i u)"
      "sv_rooms s = Some api \<Longrightarrow> keeps J (api_mute api i a u dur t)" "sv_rooms s = Some api \<Longrightarrow> keeps J (api_unmute api i a u)"
      "sv_rooms s = Some api \<Longrightarrow> keeps J (api_list_mutes api i a)"
      "sv_rooms s = Some api \<Longrightarrow> keeps J (api_ban api i a u t)" "sv_rooms s = Some api \<Longrightarrow> keeps J (api_unban api i a u)"
      "sv_rooms s = Some api \<Longrightarrow> keeps J (api_list_bans api i a)"
begin

lemmas services = pings(2) realtime governance accounts statistics rooms

lemma keeps_pages:
  "keeps J (health_page rq)" "keeps J (register s rq)" "keeps J (login s rq)" "keeps J (me s rq u)"
  "keeps J (realtimeToken s rq u)" "keeps J (internal_user s rq)"
  by (auto simp: health_page_def register_def login_def me_def user_page_def realtimeToken_def internal_user_def
      intro!: keeps_intro services)

lemma keeps_room_pages:
  "keeps J (listRooms s rq)" "keeps J (createRoom s rq u)" "keeps J (getRoom s rq)" "keeps J (access_page s rq)"
  "keeps J (internal_join s rq)" "keeps J (listMutes s rq u)" "keeps J (listBans s rq u)" "keeps J (unmuteUser s rq u)"
  by (auto simp: listRooms_def Let_def list_item_def Stats_Get_def createRoom_def getRoom_def access_page_def internal_join_def
      listMutes_def listBans_def unmuteUser_def intro!: keeps_intro services)

lemma keeps_moderation:
  "keeps J (muteUser s rq u)" "keeps J (unbanUser s rq u)" "keeps J (banUser s rq u)"
  by (auto simp: muteUser_def unbanUser_def banUser_def enforceBan_def evict_def disconnect_def
      intro!: keeps_intro services)

lemma keeps_ready: "keeps J (ready s rq)"
  unfolding ready_def
proof (rule keeps_need)
  fix m
  assume "sv_mysql s = Some m"
  from pings(1) [OF this] show "keeps J (bind (failing ''mysql'' m) (\<lambda>f1. bind (failing ''redis'' (sv_redis s)) (\<lambda>f2.
     if f1 @ f2 \<noteq> []
     then ret (writeJSON 503 (Some (JObj [(''failed'', names_json (f1 @ f2)), (''status'', JStr ''not_ready'')])))
     else bind (case sv_centrifugo s of None \<Rightarrow> ret [] | Some c \<Rightarrow> failing ''centrifugo'' (rc_ping c)) (\<lambda>degraded.
       ret (writeJSON 200 (Some (JObj [(''degraded'', names_json degraded), (''status'', JStr ''ready'')])))))))"
    by (intro keeps_intro services)
qed

text \<open>Every route but the two that move a room.\<close>

lemma keeps_routes:
  assumes "(m, p, h) \<in> set (identity_routes s)"
  shows "keeps J (h rq) \<or> (\<exists>nxt. h = requireAuth (sv_app_tokens s) nxt \<and> m = ''POST''
    \<and> (nxt = startRoom s \<and> p = pattern ''/api/v1/rooms/{room_id}/start''
       \<or> nxt = stopRoom s \<and> p = pattern ''/api/v1/rooms/{room_id}/stop''))"
proof -
  have "keeps J (h rq)" if "h \<in> {health_page, ready s, register s, login s, listRooms s, getRoom s, access_page s,
      internal_user s, internal_join s}"
    using that keeps_pages keeps_ready keeps_room_pages by auto
  moreover have "keeps J (h rq)" if "h = requireAuth (sv_app_tokens s) nxt" "nxt \<in> {me s, realtimeToken s, createRoom s, muteUser s,
      listMutes s, unmuteUser s, banUser s, listBans s, unbanUser s}" for nxt
    using that keeps_pages keeps_room_pages keeps_moderation by (auto intro!: keeps_requireAuth)
  ultimately show ?thesis
    using assms unfolding identity_routes_def route_def Let_def by simp blast
qed

end

section \<open>The identity service on the stores of the program\<close>

definition room_api :: "RoomService \<Rightarrow> live RoomAPI" where
  "room_api rs = \<lparr>api_create = (\<lambda>u t. at_site (Room_Create rs u t)), api_get = (\<lambda>i. at_site (Room_Get rs i)),
     api_list = (\<lambda>st n. at_site (Room_List rs st n)), api_start = (\<lambda>i a. at_site (Room_Start rs i a)),
     api_stop = (\<lambda>i a. at_site (Room_Stop rs i a)), api_join = (\<lambda>i u. at_site (Room_Join rs i u)),
     api_access = (\<lambda>i u. at_site (GetRoomAccess rs i u)), api_is_muted = (\<lambda>i u. at_site (Room_IsMuted i u)),
     api_is_banned = (\<lambda>i u. at_site (Room_IsBanned i u)), api_mute = (\<lambda>i a u n t. at_site (Room_Mute rs i a u n t)),
     api_unmute = (\<lambda>i a u. at_site (Room_Unmute i a u)), api_list_mutes = (\<lambda>i a. at_site (Room_ListMutes rs i a)),
     api_ban = (\<lambda>i a u t. at_site (Room_Ban rs i a u t)), api_unban = (\<lambda>i a u. at_site (Room_Unban i a u)),
     api_list_bans = (\<lambda>i a. at_site (Room_ListBans rs i a))\<rparr>"

definition auth_api :: "AuthService \<Rightarrow> live AuthAPI" where
  "auth_api au = \<lparr>au_register = (\<lambda>n k p. at_site (on_users (Register au n k p))),
     au_login = (\<lambda>n p. at_site (on_users (Login au n p))), au_user = (\<lambda>u. at_site (on_users (Auth_User u)))\<rparr>"

definition centrifugo_api :: "http_server \<Rightarrow> Centrifugo \<Rightarrow> live RealtimeController" where
  "centrifugo_api server c = \<lparr>rc_ping = at_realtime (Centrifugo_Ping server c),
     rc_publish = (\<lambda>ch j. at_realtime (Publish server c ch j)), rc_unsubscribe = (\<lambda>u ch. at_realtime (Unsubscribe server c u ch))\<rparr>"

definition redis_governance :: "live GovernanceStore" where
  "redis_governance = \<lparr>gv_remove_viewer = (\<lambda>i u. at_redis (RemoveViewer i u)),
     gv_enforce = (\<lambda>i u b. at_redis (EnforceLikeBan i u b))\<rparr>"

text \<open>The probe of a database or of Redis, and of several databases in a row.\<close>

definition Store_Ping :: "('d, unit) prog" where
  "Store_Ping = read_ext (\<lambda>_ _. Inr ())"

definition databasePingers :: "('d, unit) prog list \<Rightarrow> ('d, unit) prog" where
  "databasePingers stores = each (\<lambda>p. p) stores"

text \<open>The wiring of \<^verbatim>\<open>cmd/identityroom\<close>.\<close>

definition identity_server ::
  "unicode \<Rightarrow> RoomService \<Rightarrow> AuthService \<Rightarrow> http_server \<Rightarrow> Centrifugo
   \<Rightarrow> Issuer \<Rightarrow> int \<Rightarrow> int \<Rightarrow> live Server" where
  "identity_server U rs au server c issuer ttl shards = (no_deps U)
     \<lparr>sv_mysql := Some (databasePingers [Store_Ping, Store_Ping]), sv_redis := Store_Ping, sv_redis_governance := Some redis_governance,
      sv_centrifugo := Some (centrifugo_api server c), sv_governance := None, sv_auth := auth_api au,
      sv_app_tokens := au_tokens au, sv_cf_tokens := Some issuer, sv_cf_ttl := ttl, sv_rooms := Some (room_api rs),
      sv_stats := Some (redis_stats shards)\<rparr>"

text \<open>A predicate of the rooms: what the calls that do not move a room keep.\<close>

lemma keeps_at_other [simp]:
  "keeps (\<lambda>d. J (room_data (lv_site d))) (at_redis k)" "keeps (\<lambda>d. J (room_data (lv_site d))) (at_realtime h)"
  "keeps (\<lambda>d. J (room_data (lv_site d))) (at_shop n)" "keeps (\<lambda>d. J (room_data (lv_site d))) (at_broker b)"
  by (rule keepsI, auto simp: at_eqs)+

lemma keeps_at_rooms:
  assumes "keeps (\<lambda>x. J (room_data x)) m"
  shows "keeps (\<lambda>d. J (room_data (lv_site d))) (at_site m)"
  by (rule keepsI) (auto simp: at_eqs dest: keepsD [OF assms])

lemma status_change_only:
  "status_change rop row row' \<Longrightarrow> (\<exists>i a. rop = OpStart i a \<or> rop = OpStop i a)"
  by (auto simp: status_change_def)

lemma authorised_none:
  assumes "\<And>i a. rop \<noteq> OpStart i a" and "\<And>i a. rop \<noteq> OpStop i a"
  shows "authorised rop rows = authorised (OpGet 0) rows"
  using assms by (auto simp: authorised_def fun_eq_iff status_change_def)

lemma quiet_op:
  assumes "\<And>i a. rop \<noteq> OpStart i a" and "\<And>i a. rop \<noteq> OpStop i a"
  shows "keeps (\<lambda>x. authorised (OpGet 0) rows (room_data x)) (run_op rs rop)"
  using authorised_step [of rop rows rs] authorised_none [OF assms] by simp

lemmas quiet_calls = quiet_op [where rop = "OpCreate a t" for a t, simplified, THEN keeps_unit]
  quiet_op [where rop = "OpGet i" for i, simplified, THEN keeps_unit]
  quiet_op [where rop = "OpAccess i u" for i u, simplified, THEN keeps_unit]
  quiet_op [where rop = "OpList st n" for st n, simplified, THEN keeps_unit]
  quiet_op [where rop = "OpJoin i u" for i u, simplified, THEN keeps_unit]
  quiet_op [where rop = "OpMute i a u n t" for i a u n t, simplified]
  quiet_op [where rop = "OpUnmute i a u" for i a u, simplified]
  quiet_op [where rop = "OpBan i a u t" for i a u t, simplified]
  quiet_op [where rop = "OpUnban i a u" for i a u, simplified]
  quiet_op [where rop = "OpListMutes i a" for i a, simplified, THEN keeps_unit]
  quiet_op [where rop = "OpListBans i a" for i a, simplified, THEN keeps_unit]

definition identity_deps ::
  "unicode \<Rightarrow> RoomService \<Rightarrow> AuthService \<Rightarrow> http_server \<Rightarrow> Centrifugo \<Rightarrow> Issuer \<Rightarrow> int \<Rightarrow> int \<Rightarrow> live Server" where
  "identity_deps U rs au server c issuer ttl shards =
     (identity_server U rs au server c issuer ttl shards)\<lparr>sv_history := None, sv_governance := Some redis_governance\<rparr>"

lemma identity_deps_fields [simp]:
  "sv_mysql (identity_deps U rs au server c issuer ttl shards) = Some (databasePingers [Store_Ping, Store_Ping])"
  "sv_redis (identity_deps U rs au server c issuer ttl shards) = Store_Ping"
  "sv_centrifugo (identity_deps U rs au server c issuer ttl shards) = Some (centrifugo_api server c)"
  "sv_governance (identity_deps U rs au server c issuer ttl shards) = Some redis_governance"
  "sv_auth (identity_deps U rs au server c issuer ttl shards) = auth_api au"
  "sv_app_tokens (identity_deps U rs au server c issuer ttl shards) = au_tokens au"
  "sv_rooms (identity_deps U rs au server c issuer ttl shards) = Some (room_api rs)"
  "sv_stats (identity_deps U rs au server c issuer ttl shards) = Some (redis_stats shards)"
  by (simp_all add: identity_deps_def identity_server_def)

lemma NewIdentityRoom_live:
  "NewIdentityRoom (identity_server U rs au server c issuer ttl shards)
     = serve (identity_routes (identity_deps U rs au server c issuer ttl shards))"
  by (simp add: NewIdentityRoom_def identity_deps_def identity_server_def)

interpretation quiet_identity: quiet_services "identity_deps U rs au server c issuer ttl shards"
  "\<lambda>d. authorised (OpGet 0) rows (room_data (lv_site d))"
proof (unfold_locales, goal_cases)
  case (1 m)
  then show ?case by (auto simp: databasePingers_def Store_Ping_def intro!: keeps_intro)
next
  case 2
  then show ?case by (auto simp: Store_Ping_def intro!: keeps_intro)
qed (auto simp: centrifugo_api_def redis_governance_def auth_api_def redis_stats_def room_api_def
    intro!: keeps_at_rooms keeps_on_users quiet_calls)

section \<open>One request\<close>

lemma serve_cases:
  assumes "serve rs rq (d, w) = (r, (d', w'))"
  obtains (routed) h vs rq' w1 q w2 where "find_route rs rq = Some (h, vs)" and "clocks w1 = clocks w"
      and "\<And>m t. bearer m (rq'\<lparr>hc_values := vs\<rparr>) t = bearer m rq t" and "hc_path rq' = hc_path rq" and "hc_method rq' = hc_method rq"
      and "h (rq'\<lparr>hc_values := vs\<rparr>) (d, w1) = (q, (d', w2))"
  | (unrouted) "find_route rs rq = None" and "d' = d"
proof -
  obtain i w1 where i: "(let i = value_of (hc_headers rq) ''X-Request-ID'' in if i = [] then idgen_New else ret i) (d, w)
      = (Inr i, (d, w1))" and c: "clocks w1 = clocks w"
  proof (cases "value_of (hc_headers rq) ''X-Request-ID'' = []")
    case True
    obtain i w1 where "idgen_New (d, w) = (Inr i, (d, w1))" by (rule idgen_returns)
    with idgen_D [OF this] True that show ?thesis by (simp add: Let_def)
  next
    case False
    with that show ?thesis by (simp add: Let_def)
  qed
  let ?rq = "rq\<lparr>hc_headers := (''X-Request-ID'', i) # filter (\<lambda>(k, _). k \<noteq> ''X-Request-ID'') (hc_headers rq)\<rparr>"
  obtain q d2 w2 where m: "mux rs ?rq (d, w1) = (q, (d2, w2))" by (metis prod.collapse)
  have d2: "d' = d2" using assms i m
    by (auto simp: serve_def requestID_def recoverer_def bind_def handle_def ret_def Let_def split: sum.splits)
  from m show thesis
  proof (cases rule: mux_cases)
    case (routed h vs)
    with d2 c show thesis by (intro that(1) [of h vs w1 ?rq q w2]) auto
  next
    case (unrouted reply)
    with d2 show thesis by (intro that(2)) auto
  qed
qed

text \<open>The paths that move a room: what their patterns match.\<close>

lemma match_steps:
  "match_path (Lit t # ps) ss = Some vs \<longleftrightarrow> (\<exists>us. ss = t # us \<and> match_path ps us = Some vs)"
  "match_path (Wild n # ps) ss = Some vs \<longleftrightarrow> (\<exists>u us ws. u \<noteq> [] \<and> ss = u # us \<and> match_path ps us = Some ws \<and> vs = (n, u) # ws)"
  "match_path [] ss = Some vs \<longleftrightarrow> ss = [] \<and> vs = []"
  by (cases ss; auto)+

lemma room_paths:
  "match_path (pattern ''/api/v1/rooms/{room_id}/start'') ss = Some vs \<longleftrightarrow>
     (\<exists>t. t \<noteq> [] \<and> ss = [''api'', ''v1'', ''rooms'', t, ''start''] \<and> vs = [(''room_id'', t)])"
  "match_path (pattern ''/api/v1/rooms/{room_id}/stop'') ss = Some vs \<longleftrightarrow>
     (\<exists>t. t \<noteq> [] \<and> ss = [''api'', ''v1'', ''rooms'', t, ''stop''] \<and> vs = [(''room_id'', t)])"
proof -
  show "match_path (pattern ''/api/v1/rooms/{room_id}/start'') ss = Some vs \<longleftrightarrow>
     (\<exists>t. t \<noteq> [] \<and> ss = [''api'', ''v1'', ''rooms'', t, ''start''] \<and> vs = [(''room_id'', t)])"
    "match_path (pattern ''/api/v1/rooms/{room_id}/stop'') ss = Some vs \<longleftrightarrow>
     (\<exists>t. t \<noteq> [] \<and> ss = [''api'', ''v1'', ''rooms'', t, ''stop''] \<and> vs = [(''room_id'', t)])"
    unfolding patterns match_steps by auto
qed

text \<open>What a start or stop leaves of the rooms.\<close>

lemma move_authorised:
  "keeps (\<lambda>d. authorised (OpStart i u) rows (room_data (lv_site d))) (at_site (Room_Start rs i u))"
  "keeps (\<lambda>d. authorised (OpStop i u) rows (room_data (lv_site d))) (at_site (Room_Stop rs i u))"
  using keeps_at_rooms [OF keeps_unit [OF authorised_step [of "OpStart i u" rows rs, simplified]]]
    keeps_at_rooms [OF keeps_unit [OF authorised_step [of "OpStop i u" rows rs, simplified]]] by simp_all

lemma start_page_authorised:
  assumes "startRoom (identity_deps U rs au server c issuer ttl shards) (rq\<lparr>hc_values := [(''room_id'', t)]\<rparr>) u (d, w) = (q, (d', w'))"
    and "authorised (OpGet 0) rows (room_data (lv_site d))"
  shows "\<exists>rop. authorised rop rows (room_data (lv_site d')) \<and> (\<forall>i a. rop = OpStart i a \<longrightarrow> ParseInt t = Some i \<and> a = u) \<and> (\<nexists>i a. rop = OpStop i a)"
proof (cases "ParseInt t")
  case None
  with assms show ?thesis by (intro exI [of _ "OpGet 0"]) (auto simp: startRoom_def pathInt64_def value_of_def)
next
  case (Some i)
  have none: "authorised (OpStart i u) rows (room_data (lv_site d))"
    using assms(2) by (auto simp: authorised_def status_change_def)
  have k: "keeps (\<lambda>d. authorised (OpStart i u) rows (room_data (lv_site d)))
      (answer_room (api_start (room_api rs) i u) (\<lambda>v. ret (writeJSON 200 (room_json v))))"
    by (intro keeps_intro) (simp add: room_api_def move_authorised)
  show ?thesis
  proof (cases "i \<le> 0")
    case True
    with assms Some show ?thesis by (intro exI [of _ "OpGet 0"]) (auto simp: startRoom_def pathInt64_def value_of_def)
  next
    case False
    with assms(1) Some have "answer_room (api_start (room_api rs) i u) (\<lambda>v. ret (writeJSON 200 (room_json v))) (d, w) = (q, (d', w'))"
      by (simp add: startRoom_def pathInt64_def value_of_def need_def)
    from keepsD [OF k none this] Some show ?thesis by (intro exI [of _ "OpStart i u"]) simp
  qed
qed

lemma stop_page_authorised:
  assumes "stopRoom (identity_deps U rs au server c issuer ttl shards) (rq\<lparr>hc_values := [(''room_id'', t)]\<rparr>) u (d, w) = (q, (d', w'))"
    and "authorised (OpGet 0) rows (room_data (lv_site d))"
  shows "\<exists>rop. authorised rop rows (room_data (lv_site d')) \<and> (\<forall>i a. rop = OpStop i a \<longrightarrow> ParseInt t = Some i \<and> a = u) \<and> (\<nexists>i a. rop = OpStart i a)"
proof (cases "ParseInt t")
  case None
  with assms show ?thesis by (intro exI [of _ "OpGet 0"]) (auto simp: stopRoom_def pathInt64_def value_of_def)
next
  case (Some i)
  have none: "authorised (OpStop i u) rows (room_data (lv_site d))"
    using assms(2) by (auto simp: authorised_def status_change_def)
  have k: "keeps (\<lambda>d. authorised (OpStop i u) rows (room_data (lv_site d)))
      (answer_room (api_stop (room_api rs) i u) (\<lambda>v. ret (writeJSON 200 (room_json v))))"
    by (intro keeps_intro) (simp add: room_api_def move_authorised)
  show ?thesis
  proof (cases "i \<le> 0")
    case True
    with assms Some show ?thesis by (intro exI [of _ "OpGet 0"]) (auto simp: stopRoom_def pathInt64_def value_of_def)
  next
    case False
    with assms(1) Some have "answer_room (api_stop (room_api rs) i u) (\<lambda>v. ret (writeJSON 200 (room_json v))) (d, w) = (q, (d', w'))"
      by (simp add: stopRoom_def pathInt64_def value_of_def need_def)
    from keepsD [OF k none this] Some show ?thesis by (intro exI [of _ "OpStop i u"]) simp
  qed
qed

section \<open>Properties\<close>

text \<open>A request that may turn one state of a room into another.\<close>

definition moves_room :: "TokenManager \<Rightarrow> http_call \<Rightarrow> int \<Rightarrow> room_row \<Rightarrow> room_row \<Rightarrow> bool" where
  "moves_room m rq t row row' \<longleftrightarrow> hc_method rq = ''POST'' \<and> bearer m rq t = Some (r_anchor_id row)
     \<and> (\<exists>s. ParseInt s = Some (r_id row)
       \<and> (path_segments (hc_path rq) = [''api'', ''v1'', ''rooms'', s, ''start''] \<and> r_status row = StatusPreparing \<and> r_status row' = StatusLiving
        \<or> path_segments (hc_path rq) = [''api'', ''v1'', ''rooms'', s, ''stop''] \<and> r_status row = StatusLiving \<and> r_status row' = StatusClosed))"

text \<open>The operation on a room that a request asks for.\<close>

definition asks_for :: "TokenManager \<Rightarrow> http_call \<Rightarrow> int \<Rightarrow> room_op \<Rightarrow> bool" where
  "asks_for m rq t rop \<longleftrightarrow> hc_method rq = ''POST'' \<and> (\<exists>u s i. bearer m rq t = Some u \<and> ParseInt s = Some i
     \<and> (path_segments (hc_path rq) = [''api'', ''v1'', ''rooms'', s, ''start''] \<and> rop = OpStart i u
      \<or> path_segments (hc_path rq) = [''api'', ''v1'', ''rooms'', s, ''stop''] \<and> rop = OpStop i u))"

lemma identity_authorised:
  assumes run: "NewIdentityRoom (identity_server U rs au server c issuer ttl shards) rq (d, w) = (r, (d', w'))"
    and none: "authorised (OpGet 0) rows (room_data (lv_site d))"
  shows "\<exists>rop. authorised rop rows (room_data (lv_site d')) \<and> (rop = OpGet 0 \<or> asks_for (au_tokens au) rq (go_now w) rop)"
  using run [unfolded NewIdentityRoom_live]
proof (cases rule: serve_cases)
  case unrouted
  with none show ?thesis by blast
next
  let ?s = "identity_deps U rs au server c issuer ttl shards"
  case (routed h vs rq' w1 q w2)
  from find_route_in [OF routed(1)] obtain m p where route: "(m, p, h) \<in> set (identity_routes ?s)"
    "method_ok m (hc_method rq)" "match_path p (path_segments (hc_path rq)) = Some vs" by blast
  let ?rq = "rq'\<lparr>hc_values := vs\<rparr>"
  show ?thesis
  proof (cases "keeps (\<lambda>d. authorised (OpGet 0) rows (room_data (lv_site d))) (h ?rq)")
    case True
    from keepsD [where d = d and m = "h ?rq", OF True none routed(6)] show ?thesis by blast
  next
    case False
    with quiet_identity.keeps_routes [OF route(1), of rows ?rq] obtain nxt where
      h: "h = requireAuth (au_tokens au) nxt" and m: "m = ''POST''"
      and nxt: "nxt = startRoom ?s \<and> p = pattern ''/api/v1/rooms/{room_id}/start''
         \<or> nxt = stopRoom ?s \<and> p = pattern ''/api/v1/rooms/{room_id}/stop''" by auto
    have post: "hc_method rq = ''POST''" using route(2) m by (simp add: method_ok_def)
    have now: "go_now w1 = go_now w" using routed(2) by (simp add: clocks_def)
    consider (refused) "d' = d"
      | (page) u where "bearer (au_tokens au) rq (go_now w) = Some u" "nxt ?rq u (d, w1) = (q, (d', w2))"
      using requireAuth_cases [OF routed(6) [unfolded h]] routed(3) now by auto
    then show ?thesis
    proof cases
      case refused
      with none show ?thesis by blast
    next
      case (page u)
      have other: ?thesis if "authorised rop rows (room_data (lv_site d'))" "\<nexists>i a. rop = OpStart i a" "\<nexists>i a. rop = OpStop i a" for rop
        using that authorised_none [of rop rows] by auto
      from nxt show ?thesis
      proof
        assume n: "nxt = startRoom ?s \<and> p = pattern ''/api/v1/rooms/{room_id}/start''"
        with route(3) obtain t where t: "path_segments (hc_path rq) = [''api'', ''v1'', ''rooms'', t, ''start'']" "vs = [(''room_id'', t)]"
          by (auto simp: room_paths)
        have "startRoom ?s (rq'\<lparr>hc_values := [(''room_id'', t)]\<rparr>) u (d, w1) = (q, (d', w2))" using page(2) n t(2) by simp
        from start_page_authorised [OF this none] obtain rop where rop: "authorised rop rows (room_data (lv_site d'))"
          "\<forall>i a. rop = OpStart i a \<longrightarrow> ParseInt t = Some i \<and> a = u" "\<nexists>i a. rop = OpStop i a" by auto
        with other [OF rop(1)] page(1) t(1) post show ?thesis by (cases "\<exists>i a. rop = OpStart i a") (auto simp: asks_for_def)
      next
        assume n: "nxt = stopRoom ?s \<and> p = pattern ''/api/v1/rooms/{room_id}/stop''"
        with route(3) obtain t where t: "path_segments (hc_path rq) = [''api'', ''v1'', ''rooms'', t, ''stop'']" "vs = [(''room_id'', t)]"
          by (auto simp: room_paths)
        have "stopRoom ?s (rq'\<lparr>hc_values := [(''room_id'', t)]\<rparr>) u (d, w1) = (q, (d', w2))" using page(2) n t(2) by simp
        from stop_page_authorised [OF this none] obtain rop where rop: "authorised rop rows (room_data (lv_site d'))"
          "\<forall>i a. rop = OpStop i a \<longrightarrow> ParseInt t = Some i \<and> a = u" "\<nexists>i a. rop = OpStart i a" by auto
        with other [OF rop(1)] page(1) t(1) post show ?thesis by (cases "\<exists>i a. rop = OpStop i a") (auto simp: asks_for_def)
      qed
    qed
  qed
qed

lemma authorised_start:
  assumes "rooms_ok db"
  shows "authorised (OpGet 0) (live_rooms db) db"
proof -
  have "row1 = row2" if "row1 \<in> set (live_rooms db)" "row2 \<in> set (live_rooms db)" "r_id row1 = r_id row2" for row1 row2
    using that assms by (auto simp: rooms_ok_def distinct_map inj_on_def)
  then show ?thesis by (auto simp: authorised_def)
qed

lemma authorised_moves:
  assumes "authorised rop rows db" and "rop = OpGet 0 \<or> asks_for m rq t rop"
    and "row \<in> set rows" and "row' \<in> set (live_rooms db)" and "r_id row' = r_id row" and "row' \<noteq> row"
  shows "moves_room m rq t row row'"
  using assms by (auto simp: authorised_def asks_for_def moves_room_def status_change_def)

text \<open>
  Only its anchor moves a room. Whatever is sent to the identity service and whatever calls fail:
  if a room is not as it was before the request, then the request was a \<^verbatim>\<open>POST\<close> to the room's
  own \<^verbatim>\<open>start\<close> or \<^verbatim>\<open>stop\<close> page with a valid access token of the room's anchor, and the room
  went from PREPARING to LIVING or from LIVING to CLOSED.
\<close>

theorem http_room_authority:
  assumes "rooms_ok (room_data (lv_site d))"
    and "NewIdentityRoom (identity_server U rs au server c issuer ttl shards) rq (d, w) = (r, (d', w'))"
    and "row \<in> set (live_rooms (room_data (lv_site d)))" and "row' \<in> set (live_rooms (room_data (lv_site d')))"
    and "r_id row' = r_id row" and "row' \<noteq> row"
  shows "moves_room (au_tokens au) rq (go_now w) row row'"
proof -
  from identity_authorised [OF assms(2) authorised_start [OF assms(1)]] obtain rop where
    "authorised rop (live_rooms (room_data (lv_site d))) (room_data (lv_site d'))"
    "rop = OpGet 0 \<or> asks_for (au_tokens au) rq (go_now w) rop" by blast
  then show ?thesis using assms(3-6) by (rule authorised_moves)
qed

text \<open>The anchor of a prepared room starts it.\<close>

definition prepared_world :: live where
  "prepared_world = (sold_world StatusClosed)\<lparr>lv_site := sample_site\<rparr>"

definition sample_accounts :: AuthService where
  "sample_accounts = \<lparr>au_U = ascii_only, au_ck = id, au_avatar = [], au_tokens = sample_manager\<rparr>"

lemma sample_accounts_tokens [simp]: "au_tokens sample_accounts = sample_manager"
  by (simp add: sample_accounts_def)

abbreviation sample_identity :: "live Server" where
  "sample_identity \<equiv> identity_server ascii_only (Room_NewService False) sample_accounts ok_server sample_centrifugo
     \<lparr>is_secret = ''cf'', is_ttl = second\<rparr> second 4"

definition sample_call :: "string \<Rightarrow> string \<Rightarrow> string \<Rightarrow> http_call" where
  "sample_call m p tok = \<lparr>hc_method = m, hc_path = p, hc_values = [], hc_query = [],
     hc_headers = (''X-Request-ID'', ''r'') # bearer_header tok, hc_body = []\<rparr>"

lemma sample_bearer:
  assumes "Issue sample_manager u ((), token_world) = (Inr (tok, second), ((), token_world))" and "0 < u" and "is_i64 u"
  shows "bearer sample_manager (sample_call m p tok) 0 = Some u"
  by (rule bearer_issued [OF assms(1-3) sample_clock(1,2)]) (simp_all add: sample_call_def bearer_header_def value_of_def unix_sec_def)

lemma started_page:
  assumes b: "bearer sample_manager (sample_call ''POST'' ''/api/v1/rooms/5/start'' tok) 0 = Some 3"
  shows "\<exists>r. NewIdentityRoom sample_identity (sample_call ''POST'' ''/api/v1/rooms/5/start'' tok) (prepared_world, calm)
     = (r, (prepared_world\<lparr>lv_site := sample_site_started\<rparr>, calm))"
proof -
  let ?s = "identity_deps ascii_only (Room_NewService False) sample_accounts ok_server sample_centrifugo
     \<lparr>is_secret = ''cf'', is_ttl = second\<rparr> second 4"
  let ?rq = "sample_call ''POST'' ''/api/v1/rooms/5/start'' tok"
  let ?rq1 = "?rq\<lparr>hc_headers := (''X-Request-ID'', ''r'') # filter (\<lambda>(k, _). k \<noteq> ''X-Request-ID'') (hc_headers ?rq),
     hc_values := [(''room_id'', ''5'')]\<rparr>"
  obtain v where start: "Room_Start (Room_NewService False) 5 3 (sample_site, calm) = (Inr v, (sample_site_started, calm))"
    using sample_start by (auto simp: bind_def split: sum.splits prod.splits)
  have seg: "path_segments ''/api/v1/rooms/5/start'' = [''api'', ''v1'', ''rooms'', ''5'', ''start'']" by code_simp
  have found: "find_route (identity_routes ?s) ?rq = Some (requireAuth sample_manager (startRoom ?s), [(''room_id'', ''5'')])"
    by (simp add: identity_routes_def route_def patterns sample_call_def seg method_ok_def Let_def)
  have "ParseInt ''5'' = Some 5" by code_simp
  then have page: "startRoom ?s ?rq1 3 (prepared_world, calm)
      = (Inr (writeJSON 200 (room_json v)), (prepared_world\<lparr>lv_site := sample_site_started\<rparr>, calm))"
    using start by (simp add: startRoom_def pathInt64_def value_of_def need_def answer_room_def handle_def room_api_def at_site_def
        zoom_def prepared_world_def ret_def)
  have "bearer sample_manager ?rq1 (go_now calm) = Some 3"
    using b by (simp add: calm_def)
  note r = requireAuth_bearer [OF this, of "startRoom ?s" prepared_world] page
  show ?thesis
    unfolding NewIdentityRoom_live serve_def
    by (subst serve_page [OF found, of "''r''" "(prepared_world, calm)"])
      (use r in \<open>simp_all add: sample_call_def value_of_def\<close>)
qed

theorem http_room_authority_witness:
  "\<exists>tok r d'. NewIdentityRoom sample_identity (sample_call ''POST'' ''/api/v1/rooms/5/start'' tok) (prepared_world, calm) = (r, (d', calm))
     \<and> moves_room sample_manager (sample_call ''POST'' ''/api/v1/rooms/5/start'' tok) 0 sample_room (set_status StatusLiving 0 sample_room)"
proof -
  obtain tok where t: "Issue sample_manager 3 ((), token_world) = (Inr (tok, second), ((), token_world))"
    by (simp add: Issue_def bind_def now_def ret_def Let_def)
  let ?rq = "sample_call ''POST'' ''/api/v1/rooms/5/start'' tok"
  have "bearer sample_manager ?rq 0 = Some 3" by (rule sample_bearer [OF t]) (simp_all add: is_i64_def)
  then obtain r where run: "NewIdentityRoom sample_identity ?rq (prepared_world, calm)
      = (r, (prepared_world\<lparr>lv_site := sample_site_started\<rparr>, calm))" using started_page by blast
  have "rooms_ok (room_data sample_site)" by (simp add: rooms_ok_def room_row_ok_def sample_defs)
  moreover have "set_status StatusLiving 0 sample_room \<noteq> sample_room" by (simp add: set_status_def sample_room_def)
  ultimately have "moves_room (au_tokens sample_accounts) ?rq (go_now calm) sample_room (set_status StatusLiving 0 sample_room)"
    by (intro http_room_authority [OF _ run]) (simp_all add: prepared_world_def sample_site_def sample_site_started_def)
  with run show ?thesis by (auto simp: sample_accounts_def calm_def)
qed

end
