(* ===== verification/Identity_Client.thy ===== *)
theory Identity_Client
  imports Http_Authority Json_Time
begin

text \<open>
  \<^verbatim>\<open>internal/identityclient/client.go\<close>: the rooms of the interaction service are those of the
  identity service, asked over HTTP. The client is modelled over any transport; \<open>deliver\<close> is the
  network, which may lose a request or its answer, with a server at the other end.
\<close>

section \<open>Decoding\<close>

text \<open>\<^verbatim>\<open>json.NewDecoder(body).Decode\<close>: the first value of the body.\<close>

definition decode_first :: "'r fields \<Rightarrow> 'r \<Rightarrow> string \<Rightarrow> 'r option" where
  "decode_first fs zero body =
     (case parse_value (2 * length body + 2) body of
        None \<Rightarrow> None | Some (v, rest) \<Rightarrow> unmarshal fs zero (consumed body rest))"

definition pointer_field :: "(json \<Rightarrow> 'v option) \<Rightarrow> ('v option \<Rightarrow> 'r \<Rightarrow> 'r) \<Rightarrow> string \<Rightarrow> 'r \<Rightarrow> 'r option" where
  "pointer_field dec put raw r =
     (case json_parse raw of
        None \<Rightarrow> None
      | Some v \<Rightarrow> if v = JNull then Some (put None r) else map_option (\<lambda>x. put (Some x) r) (dec v))"

definition room_fields :: "Room fields" where
  "room_fields =
    [(''room_id'', value_field as_int64 (\<lambda>x. rm_id_update (\<lambda>_. x))),
     (''anchor_id'', value_field as_int64 (\<lambda>x. rm_anchor_id_update (\<lambda>_. x))),
     (''anchor_nickname'', value_field as_string (\<lambda>x. rm_anchor_nickname_update (\<lambda>_. x))),
     (''title'', value_field as_string (\<lambda>x. rm_title_update (\<lambda>_. x))),
     (''status'', value_field as_string (\<lambda>x. rm_status_update (\<lambda>_. x))),
     (''started_at'', pointer_field as_time (\<lambda>x. rm_started_at_update (\<lambda>_. x))),
     (''ended_at'', pointer_field as_time (\<lambda>x. rm_ended_at_update (\<lambda>_. x))),
     (''created_at'', value_field as_time (\<lambda>x. rm_created_at_update (\<lambda>_. x)))]"

definition zero_room :: Room where
  "zero_room = \<lparr>rm_id = 0, rm_anchor_id = 0, rm_anchor_nickname = [], rm_title = [], rm_status = [],
     rm_started_at = None, rm_ended_at = None, rm_created_at = zero_time\<rparr>"

text \<open>A struct inside a struct: its members are decoded into the field.\<close>

definition struct_field :: "'v fields \<Rightarrow> ('r \<Rightarrow> 'v) \<Rightarrow> ('v \<Rightarrow> 'r \<Rightarrow> 'r) \<Rightarrow> string \<Rightarrow> 'r \<Rightarrow> 'r option" where
  "struct_field fs sel put raw r = map_option (\<lambda>x. put x r) (unmarshal fs (sel r) raw)"

definition room_access_fields :: "RoomAccess fields" where
  "room_access_fields =
    [(''room'', struct_field room_fields ra_room (\<lambda>x. ra_room_update (\<lambda>_. x))),
     (''banned'', value_field as_bool (\<lambda>x. ra_banned_update (\<lambda>_. x))),
     (''muted'', value_field as_bool (\<lambda>x. ra_muted_update (\<lambda>_. x)))]"

definition zero_access :: RoomAccess where
  "zero_access = \<lparr>ra_room = zero_room, ra_banned = False, ra_muted = False\<rparr>"

definition user_fields :: "User fields" where
  "user_fields =
    [(''id'', value_field as_int64 (\<lambda>x. u_id_update (\<lambda>_. x))),
     (''username'', value_field as_string (\<lambda>x. u_username_update (\<lambda>_. x))),
     (''nickname'', value_field as_string (\<lambda>x. u_nickname_update (\<lambda>_. x))),
     (''avatar'', value_field as_string (\<lambda>x. u_avatar_update (\<lambda>_. x))),
     (''created_at'', value_field as_time (\<lambda>x. u_created_at_update (\<lambda>_. x)))]"

definition zero_user :: User where
  "zero_user = \<lparr>u_id = 0, u_username = [], u_nickname = [], u_avatar = [], u_password_hash = [], u_status = 0, u_created_at = zero_time\<rparr>"

section \<open>The client\<close>

record 'd Client =
  ic_base :: string
  ic_send :: "string \<Rightarrow> string \<Rightarrow> ('d, http_reply) prog"

definition Client_New :: "string \<Rightarrow> (string \<Rightarrow> string \<Rightarrow> ('d, http_reply) prog) \<Rightarrow> 'd Client" where
  "Client_New base send = \<lparr>ic_base = TrimRight_char base (CHR ''/''), ic_send = send\<rparr>"

definition client_call :: "'d Client \<Rightarrow> string \<Rightarrow> string \<Rightarrow> 'r fields \<Rightarrow> 'r \<Rightarrow> ('d, 'r) prog" where
  "client_call c method path fs zero =
     bind (ic_send c method (ic_base c @ path)) (\<lambda>res.
     if go_quot (hr_code res) 100 \<noteq> 2 then fail (Plain (''identity-room status='' @ FormatInt (hr_code res)))
     else case decode_first fs zero (hr_body res) of None \<Rightarrow> fail json_error | Some v \<Rightarrow> ret v)"

definition Client_Get :: "'d Client \<Rightarrow> int \<Rightarrow> ('d, Room) prog" where
  "Client_Get c i = client_call c ''GET'' (''/internal/v1/rooms/'' @ FormatInt i) room_fields zero_room"

definition Client_GetRoomAccess :: "'d Client \<Rightarrow> int \<Rightarrow> int \<Rightarrow> ('d, RoomAccess) prog" where
  "Client_GetRoomAccess c r u =
     client_call c ''GET'' (''/internal/v1/rooms/'' @ FormatInt r @ ''/access/'' @ FormatInt u) room_access_fields zero_access"

definition Client_IsBanned :: "'d Client \<Rightarrow> int \<Rightarrow> int \<Rightarrow> ('d, bool) prog" where
  "Client_IsBanned c r u = bind (Client_GetRoomAccess c r u) (\<lambda>v. ret (ra_banned v))"

definition Client_IsMuted :: "'d Client \<Rightarrow> int \<Rightarrow> int \<Rightarrow> ('d, bool) prog" where
  "Client_IsMuted c r u = bind (Client_GetRoomAccess c r u) (\<lambda>v. ret (ra_muted v))"

definition Client_Join :: "'d Client \<Rightarrow> int \<Rightarrow> int \<Rightarrow> ('d, Room) prog" where
  "Client_Join c r u =
     client_call c ''POST'' (''/internal/v1/rooms/'' @ FormatInt r @ ''/join/'' @ FormatInt u) room_fields zero_room"

definition Client_User :: "'d Client \<Rightarrow> int \<Rightarrow> ('d, User) prog" where
  "Client_User c i = client_call c ''GET'' (''/internal/v1/users/'' @ FormatInt i) user_fields zero_user"

text \<open>The rest of the room interface.\<close>

definition unsupported :: "('d, 'a) prog" where
  "unsupported = fail (Plain ''unsupported'')"

definition client_api :: "'d Client \<Rightarrow> 'd RoomAPI" where
  "client_api c = \<lparr>api_create = (\<lambda>_ _. unsupported), api_get = Client_Get c, api_list = (\<lambda>_ _. unsupported),
     api_start = (\<lambda>_ _. unsupported), api_stop = (\<lambda>_ _. unsupported), api_join = Client_Join c,
     api_access = Client_GetRoomAccess c, api_is_muted = Client_IsMuted c, api_is_banned = Client_IsBanned c,
     api_mute = (\<lambda>_ _ _ _ _. unsupported), api_unmute = (\<lambda>_ _ _. unsupported), api_list_mutes = (\<lambda>_ _. unsupported),
     api_ban = (\<lambda>_ _ _ _. unsupported), api_unban = (\<lambda>_ _ _. unsupported), api_list_bans = (\<lambda>_ _. unsupported)\<rparr>"

section \<open>The network\<close>

definition plain_call :: "string \<Rightarrow> string \<Rightarrow> http_call" where
  "plain_call method path = \<lparr>hc_method = method, hc_path = path, hc_values = [], hc_query = [], hc_headers = [], hc_body = []\<rparr>"

text \<open>A request for a URL below the server's base address reaches it; it or its answer may be lost.\<close>

definition deliver :: "'d handler \<Rightarrow> string \<Rightarrow> string \<Rightarrow> string \<Rightarrow> ('d, http_reply) prog" where
  "deliver h base method url = (\<lambda>(d, w).
     let rq = plain_call method (drop (length base) url) in
     case next_outcome w of
       (Done, w') \<Rightarrow> h rq (d, w')
     | (Lost m, w') \<Rightarrow> (Inl (Plain m), (d, w'))
     | (Late m, w') \<Rightarrow> (Inl (Plain m), snd (h rq (d, w'))))"

section \<open>What was printed is decoded\<close>

definition room_sendable :: "Room \<Rightarrow> bool" where
  "room_sendable v \<longleftrightarrow> is_i64 (rm_id v) \<and> is_i64 (rm_anchor_id v) \<and> utf8_ok (rm_anchor_nickname v) \<and> utf8_ok (rm_title v)
     \<and> utf8_ok (rm_status v) \<and> time_json (rm_created_at v) \<noteq> None
     \<and> (\<forall>t. rm_started_at v = Some t \<longrightarrow> time_json t \<noteq> None) \<and> (\<forall>t. rm_ended_at v = Some t \<longrightarrow> time_json t \<noteq> None)"

lemma decode_first_print:
  assumes "doc_ok (JObj fs)"
  shows "decode_first F z (jprint (JObj fs) @ [CHR 0x0A]) = decode_members F (map (\<lambda>f. (fst f, jprint (snd f))) fs) z"
proof -
  have "parse_value (2 * length (jprint (JObj fs) @ [CHR 0x0A]) + 2) (jprint (JObj fs) @ [CHR 0x0A]) = Some (JObj fs, [CHR 0x0A])"
    by (rule reads_backD [OF jprint_reads_back [OF assms]]) simp_all
  then show ?thesis
    using consumed_printed [OF assms] unmarshal_print [OF assms] by (simp add: decode_first_def del: jprint.simps doc_ok.simps)
qed

lemma pointer_field_print:
  "doc_ok v \<Longrightarrow> v \<noteq> JNull \<Longrightarrow> pointer_field dec put (jprint v) r = map_option (\<lambda>x. put (Some x) r) (dec v)"
  by (simp add: pointer_field_def json_parse_print)

text \<open>The members a room is printed with, and what they are decoded to.\<close>

lemma room_print:
  assumes "room_sendable v"
  shows "\<exists>fs. room_json v = Some (JObj fs) \<and> doc_ok (JObj fs)
    \<and> decode_members room_fields (map (\<lambda>f. (fst f, jprint (snd f))) fs) zero_room = Some v"
proof -
  obtain c where c: "time_json (rm_created_at v) = Some c" using assms by (auto simp: room_sendable_def)
  note cd = time_json_read [OF c] time_json_doc [OF c]
  have str: "value_field as_string q (jprint (JStr s)) r = Some (q s r)" if "utf8_ok s" for q s and r :: Room
    using that by (subst value_field_print) simp_all
  have i: "value_field as_int64 q (jprint (JInt i)) r = Some (q i r)" if "is_i64 i" for q i and r :: Room
    using that by (subst value_field_print) (simp_all add: ParseInt_FormatInt)
  have t: "value_field as_time q (jprint c) r = Some (q (rm_created_at v) r)" for q and r :: Room
    using cd by (subst value_field_print) auto
  have p: "pointer_field as_time q (jprint j) r = Some (q (Some x) r)" if "time_json x = Some j" for q x j and r :: Room
    using time_json_read [OF that] time_json_doc [OF that] by (subst pointer_field_print) auto
  note defs = room_json_def object_json_def room_members_def omit_empty_def omit_nil_time_def room_fields_def field_for_def zero_room_def
  note rest = assms [unfolded room_sendable_def]
  show ?thesis
  proof (cases "rm_started_at v"; cases "rm_ended_at v")
    assume "rm_started_at v = None" "rm_ended_at v = None"
    then show ?thesis using c cd rest
      by (cases v) (auto simp: defs str i t p utf8_ok_ascii byte_def simp del: jprint.simps)
  next
    fix e
    assume "rm_started_at v = None" and e: "rm_ended_at v = Some e"
    moreover from e rest obtain j where j: "time_json e = Some j" by auto
    ultimately show ?thesis using c cd rest time_json_doc [OF j]
      by (cases v) (auto simp: defs str i t p [OF j] utf8_ok_ascii byte_def simp del: jprint.simps)
  next
    fix b
    assume b: "rm_started_at v = Some b" and "rm_ended_at v = None"
    moreover from b rest obtain j where j: "time_json b = Some j" by auto
    ultimately show ?thesis using c cd rest time_json_doc [OF j]
      by (cases v) (auto simp: defs str i t p [OF j] utf8_ok_ascii byte_def simp del: jprint.simps)
  next
    fix b e
    assume b: "rm_started_at v = Some b" and e: "rm_ended_at v = Some e"
    moreover from b rest obtain j where j: "time_json b = Some j" by auto
    moreover from e rest obtain k where k: "time_json e = Some k" by auto
    ultimately show ?thesis using c cd rest time_json_doc [OF j] time_json_doc [OF k]
      by (cases v) (auto simp: defs str i t p [OF j] p [OF k] utf8_ok_ascii byte_def simp del: jprint.simps)
  qed
qed

lemma access_print:
  assumes "room_sendable (ra_room a)"
  shows "\<exists>fs. access_room_json a = Some (JObj fs) \<and> doc_ok (JObj fs)
    \<and> decode_members room_access_fields (map (\<lambda>f. (fst f, jprint (snd f))) fs) zero_access = Some a"
proof -
  obtain rs where rs: "room_json (ra_room a) = Some (JObj rs)" "doc_ok (JObj rs)"
    "decode_members room_fields (map (\<lambda>f. (fst f, jprint (snd f))) rs) zero_room = Some (ra_room a)"
    using room_print [OF assms] by blast
  have b: "value_field as_bool q (jprint (JBool x)) r = Some (q x r)" for q x and r :: RoomAccess
    by (subst value_field_print) simp_all
  have f: "struct_field room_fields ra_room q (jprint (JObj rs)) zero_access = Some (q (ra_room a) zero_access)" for q
    using rs(3) by (simp add: struct_field_def zero_access_def unmarshal_print [OF rs(2)] del: jprint.simps)
  have same: "zero_access\<lparr>ra_room := ra_room a, ra_banned := ra_banned a, ra_muted := ra_muted a\<rparr> = a"
    by (cases a) (simp add: zero_access_def)
  show ?thesis
    using rs(1,2) same
    by (simp add: access_room_json_def object_json_def room_access_fields_def field_for_def b f utf8_ok_ascii byte_def
        del: jprint.simps)
qed

section \<open>The client and the server\<close>

lemma slash_not_in_FormatInt: "CHR ''/'' \<notin> set (FormatInt v)"
proof
  assume "CHR ''/'' \<in> set (FormatInt v)"
  then obtain n where "CHR ''/'' \<in> set (nat_digits n)" by (auto simp: FormatInt_def split: if_splits)
  from nat_digits_range [OF this] obtain d where d: "d < 10" "CHR ''/'' = digit_char d" by blast
  from arg_cong [OF d(2), of "of_char :: char \<Rightarrow> nat"] digit_char_value [OF d(1)] show False by simp
qed

lemma internal_paths:
  "path_segments (''/internal/v1/rooms/'' @ FormatInt i) = [''internal'', ''v1'', ''rooms'', FormatInt i]"
  "path_segments (''/internal/v1/rooms/'' @ FormatInt i @ ''/access/'' @ FormatInt u)
     = [''internal'', ''v1'', ''rooms'', FormatInt i, ''access'', FormatInt u]"
  "path_segments (''/internal/v1/rooms/'' @ FormatInt i @ ''/join/'' @ FormatInt u)
     = [''internal'', ''v1'', ''rooms'', FormatInt i, ''join'', FormatInt u]"
  by (simp_all add: path_segments_def slash_not_in_FormatInt Split_piece Split_last)

lemma internal_routes:
  "find_route (identity_routes s) (plain_call ''GET'' (''/internal/v1/rooms/'' @ FormatInt i))
     = Some (getRoom s, [(''room_id'', FormatInt i)])"
  "find_route (identity_routes s) (plain_call ''GET'' (''/internal/v1/rooms/'' @ FormatInt i @ ''/access/'' @ FormatInt u))
     = Some (access_page s, [(''room_id'', FormatInt i), (''user_id'', FormatInt u)])"
  "find_route (identity_routes s) (plain_call ''POST'' (''/internal/v1/rooms/'' @ FormatInt i @ ''/join/'' @ FormatInt u))
     = Some (internal_join s, [(''room_id'', FormatInt i), (''user_id'', FormatInt u)])"
  using internal_paths(1) [of i] internal_paths(2,3) [of i u]
  by (simp_all add: identity_routes_def route_def patterns method_ok_def plain_call_def Let_def)

text \<open>What the client makes of an answer of the room service.\<close>

definition relayed :: "(go_err + 'a) \<times> 's \<Rightarrow> (go_err + 'a) \<times> 's" where
  "relayed x = (case x of (r, s) \<Rightarrow> (case r of Inr v \<Rightarrow> Inr v
     | Inl e \<Rightarrow> Inl (Plain (''identity-room status='' @ FormatInt (hr_code (handleRoomError e)))), s))"

lemma refused_code: "go_quot (hr_code (handleRoomError e)) 100 \<noteq> 2"
  by (simp add: handleRoomError_def go_quot_def)

lemma client_room_call:
  assumes send: "ic_send c m (ic_base c @ path) (d, w)
      = (Inr (case r of Inr v \<Rightarrow> (writeJSON 200 (js v))\<lparr>hr_headers := hs1\<rparr> | Inl e \<Rightarrow> (handleRoomError e)\<lparr>hr_headers := hs2 e\<rparr>), s)"
    and reads: "\<And>v. r = Inr v \<Longrightarrow> \<exists>fs. js v = Some (JObj fs) \<and> doc_ok (JObj fs)
      \<and> decode_members F (map (\<lambda>f. (fst f, jprint (snd f))) fs) z = Some v"
  shows "client_call c m path F z (d, w) = relayed (r, s)"
proof (cases r)
  case (Inl e)
  with send refused_code [of e] show ?thesis by (simp add: client_call_def bind_def relayed_def fail_def)
next
  case (Inr v)
  from reads [OF Inr] obtain fs where "js v = Some (JObj fs)" "doc_ok (JObj fs)"
    "decode_members F (map (\<lambda>f. (fst f, jprint (snd f))) fs) z = Some v" by blast
  then have "decode_first F z (hr_body (writeJSON 200 (js v))) = Some v"
    by (simp add: writeJSON_def decode_first_print del: jprint.simps doc_ok.simps)
  with send Inr show ?thesis by (simp add: client_call_def bind_def relayed_def go_quot_def ret_def)
qed

text \<open>A page of a room operation, asked for over a network that delivers.\<close>

lemma deliver_room:
  assumes "next_outcome w = (Done, w1)" and "idgen_New (d, w1) = (Inr ident, (d, w2))"
    and "find_route rs (plain_call method path) = Some (h, vs)"
    and "\<And>rq. hc_values rq = vs \<Longrightarrow> h rq = answer_room m (\<lambda>v. ret (writeJSON 200 (js v)))"
    and "m (d, w2) = (r, s)"
  shows "\<exists>hs1 hs2. deliver (serve rs) base method (base @ path) (d, w)
      = (Inr (case r of Inr v \<Rightarrow> (writeJSON 200 (js v))\<lparr>hr_headers := hs1\<rparr> | Inl e \<Rightarrow> (handleRoomError e)\<lparr>hr_headers := hs2 e\<rparr>), s)"
proof -
  let ?rq = "plain_call method path"
  let ?id = "(''X-Request-ID'', ident)"
  have "h (?rq\<lparr>hc_headers := ?id # filter (\<lambda>(k, _). k \<noteq> ''X-Request-ID'') (hc_headers ?rq), hc_values := vs\<rparr>) (d, w2)
      = (Inr (case r of Inr v \<Rightarrow> writeJSON 200 (js v) | Inl e \<Rightarrow> handleRoomError e), s)"
    using assms(5) by (subst assms(4)) (auto simp: answer_room_def handle_def ret_def split: sum.splits)
  from serve_numbered [OF assms(3) _ assms(2) this]
  have run: "serve rs ?rq (d, w1) = (Inr (case r of Inr v \<Rightarrow> (writeJSON 200 (js v))
        \<lparr>hr_headers := ?id # hr_headers (writeJSON 200 (js v))\<rparr>
      | Inl e \<Rightarrow> (handleRoomError e)\<lparr>hr_headers := ?id # hr_headers (handleRoomError e)\<rparr>), s)"
    by (simp add: serve_def plain_call_def value_of_def split: sum.splits)
  then have "deliver (serve rs) base method (base @ path) (d, w) = serve rs ?rq (d, w1)"
    using assms(1) by (simp add: deliver_def)
  also note run
  finally show ?thesis
    by (intro exI [of _ "?id # [(''Content-Type'', ''application/json'')]"] exI [of _ "\<lambda>e. ?id # hr_headers (handleRoomError e)"])
      (simp add: writeJSON_def split: sum.splits)
qed

definition identity_client :: "string \<Rightarrow> 'd Server \<Rightarrow> 'd Client" where
  "identity_client base sv = Client_New base (deliver (NewIdentityRoom sv) (TrimRight_char base (CHR ''/'')))"

lemma identity_client_fields [simp]:
  "ic_base (identity_client base sv) = TrimRight_char base (CHR ''/'')"
  "ic_send (identity_client base sv) = deliver (NewIdentityRoom sv) (TrimRight_char base (CHR ''/''))"
  by (simp_all add: identity_client_def Client_New_def)

lemma page_answers:
  assumes "sv_rooms s = Some api" and "0 < i" and "is_i64 i" and "0 < u" and "is_i64 u"
  shows "hc_values rq = [(''room_id'', FormatInt i)] \<Longrightarrow>
      getRoom s rq = answer_room (api_get api i) (\<lambda>v. ret (writeJSON 200 (room_json v)))"
    and "hc_values rq = [(''room_id'', FormatInt i), (''user_id'', FormatInt u)] \<Longrightarrow>
      access_page s rq = answer_room (api_access api i u) (\<lambda>v. ret (writeJSON 200 (access_room_json v)))"
    and "hc_values rq = [(''room_id'', FormatInt i), (''user_id'', FormatInt u)] \<Longrightarrow>
      internal_join s rq = answer_room (api_join api i u) (\<lambda>v. ret (writeJSON 200 (room_json v)))"
  using assms
  by (simp_all add: getRoom_def access_page_def internal_join_def pathInt64_def value_of_def need_def ParseInt_FormatInt)

lemma is_i64_1: "is_i64 1"
  by (simp add: is_i64_def)

lemma answer_of_get:
  "GetRoomAccess rs i u (x, w) = (Inr a, s) \<Longrightarrow> \<exists>s1. Room_Get rs i (x, w) = (Inr (ra_room a), s1)"
  "Room_Join rs i u (x, w) = (Inr v, s) \<Longrightarrow> \<exists>s1. Room_Get rs i (x, w) = (Inr v, s1)"
  by (auto simp: GetRoomAccess_def Room_Join_def bind_eq split: if_splits)

text \<open>
  The three calls, one by one: each is the room service's, as seen through the status code and
  the printed value.
\<close>

lemma client_get:
  assumes "next_outcome w = (Done, w1)" and "idgen_New (d, w1) = (Inr ident, (d, w2))" and "0 < i" and "is_i64 i"
    and "\<And>v s. at_site (Room_Get rs i) (d, w2) = (Inr v, s) \<Longrightarrow> room_sendable v"
  shows "Client_Get (identity_client base (identity_server U rs au server c issuer ttl shards)) i (d, w)
      = relayed (at_site (Room_Get rs i) (d, w2))"
proof -
  let ?s = "identity_deps U rs au server c issuer ttl shards"
  let ?c = "identity_client base (identity_server U rs au server c issuer ttl shards)"
  note page = page_answers [of ?s "room_api rs", OF _ assms(3,4) zero_less_one is_i64_1, simplified]
  obtain r s where g: "at_site (Room_Get rs i) (d, w2) = (r, s)" by (metis prod.collapse)
  from deliver_room [OF assms(1,2), of "identity_routes ?s", folded NewIdentityRoom_live, OF internal_routes(1) page(1)] g
  obtain hs1 hs2 where "ic_send ?c ''GET'' (ic_base ?c @ ''/internal/v1/rooms/'' @ FormatInt i) (d, w)
      = (Inr (case r of Inr v \<Rightarrow> (writeJSON 200 (room_json v))\<lparr>hr_headers := hs1\<rparr> | Inl e \<Rightarrow> (handleRoomError e)\<lparr>hr_headers := hs2 e\<rparr>), s)"
    by (fastforce simp: room_api_def)
  then have "Client_Get ?c i (d, w) = relayed (r, s)"
    unfolding Client_Get_def by (rule client_room_call) (use room_print assms(5) g in blast)
  with g show ?thesis by simp
qed

lemma client_access:
  assumes "next_outcome w = (Done, w1)" and "idgen_New (d, w1) = (Inr ident, (d, w2))" and "0 < i" and "is_i64 i" and "0 < u" and "is_i64 u"
    and "\<And>v s. at_site (GetRoomAccess rs i u) (d, w2) = (Inr v, s) \<Longrightarrow> room_sendable (ra_room v)"
  shows "Client_GetRoomAccess (identity_client base (identity_server U rs au server c issuer ttl shards)) i u (d, w)
      = relayed (at_site (GetRoomAccess rs i u) (d, w2))"
proof -
  let ?s = "identity_deps U rs au server c issuer ttl shards"
  let ?c = "identity_client base (identity_server U rs au server c issuer ttl shards)"
  note page = page_answers [of ?s "room_api rs", OF _ assms(3-6), simplified]
  obtain r s where g: "at_site (GetRoomAccess rs i u) (d, w2) = (r, s)" by (metis prod.collapse)
  from deliver_room [OF assms(1,2), of "identity_routes ?s", folded NewIdentityRoom_live, OF internal_routes(2) page(2)] g
  obtain hs1 hs2 where "ic_send ?c ''GET'' (ic_base ?c @ ''/internal/v1/rooms/'' @ FormatInt i @ ''/access/'' @ FormatInt u) (d, w)
      = (Inr (case r of Inr v \<Rightarrow> (writeJSON 200 (access_room_json v))\<lparr>hr_headers := hs1\<rparr> | Inl e \<Rightarrow> (handleRoomError e)\<lparr>hr_headers := hs2 e\<rparr>), s)"
    by (fastforce simp: room_api_def)
  then have "Client_GetRoomAccess ?c i u (d, w) = relayed (r, s)"
    unfolding Client_GetRoomAccess_def by (rule client_room_call) (use access_print assms(7) g in blast)
  with g show ?thesis by simp
qed

lemma client_join:
  assumes "next_outcome w = (Done, w1)" and "idgen_New (d, w1) = (Inr ident, (d, w2))" and "0 < i" and "is_i64 i" and "0 < u" and "is_i64 u"
    and "\<And>v s. at_site (Room_Join rs i u) (d, w2) = (Inr v, s) \<Longrightarrow> room_sendable v"
  shows "Client_Join (identity_client base (identity_server U rs au server c issuer ttl shards)) i u (d, w)
      = relayed (at_site (Room_Join rs i u) (d, w2))"
proof -
  let ?s = "identity_deps U rs au server c issuer ttl shards"
  let ?c = "identity_client base (identity_server U rs au server c issuer ttl shards)"
  note page = page_answers [of ?s "room_api rs", OF _ assms(3-6), simplified]
  obtain r s where g: "at_site (Room_Join rs i u) (d, w2) = (r, s)" by (metis prod.collapse)
  from deliver_room [OF assms(1,2), of "identity_routes ?s", folded NewIdentityRoom_live, OF internal_routes(3) page(3)] g
  obtain hs1 hs2 where "ic_send ?c ''POST'' (ic_base ?c @ ''/internal/v1/rooms/'' @ FormatInt i @ ''/join/'' @ FormatInt u) (d, w)
      = (Inr (case r of Inr v \<Rightarrow> (writeJSON 200 (room_json v))\<lparr>hr_headers := hs1\<rparr> | Inl e \<Rightarrow> (handleRoomError e)\<lparr>hr_headers := hs2 e\<rparr>), s)"
    by (fastforce simp: room_api_def)
  then have "Client_Join ?c i u (d, w) = relayed (r, s)"
    unfolding Client_Join_def by (rule client_room_call) (use room_print assms(7) g in blast)
  with g show ?thesis by simp
qed

text \<open>
  C33. The client is the service, behind a network. When a request is delivered, the client's
  \<open>Get\<close>, \<open>GetRoomAccess\<close> and \<open>Join\<close> do to the identity service's stores exactly what the room
  service does, and answer with the very value it answers, provided the room has a JSON form; a
  refusal of the service comes back as an error that only tells the status code.
\<close>

theorem identity_client_agrees:
  assumes "next_outcome w = (Done, w1)" and "idgen_New (d, w1) = (Inr ident, (d, w2))"
    and "0 < i" and "is_i64 i" and "0 < u" and "is_i64 u"
    and "\<And>v s. Room_Get rs i (lv_site d, w2) = (Inr v, s) \<Longrightarrow> room_sendable v"
  shows "Client_Get (identity_client base (identity_server U rs au server c issuer ttl shards)) i (d, w)
      = relayed (at_site (Room_Get rs i) (d, w2))
    \<and> Client_GetRoomAccess (identity_client base (identity_server U rs au server c issuer ttl shards)) i u (d, w)
      = relayed (at_site (GetRoomAccess rs i u) (d, w2))
    \<and> Client_Join (identity_client base (identity_server U rs au server c issuer ttl shards)) i u (d, w)
      = relayed (at_site (Room_Join rs i u) (d, w2))"
proof (intro conjI client_get [OF assms(1-4)] client_access [OF assms(1-6)] client_join [OF assms(1-6)])
  fix v s
  show "room_sendable v" if "at_site (Room_Get rs i) (d, w2) = (Inr v, s)"
    using that assms(7) by (auto simp: at_site_def zoom_def split: prod.splits)
  show "room_sendable v" if "at_site (Room_Join rs i u) (d, w2) = (Inr v, s)"
    using that assms(7) by (auto simp: at_site_def zoom_def dest!: answer_of_get split: prod.splits)
next
  fix v s
  assume "at_site (GetRoomAccess rs i u) (d, w2) = (Inr v, s)"
  then show "room_sendable (ra_room v)"
    using assms(7) by (auto simp: at_site_def zoom_def dest!: answer_of_get split: prod.splits)
qed

text \<open>A closed room is refused, and the client learns the status code only.\<close>

abbreviation sample_site_client :: "live Client" where
  "sample_site_client \<equiv> identity_client ''http://identity/'' (identity_server ascii_only (Room_NewService False) sample_accounts
     ok_server sample_centrifugo \<lparr>is_secret = ''cf'', is_ttl = second\<rparr> second 4)"

lemma closed_room_sendable:
  "Room_Get (Room_NewService False) 5 (lv_site (sold_world StatusClosed), w) = (Inr v, s) \<Longrightarrow> room_sendable v"
proof (cases s)
  case (Pair x' w')
  assume g: "Room_Get (Room_NewService False) 5 (lv_site (sold_world StatusClosed), w) = (Inr v, s)"
  have "utf8_ok StatusClosed" "utf8_ok ''t''" by (simp_all add: utf8_ok_ascii status_defs byte_def)
  moreover have "time_json 0 \<noteq> None"
    by (simp add: time_json_def year_of_time_def year_of_day_def epoch_day_def days_before_year_def Let_def)
  moreover have "v = room_view (closed_room\<lparr>r_status := StatusClosed\<rparr>)"
    using g Pair by (auto simp: Room_Get_def withAnchor_def Room_NewService_def on_rooms_eq bind_eq sold_world_def room_by_id_def
        closed_room_def dest!: Repo_ByID_D)
  ultimately show "room_sendable v"
    by (simp add: room_sendable_def room_view_def closed_room_def is_i64_def utf8_ok_ascii)
qed

theorem identity_client_agrees_witness:
  "fst (Client_Join sample_site_client 5 7 (sold_world StatusClosed, quiet_world)) = Inl (Plain ''identity-room status=409'')"
proof -
  obtain ident w2 where i: "idgen_New (sold_world StatusClosed, quiet_world) = (Inr ident, (sold_world StatusClosed, w2))"
    and w2: "faults w2 = []" by (rule idgen_quiet [of quiet_world "sold_world StatusClosed"]) (simp add: quiet_world_def)
  have "next_outcome quiet_world = (Done, quiet_world)" by (simp add: quiet_world_def)
  from identity_client_agrees [OF this i _ _ _ _ closed_room_sendable, of 5 7]
  have run: "Client_Join sample_site_client 5 7 (sold_world StatusClosed, quiet_world)
      = relayed (at_site (Room_Join (Room_NewService False) 5 7) (sold_world StatusClosed, w2))"
    by (simp add: is_i64_def)
  obtain name where get: "Room_Get (Room_NewService False) 5 (lv_site (sold_world StatusClosed), w2)
      = (Inr ((room_view (closed_room\<lparr>r_status := StatusClosed\<rparr>))\<lparr>rm_anchor_nickname := name\<rparr>), (lv_site (sold_world StatusClosed), w2))"
    using Room_Get_quiet [OF w2, of "Room_NewService False" 5 "lv_site (sold_world StatusClosed)"]
    by (auto simp: sold_world_def room_by_id_def closed_room_def)
  have "at_site (Room_Join (Room_NewService False) 5 7) (sold_world StatusClosed, w2)
      = (Inl (Sentinel Room_ErrNotLiving), (sold_world StatusClosed, w2))"
    by (simp add: at_site_def zoom_def Room_Join_def bind_def get room_view_def closed_room_def fail_def)
  moreover have "''identity-room status='' @ FormatInt 409 = ''identity-room status=409''" by code_simp
  ultimately show ?thesis using run by (simp add: relayed_def handleRoomError_def)
qed

end
