(* ===== verification/Commerce_Authority.thy ===== *)
theory Commerce_Authority
  imports Commerce_Api Identity_Client
begin

text \<open>
  The commerce service of \<^verbatim>\<open>cmd/commerce\<close>, with the identity service behind its client, and who
  moves money over HTTP. The locale \<open>quiet_commerce\<close> names the calls that leave a predicate
  of the state alone; every page but the two that move money does so with it.
\<close>

section \<open>Programs that leave the shop alone\<close>

lemma keeps_shop_elsewhere [simp]:
  "keeps (\<lambda>d. J (lv_shop d)) (at_site n)" "keeps (\<lambda>d. J (lv_shop d)) (at_redis k)"
  "keeps (\<lambda>d. J (lv_shop d)) (at_realtime h)" "keeps (\<lambda>d. J (lv_shop d)) (at_broker b)"
  by (rule keepsI, auto simp: at_eqs)+

lemma keeps_at_shop: "keeps J m \<Longrightarrow> keeps (\<lambda>d. J (lv_shop d)) (at_shop m)"
  by (rule keepsI) (auto simp: at_eqs dest: keepsD)

lemma keeps_Ping [keeps_intro]: "keeps J Store_Ping"
  unfolding Store_Ping_def by (intro keeps_intro)

lemma keeps_mux:
  assumes "\<And>m p h rq. (m, p, h) \<in> set rs \<Longrightarrow> keeps J (h rq)"
  shows "keeps J (mux rs rq)"
proof (rule keepsI)
  fix d w r d' w'
  assume "J d" and "mux rs rq (d, w) = (r, (d', w'))"
  from this(2) show "J d'"
  proof (cases rule: mux_cases)
    case (routed h vs)
    from find_route_in [OF routed(1)] assms obtain m p where "keeps J (h (rq\<lparr>hc_values := vs\<rparr>))" by blast
    from keepsD [OF this \<open>J d\<close> routed(2)] show ?thesis .
  qed (use \<open>J d\<close> in simp)
qed

lemma keeps_recoverer: "keeps J (nxt rq) \<Longrightarrow> keeps J (recoverer nxt rq)"
  unfolding recoverer_def by (intro keeps_intro)

lemma keeps_serve: "(\<And>m p h rq. (m, p, h) \<in> set rs \<Longrightarrow> keeps J (h rq)) \<Longrightarrow> keeps J (serve rs rq)"
  unfolding serve_def requestID_def Let_def by (intro keeps_intro keeps_recoverer keeps_mux)

lemma keeps_deliver:
  assumes "\<And>rq. keeps J (h rq)"
  shows "keeps J (deliver h base method url)"
proof -
  have "J (fst (snd (deliver h base method url (d, w))))" if "J d" for d w
    using that assms by (cases "next_outcome w"; cases "fst (next_outcome w)") (simp_all add: deliver_def Let_def keeps_def)
  then show ?thesis by (simp add: keeps_def)
qed

lemma keeps_client:
  assumes "\<And>m u. keeps J (ic_send c m u)"
  shows "keeps J (Client_Get c i)" and "keeps J (Client_GetRoomAccess c i u)" and "keeps J (Client_IsBanned c i u)"
    and "keeps J (Client_IsMuted c i u)" and "keeps J (Client_Join c i u)" and "keeps J (Client_User c u)"
proof -
  have call: "keeps J (client_call c m p F z)" for m p and F :: "'r fields" and z
    unfolding client_call_def by (intro keeps_intro assms)
  show "keeps J (Client_Get c i)" "keeps J (Client_GetRoomAccess c i u)" "keeps J (Client_IsBanned c i u)"
    "keeps J (Client_IsMuted c i u)" "keeps J (Client_Join c i u)" "keeps J (Client_User c u)"
    unfolding Client_Get_def Client_GetRoomAccess_def Client_IsBanned_def Client_IsMuted_def Client_Join_def Client_User_def
    by (intro keeps_intro call)+
qed

text \<open>The identity service never touches the shop.\<close>

interpretation quiet_shop: quiet_services "identity_deps V rs au server c issuer ttl shards" "\<lambda>d. J (lv_shop d)"
proof (unfold_locales, goal_cases)
  case (1 m)
  then show ?case by (auto simp: databasePingers_def intro!: keeps_intro)
next
  case 2
  then show ?case by (auto intro!: keeps_intro)
qed (auto simp: centrifugo_api_def redis_governance_def auth_api_def redis_stats_def room_api_def)

lemma keeps_shop_identity:
  "keeps (\<lambda>d. J (lv_shop d)) (NewIdentityRoom (identity_server V rs au server c issuer ttl shards) rq)"
  unfolding NewIdentityRoom_live
proof (rule keeps_serve)
  fix m p h rq
  assume "(m, p, h) \<in> set (identity_routes (identity_deps V rs au server c issuer ttl shards))"
  from quiet_shop.keeps_routes [OF this, of J rq]
  show "keeps (\<lambda>d. J (lv_shop d)) (h rq)"
    by (auto simp: startRoom_def stopRoom_def room_api_def intro!: keeps_intro)
qed

lemma keeps_shop_client:
  "keeps (\<lambda>d. J (lv_shop d)) (ic_send (identity_client base (identity_server V rs au server c issuer ttl shards)) m u)"
  by (simp add: keeps_deliver keeps_shop_identity)

section \<open>The wiring\<close>

definition commerce_gifts ::
  "unicode \<Rightarrow> (string \<Rightarrow> string) \<Rightarrow> (string \<times> string) list \<Rightarrow> live Client \<Rightarrow> int \<Rightarrow> int \<Rightarrow> int \<Rightarrow> string \<Rightarrow> live GiftService" where
  "commerce_gifts U ck trace c mx rate window topic = Gift_NewService
     \<lparr>gs_list = at_shop ListActive, gs_by_order = (\<lambda>no. at_shop (ByOrderNo ck no)),
      gs_by_request = (\<lambda>q. at_shop (ByRequestID ck q)), gs_create = (\<lambda>p. at_shop (Create U ck trace p)),
      gs_room = Client_Get c, gs_banned = Client_IsBanned c, gs_limiter = Some (\<lambda>k n t. at_redis (Allow k n t)),
      gs_max = mx, gs_rate = rate, gs_window = window, gs_topic = topic\<rparr>"

definition commerce_server ::
  "TokenManager \<Rightarrow> unicode \<Rightarrow> (string \<Rightarrow> string) \<Rightarrow> live GiftService \<Rightarrow> WalletService \<Rightarrow> live ViewerService \<Rightarrow> live CommerceServer" where
  "commerce_server tokens U ck gs ws viewers =
     \<lparr>cm_tokens = tokens, cm_unicode = U, cm_gifts = gs, cm_balance = (\<lambda>u. at_shop (Service_Balance u)),
      cm_transactions = (\<lambda>u. at_shop (Service_Transactions u)), cm_credit = (\<lambda>u a. at_shop (DevCredit ck ws u a)),
      cm_viewers = Some viewers, cm_mysql = Some Store_Ping, cm_redis = Some Store_Ping\<rparr>"

section \<open>What a request may do to the shop\<close>

text \<open>Nothing that counts; an order of a user, paid from the user's wallet; a credit to a user.\<close>

definition idle :: "commerce_db \<Rightarrow> commerce_db \<Rightarrow> bool" where
  "idle db0 db \<longleftrightarrow> ledger_ok db \<and> gifts db = gifts db0 \<and> gift_orders db = gift_orders db0
     \<and> wallet_transactions db = wallet_transactions db0 \<and> (\<forall>v. balance_of v db = balance_of v db0)"

definition spent :: "int \<Rightarrow> commerce_db \<Rightarrow> commerce_db \<Rightarrow> bool" where
  "spent u db0 db \<longleftrightarrow> ledger_ok db \<and> gifts db = gifts db0
     \<and> (\<exists>os. gift_orders db = gift_orders db0 @ os \<and> (\<forall>ro \<in> set os. o_user_id ro = u))
     \<and> (\<exists>ts. wallet_transactions db = wallet_transactions db0 @ ts \<and> (\<forall>t \<in> set ts. tx_user t = u \<and> biz_type t = ''GIFT''))
     \<and> (\<forall>v. v \<noteq> u \<longrightarrow> balance_of v db = balance_of v db0) \<and> balance_of u db \<le> balance_of u db0"

definition credited :: "int \<Rightarrow> commerce_db \<Rightarrow> commerce_db \<Rightarrow> bool" where
  "credited u db0 db \<longleftrightarrow> ledger_ok db \<and> gifts db = gifts db0 \<and> gift_orders db = gift_orders db0
     \<and> (\<exists>ts. wallet_transactions db = wallet_transactions db0 @ ts \<and> (\<forall>t \<in> set ts. tx_user t = u \<and> biz_type t = ''DEV_CREDIT''))
     \<and> (\<forall>v. v \<noteq> u \<longrightarrow> balance_of v db = balance_of v db0) \<and> balance_of u db0 \<le> balance_of u db"

lemma wallet_opened:
  assumes "wallets db u = None"
  shows "balance_of v (db\<lparr>wallets := (wallets db)(u \<mapsto> \<lparr>w_balance = 0, w_version = 0, w_updated_at = t\<rparr>)\<rparr>) = balance_of v db"
    and "ledger_ok db \<Longrightarrow> ledger_ok (db\<lparr>wallets := (wallets db)(u \<mapsto> \<lparr>w_balance = 0, w_version = 0, w_updated_at = t\<rparr>)\<rparr>)"
proof -
  show "balance_of v (db\<lparr>wallets := (wallets db)(u \<mapsto> \<lparr>w_balance = 0, w_version = 0, w_updated_at = t\<rparr>)\<rparr>) = balance_of v db"
    using assms by (simp add: balance_of_def)
  assume ok: "ledger_ok db"
  then have "txs_of u db = []" using assms by (auto simp: ledger_ok_def ledger_at_def elim: allE [of _ u])
  then show "ledger_ok (db\<lparr>wallets := (wallets db)(u \<mapsto> \<lparr>w_balance = 0, w_version = 0, w_updated_at = t\<rparr>)\<rparr>)"
    using ok by (simp add: ledger_ok_def ledger_at_def txs_of_def is_i64_def)
qed

lemma keeps_idle_ensure: "keeps (idle db0) (wallet_ensure u)"
  unfolding wallet_ensure_def
  by (rule keeps_ext) (auto simp: idle_def wallet_opened split: option.split)

lemma keeps_spent_create:
  assumes "p_UserID p = u"
  shows "keeps (spent u db0) (Create U ck trace p)"
proof (rule keepsI)
  fix db w r db' w'
  assume ok: "spent u db0 db" and eq: "Create U ck trace p (db, w) = (r, (db', w'))"
  then have l: "ledger_ok db" by (simp add: spent_def)
  from eq ledger_ok_balance(2) [OF l] show "spent u db0 db'"
  proof (cases rule: Create_cases)
    case (placed g payload)
    have "0 \<le> gift_price g * p_Count p" using placed(1) by (simp add: orderable_def)
    with ok order_placed_ledger_ok [OF l placed(1)] assms show ?thesis
      unfolding placed(3) spent_def order_placed_simps
      by (auto simp: success_order_def pending_order_def gift_tx_def)
  qed (use ok in simp)
qed

lemma keeps_credited:
  "keeps (credited u db0) (DevCredit ck ws u a)"
proof (cases "devCreditEnabled ws \<and> 1 \<le> a")
  case True
  have "keeps (credited u db0) (Credit ck u a no biz)" for no biz
  proof (rule keepsI)
    fix db w r db' w'
    assume ok: "credited u db0 db" and eq: "Credit ck u a no biz (db, w) = (r, (db', w'))"
    then have l: "ledger_ok db" by (simp add: credited_def)
    from eq ledger_ok_balance(2) [OF l] show "credited u db0 db'"
    proof (cases rule: Credit_cases)
      case posted
      have "ledger_ok db'" unfolding posted(1)
        by (rule posting_ledger_ok) (use l posted in \<open>simp_all add: credit_tx_def\<close>)
      with ok True show ?thesis unfolding posted(1) by (auto simp: credited_def credit_tx_def)
    qed (use ok in simp)
  qed
  then show ?thesis unfolding DevCredit_def by (intro keeps_intro)
qed (auto simp: DevCredit_def intro!: keeps_intro)

text \<open>A gift request asks its store for orders of its own user only.\<close>

lemma keeps_replay_or:
  "(\<And>q. keeps J (gs_by_request s q)) \<Longrightarrow> keeps J (replay_or s i u g n q e)"
  unfolding replay_or_def replay_def by (intro keeps_intro)

lemma keeps_place_order:
  assumes "\<And>p. p_UserID p = u \<Longrightarrow> keeps J (gs_create s p)"
  shows "keeps J (place_order s i a u g n q)"
  unfolding place_order_def by (intro keeps_intro assms) simp

lemma keeps_Gift_Send:
  assumes "\<And>q. keeps J (gs_by_request s q)" and "\<And>i. keeps J (gs_room s i)" and "\<And>i u. keeps J (gs_banned s i u)"
    and "\<And>allow k n t. gs_limiter s = Some allow \<Longrightarrow> keeps J (allow k n t)"
    and "\<And>p. p_UserID p = u \<Longrightarrow> keeps J (gs_create s p)"
  shows "keeps J (Gift_Send U s i u g n q)"
proof -
  note steps = assms(2,3) keeps_replay_or [OF assms(1)] keeps_place_order [OF assms(5)]
  have "keeps J (case gs_limiter s of None \<Rightarrow> ret True | Some allow \<Rightarrow> allow k m t)" for k m t
    using assms(4) by (auto intro!: keeps_intro split: option.split)
  then show ?thesis
    unfolding Gift_Send_def Let_def
    by (intro keeps_if keeps_fail keeps_handle keeps_bind steps)
qed

section \<open>The pages\<close>

locale quiet_commerce =
  fixes s :: "'d CommerceServer" and J :: "'d \<Rightarrow> bool"
  assumes probes: "cm_mysql s = Some m \<Longrightarrow> keeps J m" "cm_redis s = Some m \<Longrightarrow> keeps J m"
    and catalogue: "keeps J (gs_list (cm_gifts s))" "keeps J (gs_by_order (cm_gifts s) no)"
    and wallet: "keeps J (cm_balance s u)" "keeps J (cm_transactions s u)"
begin

lemma keeps_commerce_routes:
  assumes "(m, p, h) \<in> set (commerce_routes s)"
  shows "keeps J (h rq) \<or> (\<exists>nxt. h = requireAuth (cm_tokens s) nxt \<and> m = ''POST''
    \<and> (nxt = sendGift s \<and> p = pattern ''/api/v1/rooms/{room_id}/gifts''
       \<or> nxt = devWalletCredit s \<and> p = pattern ''/api/v1/wallet/dev-credit''))"
proof -
  have probe: "keeps J (probe name (cm_mysql s))" "keeps J (probe name (cm_redis s))" for name
    using probes by (auto simp: probe_def intro!: keeps_intro)
  have "keeps J (h rq)" if "h \<in> {commerce_health, commerce_ready s, listGifts s}"
    using that by (auto simp: commerce_health_def commerce_ready_def listGifts_def Gift_List_def intro!: keeps_intro probe catalogue)
  moreover have "keeps J (h rq)" if "h = requireAuth (cm_tokens s) nxt" "nxt \<in> {walletBalance s, walletTransactions s, giftOrder s}" for nxt
    using that by (auto simp: walletBalance_def walletTransactions_def giftOrder_def Gift_Order_def Let_def
        intro!: keeps_requireAuth keeps_intro catalogue wallet)
  ultimately show ?thesis
    using assms unfolding commerce_routes_def route_def Let_def by simp blast
qed

end

lemma commerce_gifts_fields [simp]:
  "gs_list (commerce_gifts U ck trace c mx rate window topic) = at_shop ListActive"
  "gs_by_order (commerce_gifts U ck trace c mx rate window topic) = (\<lambda>no. at_shop (ByOrderNo ck no))"
  "gs_by_request (commerce_gifts U ck trace c mx rate window topic) = (\<lambda>q. at_shop (ByRequestID ck q))"
  "gs_create (commerce_gifts U ck trace c mx rate window topic) = (\<lambda>p. at_shop (Create U ck trace p))"
  "gs_room (commerce_gifts U ck trace c mx rate window topic) = Client_Get c"
  "gs_banned (commerce_gifts U ck trace c mx rate window topic) = Client_IsBanned c"
  "gs_limiter (commerce_gifts U ck trace c mx rate window topic) = Some (\<lambda>k n t. at_redis (Allow k n t))"
  by (simp_all add: commerce_gifts_def Gift_NewService_def)

lemma commerce_server_fields [simp]:
  "cm_tokens (commerce_server tokens U ck gs ws vs) = tokens"
  "cm_unicode (commerce_server tokens U ck gs ws vs) = U"
  "cm_gifts (commerce_server tokens U ck gs ws vs) = gs"
  "cm_balance (commerce_server tokens U ck gs ws vs) = (\<lambda>u. at_shop (Service_Balance u))"
  "cm_transactions (commerce_server tokens U ck gs ws vs) = (\<lambda>u. at_shop (Service_Transactions u))"
  "cm_credit (commerce_server tokens U ck gs ws vs) = (\<lambda>u a. at_shop (DevCredit ck ws u a))"
  "cm_viewers (commerce_server tokens U ck gs ws vs) = Some vs"
  "cm_mysql (commerce_server tokens U ck gs ws vs) = Some Store_Ping"
  "cm_redis (commerce_server tokens U ck gs ws vs) = Some Store_Ping"
  by (simp_all add: commerce_server_def)

interpretation quiet_idle: quiet_commerce
  "commerce_server tokens U ck (commerce_gifts U ck trace c mx rate window topic) ws vs" "\<lambda>d. idle db0 (lv_shop d)"
  by unfold_locales
    (auto simp: ListActive_def ByOrderNo_def Service_Balance_def Service_Transactions_def Transactions_def Repo_Balance_def
      wallet_balance_def intro!: keeps_at_shop keeps_intro keeps_idle_ensure)

section \<open>Who moves money\<close>

definition moves_money :: "TokenManager \<Rightarrow> WalletService \<Rightarrow> http_call \<Rightarrow> int \<Rightarrow> commerce_db \<Rightarrow> commerce_db \<Rightarrow> bool" where
  "moves_money m ws rq t db db' \<longleftrightarrow> idle db db'
     \<or> (\<exists>u. bearer m rq t = Some u \<and> hc_method rq = ''POST''
          \<and> ((\<exists>room. path_segments (hc_path rq) = [''api'', ''v1'', ''rooms'', room, ''gifts''] \<and> spent u db db')
             \<or> (path_segments (hc_path rq) = [''api'', ''v1'', ''wallet'', ''dev-credit''] \<and> devCreditEnabled ws \<and> credited u db db')))"

lemma money_paths:
  "match_path (pattern ''/api/v1/rooms/{room_id}/gifts'') ss = Some vs \<Longrightarrow> \<exists>t. ss = [''api'', ''v1'', ''rooms'', t, ''gifts'']"
  "match_path (pattern ''/api/v1/wallet/dev-credit'') ss = Some vs \<Longrightarrow> ss = [''api'', ''v1'', ''wallet'', ''dev-credit'']"
  unfolding commerce_patterns match_steps by auto

lemma keeps_sendGift:
  assumes "\<And>i g n q. keeps J (Gift_Send (cm_unicode s) (cm_gifts s) i u g n q)"
    and "\<And>v i n. cm_viewers s = Some v \<Longrightarrow> keeps J (Viewer_AddGiftValue v i u n)"
  shows "keeps J (sendGift s rq u)"
  unfolding sendGift_def Let_def
  by (intro keeps_known keeps_case_sum keeps_case_prod keeps_if keeps_ret keeps_handle keeps_bind keeps_ignore assms)

lemma keeps_spent_page:
  "keeps (\<lambda>x. spent u db0 (lv_shop x)) (sendGift (commerce_server tokens U ck
     (commerce_gifts U ck trace (identity_client base (identity_server V rs au server c issuer ttl shards)) mx rate window topic)
     ws (Viewer_NewService (redis_viewers srt shards) vttl)) rq u)"
proof -
  have "keeps (\<lambda>x. spent u db0 (lv_shop x)) (Gift_Send U (commerce_gifts U ck trace
      (identity_client base (identity_server V rs au server c issuer ttl shards)) mx rate window topic) i u g n q)" for i g n q
    by (rule keeps_Gift_Send)
      (auto simp: ByRequestID_def intro!: keeps_at_shop keeps_read_ext keeps_spent_create keeps_client keeps_shop_client)
  then show ?thesis
    by (intro keeps_sendGift) (auto simp: Viewer_AddGiftValue_def Viewer_NewService_def redis_viewers_def)
qed

lemma keeps_credit_page:
  "keeps (\<lambda>x. credited u db0 (lv_shop x)) (devWalletCredit (commerce_server tokens U ck gs ws vs) rq u)"
  "\<not> devCreditEnabled ws \<Longrightarrow> keeps (\<lambda>x. J (lv_shop x)) (devWalletCredit (commerce_server tokens U ck gs ws vs) rq u)"
  by (auto simp: devWalletCredit_def intro!: keeps_case_sum keeps_ret keeps_handle keeps_at_shop keeps_credited)
    (auto simp: DevCredit_def intro!: keeps_intro)

lemma spent_refl: "ledger_ok db \<Longrightarrow> spent u db db"
  by (simp add: spent_def)

lemma credited_refl: "ledger_ok db \<Longrightarrow> credited u db db"
  by (simp add: credited_def)

lemma idle_refl: "ledger_ok db \<Longrightarrow> idle db db"
  by (simp add: idle_def)

lemma commerce_moves_money:
  assumes "ledger_ok (lv_shop d)"
    and "Commerce_New (commerce_server tokens U ck
        (commerce_gifts U ck trace (identity_client base (identity_server V rs au server c issuer ttl shards)) mx rate window topic)
        ws (Viewer_NewService (redis_viewers srt shards) vttl)) rq (d, w) = (r, (d', w'))"
  shows "moves_money tokens ws rq (go_now w) (lv_shop d) (lv_shop d')"
proof -
  let ?c = "identity_client base (identity_server V rs au server c issuer ttl shards)"
  let ?s = "commerce_server tokens U ck (commerce_gifts U ck trace ?c mx rate window topic) ws
     (Viewer_NewService (redis_viewers srt shards) vttl)"
  obtain q w2 where m: "mux (commerce_routes ?s) rq (d, w) = (q, (d', w2))"
    using assms(2) by (auto simp: Commerce_New_def recoverer_def handle_eq ret_def)
  from m show ?thesis
  proof (cases rule: mux_cases)
    case unrouted
    with assms(1) show ?thesis by (simp add: moves_money_def idle_refl)
  next
    case (routed h vs)
    from find_route_in [OF routed(1)] obtain m p where route: "(m, p, h) \<in> set (commerce_routes ?s)"
      "method_ok m (hc_method rq)" "match_path p (path_segments (hc_path rq)) = Some vs" by blast
    let ?J = "\<lambda>P x. P (lv_shop d) (lv_shop x)"
    note run = keepsD [where d = d and m = "h (rq\<lparr>hc_values := vs\<rparr>)", OF _ _ routed(2)]
    show ?thesis
    proof (cases "keeps (?J idle) (h (rq\<lparr>hc_values := vs\<rparr>))")
      case True
      with run [of "?J idle"] idle_refl [OF assms(1)] show ?thesis by (simp add: moves_money_def)
    next
      case False
      with quiet_idle.keeps_commerce_routes [OF route(1), of "lv_shop d"] obtain nxt where
        h: "h = requireAuth tokens nxt" "m = ''POST''" and nxt: "nxt = sendGift ?s \<and> p = pattern ''/api/v1/rooms/{room_id}/gifts''
         \<or> nxt = devWalletCredit ?s \<and> p = pattern ''/api/v1/wallet/dev-credit''" by auto
      have post: "hc_method rq = ''POST''" using route(2) h(2) by (simp add: method_ok_def)
      from requireAuth_cases [OF routed(2) [unfolded h(1)]] show ?thesis
      proof (elim disjE exE conjE)
        fix u
        assume u: "bearer tokens (rq\<lparr>hc_values := vs\<rparr>) (go_now w) = Some u"
          and page: "nxt (rq\<lparr>hc_values := vs\<rparr>) u (d, w) = (q, (d', w2))"
        note paid = keepsD [where d = d and m = "nxt (rq\<lparr>hc_values := vs\<rparr>) u", OF _ _ page]
        from nxt show ?thesis
        proof
          assume n: "nxt = sendGift ?s \<and> p = pattern ''/api/v1/rooms/{room_id}/gifts''"
          then have "keeps (?J (spent u)) (nxt (rq\<lparr>hc_values := vs\<rparr>) u)"
            by (simp add: keeps_spent_page)
          from paid [OF this] spent_refl [OF assms(1)] money_paths(1) [of _ vs] route(3) n u post show ?thesis
            by (auto simp: moves_money_def)
        next
          assume n: "nxt = devWalletCredit ?s \<and> p = pattern ''/api/v1/wallet/dev-credit''"
          then have "keeps (?J (credited u)) (nxt (rq\<lparr>hc_values := vs\<rparr>) u)"
            and "\<not> devCreditEnabled ws \<Longrightarrow> keeps (?J idle) (nxt (rq\<lparr>hc_values := vs\<rparr>) u)"
            by (simp_all add: keeps_credit_page)
          from paid [OF this(1)] paid [OF this(2)] credited_refl [OF assms(1)] idle_refl [OF assms(1)]
            money_paths(2) [of _ vs] route(3) n u post show ?thesis
            by (auto simp: moves_money_def)
        qed
      qed (simp_all add: moves_money_def idle_refl [OF assms(1)])
    qed
  qed
qed

text \<open>
  Who moves money. Whatever fails, a request to the commerce service leaves every balance,
  ledger entry and order as they were, unless it carries an access token and either asks for a
  gift, and then only debits and orders of the token's user can be added, or asks for a
  development credit where these are enabled, and then only credits to the token's user.
\<close>

theorem http_wallet_authority:
  assumes "ledger_ok (lv_shop d)"
    and "Commerce_New (commerce_server tokens U ck
        (commerce_gifts U ck trace (identity_client base (identity_server V rs au server c issuer ttl shards)) mx rate window topic)
        ws (Viewer_NewService (redis_viewers srt shards) vttl)) rq (d, w) = (r, (d', w'))"
  shows "moves_money tokens ws rq (go_now w) (lv_shop d) (lv_shop d')"
  using assms by (rule commerce_moves_money)

text \<open>User 7 asks for a development credit.\<close>

abbreviation sample_commerce :: "live CommerceServer" where
  "sample_commerce \<equiv> commerce_server sample_manager ascii_only id (commerce_gifts ascii_only id [] sample_site_client 0 0 0 ''gift'')
     (Wallet_NewService True) (Viewer_NewService (redis_viewers id 4) second)"

theorem http_wallet_authority_witness:
  "\<exists>tok d' w'. snd (Commerce_New sample_commerce (sample_call ''POST'' ''/api/v1/wallet/dev-credit'' tok) (sold_world StatusLiving, calm)) = (d', w')
     \<and> bearer sample_manager (sample_call ''POST'' ''/api/v1/wallet/dev-credit'' tok) 0 = Some 7
     \<and> balance_of 7 sample_shop_sold \<le> balance_of 7 (lv_shop d') \<and> balance_of 8 (lv_shop d') = balance_of 8 sample_shop_sold
     \<and> gift_orders (lv_shop d') = gift_orders sample_shop_sold"
proof -
  obtain tok where t: "Issue sample_manager 7 ((), token_world) = (Inr (tok, second), ((), token_world))"
    by (simp add: Issue_def bind_def now_def ret_def Let_def)
  let ?rq = "sample_call ''POST'' ''/api/v1/wallet/dev-credit'' tok"
  have b: "bearer sample_manager ?rq 0 = Some 7" by (rule sample_bearer [OF t]) (simp_all add: is_i64_def)
  obtain r d' w' where run: "Commerce_New sample_commerce ?rq (sold_world StatusLiving, calm) = (r, (d', w'))" by (metis prod.collapse)
  have shop: "lv_shop (sold_world StatusLiving) = sample_shop_sold" by (simp add: sold_world_def)
  have "path_segments ''/api/v1/wallet/dev-credit'' = [''api'', ''v1'', ''wallet'', ''dev-credit'']" by code_simp
  moreover have "ledger_ok (lv_shop (sold_world StatusLiving))" by (simp add: shop sample_shop_sold_ok)
  from http_wallet_authority [OF this run] have "moves_money sample_manager (Wallet_NewService True) ?rq 0 sample_shop_sold (lv_shop d')"
    by (simp add: shop calm_def)
  ultimately have "balance_of 7 sample_shop_sold \<le> balance_of 7 (lv_shop d') \<and> balance_of 8 (lv_shop d') = balance_of 8 sample_shop_sold
     \<and> gift_orders (lv_shop d') = gift_orders sample_shop_sold"
    using b by (auto simp: moves_money_def idle_def credited_def sample_call_def)
  then show ?thesis
    using run b by (intro exI [of _ tok] exI [of _ d'] exI [of _ w'] conjI) (simp_all del: fun_upd_apply)
qed

end
