(* ===== verification/Interaction.thy ===== *)
theory Interaction
  imports Identity_Client Danmaku_Store Danmaku_Live Like_Counting "HOL-Library.Multiset"
begin

text \<open>
  The processes \<^verbatim>\<open>cmd/interaction\<close> and \<^verbatim>\<open>cmd/query\<close>: the services they wire, the SQL they
  read the query database with (\<^verbatim>\<open>internal/querymodel\<close> and the views of
  \<^verbatim>\<open>migrations/008\<close>), and what their pages do to the rest of the program's state.
\<close>

section \<open>The interaction process\<close>

definition interaction_danmaku ::
  "unicode \<Rightarrow> live Client \<Rightarrow> http_server \<Rightarrow> Centrifugo \<Rightarrow> string list \<Rightarrow> TrafficConfig \<Rightarrow> (string \<times> string) list \<Rightarrow> string
   \<Rightarrow> int \<Rightarrow> int \<Rightarrow> live DanmakuService" where
  "interaction_danmaku U identity server c words policy trace topic rate window = Danmaku_NewService
     \<lparr>dm_access = Client_GetRoomAccess identity, dm_user = Client_User identity,
      dm_allow = (\<lambda>k n t. at_redis (Allow k n t)), dm_filter = Some (NewSensitiveFilter U words),
      dm_publish = (\<lambda>ch j. at_realtime (Publish server c ch j)),
      dm_producer = Some (ProduceDanmaku trace (\<lambda>t k v. at_broker (ProduceAsync trace t k v)) topic),
      dm_traffic = Some (Decide (NewPolicy policy)), dm_rate = rate, dm_window = window\<rparr>"

definition interaction_likes :: "live Client \<Rightarrow> int \<Rightarrow> LikeConfig \<Rightarrow> live LikeService" where
  "interaction_likes identity shards cfg =
     Like_NewService (Client_Get identity) (Client_IsBanned identity) (redis_like_store shards) cfg"

text \<open>\<^verbatim>\<open>httpapi.Deps\<close> of the process: no database among them.\<close>

definition interaction_server ::
  "unicode \<Rightarrow> live Client \<Rightarrow> http_server \<Rightarrow> Centrifugo \<Rightarrow> TokenManager \<Rightarrow> Issuer \<Rightarrow> int \<Rightarrow> live DanmakuService \<Rightarrow> LikeConfig
   \<Rightarrow> (viewer_row list \<Rightarrow> viewer_row list) \<Rightarrow> int \<Rightarrow> int \<Rightarrow> live Server" where
  "interaction_server U identity server c tokens issuer ttl danmaku cfg srt shards vttl = (no_deps U)
     \<lparr>sv_redis := Store_Ping, sv_redis_governance := Some redis_governance, sv_centrifugo := Some (centrifugo_api server c),
      sv_app_tokens := tokens, sv_cf_tokens := Some issuer, sv_cf_ttl := ttl, sv_rooms := Some (client_api identity),
      sv_danmaku := (\<lambda>content i u. Danmaku_Send U danmaku i u content), sv_likes := interaction_likes identity shards cfg,
      sv_viewers := Viewer_NewService (redis_viewers srt shards) vttl, sv_stats := Some (redis_stats shards)\<rparr>"

section \<open>The query process\<close>

text \<open>\<^verbatim>\<open>querymodel.Repository.User\<close>: a row of the view of the users table.\<close>

definition display_user :: "User \<Rightarrow> User" where
  "display_user u = \<lparr>u_id = u_id u, u_username = [], u_nickname = u_nickname u, u_avatar = u_avatar u, u_password_hash = [],
     u_status = u_status u, u_created_at = u_created_at u\<rparr>"

definition Query_User :: "int \<Rightarrow> (identity_db, User) prog" where
  "Query_User i = handle (read_ext (\<lambda>db _. case find (\<lambda>u. u_id u = i) (users db) of
       None \<Rightarrow> Inl (Sentinel Sql_ErrNoRows) | Some u \<Rightarrow> Inr (display_user u)))
     (\<lambda>err. fail (if errors_is err Sql_ErrNoRows then Sentinel Auth_ErrUserNotFound else err)) ret"

text \<open>
  The view \<^verbatim>\<open>room_message_feed\<close>, each row with its sequence number: the archived messages, and
  the paid orders with their sender and gift. \<open>seq\<close> gives an order its automatic number.
\<close>

definition danmaku_feed :: "danmaku_row \<Rightarrow> historyMessage \<times> int" where
  "danmaku_feed r = (\<lparr>hm_type = ''danmaku'', hm_message_id = dr_message_id r, hm_room_id = dr_room_id r, hm_user_id = dr_user_id r,
     hm_nickname = dr_nickname r, hm_content = dr_content r, hm_gift_name = [], hm_count = 0, hm_created_at = dr_created_at r\<rparr>, dr_id r)"

definition gift_feed :: "(order_row \<Rightarrow> int) \<Rightarrow> identity_db \<Rightarrow> commerce_db \<Rightarrow> order_row \<Rightarrow> (historyMessage \<times> int) option" where
  "gift_feed seq idb shop ro =
     (if o_status ro \<noteq> 1 then None
      else case (find (\<lambda>u. u_id u = o_user_id ro) (users idb), gift_by_id (o_gift_id ro) shop) of
        (Some u, Some g) \<Rightarrow> Some (\<lparr>hm_type = ''gift'', hm_message_id = ''gift:'' @ o_order_no ro, hm_room_id = o_room_id ro,
          hm_user_id = o_user_id ro, hm_nickname = u_nickname u, hm_content = [], hm_gift_name = gift_name g,
          hm_count = o_gift_count ro, hm_created_at = o_created_at ro\<rparr>, seq ro)
      | _ \<Rightarrow> None)"

definition message_feed :: "danmaku_row list \<Rightarrow> (order_row \<Rightarrow> int) \<Rightarrow> live \<Rightarrow> (historyMessage \<times> int) list" where
  "message_feed archive seq d =
     map danmaku_feed archive @ List.map_filter (gift_feed seq (identity_data (lv_site d)) (lv_shop d)) (gift_orders (lv_shop d))"

text \<open>\<^verbatim>\<open>ORDER BY created_at DESC, sequence DESC LIMIT ?\<close>; rows that agree in both come in some order.\<close>

definition newest_first :: "(historyMessage \<times> int) list \<Rightarrow> (historyMessage \<times> int) list" where
  "newest_first rows = rev (sort_key (\<lambda>r. hm_created_at (fst r)) (sort_key snd rows))"

definition history_query :: "danmaku_row list \<Rightarrow> (order_row \<Rightarrow> int) \<Rightarrow> int \<Rightarrow> int \<Rightarrow> (live, historyMessage list) prog" where
  "history_query archive seq roomID limit = read_ext (\<lambda>d _.
     Inr (map fst (take (nat limit) (newest_first (filter (\<lambda>r. hm_room_id (fst r) = roomID) (message_feed archive seq d))))))"

definition query_server ::
  "unicode \<Rightarrow> danmaku_row list \<Rightarrow> (order_row \<Rightarrow> int) \<Rightarrow> (viewer_row list \<Rightarrow> viewer_row list) \<Rightarrow> int \<Rightarrow> int \<Rightarrow> live Server" where
  "query_server U archive seq srt shards vttl = (no_deps U)
     \<lparr>sv_mysql := Some Store_Ping, sv_history := Some (history_query archive seq), sv_redis := Store_Ping,
      sv_redis_governance := Some redis_governance, sv_profiles := (\<lambda>u. at_site (on_users (Query_User u))),
      sv_viewers := Viewer_NewService (redis_viewers srt shards) vttl, sv_stats := Some (redis_stats shards)\<rparr>"

section \<open>Pages that leave a predicate alone\<close>

lemma keeps_Like_Add:
  assumes "\<And>i. keeps J (ls_room s i)" and "\<And>i u. keeps J (ls_banned s i u)" and "\<And>i n. keeps J (ls_store s i n)"
    and "\<And>allowN k m n t. ls_limiter s = Some allowN \<Longrightarrow> keeps J (allowN k m n t)"
    and "\<And>c i. ls_cache s = Some c \<Longrightarrow> keeps J (lc_room_status c i)"
    and "\<And>c i st t. ls_cache s = Some c \<Longrightarrow> keeps J (lc_set_room_status c i st t)"
    and "\<And>c i u. ls_cache s = Some c \<Longrightarrow> keeps J (lc_ban c i u)"
    and "\<And>c i u b t. ls_cache s = Some c \<Longrightarrow> keeps J (lc_set_ban c i u b t)"
  shows "keeps J (Like_Add s i u n)"
proof -
  have "keeps J (roomStatus s i)" "keeps J (isBanned s i u)"
    unfolding roomStatus_def isBanned_def by (cases "ls_cache s"; auto intro!: keeps_intro assms(1,2,5-8))+
  moreover have "keeps J (case ls_limiter s of None \<Rightarrow> ret True | Some allowN \<Rightarrow> if b then allowN k m n t else ret True)" for b k m t
    by (cases "ls_limiter s") (simp_all add: keeps_ret assms(4))
  ultimately show ?thesis
    unfolding Like_Add_def by (intro keeps_if keeps_bind keeps_fail keeps_ret assms(3))
qed

lemma keeps_Danmaku_Send:
  assumes "\<And>i u. keeps J (dm_access s i u)" and "\<And>u. keeps J (dm_user s u)" and "\<And>k n t. keeps J (dm_allow s k n t)"
    and "\<And>ch j. keeps J (dm_publish s ch j)" and "\<And>p e. dm_producer s = Some p \<Longrightarrow> keeps J (p e)"
    and "\<And>t i m. dm_traffic s = Some t \<Longrightarrow> keeps J (t i m)"
  shows "keeps J (Danmaku_Send U s i u t)"
proof -
  have "keeps J (admit_sender U s i u c)" for c
    unfolding admit_sender_def by (intro keeps_if keeps_bind keeps_fail assms)
  moreover have "keeps J (shape_event s e)" for e
    unfolding shape_event_def by (cases "dm_traffic s") (auto simp: assms(6) intro!: keeps_ret keeps_bind)
  moreover have "keeps J (broadcast_event s e)" for e
    unfolding broadcast_event_def NewPriorityEvent_def by (cases "danmaku_json e") (auto intro!: keeps_intro assms(4))
  moreover have "keeps J (persist_event s e)" for e
    unfolding persist_event_def by (cases "dm_producer s") (simp_all add: keeps_ret keeps_ignore assms(5))
  ultimately show ?thesis
    unfolding Danmaku_Send_def post_event_def Let_def
    by (intro keeps_bind keeps_idgen_New keeps_now keeps_ret)
qed

text \<open>The services the pages of the two processes call, each safe for a predicate.\<close>

locale quiet_pages =
  fixes s :: "'d Server" and J :: "'d \<Rightarrow> bool"
  assumes probes: "sv_mysql s = Some m \<Longrightarrow> keeps J m" "keeps J (sv_redis s)" "sv_centrifugo s = Some c \<Longrightarrow> keeps J (rc_ping c)"
    and reads: "sv_history s = Some q \<Longrightarrow> keeps J (q i n)" "keeps J (sv_profiles s u)"
      "sv_stats s = Some st \<Longrightarrow> keeps J (ss_snapshot st i)"
    and rooms: "sv_rooms s = Some api \<Longrightarrow> keeps J (api_get api i)" "sv_rooms s = Some api \<Longrightarrow> keeps J (api_join api i u)"
      "sv_rooms s = Some api \<Longrightarrow> keeps J (api_is_banned api i u)"
    and viewers: "keeps J (vs_touch (vw_store (sv_viewers s)) i u t)" "keeps J (vs_remove (vw_store (sv_viewers s)) i u)"
      "keeps J (vs_top (vw_store (sv_viewers s)) i n)" "keeps J (vs_online (vw_store (sv_viewers s)) i n)"
    and posts: "keeps J (sv_danmaku s x i u)" "keeps J (Like_Add (sv_likes s) i u n)"
begin

lemmas safe = probes reads rooms viewers posts

lemma keeps_readiness: "keeps J (ready s rq)"
  unfolding ready_def by (intro keeps_need keeps_bind keeps_failing keeps_if keeps_ret keeps_known) (blast intro: safe)+

lemma keeps_interaction_pages:
  "keeps J (joinRoom s rq u)" "keeps J (leaveRoom s rq u)" "keeps J (sendDanmaku s rq u)" "keeps J (likeRoom s rq u)"
  "keeps J (heartbeatRoom s rq u)"
  by (auto simp: joinRoom_def leaveRoom_def sendDanmaku_def likeRoom_def heartbeatRoom_def Viewer_Touch_def Viewer_Leave_def
      Stats_Get_def subscriptions_def Let_def intro!: keeps_intro safe)

lemma keeps_query_pages:
  "keeps J (roomMessages s rq)" "keeps J (topViewers s rq)" "keeps J (roomViewers s rq)" "keeps J (roomStats s rq)"
  by (auto simp: roomMessages_def topViewers_def roomViewers_def roomStats_def Viewer_Top_def Viewer_Online_def Stats_Get_def
      profile_items_def intro!: keeps_intro safe)

lemma keeps_interaction_routes: "(m, p, h) \<in> set (interaction_routes s) \<Longrightarrow> keeps J (h rq)"
  unfolding interaction_routes_def route_def Let_def
  by (auto simp: health_page_def intro!: keeps_readiness keeps_requireAuth keeps_interaction_pages keeps_ret)

lemma keeps_query_routes: "(m, p, h) \<in> set (query_routes s) \<Longrightarrow> keeps J (h rq)"
  unfolding query_routes_def route_def
  by (auto simp: health_page_def intro!: keeps_readiness keeps_query_pages keeps_ret)

end

section \<open>One request to a table\<close>

definition numbered :: "string \<Rightarrow> http_call \<Rightarrow> http_call" where
  "numbered i rq = rq\<lparr>hc_headers := (''X-Request-ID'', i) # filter (\<lambda>(k, _). k \<noteq> ''X-Request-ID'') (hc_headers rq)\<rparr>"

definition panic_page :: http_reply where
  "panic_page = writeError 500 ''INTERNAL_ERROR'' ''internal server error''"

lemma serve_routed:
  assumes "find_route rs rq = Some (h, vs)"
  obtains i w1 where "clocks w1 = clocks w" and "faults w = [] \<Longrightarrow> faults w1 = []"
    and "\<And>r s'. h ((numbered i rq)\<lparr>hc_values := vs\<rparr>) (d, w1) = (r, s') \<Longrightarrow>
      serve rs rq (d, w) = (Inr (let reply = (case r of Inr reply \<Rightarrow> reply | Inl _ \<Rightarrow> panic_page)
        in reply\<lparr>hr_headers := (''X-Request-ID'', i) # hr_headers reply\<rparr>), s')"
proof (cases "value_of (hc_headers rq) ''X-Request-ID'' = []")
  case True
  obtain i w1 where g: "idgen_New (d, w) = (Inr i, (d, w1))" by (rule idgen_returns)
  have q: "faults w = [] \<Longrightarrow> faults w1 = []"
    using g by (metis idgen_quiet prod.inject)
  show ?thesis
  proof (rule that [of w1 i])
    show "clocks w1 = clocks w" using idgen_D [OF g] by simp
    show "faults w = [] \<Longrightarrow> faults w1 = []" by (rule q)
    show "serve rs rq (d, w) = (Inr (let reply = (case r of Inr reply \<Rightarrow> reply | Inl _ \<Rightarrow> panic_page)
        in reply\<lparr>hr_headers := (''X-Request-ID'', i) # hr_headers reply\<rparr>), s')"
      if "h ((numbered i rq)\<lparr>hc_values := vs\<rparr>) (d, w1) = (r, s')" for r s'
      using serve_numbered [OF assms True g that [unfolded numbered_def]]
      by (auto simp: serve_def panic_page_def Let_def writeError_def writeJSON_def split: sum.splits)
  qed
next
  case False
  show ?thesis
  proof (rule that [of w "value_of (hc_headers rq) ''X-Request-ID''"])
    show "serve rs rq (d, w) = (Inr (let reply = (case r of Inr reply \<Rightarrow> reply | Inl _ \<Rightarrow> panic_page)
        in reply\<lparr>hr_headers := (''X-Request-ID'', value_of (hc_headers rq) ''X-Request-ID'') # hr_headers reply\<rparr>), s')"
      if "h ((numbered (value_of (hc_headers rq) ''X-Request-ID'') rq)\<lparr>hc_values := vs\<rparr>) (d, w) = (r, s')" for r s'
      using serve_page [OF assms refl False that [unfolded numbered_def]]
      by (auto simp: serve_def panic_page_def Let_def writeError_def writeJSON_def split: sum.splits)
  qed simp_all
qed

section \<open>Missing dependencies\<close>

lemma interaction_fields [simp]:
  "sv_mysql (interaction_server U identity server c tokens issuer ttl danmaku cfg srt shards vttl) = None"
  "sv_app_tokens (interaction_server U identity server c tokens issuer ttl danmaku cfg srt shards vttl) = tokens"
  "sv_rooms (interaction_server U identity server c tokens issuer ttl danmaku cfg srt shards vttl) = Some (client_api identity)"
  by (simp_all add: interaction_server_def no_deps_def)

text \<open>
  C37. Two pages that can only fail. The readiness page of the interaction service, which is wired
  without a database, and the statistics page of the query service, which is built without
  rooms, answer every request for them with status 500, whatever the state and whatever calls
  fail, and change nothing.
\<close>

theorem missing_dependency_pages:
  assumes "hc_method rq = ''GET''"
    and "path_segments (hc_path rq) = [''ready''] \<and> page = NewInteraction (interaction_server U identity server c tokens issuer ttl danmaku cfg srt shards vttl)
      \<or> path_segments (hc_path rq) = [''api'', ''v1'', ''rooms'', FormatInt room, ''stats''] \<and> 0 < room \<and> is_i64 room
        \<and> page = NewQuery (query_server U archive seq srt shards vttl)"
  shows "\<exists>i w'. page rq (d, w) = (Inr (panic_page\<lparr>hr_headers := (''X-Request-ID'', i) # hr_headers panic_page\<rparr>), (d, w'))"
proof -
  have answer: "\<exists>i w'. serve rs rq (d, w) = (Inr (panic_page\<lparr>hr_headers := (''X-Request-ID'', i) # hr_headers panic_page\<rparr>), (d, w'))"
    if "find_route rs rq = Some (h, vs)" and "\<And>i w1. h ((numbered i rq)\<lparr>hc_values := vs\<rparr>) (d, w1) = (Inl nil_dereference, (d, w1))"
    for rs h vs
  proof -
    note found = that
    obtain i w1 where run: "\<And>r s'. h ((numbered i rq)\<lparr>hc_values := vs\<rparr>) (d, w1) = (r, s') \<Longrightarrow>
      serve rs rq (d, w) = (Inr (let reply = (case r of Inr reply \<Rightarrow> reply | Inl _ \<Rightarrow> panic_page)
        in reply\<lparr>hr_headers := (''X-Request-ID'', i) # hr_headers reply\<rparr>), s')"
      by (rule serve_routed [OF found(1), of w d]) blast
    from run [OF found(2)]
    have "serve rs rq (d, w) = (Inr (panic_page\<lparr>hr_headers := (''X-Request-ID'', i) # hr_headers panic_page\<rparr>), (d, w1))"
      by (simp add: Let_def)
    then show ?thesis by blast
  qed
  let ?s = "interaction_server U identity server c tokens issuer ttl danmaku cfg srt shards vttl"
  let ?i = "?s\<lparr>sv_history := None, sv_governance := None\<rparr>"
  let ?q = "(query_server U archive seq srt shards vttl)\<lparr>sv_centrifugo := None, sv_governance := None, sv_cf_tokens := None, sv_rooms := None\<rparr>"
  from assms(2) show ?thesis
  proof (elim disjE conjE)
    assume path: "path_segments (hc_path rq) = [''ready'']" and page: "page = NewInteraction ?s"
    have "find_route (interaction_routes ?i) rq = Some (ready ?i, [])"
      using path assms(1) by (simp add: interaction_routes_def route_def patterns method_ok_def Let_def)
    moreover have "ready ?i rq' (d, w1) = (Inl nil_dereference, (d, w1))" for rq' w1
      by (simp add: ready_def need_def fail_def)
    ultimately show ?thesis unfolding page NewInteraction_def by (rule answer)
  next
    assume path: "path_segments (hc_path rq) = [''api'', ''v1'', ''rooms'', FormatInt room, ''stats'']" and room: "0 < room" "is_i64 room"
      and page: "page = NewQuery (query_server U archive seq srt shards vttl)"
    have "FormatInt room \<noteq> []" using ParseInt_FormatInt [OF room(2)] by (auto simp: ParseInt_def)
    then have "find_route (query_routes ?q) rq = Some (roomStats ?q, [(''room_id'', FormatInt room)])"
      using path assms(1) by (simp add: query_routes_def route_def patterns method_ok_def)
    moreover have "roomStats ?q (rq'\<lparr>hc_values := [(''room_id'', FormatInt room)]\<rparr>) (d, w1) = (Inl nil_dereference, (d, w1))" for rq' w1
      using room by (simp add: roomStats_def pathInt64_def value_of_def ParseInt_FormatInt need_def fail_def)
    ultimately show ?thesis unfolding page NewQuery_def by (rule answer)
  qed
qed

theorem missing_dependency_pages_witness:
  "\<exists>i w'. NewQuery (query_server ascii_only [] (\<lambda>_. 0) id 4 second) (plain_call ''GET'' ''/api/v1/rooms/5/stats'') (sold_world StatusLiving, quiet_world)
     = (Inr (panic_page\<lparr>hr_headers := (''X-Request-ID'', i) # hr_headers panic_page\<rparr>), (sold_world StatusLiving, w'))"
proof -
  have "path_segments ''/api/v1/rooms/5/stats'' = [''api'', ''v1'', ''rooms'', FormatInt 5, ''stats'']" by code_simp
  then show ?thesis
    by (intro missing_dependency_pages [where room = 5, OF _ disjI2]) (simp_all add: plain_call_def is_i64_def)
qed

section \<open>Joining a room one may not join\<close>

text \<open>Why a room refuses a user, and the error the room service then answers with.\<close>

definition refused_by :: "room_db \<Rightarrow> int \<Rightarrow> int \<Rightarrow> sentinel \<Rightarrow> bool" where
  "refused_by db i u e \<longleftrightarrow> (case room_by_id i db of
     None \<Rightarrow> e = Room_ErrNotFound
   | Some row \<Rightarrow> if r_status row \<noteq> StatusLiving then e = Room_ErrNotLiving else banned_in db i u \<and> e = Room_ErrBanned)"

lemma refused_join:
  assumes "faults w = []" and "refused_by (live_rooms_of d) i u e"
  shows "at_site (Room_Join rs i u) (d, w) = (Inl (Sentinel e), (d, w))"
proof -
  obtain name where get: "Room_Get rs i (lv_site d, w) = ((case room_by_id i (live_rooms_of d) of
      None \<Rightarrow> Inl (Sentinel Room_ErrNotFound) | Some r \<Rightarrow> Inr ((room_view r)\<lparr>rm_anchor_nickname := name\<rparr>)), (lv_site d, w))"
    using Room_Get_quiet [OF assms(1)] by blast
  have "on_rooms (Repo_IsBanned i u) (lv_site d, w) = (Inr (banned_in (live_rooms_of d) i u), (lv_site d, w))"
    using assms(1) by (simp add: on_rooms_def zoom_def Repo_IsBanned_def read_ext_quiet)
  with assms(2) show ?thesis
    by (auto simp: at_site_def zoom_def Room_Join_def bind_def get refused_by_def room_view_def fail_def split: option.splits if_splits)
qed

lemma plain_room_error: "handleRoomError (Plain m) = writeError 500 ''INTERNAL_ERROR'' ''room operation failed''"
  by (simp add: handleRoomError_def)

text \<open>
  C36. A refused user sees a server error. The room service refuses a join of a missing room with
  404, of a room that is not living with 409, and of a banned user with 403; but through the
  interaction service, which asks it over HTTP, each of these joins is answered with status 500,
  although every call completes.
\<close>

theorem interaction_join_refused:
  assumes "faults w = []" and "hc_method rq = ''POST''"
    and "path_segments (hc_path rq) = [''api'', ''v1'', ''rooms'', FormatInt i, ''join'']"
    and "0 < i" and "is_i64 i" and "0 < u" and "is_i64 u"
    and "bearer tokens rq (go_now w) = Some u" and "refused_by (live_rooms_of d) i u e"
  shows "hr_code (handleRoomError (Sentinel e)) \<in> {403, 404, 409}
    \<and> (\<exists>k w'. NewInteraction (interaction_server U (identity_client base (identity_server V rs au server c issuer ttl shards))
          server c tokens issuer ttl danmaku cfg srt shards vttl) rq (d, w)
        = (Inr ((writeError 500 ''INTERNAL_ERROR'' ''room operation failed'')
            \<lparr>hr_headers := [(''X-Request-ID'', k), (''Content-Type'', ''application/json'')]\<rparr>), (d, w')))"
proof
  let ?id = "identity_client base (identity_server V rs au server c issuer ttl shards)"
  let ?s = "(interaction_server U ?id server c tokens issuer ttl danmaku cfg srt shards vttl)\<lparr>sv_history := None, sv_governance := None\<rparr>"
  let ?h = "requireAuth tokens (joinRoom ?s)"
  show "hr_code (handleRoomError (Sentinel e)) \<in> {403, 404, 409}"
    using assms(9) by (auto simp: refused_by_def handleRoomError_def split: option.splits if_splits)
  have "FormatInt i \<noteq> []" using ParseInt_FormatInt [OF assms(5)] by (auto simp: ParseInt_def)
  then have found: "find_route (interaction_routes ?s) rq = Some (?h, [(''room_id'', FormatInt i)])"
    using assms(2,3) by (simp add: interaction_routes_def route_def patterns method_ok_def Let_def)
  obtain k w1 where w1: "clocks w1 = clocks w" "faults w1 = []"
    and run: "\<And>r s'. ?h ((numbered k rq)\<lparr>hc_values := [(''room_id'', FormatInt i)]\<rparr>) (d, w1) = (r, s') \<Longrightarrow>
      serve (interaction_routes ?s) rq (d, w) = (Inr (let reply = (case r of Inr reply \<Rightarrow> reply | Inl _ \<Rightarrow> panic_page)
        in reply\<lparr>hr_headers := (''X-Request-ID'', k) # hr_headers reply\<rparr>), s')"
    by (rule serve_routed [OF found, of w d]) (use assms(1) in blast)
  let ?rq = "(numbered k rq)\<lparr>hc_values := [(''room_id'', FormatInt i)]\<rparr>"
  obtain ident w2 where g: "idgen_New (d, w1) = (Inr ident, (d, w2))" and w2: "faults w2 = []" by (rule idgen_quiet [OF w1(2)])
  have "Client_Join ?id i u (d, w1) = relayed (at_site (Room_Join rs i u) (d, w2))"
    using w1(2) refused_join [OF w2 assms(9)] by (intro client_join [OF _ g assms(4-7)]) simp_all
  then obtain m where join: "Client_Join ?id i u (d, w1) = (Inl (Plain m), (d, w2))"
    using refused_join [OF w2 assms(9)] by (simp add: relayed_def)
  have "joinRoom ?s ?rq u (d, w1) = (Inr (writeError 500 ''INTERNAL_ERROR'' ''room operation failed''), (d, w2))"
    using assms(4,5) join
    by (simp add: joinRoom_def pathInt64_def value_of_def ParseInt_FormatInt need_def answer_room_def handle_def client_api_def
        ret_def plain_room_error)
  moreover have "bearer tokens ?rq (go_now w1) = Some u" using assms(8) w1(1) by (simp add: numbered_def clocks_def)
  ultimately have "?h ?rq (d, w1) = (Inr (writeError 500 ''INTERNAL_ERROR'' ''room operation failed''), (d, w2))"
    by (simp only: requireAuth_bearer)
  from run [OF this] show "\<exists>k w'. NewInteraction (interaction_server U ?id server c tokens issuer ttl danmaku cfg srt shards vttl) rq (d, w)
        = (Inr ((writeError 500 ''INTERNAL_ERROR'' ''room operation failed'')
            \<lparr>hr_headers := [(''X-Request-ID'', k), (''Content-Type'', ''application/json'')]\<rparr>), (d, w'))"
    unfolding NewInteraction_def by (intro exI) (simp add: Let_def writeError_def writeJSON_def)
qed

text \<open>User 7 asks to join a closed room.\<close>

abbreviation sample_interaction :: "live Server" where
  "sample_interaction \<equiv> interaction_server ascii_only sample_site_client ok_server sample_centrifugo sample_manager
     \<lparr>is_secret = ''cf'', is_ttl = second\<rparr> second
     (danmaku_live ascii_only (Room_NewService True) ok_server sample_centrifugo [] None None 0 0)
     \<lparr>lcfg_rate = 0, lcfg_window = 0, lcfg_room_ttl = 0, lcfg_ban_ttl = 0\<rparr> id 4 second"

theorem interaction_join_refused_witness:
  "\<exists>tok k w'. NewInteraction sample_interaction (sample_call ''POST'' ''/api/v1/rooms/5/join'' tok) (sold_world StatusClosed, calm)
     = (Inr ((writeError 500 ''INTERNAL_ERROR'' ''room operation failed'')
         \<lparr>hr_headers := [(''X-Request-ID'', k), (''Content-Type'', ''application/json'')]\<rparr>), (sold_world StatusClosed, w'))"
proof -
  obtain tok where t: "Issue sample_manager 7 ((), token_world) = (Inr (tok, second), ((), token_world))"
    by (simp add: Issue_def bind_def now_def ret_def Let_def)
  let ?rq = "sample_call ''POST'' ''/api/v1/rooms/5/join'' tok"
  have "bearer sample_manager ?rq (go_now calm) = Some 7"
    using sample_bearer [OF t] by (simp add: is_i64_def calm_def)
  moreover have "path_segments (hc_path ?rq) = [''api'', ''v1'', ''rooms'', FormatInt 5, ''join'']"
  proof -
    have "path_segments ''/api/v1/rooms/5/join'' = [''api'', ''v1'', ''rooms'', FormatInt 5, ''join'']" by code_simp
    then show ?thesis by (simp add: sample_call_def)
  qed
  moreover have "refused_by (live_rooms_of (sold_world StatusClosed)) 5 7 Room_ErrNotLiving"
    by (simp add: refused_by_def sold_world_def room_by_id_def closed_room_def status_defs)
  ultimately show ?thesis
    using interaction_join_refused [of calm ?rq 5 7 sample_manager "sold_world StatusClosed" Room_ErrNotLiving]
    by (simp add: is_i64_def sample_call_def calm_def) blast
qed

section \<open>The message history\<close>

text \<open>The loop that swaps the ends turns the list round.\<close>

lemma swap_ends_middle:
  "length A = l \<Longrightarrow> r + 1 = l + length M \<Longrightarrow> swap_ends l r (A @ M @ B) = A @ rev M @ B"
proof (induction "length M" arbitrary: A M B l r rule: less_induct)
  case less
  show ?case
  proof (cases "l < r")
    case False
    then have "rev M = M" using less.prems by (cases M; cases "tl M"; simp)
    with False show ?thesis by (subst swap_ends.simps) simp
  next
    case True
    then obtain x N y where M: "M = x # N @ [y]"
      using less.prems by (cases M; cases "tl M" rule: rev_cases) auto
    then have r: "r = l + length N + 1" using less.prems by simp
    have "swap_ends l r (A @ M @ B) = swap_ends (l + 1) (r - 1) ((A @ [y]) @ N @ (x # B))"
      using True less.prems(1) r unfolding M
      by (subst swap_ends.simps) (simp add: nth_append list_update_append)
    also have "\<dots> = (A @ [y]) @ rev N @ (x # B)"
      using less.prems(1) r M by (intro less.hyps) simp_all
    finally show ?thesis using M by simp
  qed
qed

lemma swap_ends_rev: "swap_ends 0 (length xs - 1) xs = rev xs"
proof (cases xs)
  case Nil
  then show ?thesis by (subst swap_ends.simps) simp
next
  case (Cons x ys)
  then show ?thesis using swap_ends_middle [of "[]" 0 "length xs - 1" xs "[]"] by simp
qed

text \<open>Chronological order: by time, then by sequence number.\<close>

definition earlier :: "historyMessage \<times> int \<Rightarrow> historyMessage \<times> int \<Rightarrow> bool" where
  "earlier a b \<longleftrightarrow> hm_created_at (fst a) < hm_created_at (fst b)
     \<or> hm_created_at (fst a) = hm_created_at (fst b) \<and> snd a \<le> snd b"

lemma lex_sorted:
  assumes "sorted (map f zs)" and "\<And>k. sorted (map g (filter (\<lambda>x. f x = k) zs))"
  shows "sorted_wrt (\<lambda>a b. f a < f b \<or> f a = f b \<and> g a \<le> g b) zs"
  using assms
proof (induction zs)
  case (Cons z zs)
  have "f z < f b \<or> f z = f b \<and> g z \<le> g b" if "b \<in> set zs" for b
    using Cons.prems(1) Cons.prems(2) [of "f z"] that by (cases "f b = f z") auto
  moreover have "sorted (map g (filter (\<lambda>x. f x = k) zs))" for k
    using Cons.prems(2) [of k] by (cases "f z = k") auto
  ultimately show ?case using Cons by simp
qed simp

lemma newest_first_sorted: "sorted_wrt earlier (rev (newest_first rows))"
proof -
  let ?zs = "sort_key (\<lambda>r. hm_created_at (fst r)) (sort_key snd rows)"
  have "sorted (map snd (filter (\<lambda>r. hm_created_at (fst r) = k) ?zs))" for k
    by (simp add: sort_key_stable sorted_filter)
  then show ?thesis
    using lex_sorted [of "\<lambda>r. hm_created_at (fst r)" ?zs snd]
    by (simp add: newest_first_def earlier_def [abs_def])
qed

text \<open>
  C35. The latest messages, oldest first. When every call completes, the history page of the query
  service answers the last messages of the room's feed, as many as were asked for or there
  are, in chronological order: put in order of time and sequence number, the feed ends with
  them. The state stays as it is.
\<close>

theorem room_history_latest:
  assumes "faults w = []" and "hc_method rq = ''GET''"
    and "path_segments (hc_path rq) = [''api'', ''v1'', ''rooms'', FormatInt i, ''messages'']" and "0 < i" and "is_i64 i"
    and "limit_of 50 rq = Some n"
  shows "\<exists>older page hs w'. NewQuery (query_server U archive seq srt shards vttl) rq (d, w)
       = (Inr ((writeJSON 200 (items_json history_json (map fst page)))\<lparr>hr_headers := hs\<rparr>), (d, w'))
     \<and> mset (older @ page) = mset (filter (\<lambda>r. hm_room_id (fst r) = i) (message_feed archive seq d))
     \<and> sorted_wrt earlier (older @ page) \<and> (length page = nat n \<or> older = [] \<and> length page \<le> nat n)"
proof -
  let ?q = "(query_server U archive seq srt shards vttl)\<lparr>sv_centrifugo := None, sv_governance := None, sv_cf_tokens := None, sv_rooms := None\<rparr>"
  let ?feed = "filter (\<lambda>r. hm_room_id (fst r) = i) (message_feed archive seq d)"
  let ?page = "rev (take (nat n) (newest_first ?feed))" and ?older = "rev (drop (nat n) (newest_first ?feed))"
  have "FormatInt i \<noteq> []" using ParseInt_FormatInt [OF assms(5)] by (auto simp: ParseInt_def)
  then have found: "find_route (query_routes ?q) rq = Some (roomMessages ?q, [(''room_id'', FormatInt i)])"
    using assms(2,3) by (simp add: query_routes_def route_def patterns method_ok_def)
  obtain k w1 where w1: "faults w1 = []"
    and run: "\<And>r s'. roomMessages ?q ((numbered k rq)\<lparr>hc_values := [(''room_id'', FormatInt i)]\<rparr>) (d, w1) = (r, s') \<Longrightarrow>
      serve (query_routes ?q) rq (d, w) = (Inr (let reply = (case r of Inr reply \<Rightarrow> reply | Inl _ \<Rightarrow> panic_page)
        in reply\<lparr>hr_headers := (''X-Request-ID'', k) # hr_headers reply\<rparr>), s')"
    by (rule serve_routed [OF found, of w d]) (use assms(1) in blast)
  have "limit_of 50 ((numbered k rq)\<lparr>hc_values := vs\<rparr>) = Some n" for vs
    using assms(6) by (simp add: limit_of_def numbered_def)
  moreover have "history_query archive seq i n (d, w1) = (Inr (map fst (take (nat n) (newest_first ?feed))), (d, w1))"
    using w1 by (simp add: history_query_def read_ext_quiet)
  moreover have "swap_ends 0 (length (map fst (take (nat n) (newest_first ?feed))) - 1) (map fst (take (nat n) (newest_first ?feed)))
      = map fst ?page"
    by (simp only: swap_ends_rev rev_map)
  ultimately have "roomMessages ?q ((numbered k rq)\<lparr>hc_values := [(''room_id'', FormatInt i)]\<rparr>) (d, w1)
      = (Inr (writeJSON 200 (items_json history_json (map fst ?page))), (d, w1))"
    using assms(4,5)
    by (simp add: roomMessages_def pathInt64_def value_of_def ParseInt_FormatInt query_server_def handle_def ret_def)
  from run [OF this] have "NewQuery (query_server U archive seq srt shards vttl) rq (d, w)
       = (Inr ((writeJSON 200 (items_json history_json (map fst ?page)))
           \<lparr>hr_headers := (''X-Request-ID'', k) # hr_headers (writeJSON 200 (items_json history_json (map fst ?page)))\<rparr>), (d, w1))"
    unfolding NewQuery_def by (simp add: Let_def)
  moreover have all: "?older @ ?page = rev (newest_first ?feed)"
    by (simp flip: rev_append)
  moreover have "mset (rev (newest_first ?feed)) = mset ?feed" by (simp add: newest_first_def)
  moreover have "length ?page = nat n \<or> ?older = [] \<and> length ?page \<le> nat n" by auto
  ultimately show ?thesis
    using newest_first_sorted [of ?feed] by (intro exI [of _ ?older] exI [of _ ?page] exI conjI) (simp_all only:)
qed

theorem room_history_latest_witness:
  "\<exists>hs w'. NewQuery (query_server ascii_only
       [\<lparr>dr_id = 1, dr_message_id = ''a'', dr_room_id = 5, dr_user_id = 7, dr_nickname = [], dr_content = ''hi'', dr_created_at = 0\<rparr>]
       (\<lambda>_. 0) id 4 second) (plain_call ''GET'' ''/api/v1/rooms/5/messages'') (muted_world\<lparr>lv_shop := sample_shop\<rparr>, quiet_world)
     = (Inr ((writeJSON 200 (items_json history_json [\<lparr>hm_type = ''danmaku'', hm_message_id = ''a'', hm_room_id = 5, hm_user_id = 7,
         hm_nickname = [], hm_content = ''hi'', hm_gift_name = [], hm_count = 0, hm_created_at = 0\<rparr>]))\<lparr>hr_headers := hs\<rparr>),
        (muted_world\<lparr>lv_shop := sample_shop\<rparr>, w'))"
proof -
  let ?row = "\<lparr>dr_id = 1, dr_message_id = ''a'', dr_room_id = 5, dr_user_id = 7, dr_nickname = [], dr_content = ''hi'', dr_created_at = 0\<rparr>"
  have "path_segments ''/api/v1/rooms/5/messages'' = [''api'', ''v1'', ''rooms'', FormatInt 5, ''messages'']" by code_simp
  then have path: "path_segments (hc_path (plain_call ''GET'' ''/api/v1/rooms/5/messages'')) = [''api'', ''v1'', ''rooms'', FormatInt 5, ''messages'']"
    by (simp add: plain_call_def)
  have limit: "limit_of 50 (plain_call ''GET'' ''/api/v1/rooms/5/messages'') = Some 50"
    by (simp add: limit_of_def plain_call_def value_of_def TrimSpace_plain)
  have feed: "filter (\<lambda>r. hm_room_id (fst r) = 5) (message_feed [?row] (\<lambda>_. 0) (muted_world\<lparr>lv_shop := sample_shop\<rparr>)) = [danmaku_feed ?row]"
    by (simp add: message_feed_def danmaku_feed_def sample_shop_def map_filter_simps)
  obtain older page hs w' where run: "NewQuery (query_server ascii_only [?row] (\<lambda>_. 0) id 4 second)
      (plain_call ''GET'' ''/api/v1/rooms/5/messages'') (muted_world\<lparr>lv_shop := sample_shop\<rparr>, quiet_world)
     = (Inr ((writeJSON 200 (items_json history_json (map fst page)))\<lparr>hr_headers := hs\<rparr>), (muted_world\<lparr>lv_shop := sample_shop\<rparr>, w'))"
    and page: "mset (older @ page) = mset [danmaku_feed ?row]" "length page = nat 50 \<or> older = []"
    using room_history_latest [OF _ _ path _ _ limit, of quiet_world ascii_only "[?row]" "\<lambda>_. 0" id 4 second "muted_world\<lparr>lv_shop := sample_shop\<rparr>"]
    unfolding feed by (auto simp: quiet_world_def plain_call_def is_i64_def)
  have "older @ page = [danmaku_feed ?row]" using page(1) by (simp del: mset_append)
  with page(2) have "page = [danmaku_feed ?row]" by (cases older) auto
  then show ?thesis using run by (intro exI) (simp add: danmaku_feed_def)
qed

end
