(* ===== verification/Gateway.thy ===== *)
theory Gateway
  imports Commerce_Authority Interaction
begin

text \<open>
  \<^verbatim>\<open>internal/gateway/server.go\<close>: the public entry, which forwards a request to one of the four
  services, and the whole program behind it. An upstream's URL is its host; hop-by-hop headers
  and the addresses a proxy adds are left out, and the web pages (\<^verbatim>\<open>webui\<close>) are an argument.
\<close>

section \<open>The gateway\<close>

text \<open>A request on its way to an upstream, and the network in between.\<close>

definition forwarded :: "http_call \<Rightarrow> http_call" where
  "forwarded rq = rq\<lparr>hc_headers := filter (\<lambda>(k, _). k \<noteq> ''X-User-ID'') (hc_headers rq), hc_values := []\<rparr>"

definition upstream :: "'d handler \<Rightarrow> 'd handler" where
  "upstream h rq = (\<lambda>(d, w). case next_outcome w of
       (Done, w') \<Rightarrow> h rq (d, w')
     | (Lost m, w') \<Rightarrow> (Inl (Plain m), (d, w'))
     | (Late m, w') \<Rightarrow> (Inl (Plain m), snd (h rq (d, w'))))"

definition gateway_proxy :: "string \<Rightarrow> string \<Rightarrow> 'd handler \<Rightarrow> 'd handler" where
  "gateway_proxy name errorCode transport rq = handle (transport (forwarded rq))
     (\<lambda>_. ret (writeError 502 errorCode (name @ '' service unavailable''))) ret"

definition gateway_health :: "'d handler" where
  "gateway_health rq = ret (writeJSON 200 (Some (JObj [(''milestone'', JStr ''M8''), (''status'', JStr ''ok'')])))"

definition gateway_ready :: "'d handler" where
  "gateway_ready rq = ret (writeJSON 200 (Some (JObj [(''status'', JStr ''ready'')])))"

definition NotFound :: "'d handler" where
  "NotFound rq = ret (text_reply 404 ''404 page not found'')"

definition last_routes :: "'d handler \<Rightarrow> 'd route list" where
  "last_routes webui = map (\<lambda>m. route m ''/internal/'' NotFound) [''GET'', ''POST'', ''PUT'', ''PATCH'', ''DELETE'']
     @ [route ''GET'' ''/'' webui]"

definition gateway_routes :: "'d handler \<Rightarrow> 'd handler \<Rightarrow> 'd handler \<Rightarrow> 'd handler \<Rightarrow> 'd handler \<Rightarrow> 'd route list" where
  "gateway_routes identity interaction commerce query webui =
    [route ''GET'' ''/health'' gateway_health,
     route ''GET'' ''/ready'' gateway_ready,
     route ''POST'' ''/api/v1/auth/register'' identity,
     route ''POST'' ''/api/v1/auth/login'' identity,
     route ''GET'' ''/api/v1/me'' identity,
     route ''POST'' ''/api/v1/realtime/token'' identity,
     route ''POST'' ''/api/v1/rooms'' identity,
     route ''GET'' ''/api/v1/rooms'' identity,
     route ''GET'' ''/api/v1/rooms/{room_id}'' identity,
     route ''POST'' ''/api/v1/rooms/{room_id}/start'' identity,
     route ''POST'' ''/api/v1/rooms/{room_id}/stop'' identity,
     route ''POST'' ''/api/v1/rooms/{room_id}/mutes'' identity,
     route ''GET'' ''/api/v1/rooms/{room_id}/mutes'' identity,
     route ''DELETE'' ''/api/v1/rooms/{room_id}/mutes/{user_id}'' identity,
     route ''POST'' ''/api/v1/rooms/{room_id}/bans'' identity,
     route ''GET'' ''/api/v1/rooms/{room_id}/bans'' identity,
     route ''DELETE'' ''/api/v1/rooms/{room_id}/bans/{user_id}'' identity,
     route ''POST'' ''/api/v1/rooms/{room_id}/join'' interaction,
     route ''POST'' ''/api/v1/rooms/{room_id}/leave'' interaction,
     route ''POST'' ''/api/v1/rooms/{room_id}/danmaku'' interaction,
     route ''POST'' ''/api/v1/rooms/{room_id}/like'' interaction,
     route ''POST'' ''/api/v1/rooms/{room_id}/heartbeat'' interaction,
     route ''GET'' ''/api/v1/gifts'' commerce,
     route ''GET'' ''/api/v1/wallet'' commerce,
     route ''GET'' ''/api/v1/wallet/transactions'' commerce,
     route ''POST'' ''/api/v1/wallet/dev-credit'' commerce,
     route ''POST'' ''/api/v1/rooms/{room_id}/gifts'' commerce,
     route ''GET'' ''/api/v1/gift-orders/{order_no}'' commerce,
     route ''GET'' ''/api/v1/rooms/{room_id}/messages'' query,
     route ''GET'' ''/api/v1/rooms/{room_id}/top-viewers'' query,
     route ''GET'' ''/api/v1/rooms/{room_id}/viewers'' query,
     route ''GET'' ''/api/v1/rooms/{room_id}/stats'' query]
    @ last_routes webui"

text \<open>\<^verbatim>\<open>New(d)\<close> and \<^verbatim>\<open>Handler()\<close>, with a transport to each upstream.\<close>

definition Gateway_New :: "'d handler \<Rightarrow> 'd handler \<Rightarrow> 'd handler \<Rightarrow> 'd handler \<Rightarrow> 'd handler \<Rightarrow> 'd handler" where
  "Gateway_New identity interaction commerce query webui = serve (gateway_routes
     (gateway_proxy ''identity-room'' ''IDENTITY_ROOM_UNAVAILABLE'' identity)
     (gateway_proxy ''interaction'' ''INTERACTION_UNAVAILABLE'' interaction)
     (gateway_proxy ''commerce'' ''COMMERCE_UNAVAILABLE'' commerce)
     (gateway_proxy ''query'' ''QUERY_UNAVAILABLE'' query) webui)"

section \<open>The public surface\<close>

text \<open>A table's public pages, those below \<^verbatim>\<open>/api\<close>, answered by one handler.\<close>

definition public_page :: "'d route \<Rightarrow> bool" where
  "public_page = (\<lambda>(m, p, h). take 1 p = [Lit ''api''])"

definition published :: "'d handler \<Rightarrow> 'e route list \<Rightarrow> 'd route list" where
  "published k rs = map (\<lambda>(m, p, h). (m, p, k)) (filter public_page rs)"

lemma gateway_patterns:
  "pattern ''/internal/'' = [Lit ''internal'', Rest]" "pattern ''/'' = [Rest]"
  by code_simp+

lemmas tables = gateway_routes_def identity_routes_def interaction_routes_def commerce_routes_def query_routes_def

lemma gateway_table:
  "gateway_routes identity interaction commerce query webui =
     [route ''GET'' ''/health'' gateway_health, route ''GET'' ''/ready'' gateway_ready]
     @ (published identity (identity_routes s1) @ published interaction (interaction_routes s2)
        @ published commerce (commerce_routes s3) @ published query (query_routes s4))
     @ last_routes webui"
  unfolding tables published_def public_page_def route_def patterns commerce_patterns Let_def by simp

lemma find_route_append:
  "find_route (rs @ rs') rq = (case find_route rs rq of None \<Rightarrow> find_route rs' rq | Some x \<Rightarrow> Some x)"
  by (induction rs rq rule: find_route.induct) (auto split: option.splits)

text \<open>A handler that only tells who it is.\<close>

definition marked :: "int \<Rightarrow> live handler" where
  "marked k rq = ret (text_reply k [])"

text \<open>Whether a table has a page for a request; for a path below \<^verbatim>\<open>/api\<close> its public pages decide.\<close>

definition routed_by :: "'d route list \<Rightarrow> http_call \<Rightarrow> bool" where
  "routed_by rs rq \<longleftrightarrow> find_route rs rq \<noteq> None"

lemma find_route_published:
  assumes "path_segments (hc_path rq) = ''api'' # ss" and "\<And>m p h. (m, p, h) \<in> set rs \<Longrightarrow> \<exists>t ps. p = Lit t # ps"
  shows "map_option fst (find_route (published k rs) rq) = (if routed_by rs rq then Some k else None)"
  using assms(2)
proof (induction rs)
  case Nil
  then show ?case by (simp add: published_def routed_by_def)
next
  case (Cons r rs)
  obtain m p h where r: "r = (m, p, h)" by (cases r)
  with Cons.prems obtain t ps where p: "p = Lit t # ps" by fastforce
  have IH: "map_option fst (find_route (published k rs) rq) = (if routed_by rs rq then Some k else None)"
    using Cons by (meson list.set_intros(2))
  then show ?case
    using assms(1) r p
    by (auto simp: published_def public_page_def routed_by_def split: option.splits if_splits)
qed

lemma literal_tables:
  "(m, p, h) \<in> set (identity_routes s1) \<Longrightarrow> \<exists>t ps. p = Lit t # ps"
  "(m, p, h) \<in> set (interaction_routes s2) \<Longrightarrow> \<exists>t ps. p = Lit t # ps"
  "(m, p, h') \<in> set (commerce_routes s3) \<Longrightarrow> \<exists>t ps. p = Lit t # ps"
  "(m, p, h) \<in> set (query_routes s4) \<Longrightarrow> \<exists>t ps. p = Lit t # ps"
  unfolding tables route_def patterns commerce_patterns Let_def by auto

text \<open>
  C34. The public surface. Below \<^verbatim>\<open>/api\<close> the gateway sends a request to the service whose own table
  has a page for it, and to none when none has: every page of a service is published and no
  request is sent to a service that has no page for it. A path below \<^verbatim>\<open>/internal\<close> reaches no
  service.
\<close>

theorem gateway_surface:
  shows "(path_segments (hc_path rq) = ''api'' # ss \<longrightarrow>
      map_option fst (find_route (gateway_routes identity interaction commerce query webui) rq) =
        (if routed_by (identity_routes s1) rq then Some identity
         else if routed_by (interaction_routes s2) rq then Some interaction
         else if routed_by (commerce_routes s3) rq then Some commerce
         else if routed_by (query_routes s4) rq then Some query
         else if method_ok ''GET'' (hc_method rq) then Some webui else None))
    \<and> (path_segments (hc_path rq) = ''internal'' # t # ss \<longrightarrow>
      map_option fst (find_route (gateway_routes identity interaction commerce query webui) rq) \<in> {None, Some NotFound})"
proof (intro conjI impI)
  assume path: "path_segments (hc_path rq) = ''api'' # ss"
  have ends: "find_route [route ''GET'' ''/health'' gateway_health, route ''GET'' ''/ready'' gateway_ready] rq = None"
    "map_option fst (find_route (last_routes webui) rq) = (if method_ok ''GET'' (hc_method rq) then Some webui else None)"
    using path by (simp_all add: last_routes_def route_def patterns gateway_patterns)
  note pub = find_route_published [OF path literal_tables(1)] find_route_published [OF path literal_tables(2)]
    find_route_published [OF path literal_tables(3)] find_route_published [OF path literal_tables(4)]
  have step: "map_option fst (find_route (as @ bs) rq)
      = (case map_option fst (find_route as rq) of None \<Rightarrow> map_option fst (find_route bs rq) | Some x \<Rightarrow> Some x)"
    for as bs :: "'a route list" by (simp add: find_route_append split: option.split)
  show "map_option fst (find_route (gateway_routes identity interaction commerce query webui) rq) =
        (if routed_by (identity_routes s1) rq then Some identity
         else if routed_by (interaction_routes s2) rq then Some interaction
         else if routed_by (commerce_routes s3) rq then Some commerce
         else if routed_by (query_routes s4) rq then Some query
         else if method_ok ''GET'' (hc_method rq) then Some webui else None)"
    unfolding gateway_table [of _ _ _ _ _ s1 s2 s3 s4]
    by (simp only: step ends pub) simp
next
  assume path: "path_segments (hc_path rq) = ''internal'' # t # ss"
  show "map_option fst (find_route (gateway_routes identity interaction commerce query webui) rq) \<in> {None, Some NotFound}"
    using path by (simp add: gateway_routes_def last_routes_def route_def patterns commerce_patterns gateway_patterns)
qed

text \<open>A development credit goes to the commerce service.\<close>

theorem gateway_surface_witness:
  "map_option fst (find_route (gateway_routes (marked 1) (marked 2) (marked 3) (marked 4) (marked 5))
     (plain_call ''POST'' ''/api/v1/wallet/dev-credit'')) = Some (marked 3)"
proof -
  let ?rq = "plain_call ''POST'' ''/api/v1/wallet/dev-credit''"
  have path: "path_segments (hc_path ?rq) = ''api'' # [''v1'', ''wallet'', ''dev-credit'']"
  proof -
    have "path_segments ''/api/v1/wallet/dev-credit'' = [''api'', ''v1'', ''wallet'', ''dev-credit'']" by code_simp
    then show ?thesis by (simp add: plain_call_def)
  qed
  have "\<not> routed_by (identity_routes (no_deps ascii_only :: live Server)) ?rq"
    "\<not> routed_by (interaction_routes (no_deps ascii_only :: live Server)) ?rq"
    "routed_by (commerce_routes sample_commerce) ?rq"
    using path unfolding routed_by_def tables route_def patterns commerce_patterns Let_def
    by (simp_all add: method_ok_def plain_call_def)
  then have "(if routed_by (identity_routes (no_deps ascii_only :: live Server)) ?rq then Some (marked 1)
      else if routed_by (interaction_routes (no_deps ascii_only :: live Server)) ?rq then Some (marked 2)
      else if routed_by (commerce_routes sample_commerce) ?rq then Some (marked 3)
      else if routed_by (query_routes (no_deps ascii_only :: live Server)) ?rq then Some (marked 4)
      else if method_ok ''GET'' (hc_method ?rq) then Some (marked 5) else None) = Some (marked 3)" by simp
  with gateway_surface [of ?rq, THEN conjunct1, THEN mp, OF path] show ?thesis by (rule trans)
qed

end
