(* ===== verification/Whole_Program.thy ===== *)
theory Whole_Program
  imports Gateway
begin

text \<open>
  The program as it is deployed: the gateway in front of the identity, interaction, commerce and
  query services, the last two and the interaction service reaching the rooms only through the
  identity service's HTTP surface, all over one state. \<open>behind_client\<close> says of a predicate of
  the state that the stores beside it and the identity client leave it alone; then so does
  every page of the interaction and the query service.
\<close>

section \<open>Predicates beside the stores of a service\<close>

lemma NewInteraction_live:
  "NewInteraction (interaction_server U identity server c tokens issuer ttl danmaku cfg srt shards vttl)
     = serve (interaction_routes (interaction_server U identity server c tokens issuer ttl danmaku cfg srt shards vttl))"
  by (simp add: NewInteraction_def interaction_server_def no_deps_def)

lemma NewQuery_live:
  "NewQuery (query_server U archive seq srt shards vttl) = serve (query_routes (query_server U archive seq srt shards vttl))"
  by (simp add: NewQuery_def query_server_def no_deps_def)

locale behind_client =
  fixes J :: "live \<Rightarrow> bool" and identity :: "live Client"
  assumes elsewhere: "J (d\<lparr>lv_redis := a\<rparr>) = J d" "J (d\<lparr>lv_http := b\<rparr>) = J d" "J (d\<lparr>lv_kafka := k\<rparr>) = J d"
    and asks: "keeps J (ic_send identity m url)"
begin

lemma keeps_elsewhere: "keeps J (at_redis x)" "keeps J (at_realtime y)" "keeps J (at_broker z)"
  by (rule keepsI, auto simp: at_eqs elsewhere)+

lemmas keeps_asks = keeps_client [OF asks]

lemma keeps_users_read: "keeps J (at_site (on_users (Query_User u)))"
  by (rule keepsI) (auto simp: at_eqs on_users_def zoom_eq Query_User_def handle_eq ret_def fail_def dest!: read_ext_D)

lemma keeps_danmaku: "keeps J (Danmaku_Send U (interaction_danmaku U identity server c words policy trace topic rate window) i u t)"
proof (rule keeps_Danmaku_Send)
  show "keeps J (p e)" if "dm_producer (interaction_danmaku U identity server c words policy trace topic rate window) = Some p" for p e
    using that
    by (auto simp: interaction_danmaku_def Danmaku_NewService_def ProduceDanmaku_def intro!: keeps_intro keeps_elsewhere)
  show "keeps J (q j m)" if "dm_traffic (interaction_danmaku U identity server c words policy trace topic rate window) = Some q" for q j m
    using that
    by (auto simp: interaction_danmaku_def Danmaku_NewService_def Decide_def NewPolicy_def Let_def intro!: keeps_intro keeps_elsewhere)
qed (simp_all add: interaction_danmaku_def Danmaku_NewService_def keeps_asks keeps_elsewhere)

lemma keeps_likes: "keeps J (Like_Add (interaction_likes identity shards cfg) i u n)"
  by (rule keeps_Like_Add) (auto simp: interaction_likes_def Like_NewService_def redis_like_store_def intro: keeps_asks keeps_elsewhere)

end

sublocale behind_client \<subseteq> on_interaction: quiet_pages
  "interaction_server U identity server c tokens issuer ttl (interaction_danmaku U identity server c words policy trace topic rate window) cfg srt shards vttl" J
  for U server c tokens issuer ttl words policy trace topic rate window cfg srt shards vttl
  by unfold_locales
    (auto simp: interaction_server_def no_deps_def nil_call_def centrifugo_api_def client_api_def redis_stats_def redis_viewers_def
      Viewer_NewService_def intro!: keeps_intro keeps_asks keeps_elsewhere keeps_danmaku keeps_likes)

sublocale behind_client \<subseteq> on_query: quiet_pages "query_server U archive seq srt shards vttl" J
  for U archive seq srt shards vttl
  by unfold_locales
    (auto simp: query_server_def no_deps_def nil_call_def history_query_def redis_stats_def redis_viewers_def Like_Add_def
      roomStatus_def Viewer_NewService_def intro!: keeps_intro keeps_elsewhere keeps_users_read)

context behind_client
begin

lemma keeps_interaction_service:
  "keeps J (NewInteraction (interaction_server U identity server c tokens issuer ttl
     (interaction_danmaku U identity server c words policy trace topic rate window) cfg srt shards vttl) rq)"
  unfolding NewInteraction_live by (rule keeps_serve) (rule on_interaction.keeps_interaction_routes)

lemma keeps_query_service: "keeps J (NewQuery (query_server U archive seq srt shards vttl) rq)"
  unfolding NewQuery_live by (rule keeps_serve) (rule on_query.keeps_query_routes)

end

section \<open>The deployment\<close>

text \<open>What the processes are configured with, and the servers and texts outside the repository.\<close>

record deployment =
  dp_unicode :: unicode
  dp_collation :: "string \<Rightarrow> string"
  dp_rooms :: RoomService
  dp_accounts :: AuthService
  dp_realtime :: http_server
  dp_centrifugo :: Centrifugo
  dp_issuer :: Issuer
  dp_subscription_ttl :: int
  dp_shards :: int
  dp_identity_url :: string
  dp_trace :: "(string \<times> string) list"
  dp_gift_max :: int
  dp_gift_rate :: int
  dp_gift_window :: int
  dp_gift_topic :: string
  dp_wallet :: WalletService
  dp_words :: "string list"
  dp_policy :: TrafficConfig
  dp_danmaku_topic :: string
  dp_danmaku_rate :: int
  dp_danmaku_window :: int
  dp_likes :: LikeConfig
  dp_ranking :: "viewer_row list \<Rightarrow> viewer_row list"
  dp_viewer_ttl :: int
  dp_archive :: "danmaku_row list"
  dp_sequence :: "order_row \<Rightarrow> int"
  dp_webui :: "http_call \<Rightarrow> http_reply"

definition identity_of :: "deployment \<Rightarrow> live Server" where
  "identity_of D = identity_server (dp_unicode D) (dp_rooms D) (dp_accounts D) (dp_realtime D) (dp_centrifugo D) (dp_issuer D)
     (dp_subscription_ttl D) (dp_shards D)"

definition client_of :: "deployment \<Rightarrow> live Client" where
  "client_of D = identity_client (dp_identity_url D) (identity_of D)"

definition tokens_of :: "deployment \<Rightarrow> TokenManager" where
  "tokens_of D = au_tokens (dp_accounts D)"

definition viewers_of :: "deployment \<Rightarrow> live ViewerService" where
  "viewers_of D = Viewer_NewService (redis_viewers (dp_ranking D) (dp_shards D)) (dp_viewer_ttl D)"

definition interaction_of :: "deployment \<Rightarrow> live Server" where
  "interaction_of D = interaction_server (dp_unicode D) (client_of D) (dp_realtime D) (dp_centrifugo D) (tokens_of D) (dp_issuer D)
     (dp_subscription_ttl D)
     (interaction_danmaku (dp_unicode D) (client_of D) (dp_realtime D) (dp_centrifugo D) (dp_words D) (dp_policy D) (dp_trace D)
        (dp_danmaku_topic D) (dp_danmaku_rate D) (dp_danmaku_window D))
     (dp_likes D) (dp_ranking D) (dp_shards D) (dp_viewer_ttl D)"

definition commerce_of :: "deployment \<Rightarrow> live CommerceServer" where
  "commerce_of D = commerce_server (tokens_of D) (dp_unicode D) (dp_collation D)
     (commerce_gifts (dp_unicode D) (dp_collation D) (dp_trace D) (client_of D) (dp_gift_max D) (dp_gift_rate D) (dp_gift_window D)
        (dp_gift_topic D))
     (dp_wallet D) (viewers_of D)"

definition query_of :: "deployment \<Rightarrow> live Server" where
  "query_of D = query_server (dp_unicode D) (dp_archive D) (dp_sequence D) (dp_ranking D) (dp_shards D) (dp_viewer_ttl D)"

text \<open>The gateway in front of them.\<close>

definition public_entry :: "deployment \<Rightarrow> live handler" where
  "public_entry D = Gateway_New (upstream (NewIdentityRoom (identity_of D))) (upstream (NewInteraction (interaction_of D)))
     (upstream (Commerce_New (commerce_of D))) (upstream (NewQuery (query_of D))) (\<lambda>rq. ret (dp_webui D rq))"

section \<open>One request through the gateway\<close>

lemma bearer_forwarded [simp]: "bearer m (forwarded rq) t = bearer m rq t"
proof -
  have "value_of (filter (\<lambda>(k, _). k \<noteq> ''X-User-ID'') hs) ''Authorization'' = value_of hs ''Authorization''" for hs
    by (induction hs) (auto simp: value_of_def)
  then show ?thesis by (simp add: bearer_def forwarded_def)
qed

lemma forwarded_fields [simp]: "hc_path (forwarded rq) = hc_path rq" "hc_method (forwarded rq) = hc_method rq"
  by (simp_all add: forwarded_def)

text \<open>A request reaches one of the services with its method, path and token, or changes nothing.\<close>

lemma proxied:
  assumes "gateway_proxy name code (upstream H) rq (d, w) = (r, (d', w'))"
  shows "d' = d \<or> (\<exists>w1 q w2. clocks w1 = clocks w \<and> H (forwarded rq) (d, w1) = (q, (d', w2)))"
proof -
  obtain x w0 where up: "upstream H (forwarded rq) (d, w) = (x, (d', w0))"
    using assms by (auto simp: gateway_proxy_def handle_eq ret_def)
  obtain out w1 where out: "next_outcome w = (out, w1)" by (metis prod.collapse)
  note c = next_outcome_clocks [OF out]
  obtain q d2 w2 where H: "H (forwarded rq) (d, w1) = (q, (d2, w2))" by (metis prod.collapse)
  show ?thesis
    using up out c H by (cases out) (auto simp: upstream_def simp del: next_outcome.simps)
qed

lemma gateway_reaches:
  assumes "public_entry D rq (d, w) = (r, (d', w'))"
  obtains (none) "d' = d"
  | (service) H rq' w1 q w2 where "H \<in> {NewIdentityRoom (identity_of D), NewInteraction (interaction_of D), Commerce_New (commerce_of D), NewQuery (query_of D)}"
      and "clocks w1 = clocks w" and "H rq' (d, w1) = (q, (d', w2))"
      and "hc_method rq' = hc_method rq" and "hc_path rq' = hc_path rq" and "\<And>m t. bearer m rq' t = bearer m rq t"
  using assms [unfolded public_entry_def Gateway_New_def]
proof (cases rule: serve_cases)
  case unrouted
  from unrouted(2) show thesis by (rule none)
next
  case (routed h vs rq' w1 q w2)
  let ?rq = "rq'\<lparr>hc_values := vs\<rparr>"
  note same = routed(3-5)
  have proxy: thesis if "h = gateway_proxy name code (upstream H)"
    and "H \<in> {NewIdentityRoom (identity_of D), NewInteraction (interaction_of D), Commerce_New (commerce_of D), NewQuery (query_of D)}"
    for name code H
  proof -
    from proxied [of name code H ?rq d w1 q d' w2] routed(6) that(1)
    consider "d' = d" | w3 x w4 where "clocks w3 = clocks w1" "H (forwarded ?rq) (d, w3) = (x, (d', w4))" by auto
    then show thesis
    proof cases
      case 1
      then show thesis by (rule none)
    next
      case 2
      show thesis by (rule service [OF that(2) _ 2(2)]) (use 2(1) routed(2) same in simp_all)
    qed
  qed
  from find_route_in [OF routed(1)] obtain m p where
    "(m, p, h) \<in> set (gateway_routes
       (gateway_proxy ''identity-room'' ''IDENTITY_ROOM_UNAVAILABLE'' (upstream (NewIdentityRoom (identity_of D))))
       (gateway_proxy ''interaction'' ''INTERACTION_UNAVAILABLE'' (upstream (NewInteraction (interaction_of D))))
       (gateway_proxy ''commerce'' ''COMMERCE_UNAVAILABLE'' (upstream (Commerce_New (commerce_of D))))
       (gateway_proxy ''query'' ''QUERY_UNAVAILABLE'' (upstream (NewQuery (query_of D)))) (\<lambda>rq. ret (dp_webui D rq)))" by blast
  then consider (local) "h \<in> {gateway_health, gateway_ready, NotFound, \<lambda>rq. ret (dp_webui D rq)}"
    | (proxy) name code H where "h = gateway_proxy name code (upstream H)"
        "H \<in> {NewIdentityRoom (identity_of D), NewInteraction (interaction_of D), Commerce_New (commerce_of D), NewQuery (query_of D)}"
    unfolding gateway_table [of _ _ _ _ _ "identity_of D" "interaction_of D" "commerce_of D" "query_of D"] published_def
    by (auto simp: route_def last_routes_def)
  then show thesis
  proof cases
    case local
    with routed(6) have "d' = d"
      by (auto simp: gateway_health_def gateway_ready_def NotFound_def ret_def)
    then show thesis by (rule none)
  next
    case (proxy name code H)
    then show thesis by (rule \<open>\<And>name code H. h = gateway_proxy name code (upstream H) \<Longrightarrow> _ \<Longrightarrow> thesis\<close>)
  qed
qed

section \<open>Who changes what\<close>

lemma client_of_fields: "ic_send (client_of D) m url = deliver (NewIdentityRoom (identity_of D)) (TrimRight_char (dp_identity_url D) (CHR ''/'')) m url"
  by (simp add: client_of_def)

interpretation shop_behind: behind_client "\<lambda>d. P (lv_shop d)" "client_of D"
  by unfold_locales (simp_all add: client_of_fields identity_of_def keeps_deliver keeps_shop_identity)

text \<open>The identity client carries no token, so no room moves through it.\<close>

lemma keeps_rooms_client: "keeps (\<lambda>d. authorised (OpGet 0) rows (room_data (lv_site d))) (ic_send (client_of D) m url)"
proof (rule keepsI)
  fix d w r d' w'
  assume ok: "authorised (OpGet 0) rows (room_data (lv_site d))" and "ic_send (client_of D) m url (d, w) = (r, (d', w'))"
  then consider "d' = d" | path w1 q w2 where "NewIdentityRoom (identity_of D) (plain_call m path) (d, w1) = (q, (d', w2))"
    unfolding client_of_fields deliver_def Let_def
    by (cases "next_outcome w"; cases "fst (next_outcome w)") (auto simp del: next_outcome.simps, metis prod.collapse)
  then show "authorised (OpGet 0) rows (room_data (lv_site d'))"
  proof cases
    case 1
    with ok show ?thesis by simp
  next
    case (2 path w1 q w2)
    from identity_authorised [OF 2 [unfolded identity_of_def] ok] obtain rop where
      "authorised rop rows (room_data (lv_site d'))" "rop = OpGet 0 \<or> asks_for (au_tokens (dp_accounts D)) (plain_call m path) (go_now w1) rop"
      by blast
    moreover have "bearer tm (plain_call m path) t = None" for tm t
      by (simp add: bearer_def plain_call_def value_of_def TrimSpace_plain HasPrefix_def)
    ultimately show ?thesis by (auto simp: asks_for_def)
  qed
qed

interpretation rooms_behind: behind_client "\<lambda>d. authorised (OpGet 0) rows (room_data (lv_site d))" "client_of D"
  by unfold_locales (simp_all add: keeps_rooms_client)

interpretation commerce_rooms: quiet_commerce "commerce_of D" "\<lambda>d. authorised (OpGet 0) rows (room_data (lv_site d))"
  by unfold_locales (auto simp: commerce_of_def intro!: keeps_intro)

lemma keeps_rooms_commerce:
  "keeps (\<lambda>d. authorised (OpGet 0) rows (room_data (lv_site d))) (Commerce_New (commerce_of D) rq)"
  unfolding Commerce_New_def
proof (rule keeps_recoverer, rule keeps_mux)
  fix m p h rq
  assume "(m, p, h) \<in> set (commerce_routes (commerce_of D))"
  from commerce_rooms.keeps_commerce_routes [OF this, of rows rq]
  show "keeps (\<lambda>d. authorised (OpGet 0) rows (room_data (lv_site d))) (h rq)"
  proof (elim disjE exE conjE)
    fix nxt
    assume h: "h = requireAuth (cm_tokens (commerce_of D)) nxt" "nxt = sendGift (commerce_of D)"
    have "keeps (\<lambda>d. authorised (OpGet 0) rows (room_data (lv_site d)))
        (Gift_Send U (cm_gifts (commerce_of D)) i u g n q)" for U i u g n q
      by (rule keeps_Gift_Send) (auto simp: commerce_of_def intro!: rooms_behind.keeps_asks)
    then show ?thesis
      unfolding h by (intro keeps_requireAuth keeps_sendGift)
        (auto simp: commerce_of_def viewers_of_def Viewer_AddGiftValue_def Viewer_NewService_def redis_viewers_def)
  next
    fix nxt
    assume h: "h = requireAuth (cm_tokens (commerce_of D)) nxt" "nxt = devWalletCredit (commerce_of D)"
    show ?thesis
      unfolding h by (auto simp: devWalletCredit_def commerce_of_def intro!: keeps_requireAuth keeps_intro)
  qed
qed

lemma moves_money_same:
  assumes "hc_method rq' = hc_method rq" and "hc_path rq' = hc_path rq" and "bearer m rq' t = bearer m rq t"
  shows "moves_money m ws rq' t db db' = moves_money m ws rq t db db'"
    and "asks_for m rq' t rop = asks_for m rq t rop"
  using assms by (simp_all add: moves_money_def asks_for_def)

text \<open>
  One request, whatever page it reaches and whatever fails: the money moves as its caller may move
  it, and the rooms change by one operation, that it asks for or that changes none.
\<close>

lemma request_authorised:
  assumes "ledger_ok (lv_shop d)" and "rooms_ok (room_data (lv_site d))" and "public_entry D rq (d, w) = (r, (d', w'))"
  defines "rows \<equiv> live_rooms (room_data (lv_site d))"
  shows "moves_money (tokens_of D) (dp_wallet D) rq (go_now w) (lv_shop d) (lv_shop d')
    \<and> (\<exists>rop. authorised rop rows (room_data (lv_site d')) \<and> (rop = OpGet 0 \<or> asks_for (tokens_of D) rq (go_now w) rop))"
proof -
  note start = authorised_start [OF assms(2), folded rows_def]
  show ?thesis
    using assms(3)
  proof (cases rule: gateway_reaches)
    case none
    with assms(1) start show ?thesis by (auto simp: moves_money_def idle_refl)
  next
    case (service H rq' w1 q w2)
    have now: "go_now w1 = go_now w" using service(2) by (simp add: clocks_def)
    note same = moves_money_same [OF service(4-6)]
    have shop: "moves_money (tokens_of D) (dp_wallet D) rq (go_now w) (lv_shop d) (lv_shop d')"
      if "keeps (\<lambda>x. idle (lv_shop d) (lv_shop x)) (H rq')"
      using keepsD [where d = d and m = "H rq'", OF that _ service(3)] idle_refl [OF assms(1)] by (simp add: moves_money_def)
    have rooms: "\<exists>rop. authorised rop rows (room_data (lv_site d')) \<and> (rop = OpGet 0 \<or> asks_for (tokens_of D) rq (go_now w) rop)"
      if "keeps (\<lambda>x. authorised (OpGet 0) rows (room_data (lv_site x))) (H rq')"
      using keepsD [where d = d and m = "H rq'", OF that _ service(3)] start by blast
    from service(1) consider "H = NewIdentityRoom (identity_of D)" | "H = NewInteraction (interaction_of D)"
      | "H = Commerce_New (commerce_of D)" | "H = NewQuery (query_of D)" by blast
    then show ?thesis
    proof cases
      case 1
      with service(3) have "NewIdentityRoom (identity_of D) rq' (d, w1) = (q, (d', w2))" by simp
      from identity_authorised [OF this [unfolded identity_of_def] start] now same
      have "\<exists>rop. authorised rop rows (room_data (lv_site d')) \<and> (rop = OpGet 0 \<or> asks_for (tokens_of D) rq (go_now w) rop)"
        by (auto simp: tokens_of_def)
      with shop 1 show ?thesis by (simp add: identity_of_def keeps_shop_identity)
    next
      case 2
      with shop rooms show ?thesis
        by (simp add: interaction_of_def shop_behind.keeps_interaction_service rooms_behind.keeps_interaction_service)
    next
      case 3
      with service(3) have run: "Commerce_New (commerce_of D) rq' (d, w1) = (q, (d', w2))" by simp
      have "moves_money (tokens_of D) (dp_wallet D) rq (go_now w) (lv_shop d) (lv_shop d')"
        using commerce_moves_money [OF assms(1) run [unfolded commerce_of_def viewers_of_def client_of_def identity_of_def]] now same
        by simp
      with rooms 3 show ?thesis by (simp add: keeps_rooms_commerce)
    next
      case 4
      with shop rooms show ?thesis
        by (simp add: query_of_def shop_behind.keeps_query_service rooms_behind.keeps_query_service)
    qed
  qed
qed

text \<open>
  C1. The whole program's authority. Whatever request reaches the gateway, whichever service it is
  sent to and whatever calls fail on the way: balances, ledger and orders stay as they were
  unless the request carries a user's token and asks for a gift, or for a credit where these are
  enabled, and then only that user's change; no room is lost, and a room changes only by its
  own anchor's \<^verbatim>\<open>start\<close> or \<^verbatim>\<open>stop\<close>, from the right status.
\<close>

theorem whole_program_authority:
  assumes "ledger_ok (lv_shop d)" and "rooms_ok (room_data (lv_site d))" and "public_entry D rq (d, w) = (r, (d', w'))"
  shows "moves_money (tokens_of D) (dp_wallet D) rq (go_now w) (lv_shop d) (lv_shop d')
    \<and> (\<forall>row \<in> set (live_rooms (room_data (lv_site d))). \<exists>row' \<in> set (live_rooms (room_data (lv_site d'))). r_id row' = r_id row)
    \<and> (\<forall>row \<in> set (live_rooms (room_data (lv_site d))). \<forall>row' \<in> set (live_rooms (room_data (lv_site d'))).
         r_id row' = r_id row \<longrightarrow> row' = row \<or> moves_room (tokens_of D) rq (go_now w) row row')"
proof -
  let ?rows = "live_rooms (room_data (lv_site d))"
  from request_authorised [OF assms] obtain rop where "moves_money (tokens_of D) (dp_wallet D) rq (go_now w) (lv_shop d) (lv_shop d')"
    and rop: "authorised rop ?rows (room_data (lv_site d'))" "rop = OpGet 0 \<or> asks_for (tokens_of D) rq (go_now w) rop" by blast
  then show ?thesis
    using authorised_moves [OF rop] rop(1) by (fastforce simp: authorised_def)
qed

text \<open>A request without a token asks the gateway to start the prepared room.\<close>

definition sample_deployment :: deployment where
  "sample_deployment = \<lparr>dp_unicode = ascii_only, dp_collation = id, dp_rooms = Room_NewService True, dp_accounts = sample_accounts,
     dp_realtime = ok_server, dp_centrifugo = sample_centrifugo, dp_issuer = \<lparr>is_secret = ''cf'', is_ttl = second\<rparr>,
     dp_subscription_ttl = second, dp_shards = 4, dp_identity_url = ''http://identity/'', dp_trace = [], dp_gift_max = 100,
     dp_gift_rate = 10, dp_gift_window = second, dp_gift_topic = ''gift'', dp_wallet = Wallet_NewService True, dp_words = [''bad''],
     dp_policy = \<lparr>HotViewers = 10, ProtectViewers = 20, HotDanmakuRate = 5, ProtectDanmakuRate = 10, HotSampleRate = Fin 1,
       ProtectSampleRate = Fin 1, RateWindow = second, AdaptiveEnabled = True, TargetFanoutRate = Fin 100, HotFanoutRate = Fin 200,
       ProtectFanoutRate = Fin 300, MinSampleRate = Fin 1\<rparr>,
     dp_danmaku_topic = ''danmaku'', dp_danmaku_rate = 5, dp_danmaku_window = second,
     dp_likes = \<lparr>lcfg_rate = 10, lcfg_window = second, lcfg_room_ttl = second, lcfg_ban_ttl = second\<rparr>,
     dp_ranking = id, dp_viewer_ttl = second, dp_archive = [], dp_sequence = (\<lambda>_. 0), dp_webui = (\<lambda>_. text_reply 200 [])\<rparr>"

theorem whole_program_authority_witness:
  "\<exists>r d' w'. public_entry sample_deployment (plain_call ''POST'' ''/api/v1/rooms/5/start'') (prepared_world, calm) = (r, (d', w'))
     \<and> sample_room \<in> set (live_rooms (room_data (lv_site d'))) \<and> gift_orders (lv_shop d') = gift_orders sample_shop_sold
     \<and> balance_of 7 (lv_shop d') = balance_of 7 sample_shop_sold"
proof -
  let ?rq = "plain_call ''POST'' ''/api/v1/rooms/5/start''"
  obtain r d' w' where run: "public_entry sample_deployment ?rq (prepared_world, calm) = (r, (d', w'))" by (metis prod.collapse)
  have bearer: "bearer m ?rq t = None" for m t
    by (simp add: bearer_def plain_call_def value_of_def TrimSpace_plain HasPrefix_def)
  have shop: "lv_shop prepared_world = sample_shop_sold" by (simp add: prepared_world_def sold_world_def)
  have site: "lv_site prepared_world = sample_site" by (simp add: prepared_world_def)
  have "ledger_ok (lv_shop prepared_world)" by (simp add: shop sample_shop_sold_ok)
  moreover have "rooms_ok (room_data (lv_site prepared_world))" by (simp add: site rooms_ok_def room_row_ok_def sample_defs)
  ultimately have "moves_money (tokens_of sample_deployment) (dp_wallet sample_deployment) ?rq (go_now calm) (lv_shop prepared_world) (lv_shop d')
    \<and> (\<forall>row \<in> set (live_rooms (room_data (lv_site prepared_world))). \<exists>row' \<in> set (live_rooms (room_data (lv_site d'))). r_id row' = r_id row)
    \<and> (\<forall>row \<in> set (live_rooms (room_data (lv_site prepared_world))). \<forall>row' \<in> set (live_rooms (room_data (lv_site d'))).
         r_id row' = r_id row \<longrightarrow> row' = row \<or> moves_room (tokens_of sample_deployment) ?rq (go_now calm) row row')"
    using run by (rule whole_program_authority)
  then have "idle sample_shop_sold (lv_shop d')" and "sample_room \<in> set (live_rooms (room_data (lv_site d')))"
    by (auto simp: moves_money_def moves_room_def bearer shop site sample_site_def)
  with run show ?thesis by (auto simp: idle_def)
qed

end
