(* ===== verification/Config.thy ===== *)
theory Config
  imports Traffic Like Tokens
begin

text \<open>
  \<^verbatim>\<open>internal/config/config.go\<close>: how every process reads its configuration from the environment,
  with the readers of \<^verbatim>\<open>strconv\<close> and \<^verbatim>\<open>time\<close> it uses in full. An environment is a function,
  empty where a variable is not set, as \<^verbatim>\<open>os.Getenv\<close> has it. The property is that a
  configuration that loads is within every bound the source states, and what follows for the
  services started with it.
\<close>

section \<open>Readers of the standard library\<close>

definition lower_byte :: "char \<Rightarrow> char" where
  "lower_byte c = (if 65 \<le> byte c \<and> byte c \<le> 90 then char_of (of_char c + (32 :: nat)) else c)"

definition is_dec :: "char \<Rightarrow> bool" where
  "is_dec c \<longleftrightarrow> 48 \<le> byte c \<and> byte c \<le> 57"

definition is_hex :: "char \<Rightarrow> bool" where
  "is_hex c \<longleftrightarrow> is_dec c \<or> 97 \<le> byte (lower_byte c) \<and> byte (lower_byte c) \<le> 102"

definition hex_value :: "char \<Rightarrow> int" where
  "hex_value c = (if is_dec c then byte c - 48 else byte (lower_byte c) - 87)"

text \<open>\<^verbatim>\<open>strconv.ParseBool\<close>, and \<^verbatim>\<open>strconv.Atoi\<close>, whose \<^verbatim>\<open>int\<close> has 64 bits.\<close>

definition ParseBool :: "string \<Rightarrow> bool option" where
  "ParseBool s =
     (if s \<in> {''1'', ''t'', ''T'', ''TRUE'', ''true'', ''True''} then Some True
      else if s \<in> {''0'', ''f'', ''F'', ''FALSE'', ''false'', ''False''} then Some False
      else None)"

definition Atoi :: "string \<Rightarrow> int option" where
  "Atoi s = ParseInt s"

text \<open>
  \<^verbatim>\<open>strconv.ParseFloat(s, 64)\<close>: the names of the infinities and of \<open>NaN\<close>, decimal and hexadecimal
  literals, and the underscores that may stand between their digits.
\<close>

fun underscores_ok :: "bool \<Rightarrow> char \<Rightarrow> string \<Rightarrow> bool" where
  "underscores_ok hex saw [] = (saw \<noteq> CHR ''_'')"
| "underscores_ok hex saw (c # cs) =
     (if is_dec c \<or> (hex \<and> is_hex c) then underscores_ok hex (CHR ''0'') cs
      else if c = CHR ''_'' then saw = CHR ''0'' \<and> underscores_ok hex (CHR ''_'') cs
      else saw \<noteq> CHR ''_'' \<and> underscores_ok hex (CHR ''!'') cs)"

definition unsigned :: "string \<Rightarrow> bool \<times> string" where
  "unsigned s = (if HasPrefix s ''-'' then (True, tl s) else if HasPrefix s ''+'' then (False, tl s) else (False, s))"

definition underscoreOK :: "string \<Rightarrow> bool" where
  "underscoreOK s0 =
     (let s = snd (unsigned s0); p = map lower_byte (take 2 s) in
      if p = ''0x'' then underscores_ok True (CHR ''0'') (drop 2 s)
      else if p = ''0b'' \<or> p = ''0o'' then underscores_ok False (CHR ''0'') (drop 2 s)
      else underscores_ok False (CHR ''^'') s)"

text \<open>The digits of the exponent, which stops counting at ten thousand.\<close>

definition exponent_of :: "string \<Rightarrow> int option" where
  "exponent_of x =
     (case unsigned x of (neg, ds) \<Rightarrow>
        if ds = [] \<or> \<not> is_dec (hd ds) \<or> \<not> list_all (\<lambda>c. is_dec c \<or> c = CHR ''_'') ds then None
        else let e = foldl (\<lambda>e c. if c = CHR ''_'' \<or> e \<ge> 10000 then e else 10 * e + (byte c - 48)) 0 ds in
          Some (if neg then - e else e))"

definition literal_value :: "string \<Rightarrow> rat option" where
  "literal_value s0 =
     (case unsigned s0 of (neg, s) \<Rightarrow>
        let hex = (length s > 2 \<and> map lower_byte (take 2 s) = ''0x'');
            body = (if hex then drop 2 s else s);
            digit = (if hex then is_hex else is_dec);
            mark = (if hex then CHR ''p'' else CHR ''e'');
            whole = takeWhile (\<lambda>c. digit c \<or> c = CHR ''_'') body;
            r1 = drop (length whole) body;
            frac = (if HasPrefix r1 ''.'' then takeWhile (\<lambda>c. digit c \<or> c = CHR ''_'') (tl r1) else []);
            r2 = (if HasPrefix r1 ''.'' then drop (length frac) (tl r1) else r1);
            whole = filter digit whole;
            frac = filter digit frac;
            expo = (if r2 = [] then (if hex then None else Some 0)
                    else if lower_byte (hd r2) = mark then exponent_of (tl r2) else None)
        in if whole = [] \<and> frac = [] \<or> CHR ''_'' \<in> set s0 \<and> \<not> underscoreOK s0 then None
           else map_option (\<lambda>e.
             (if neg then -1 else 1) *
               (if hex then of_int (foldl (\<lambda>v c. 16 * v + hex_value c) 0 (whole @ frac)) * 2 powi (e - 4 * int (length frac))
                else of_int (foldl (\<lambda>v c. 10 * v + hex_value c) 0 (whole @ frac)) * 10 powi (e - int (length frac)))) expo)"

definition ParseFloat :: "string \<Rightarrow> float64 option" where
  "ParseFloat s =
     (case unsigned s of (neg, t) \<Rightarrow>
        if map lower_byte t \<in> {''inf'', ''infinity''} then Some (Infinite neg)
        else if map lower_byte s = ''nan'' then Some NaN
        else case literal_value s of
          None \<Rightarrow> None
        | Some q \<Rightarrow> (case rnd q of Fin x \<Rightarrow> Some (Fin x) | _ \<Rightarrow> None))"

text \<open>
  \<^verbatim>\<open>time.ParseDuration\<close>: a sign, then numbers with units, whose sum is a \<^verbatim>\<open>uint64\<close> of
  nanoseconds. The micro sign comes in two spellings.
\<close>

definition unit_of :: "string \<Rightarrow> int option" where
  "unit_of u =
     (if u = ''ns'' then Some 1
      else if u = ''us'' \<or> u = [char_of (194 :: nat), char_of (181 :: nat), CHR ''s'']
        \<or> u = [char_of (206 :: nat), char_of (188 :: nat), CHR ''s''] then Some 1000
      else if u = ''ms'' then Some 1000000
      else if u = ''s'' then Some 1000000000
      else if u = ''m'' then Some 60000000000
      else if u = ''h'' then Some 3600000000000
      else None)"

fun leadingInt :: "int \<Rightarrow> string \<Rightarrow> (int \<times> string) option" where
  "leadingInt x [] = Some (x, [])"
| "leadingInt x (c # cs) =
     (if \<not> is_dec c then Some (x, c # cs)
      else if x > 2 ^ 63 div 10 then None
      else let y = 10 * x + (byte c - 48) in if y > 2 ^ 63 then None else leadingInt y cs)"

fun leadingFraction :: "bool \<Rightarrow> int \<Rightarrow> float64 \<Rightarrow> string \<Rightarrow> int \<times> float64 \<times> string" where
  "leadingFraction overflow x scale [] = (x, scale, [])"
| "leadingFraction overflow x scale (c # cs) =
     (if \<not> is_dec c then (x, scale, c # cs)
      else if overflow \<or> x > (2 ^ 63 - 1) div 10 then leadingFraction True x scale cs
      else let y = 10 * x + (byte c - 48) in
        if y > 2 ^ 63 then leadingFraction True x scale cs
        else leadingFraction False y (f_mul scale (Fin 10)) cs)"

fun f_trunc :: "float64 \<Rightarrow> int" where
  "f_trunc (Fin q) = \<lfloor>q\<rfloor>"
| "f_trunc _ = 0"

definition with_fraction :: "int \<Rightarrow> int \<Rightarrow> float64 \<Rightarrow> int \<Rightarrow> int" where
  "with_fraction v f scale u = (if f > 0 then v + f_trunc (f_mul (f_of_int f) (f_div (f_of_int u) scale)) else v)"

text \<open>One turn of the loop: a number and its unit, the nanoseconds they are worth, and what is left.\<close>

definition duration_part :: "string \<Rightarrow> (int \<times> string) option" where
  "duration_part s =
     (if s = [] \<or> \<not> (hd s = CHR ''.'' \<or> is_dec (hd s)) then None
      else case leadingInt 0 s of None \<Rightarrow> None
      | Some (v, s1) \<Rightarrow>
        let dot = HasPrefix s1 ''.'';
            (f, scale, s2) = (if dot then leadingFraction False 0 (Fin 1) (tl s1) else (0, Fin 1, s1));
            pre = (length s1 \<noteq> length s); post = (dot \<and> length s2 \<noteq> length (tl s1));
            u = takeWhile (\<lambda>c. \<not> (c = CHR ''.'' \<or> is_dec c)) s2
        in if \<not> pre \<and> \<not> post then None
           else case unit_of u of None \<Rightarrow> None
           | Some unit \<Rightarrow>
               if v > 2 ^ 63 div unit then None
               else let v' = with_fraction (v * unit) f scale unit in
                 if v' > 2 ^ 63 then None else Some (v', drop (length u) s2))"

lemma length_leadingInt: "leadingInt x s = Some (v, r) \<Longrightarrow> length r \<le> length s"
  by (induction x s rule: leadingInt.induct) (fastforce simp: Let_def split: if_splits)+

lemma length_leadingFraction: "leadingFraction b x sc s = (f, scale, r) \<Longrightarrow> length r \<le> length s"
  by (induction b x sc s rule: leadingFraction.induct) (fastforce simp: Let_def split: if_splits)+

lemma unit_of_Nil [simp]: "unit_of [] = None"
  by (simp add: unit_of_def)

lemma length_duration_part:
  assumes "duration_part s = Some (v, r)"
  shows "length r < length s"
proof -
  obtain v1 s1 where i: "leadingInt 0 s = Some (v1, s1)"
    using assms by (auto simp: duration_part_def split: if_splits option.splits)
  define dot where "dot = HasPrefix s1 ''.''"
  obtain f scale s2 where f: "(if dot then leadingFraction False 0 (Fin 1) (tl s1) else (0, Fin 1, s1)) = (f, scale, s2)"
    by (metis prod_cases3)
  let ?u = "takeWhile (\<lambda>c. \<not> (c = CHR ''.'' \<or> is_dec c)) s2"
  have "r = drop (length ?u) s2" and "unit_of ?u \<noteq> None"
    using assms i f by (auto simp: duration_part_def dot_def Let_def simp del: split_paired_Ex split: if_splits option.splits)
  moreover have "?u \<noteq> []" using calculation(2) by (metis unit_of_Nil)
  moreover have "length s2 \<le> length s"
    using length_leadingInt [OF i] length_leadingFraction [of False 0 "Fin 1" "tl s1" f scale s2] f by (auto split: if_splits)
  moreover have "length ?u \<le> length s2" by (rule length_takeWhile_le)
  ultimately show ?thesis by (cases "length ?u") auto
qed

function duration_sum :: "int \<Rightarrow> string \<Rightarrow> int option" where
  "duration_sum d s =
     (if s = [] then Some d
      else case duration_part s of None \<Rightarrow> None
      | Some (v, r) \<Rightarrow> let d' = (d + v) mod 2 ^ 64 in if d' > 2 ^ 63 then None else duration_sum d' r)"
  by auto
termination by (relation "measure (\<lambda>(d, s). length s)") (auto dest: length_duration_part)

declare duration_sum.simps [simp del]

definition ParseDuration :: "string \<Rightarrow> int option" where
  "ParseDuration s0 =
     (case unsigned s0 of (neg, s) \<Rightarrow>
        if s = ''0'' then Some 0
        else if s = [] then None
        else case duration_sum 0 s of None \<Rightarrow> None
        | Some d \<Rightarrow>
            if neg then Some (i64 (- d))
            else if d > 2 ^ 63 - 1 then None else Some d)"

lemma duration_part_nonneg: "leadingInt x s = Some (v, r) \<Longrightarrow> 0 \<le> x \<Longrightarrow> 0 \<le> v"
proof (induction x s rule: leadingInt.induct)
  case (2 x c cs)
  then show ?case by (cases "is_dec c") (auto simp: Let_def is_dec_def split: if_splits)
qed simp

lemma duration_sum_nonneg: "duration_sum d s = Some v \<Longrightarrow> 0 \<le> d \<Longrightarrow> 0 \<le> v"
proof (induction d s rule: duration_sum.induct)
  case (1 d s)
  then show ?case
    by (subst (asm) (2) duration_sum.simps) (auto simp: Let_def split: if_splits option.splits)
qed

lemma ParseDuration_i64: "ParseDuration s = Some d \<Longrightarrow> is_i64 d"
proof -
  assume p: "ParseDuration s = Some d"
  obtain neg t where u: "unsigned s = (neg, t)" by fastforce
  show "is_i64 d"
  proof (cases "t = ''0''")
    case False
    with p u obtain v where "duration_sum 0 t = Some v" "d = i64 (- v) \<or> d = v \<and> v \<le> 2 ^ 63 - 1"
      by (auto simp: ParseDuration_def split: if_splits option.splits)
    then show ?thesis using duration_sum_nonneg [of 0 t v] by (auto simp: is_i64_def [of v])
  qed (use p u in \<open>simp add: ParseDuration_def is_i64_def\<close>)
qed

lemma ParseInt_i64: "ParseInt s = Some v \<Longrightarrow> is_i64 v"
  by (auto simp: ParseInt_def Let_def split: list.splits if_splits option.splits)

section \<open>The configuration\<close>

datatype config_error = Invalid string | Unparsable string | UnsupportedRole string | DuplicateRole string

record MySQLConfig =
  MaxOpenConns :: int
  MaxIdleConns :: int
  ConnMaxLifetime :: int

record DatabaseConfig =
  IdentityDSN :: string
  RoomDSN :: string
  CommerceDSN :: string
  ArchiveDSN :: string
  QueryDSN :: string
  QueryWriterDSN :: string

record RedisConfig =
  redis_url :: string
  redis_addr :: string
  redis_password :: string
  redis_db :: int

record CentrifugoConfig =
  APIURL :: string
  APIKey :: string
  TokenSecret :: string
  cf_TokenTTL :: int
  SubscriptionTokenTTL :: int

record AuthConfig =
  JWTSecret :: string
  auth_TokenTTL :: int

record DanmakuConfig =
  SensitiveWords :: "string list"
  dcfg_rate :: int
  dcfg_window :: int

record GiftConfig =
  MaxCountPerRequest :: int
  gcfg_rate :: int
  gcfg_window :: int

record EngagementConfig =
  ViewerTTL :: int
  StatsInterval :: int
  ActiveRoomWindow :: int
  ActiveRoomBatch :: int
  ActiveRoomShards :: int
  LikeSnapshotInterval :: int

record KafkaConfig =
  Brokers :: "string list"
  DanmakuTopic :: string
  GiftTopic :: string
  DanmakuConsumerGroup :: string
  GiftConsumerGroup :: string
  ConsumerLease :: int
  TLSEnabled :: bool
  SASLMechanism :: string
  SASLUsername :: string
  SASLPassword :: string

record OutboxConfig =
  PollInterval :: int
  BatchSize :: int
  Lease :: int
  ProduceTimeout :: int

record ObservabilityConfig =
  WorkerMetricsAddr :: string
  OTelEnabled :: bool
  OTelEndpoint :: string
  OTelInsecure :: bool
  OTelSampleRatio :: float64
  Environment :: string

text \<open>The address a service listens on and the URL it is reached at.\<close>

record ServiceConfig =
  HTTPAddr :: string
  BaseURL :: string

record GatewayConfig =
  gw_http :: string
  gw_commerce :: string
  gw_interaction :: string
  gw_identity :: string
  gw_query :: string
  gw_observability :: ObservabilityConfig

text \<open>The traffic policy and the like limits have the types of their services.\<close>

record Config =
  cfg_HTTP :: string
  cfg_Commerce :: ServiceConfig
  cfg_Interaction :: ServiceConfig
  cfg_IdentityRoom :: ServiceConfig
  cfg_Query :: ServiceConfig
  cfg_MySQL :: MySQLConfig
  cfg_Databases :: DatabaseConfig
  cfg_Redis :: RedisConfig
  cfg_Centrifugo :: CentrifugoConfig
  cfg_Auth :: AuthConfig
  cfg_Danmaku :: DanmakuConfig
  cfg_Like :: LikeConfig
  cfg_Gift :: GiftConfig
  cfg_Engagement :: EngagementConfig
  cfg_DevCredit :: bool
  cfg_Kafka :: KafkaConfig
  cfg_Outbox :: OutboxConfig
  cfg_Observability :: ObservabilityConfig
  cfg_Traffic :: TrafficConfig
  cfg_Roles :: "string list"

section \<open>Loading\<close>

type_synonym environ = "string \<Rightarrow> string"

definition env :: "environ \<Rightarrow> string \<Rightarrow> string \<Rightarrow> string" where
  "env E key fallback = (if E key \<noteq> [] then E key else fallback)"

definition splitCSV :: "string \<Rightarrow> string list" where
  "splitCSV raw = filter (\<lambda>v. v \<noteq> []) (map TrimSpace (Split (CHR '','') raw))"

text \<open>A variable that was read, with its test; and one step after another.\<close>

definition must :: "'a option \<Rightarrow> ('a \<Rightarrow> bool) \<Rightarrow> config_error \<Rightarrow> ('a \<Rightarrow> config_error + 'b) \<Rightarrow> config_error + 'b" where
  "must v ok err k = (case v of None \<Rightarrow> Inl err | Some x \<Rightarrow> if ok x then k x else Inl err)"

definition andThen :: "config_error + 'a \<Rightarrow> ('a \<Rightarrow> config_error + 'b) \<Rightarrow> config_error + 'b" where
  "andThen r k = (case r of Inl err \<Rightarrow> Inl err | Inr x \<Rightarrow> k x)"

definition read_bool :: "environ \<Rightarrow> string \<Rightarrow> string \<Rightarrow> (bool \<Rightarrow> config_error + 'b) \<Rightarrow> config_error + 'b" where
  "read_bool E key fallback = must (ParseBool (env E key fallback)) (\<lambda>_. True) (Unparsable key)"

definition positive_int :: "environ \<Rightarrow> string \<Rightarrow> string \<Rightarrow> (int \<Rightarrow> config_error + 'b) \<Rightarrow> config_error + 'b" where
  "positive_int E key fallback = must (ParseInt (env E key fallback)) (\<lambda>v. 0 < v) (Invalid (key @ '' must be a positive integer''))"

definition positive_duration :: "environ \<Rightarrow> string \<Rightarrow> string \<Rightarrow> (int \<Rightarrow> config_error + 'b) \<Rightarrow> config_error + 'b" where
  "positive_duration E key fallback =
     must (ParseDuration (env E key fallback)) (\<lambda>v. 0 < v) (Invalid (key @ '' must be a positive duration''))"

definition any_duration :: "environ \<Rightarrow> string \<Rightarrow> string \<Rightarrow> (int \<Rightarrow> config_error + 'b) \<Rightarrow> config_error + 'b" where
  "any_duration E key fallback = must (ParseDuration (env E key fallback)) (\<lambda>_. True) (Unparsable key)"

definition loadObservability :: "environ \<Rightarrow> config_error + ObservabilityConfig" where
  "loadObservability E =
     read_bool E ''OTEL_ENABLED'' ''true'' (\<lambda>enabled.
     read_bool E ''OTEL_INSECURE'' ''true'' (\<lambda>insecure.
     must (ParseFloat (env E ''OTEL_SAMPLE_RATIO'' ''1'')) (\<lambda>v. \<not> f_less v (Fin 0) \<and> \<not> f_less (Fin 1) v)
       (Invalid ''OTEL_SAMPLE_RATIO must be between 0 and 1'') (\<lambda>ratio.
     Inr \<lparr>WorkerMetricsAddr = env E ''WORKER_METRICS_ADDR'' '':9090'', OTelEnabled = enabled,
       OTelEndpoint = env E ''OTEL_EXPORTER_OTLP_ENDPOINT'' ''otel-collector:4317'', OTelInsecure = insecure,
       OTelSampleRatio = ratio, Environment = env E ''DEPLOYMENT_ENVIRONMENT'' ''development''\<rparr>)))"

definition LoadGateway :: "environ \<Rightarrow> config_error + GatewayConfig" where
  "LoadGateway E = andThen (loadObservability E) (\<lambda>obs.
     Inr \<lparr>gw_http = env E ''HTTP_ADDR'' '':8080'',
       gw_commerce = env E ''COMMERCE_BASE_URL'' ''http://localhost:8081'',
       gw_interaction = env E ''INTERACTION_BASE_URL'' ''http://localhost:8082'',
       gw_identity = env E ''IDENTITY_ROOM_BASE_URL'' ''http://localhost:8083'',
       gw_query = env E ''QUERY_BASE_URL'' ''http://localhost:8084'', gw_observability = obs\<rparr>)"

text \<open>The steps of \<^verbatim>\<open>Load\<close>, in order.\<close>

definition load_mysql :: "environ \<Rightarrow> config_error + MySQLConfig" where
  "load_mysql E =
     must (Atoi (env E ''MYSQL_MAX_OPEN_CONNS'' ''40'')) (\<lambda>v. 0 < v) (Invalid ''MYSQL_MAX_OPEN_CONNS must be a positive integer'') (\<lambda>opn.
     must (Atoi (env E ''MYSQL_MAX_IDLE_CONNS'' ''20'')) (\<lambda>v. 0 \<le> v \<and> v \<le> opn)
       (Invalid ''MYSQL_MAX_IDLE_CONNS must be between 0 and MYSQL_MAX_OPEN_CONNS'') (\<lambda>idl.
     positive_duration E ''MYSQL_CONN_MAX_LIFETIME'' ''30m'' (\<lambda>life.
     Inr \<lparr>MaxOpenConns = opn, MaxIdleConns = idl, ConnMaxLifetime = life\<rparr>)))"

text \<open>\<^verbatim>\<open>db\<close>, \<^verbatim>\<open>cfTTL\<close>, \<^verbatim>\<open>subTTL\<close> and \<^verbatim>\<open>authTTL\<close>.\<close>

definition load_tokens :: "environ \<Rightarrow> config_error + int \<times> int \<times> int \<times> int" where
  "load_tokens E =
     must (Atoi (env E ''REDIS_DB'' ''0'')) (\<lambda>_. True) (Unparsable ''REDIS_DB'') (\<lambda>db.
     any_duration E ''CENTRIFUGO_TOKEN_TTL'' ''1h'' (\<lambda>cfTTL.
     any_duration E ''CENTRIFUGO_SUBSCRIPTION_TOKEN_TTL'' ''5m'' (\<lambda>subTTL.
     any_duration E ''AUTH_TOKEN_TTL'' ''24h'' (\<lambda>authTTL.
     Inr (db, cfTTL, subTTL, authTTL)))))"

definition load_engagement :: "environ \<Rightarrow> config_error + EngagementConfig" where
  "load_engagement E =
     positive_duration E ''VIEWER_TTL'' ''90s'' (\<lambda>viewerTTL.
     positive_duration E ''STATS_INTERVAL'' ''200ms'' (\<lambda>statsInterval.
     must (ParseDuration (env E ''ACTIVE_ROOM_WINDOW'' ''3m'')) (\<lambda>v. viewerTTL < v)
       (Invalid ''ACTIVE_ROOM_WINDOW must be greater than VIEWER_TTL'') (\<lambda>window.
     positive_int E ''ACTIVE_ROOM_BATCH'' ''1000'' (\<lambda>batch.
     must (ParseInt (env E ''ACTIVE_ROOM_SHARDS'' ''16'')) (\<lambda>v. 0 < v \<and> v \<le> 1024)
       (Invalid ''ACTIVE_ROOM_SHARDS must be between 1 and 1024'') (\<lambda>shards.
     positive_duration E ''LIKE_SNAPSHOT_INTERVAL'' ''10s'' (\<lambda>interval.
     Inr \<lparr>ViewerTTL = viewerTTL, StatsInterval = statsInterval, ActiveRoomWindow = window, ActiveRoomBatch = batch,
       ActiveRoomShards = shards, LikeSnapshotInterval = interval\<rparr>))))))"

definition load_like :: "environ \<Rightarrow> config_error + LikeConfig" where
  "load_like E =
     positive_int E ''LIKE_USER_RATE_LIMIT'' ''300'' (\<lambda>rate.
     positive_duration E ''LIKE_USER_RATE_WINDOW'' ''1s'' (\<lambda>window.
     positive_duration E ''LIKE_ROOM_CACHE_TTL'' ''2s'' (\<lambda>room_ttl.
     positive_duration E ''LIKE_BAN_CACHE_TTL'' ''1s'' (\<lambda>ban_ttl.
     Inr \<lparr>lcfg_rate = rate, lcfg_window = window, lcfg_room_ttl = room_ttl, lcfg_ban_ttl = ban_ttl\<rparr>))))"

definition load_words :: "environ \<Rightarrow> string list" where
  "load_words E = splitCSV (env E ''DANMAKU_SENSITIVE_WORDS'' ''spam,banned'')"

definition load_danmaku :: "environ \<Rightarrow> config_error + DanmakuConfig" where
  "load_danmaku E =
     must (Atoi (env E ''DANMAKU_USER_RATE_LIMIT'' ''5'')) (\<lambda>v. 0 < v)
       (Invalid ''DANMAKU_USER_RATE_LIMIT must be a positive integer'') (\<lambda>rate.
     positive_duration E ''DANMAKU_USER_RATE_WINDOW'' ''10s'' (\<lambda>window.
     Inr \<lparr>SensitiveWords = load_words E, dcfg_rate = rate, dcfg_window = window\<rparr>))"

definition load_gift :: "environ \<Rightarrow> config_error + GiftConfig" where
  "load_gift E =
     must (ParseInt (env E ''GIFT_MAX_COUNT_PER_REQUEST'' ''100'')) (\<lambda>v. 0 < v \<and> v \<le> 10000)
       (Invalid ''GIFT_MAX_COUNT_PER_REQUEST must be between 1 and 10000'') (\<lambda>most.
     must (Atoi (env E ''GIFT_USER_RATE_LIMIT'' ''10'')) (\<lambda>v. 0 < v) (Invalid ''GIFT_USER_RATE_LIMIT must be a positive integer'') (\<lambda>rate.
     positive_duration E ''GIFT_USER_RATE_WINDOW'' ''1s'' (\<lambda>window.
     Inr \<lparr>MaxCountPerRequest = most, gcfg_rate = rate, gcfg_window = window\<rparr>)))"

definition allowedWorkerRoles :: "string list" where
  "allowedWorkerRoles = [''stats'', ''like-snapshot'', ''outbox'', ''gift-consumer'', ''danmaku-consumer'']"

fun check_roles :: "unicode \<Rightarrow> string list \<Rightarrow> string list \<Rightarrow> config_error + string list" where
  "check_roles U seen [] = Inr []"
| "check_roles U seen (raw # rest) =
     (let role = ToLower U (TrimSpace raw) in
      if role \<notin> set allowedWorkerRoles then Inl (UnsupportedRole role)
      else if role \<in> set seen then Inl (DuplicateRole role)
      else andThen (check_roles U (role # seen) rest) (\<lambda>roles. Inr (role # roles)))"

definition load_roles :: "unicode \<Rightarrow> environ \<Rightarrow> config_error + string list" where
  "load_roles U E =
     (let raw = splitCSV (env E ''WORKER_ROLES'' ''stats,like-snapshot,outbox,gift-consumer,danmaku-consumer'') in
      if raw = [] then Inl (Invalid ''WORKER_ROLES must contain at least one role'')
      else check_roles U [] raw)"

definition needsKafkaCredentials :: "environ \<Rightarrow> string list \<Rightarrow> bool" where
  "needsKafkaCredentials E roles =
     (TrimSpace (E ''WORKER_ROLES'') \<noteq> [] \<longrightarrow>
        list_ex (\<lambda>role. role = ''outbox'' \<or> role = ''gift-consumer'' \<or> role = ''danmaku-consumer'') roles)"

definition load_kafka :: "unicode \<Rightarrow> environ \<Rightarrow> string list \<Rightarrow> config_error + KafkaConfig" where
  "load_kafka U E roles =
     (let brokers = splitCSV (env E ''KAFKA_BROKERS'' ''kafka:9092'');
          mechanism = ToLower U (TrimSpace (E ''KAFKA_SASL_MECHANISM'')) in
      if brokers = [] then Inl (Invalid ''KAFKA_BROKERS must contain at least one broker'')
      else read_bool E ''KAFKA_TLS_ENABLED'' ''false'' (\<lambda>tls.
        if mechanism \<notin> {[], ''plain'', ''scram-sha-256'', ''scram-sha-512''}
        then Inl (Invalid ''KAFKA_SASL_MECHANISM must be one of: plain, scram-sha-256, scram-sha-512'')
        else if mechanism \<noteq> [] \<and> needsKafkaCredentials E roles \<and> (E ''KAFKA_SASL_USERNAME'' = [] \<or> E ''KAFKA_SASL_PASSWORD'' = [])
        then Inl (Invalid ''KAFKA_SASL_USERNAME and KAFKA_SASL_PASSWORD are required when Kafka is used with KAFKA_SASL_MECHANISM'')
        else positive_duration E ''KAFKA_CONSUMER_LEASE'' ''30s'' (\<lambda>lease.
        Inr \<lparr>Brokers = brokers, DanmakuTopic = env E ''KAFKA_DANMAKU_TOPIC'' ''live.danmaku.v1'',
          GiftTopic = env E ''KAFKA_GIFT_TOPIC'' ''live.gift.v1'',
          DanmakuConsumerGroup = env E ''KAFKA_DANMAKU_CONSUMER_GROUP'' ''live-danmaku-persist-v1'',
          GiftConsumerGroup = env E ''KAFKA_GIFT_CONSUMER_GROUP'' ''live-gift-realtime-v1'', ConsumerLease = lease,
          TLSEnabled = tls, SASLMechanism = mechanism, SASLUsername = E ''KAFKA_SASL_USERNAME'',
          SASLPassword = E ''KAFKA_SASL_PASSWORD''\<rparr>)))"

definition load_outbox :: "environ \<Rightarrow> config_error + OutboxConfig" where
  "load_outbox E =
     positive_duration E ''OUTBOX_POLL_INTERVAL'' ''100ms'' (\<lambda>poll.
     must (Atoi (env E ''OUTBOX_BATCH_SIZE'' ''100'')) (\<lambda>v. 0 < v \<and> v \<le> 1000)
       (Invalid ''OUTBOX_BATCH_SIZE must be between 1 and 1000'') (\<lambda>batch.
     positive_duration E ''OUTBOX_LEASE'' ''30s'' (\<lambda>lease.
     positive_duration E ''OUTBOX_PRODUCE_TIMEOUT'' ''5s'' (\<lambda>timeout.
     Inr \<lparr>PollInterval = poll, BatchSize = batch, Lease = lease, ProduceTimeout = timeout\<rparr>))))"

definition load_traffic :: "environ \<Rightarrow> config_error + TrafficConfig" where
  "load_traffic E =
     positive_int E ''DANMAKU_HOT_VIEWERS'' ''50000'' (\<lambda>hotViewers.
     must (ParseInt (env E ''DANMAKU_PROTECT_VIEWERS'' ''100000'')) (\<lambda>v. hotViewers \<le> v)
       (Invalid ''DANMAKU_PROTECT_VIEWERS must be >= DANMAKU_HOT_VIEWERS'') (\<lambda>protectViewers.
     positive_int E ''DANMAKU_HOT_RATE'' ''500'' (\<lambda>hotRate.
     must (ParseInt (env E ''DANMAKU_PROTECT_RATE'' ''2000'')) (\<lambda>v. hotRate \<le> v)
       (Invalid ''DANMAKU_PROTECT_RATE must be >= DANMAKU_HOT_RATE'') (\<lambda>protectRate.
     must (ParseFloat (env E ''DANMAKU_HOT_SAMPLE_RATE'' ''0.5'')) (\<lambda>v. \<not> f_le v (Fin 0) \<and> \<not> f_less (Fin 1) v)
       (Invalid ''DANMAKU_HOT_SAMPLE_RATE must be in (0,1]'') (\<lambda>hotSample.
     must (ParseFloat (env E ''DANMAKU_PROTECT_SAMPLE_RATE'' ''0.2'')) (\<lambda>v. \<not> f_le v (Fin 0) \<and> \<not> f_less hotSample v)
       (Invalid ''DANMAKU_PROTECT_SAMPLE_RATE must be in (0,DANMAKU_HOT_SAMPLE_RATE]'') (\<lambda>protectSample.
     must (ParseDuration (env E ''DANMAKU_RATE_WINDOW'' ''1s'')) (\<lambda>v. millisecond \<le> v)
       (Invalid ''DANMAKU_RATE_WINDOW must be at least 1ms'') (\<lambda>rateWindow.
     read_bool E ''DANMAKU_ADAPTIVE_ENABLED'' ''true'' (\<lambda>adaptive.
     must (ParseFloat (env E ''DANMAKU_TARGET_FANOUT_RATE'' ''25000'')) (\<lambda>v. \<not> f_le v (Fin 0))
       (Invalid ''DANMAKU_TARGET_FANOUT_RATE must be positive'') (\<lambda>targetFanout.
     must (ParseFloat (env E ''DANMAKU_HOT_FANOUT_RATE'' ''30000'')) (\<lambda>v. \<not> f_less v targetFanout)
       (Invalid ''DANMAKU_HOT_FANOUT_RATE must be >= DANMAKU_TARGET_FANOUT_RATE'') (\<lambda>hotFanout.
     must (ParseFloat (env E ''DANMAKU_PROTECT_FANOUT_RATE'' ''40000'')) (\<lambda>v. \<not> f_less v hotFanout)
       (Invalid ''DANMAKU_PROTECT_FANOUT_RATE must be >= DANMAKU_HOT_FANOUT_RATE'') (\<lambda>protectFanout.
     must (ParseFloat (env E ''DANMAKU_MIN_SAMPLE_RATE'' ''0.05'')) (\<lambda>v. \<not> f_le v (Fin 0) \<and> \<not> f_less (Fin 1) v)
       (Invalid ''DANMAKU_MIN_SAMPLE_RATE must be in (0,1]'') (\<lambda>minSample.
     Inr \<lparr>HotViewers = hotViewers, ProtectViewers = protectViewers, HotDanmakuRate = hotRate, ProtectDanmakuRate = protectRate,
       HotSampleRate = hotSample, ProtectSampleRate = protectSample, RateWindow = rateWindow, AdaptiveEnabled = adaptive,
       TargetFanoutRate = targetFanout, HotFanoutRate = hotFanout, ProtectFanoutRate = protectFanout, MinSampleRate = minSample\<rparr>))))))))))))"

definition load_databases :: "environ \<Rightarrow> DatabaseConfig" where
  "load_databases E =
     \<lparr>IdentityDSN = env E ''IDENTITY_MYSQL_DSN'' ''live_identity_app:identity-app@tcp(mysql:3306)/identity?parseTime=true&charset=utf8mb4'',
      RoomDSN = env E ''ROOM_MYSQL_DSN'' ''live_room_app:room-app@tcp(mysql:3306)/room?parseTime=true&charset=utf8mb4'',
      CommerceDSN = env E ''COMMERCE_MYSQL_DSN'' ''live_commerce_app:commerce-app@tcp(mysql:3306)/commerce?parseTime=true&charset=utf8mb4'',
      ArchiveDSN = env E ''ARCHIVE_MYSQL_DSN'' ''live_archive_app:archive-app@tcp(mysql:3306)/archive?parseTime=true&charset=utf8mb4'',
      QueryDSN = env E ''QUERY_MYSQL_DSN'' ''live_query_audit:query-audit@tcp(mysql:3306)/query?parseTime=true&charset=utf8mb4'',
      QueryWriterDSN = env E ''QUERY_WRITER_MYSQL_DSN'' ''live_query_app:query-app@tcp(mysql:3306)/query?parseTime=true&charset=utf8mb4''\<rparr>"

definition service_config :: "environ \<Rightarrow> string \<Rightarrow> string \<Rightarrow> ServiceConfig" where
  "service_config E name addr =
     \<lparr>HTTPAddr = env E (name @ ''_HTTP_ADDR'') addr, BaseURL = TrimRight_char (TrimSpace (E (name @ ''_BASE_URL''))) (CHR ''/'')\<rparr>"

text \<open>The value \<^verbatim>\<open>Load\<close> returns in the end.\<close>

definition assemble :: "environ \<Rightarrow> MySQLConfig \<Rightarrow> int \<times> int \<times> int \<times> int \<Rightarrow> EngagementConfig \<Rightarrow> LikeConfig \<Rightarrow> bool
    \<Rightarrow> DanmakuConfig \<Rightarrow> GiftConfig \<Rightarrow> string list \<Rightarrow> KafkaConfig \<Rightarrow> OutboxConfig \<Rightarrow> ObservabilityConfig \<Rightarrow> TrafficConfig \<Rightarrow> Config" where
  "assemble E my tokens engagement likes devCredit danmaku gifting roles kafka outbox obs traffic =
     (case tokens of (db, cfTTL, subTTL, authTTL) \<Rightarrow>
      \<lparr>cfg_HTTP = env E ''HTTP_ADDR'' '':8080'', cfg_Commerce = service_config E ''COMMERCE'' '':8081'',
       cfg_Interaction = service_config E ''INTERACTION'' '':8082'', cfg_IdentityRoom = service_config E ''IDENTITY_ROOM'' '':8083'',
       cfg_Query = service_config E ''QUERY'' '':8084'', cfg_MySQL = my, cfg_Databases = load_databases E,
       cfg_Redis = \<lparr>redis_url = E ''REDIS_URL'', redis_addr = env E ''REDIS_ADDR'' ''redis:6379'', redis_password = E ''REDIS_PASSWORD'', redis_db = db\<rparr>,
       cfg_Centrifugo = \<lparr>APIURL = env E ''CENTRIFUGO_API_URL'' ''http://centrifugo:8000/api'',
         APIKey = env E ''CENTRIFUGO_API_KEY'' ''dev-api-key-change-me'',
         TokenSecret = env E ''CENTRIFUGO_TOKEN_SECRET'' ''dev-token-secret-change-me'', cf_TokenTTL = cfTTL, SubscriptionTokenTTL = subTTL\<rparr>,
       cfg_Auth = \<lparr>JWTSecret = env E ''AUTH_JWT_SECRET'' ''dev-app-jwt-secret-change-me'', auth_TokenTTL = authTTL\<rparr>,
       cfg_Danmaku = danmaku, cfg_Like = likes, cfg_Gift = gifting, cfg_Engagement = engagement, cfg_DevCredit = devCredit,
       cfg_Kafka = kafka, cfg_Outbox = outbox, cfg_Observability = obs, cfg_Traffic = traffic, cfg_Roles = roles\<rparr>)"

definition Load :: "unicode \<Rightarrow> environ \<Rightarrow> config_error + Config" where
  "Load U E =
     andThen (load_mysql E) (\<lambda>my.
     andThen (load_tokens E) (\<lambda>tokens.
     andThen (load_engagement E) (\<lambda>engagement.
     andThen (load_like E) (\<lambda>likes.
     read_bool E ''ENABLE_DEV_WALLET_CREDIT'' ''false'' (\<lambda>devCredit.
     andThen (load_danmaku E) (\<lambda>danmaku.
     andThen (load_gift E) (\<lambda>gifting.
     andThen (load_roles U E) (\<lambda>roles.
     andThen (load_kafka U E roles) (\<lambda>kafka.
     andThen (load_outbox E) (\<lambda>outbox.
     andThen (loadObservability E) (\<lambda>obs.
     andThen (load_traffic E) (\<lambda>traffic.
     Inr (assemble E my tokens engagement likes devCredit danmaku gifting roles kafka outbox obs traffic)))))))))))))"

section \<open>What a configuration that loads is worth\<close>

lemma must_Inr [simp]: "must v ok err k = Inr c \<longleftrightarrow> (\<exists>x. v = Some x \<and> ok x \<and> k x = Inr c)"
  by (auto simp: must_def split: option.split)

lemma andThen_Inr [simp]: "andThen r k = Inr c \<longleftrightarrow> (\<exists>x. r = Inr x \<and> k x = Inr c)"
  by (auto simp: andThen_def split: sum.split)

lemmas readers = read_bool_def positive_int_def positive_duration_def any_duration_def Atoi_def

text \<open>A rate: not a number, or above zero and at most one.\<close>

definition rate_ok :: "float64 \<Rightarrow> bool" where
  "rate_ok v \<longleftrightarrow> v = NaN \<or> (\<exists>q. v = Fin q \<and> 0 < q \<and> q \<le> 1)"

lemma rate_ok_iff: "rate_ok v \<longleftrightarrow> \<not> f_le v (Fin 0) \<and> \<not> f_less (Fin 1) v"
  by (cases v) (auto simp: rate_ok_def f_le_def)

text \<open>
  What the tests on floating point numbers leave: every comparison with a number that is none is
  false, so it passes each test; any other value is in its range.
\<close>

definition f_positive :: "float64 \<Rightarrow> bool" where
  "f_positive v \<longleftrightarrow> v = NaN \<or> f_less (Fin 0) v"

definition at_most :: "float64 \<Rightarrow> float64 \<Rightarrow> bool" where
  "at_most a b \<longleftrightarrow> a = NaN \<or> b = NaN \<or> f_le a b"

definition ratio_ok :: "float64 \<Rightarrow> bool" where
  "ratio_ok v \<longleftrightarrow> v = NaN \<or> (\<exists>q. v = Fin q \<and> 0 \<le> q \<and> q \<le> 1)"

lemma f_positive_iff: "f_positive v \<longleftrightarrow> \<not> f_le v (Fin 0)"
  by (cases v) (auto simp: f_positive_def f_le_def)

lemma at_most_iff: "at_most a b \<longleftrightarrow> \<not> f_less b a"
  by (cases a; cases b) (auto simp: at_most_def f_le_def)

lemma ratio_ok_iff: "ratio_ok v \<longleftrightarrow> \<not> f_less v (Fin 0) \<and> \<not> f_less (Fin 1) v"
  by (cases v) (auto simp: ratio_ok_def)

lemma load_mysql_ok:
  "load_mysql E = Inr m \<Longrightarrow> 0 \<le> MaxIdleConns m \<and> MaxIdleConns m \<le> MaxOpenConns m \<and> 0 < MaxOpenConns m \<and> 0 < ConnMaxLifetime m"
  by (auto simp: load_mysql_def readers)

lemma load_engagement_ok:
  "load_engagement E = Inr g \<Longrightarrow> 0 < ViewerTTL g \<and> ViewerTTL g < ActiveRoomWindow g \<and> 0 < StatsInterval g \<and> 0 < ActiveRoomBatch g
    \<and> 0 < ActiveRoomShards g \<and> ActiveRoomShards g \<le> 1024 \<and> 0 < LikeSnapshotInterval g \<and> is_i64 (ActiveRoomWindow g)"
  by (auto simp: load_engagement_def readers dest: ParseDuration_i64)

lemma load_like_ok:
  "load_like E = Inr g \<Longrightarrow> 0 < lcfg_rate g \<and> 0 < lcfg_window g \<and> 0 < lcfg_room_ttl g \<and> 0 < lcfg_ban_ttl g"
  by (auto simp: load_like_def readers)

lemma load_danmaku_ok: "load_danmaku E = Inr g \<Longrightarrow> 0 < dcfg_rate g \<and> 0 < dcfg_window g \<and> [] \<notin> set (SensitiveWords g)"
  by (auto simp: load_danmaku_def readers load_words_def splitCSV_def)

lemma load_gift_ok:
  "load_gift E = Inr g \<Longrightarrow> 0 < MaxCountPerRequest g \<and> MaxCountPerRequest g \<le> 10000 \<and> 0 < gcfg_rate g \<and> 0 < gcfg_window g"
  by (auto simp: load_gift_def readers)

lemma check_roles_ok:
  "check_roles U seen raw = Inr rs \<Longrightarrow>
    set rs \<subseteq> set allowedWorkerRoles \<and> distinct rs \<and> set rs \<inter> set seen = {} \<and> length rs = length raw"
proof (induction raw arbitrary: seen rs)
  case (Cons r raw)
  let ?role = "ToLower U (TrimSpace r)"
  from Cons.prems obtain rs' where rs: "check_roles U (?role # seen) raw = Inr rs'" "rs = ?role # rs'"
    "?role \<in> set allowedWorkerRoles" "?role \<notin> set seen"
    by (auto simp: Let_def simp del: set_simps split: if_splits)
  from Cons.IH [OF rs(1)] rs(2-4) show ?case by auto
qed simp

lemma load_roles_ok:
  "load_roles U E = Inr rs \<Longrightarrow> rs \<noteq> [] \<and> distinct rs \<and> set rs \<subseteq> set allowedWorkerRoles"
  by (auto simp: load_roles_def Let_def dest: check_roles_ok split: if_splits)

lemma kafka_shape:
  "(if brokers = [] then Inl e1
    else read_bool E k1 f1 (\<lambda>tls. if bad then Inl e2 else if missing then Inl e3
      else positive_duration E k2 f2 (\<lambda>lease. Inr (R tls lease)))) = Inr k
   \<longleftrightarrow> brokers \<noteq> [] \<and> \<not> missing \<and> \<not> bad \<and> (\<exists>tls lease. 0 < lease \<and> ParseBool (env E k1 f1) = Some tls
      \<and> ParseDuration (env E k2 f2) = Some lease \<and> k = R tls lease)"
  by (auto simp: readers)

lemma splitCSV_plain: "[] \<notin> set (splitCSV raw)"
  by (simp add: splitCSV_def)

lemma load_kafka_ok:
  assumes "load_kafka U E roles = Inr k"
  shows "Brokers k \<noteq> [] \<and> [] \<notin> set (Brokers k) \<and> 0 < ConsumerLease k
    \<and> SASLMechanism k \<in> {[], ''plain'', ''scram-sha-256'', ''scram-sha-512''}
    \<and> (SASLMechanism k \<noteq> [] \<longrightarrow> set roles \<inter> {''outbox'', ''gift-consumer'', ''danmaku-consumer''} \<noteq> {}
        \<longrightarrow> SASLUsername k \<noteq> [] \<and> SASLPassword k \<noteq> [])"
proof -
  have needed: "needsKafkaCredentials E roles" if "set roles \<inter> {''outbox'', ''gift-consumer'', ''danmaku-consumer''} \<noteq> {}"
    using that by (auto simp: needsKafkaCredentials_def list_ex_iff)
  note assms [unfolded load_kafka_def Let_def kafka_shape]
  then obtain tls lease where l: "0 < lease" and k: "k = \<lparr>Brokers = splitCSV (env E ''KAFKA_BROKERS'' ''kafka:9092''),
      DanmakuTopic = env E ''KAFKA_DANMAKU_TOPIC'' ''live.danmaku.v1'', GiftTopic = env E ''KAFKA_GIFT_TOPIC'' ''live.gift.v1'',
      DanmakuConsumerGroup = env E ''KAFKA_DANMAKU_CONSUMER_GROUP'' ''live-danmaku-persist-v1'',
      GiftConsumerGroup = env E ''KAFKA_GIFT_CONSUMER_GROUP'' ''live-gift-realtime-v1'', ConsumerLease = lease,
      TLSEnabled = tls, SASLMechanism = ToLower U (TrimSpace (E ''KAFKA_SASL_MECHANISM'')), SASLUsername = E ''KAFKA_SASL_USERNAME'',
      SASLPassword = E ''KAFKA_SASL_PASSWORD''\<rparr>"
    and b: "splitCSV (env E ''KAFKA_BROKERS'' ''kafka:9092'') \<noteq> []"
    and m: "ToLower U (TrimSpace (E ''KAFKA_SASL_MECHANISM'')) \<in> {[], ''plain'', ''scram-sha-256'', ''scram-sha-512''}"
    and c: "\<not> (ToLower U (TrimSpace (E ''KAFKA_SASL_MECHANISM'')) \<noteq> [] \<and> needsKafkaCredentials E roles
      \<and> (E ''KAFKA_SASL_USERNAME'' = [] \<or> E ''KAFKA_SASL_PASSWORD'' = []))"
    by blast
  show ?thesis
    unfolding k KafkaConfig.select_convs using b l c m needed splitCSV_plain by blast
qed

lemma load_outbox_ok:
  "load_outbox E = Inr g \<Longrightarrow> 0 < PollInterval g \<and> 0 < BatchSize g \<and> BatchSize g \<le> 1000 \<and> 0 < Lease g \<and> 0 < ProduceTimeout g"
  by (auto simp: load_outbox_def readers)

lemma load_traffic_ok:
  assumes "load_traffic E = Inr g"
  shows "0 < HotViewers g \<and> HotViewers g \<le> ProtectViewers g \<and> 0 < HotDanmakuRate g \<and> HotDanmakuRate g \<le> ProtectDanmakuRate g
    \<and> millisecond \<le> RateWindow g \<and> rate_ok (HotSampleRate g) \<and> rate_ok (MinSampleRate g)
    \<and> f_positive (ProtectSampleRate g) \<and> at_most (ProtectSampleRate g) (HotSampleRate g)
    \<and> f_positive (TargetFanoutRate g) \<and> at_most (TargetFanoutRate g) (HotFanoutRate g) \<and> at_most (HotFanoutRate g) (ProtectFanoutRate g)"
  using assms by (auto simp: load_traffic_def readers rate_ok_iff f_positive_iff at_most_iff)

lemma loadObservability_ok: "loadObservability E = Inr g \<Longrightarrow> ratio_ok (OTelSampleRatio g)"
  by (auto simp: loadObservability_def readers ratio_ok_iff)

lemma Load_parts:
  assumes "Load U E = Inr c"
  shows "load_mysql E = Inr (cfg_MySQL c)" "load_engagement E = Inr (cfg_Engagement c)" "load_like E = Inr (cfg_Like c)"
    "load_danmaku E = Inr (cfg_Danmaku c)" "load_gift E = Inr (cfg_Gift c)" "load_roles U E = Inr (cfg_Roles c)"
    "load_kafka U E (cfg_Roles c) = Inr (cfg_Kafka c)" "load_outbox E = Inr (cfg_Outbox c)"
    "loadObservability E = Inr (cfg_Observability c)" "load_traffic E = Inr (cfg_Traffic c)"
  using assms by (auto simp: Load_def readers assemble_def)

text \<open>An environment that sets the rates, and leaves everything else at its default.\<close>

definition plain_env :: environ where
  "plain_env key = (if key \<in> {''OTEL_SAMPLE_RATIO'', ''DANMAKU_HOT_SAMPLE_RATE'', ''DANMAKU_PROTECT_SAMPLE_RATE'',
     ''DANMAKU_TARGET_FANOUT_RATE'', ''DANMAKU_HOT_FANOUT_RATE'', ''DANMAKU_PROTECT_FANOUT_RATE'', ''DANMAKU_MIN_SAMPLE_RATE''}
     then ''1'' else [])"

lemma ParseFloat_one: "ParseFloat ''1'' = Some (Fin 1)"
proof -
  have "literal_value ''1'' = Some 1"
  proof -
    have u: "unsigned ''1'' = (False, ''1'')" by (simp add: unsigned_def HasPrefix_def)
    have d: "is_dec (CHR ''1'')" "hex_value (CHR ''1'') = 1" by (simp_all add: is_dec_def hex_value_def byte_def)
    show ?thesis by (simp add: literal_value_def u d HasPrefix_def Let_def)
  qed
  moreover have "rnd 1 = Fin 1" using rnd_nat [of 1] by simp
  ultimately show ?thesis
    by (simp add: ParseFloat_def unsigned_def HasPrefix_def lower_byte_def byte_def)
qed

lemma default_ints:
  "ParseInt ''40'' = Some 40" "ParseInt ''20'' = Some 20" "ParseInt ''0'' = Some 0" "ParseInt ''1000'' = Some 1000"
  "ParseInt ''16'' = Some 16" "ParseInt ''300'' = Some 300" "ParseInt ''5'' = Some 5" "ParseInt ''100'' = Some 100"
  "ParseInt ''10'' = Some 10" "ParseInt ''50000'' = Some 50000" "ParseInt ''100000'' = Some 100000"
  "ParseInt ''500'' = Some 500" "ParseInt ''2000'' = Some 2000"
  by (simp_all add: ParseInt_def is_i64_def)

lemma default_durations:
  "ParseDuration ''30m'' = Some (30 * minute)" "ParseDuration ''1h'' = Some (60 * minute)" "ParseDuration ''5m'' = Some (5 * minute)"
  "ParseDuration ''24h'' = Some (1440 * minute)" "ParseDuration ''90s'' = Some (90 * second)" "ParseDuration ''200ms'' = Some (200 * millisecond)"
  "ParseDuration ''3m'' = Some (3 * minute)" "ParseDuration ''10s'' = Some (10 * second)" "ParseDuration ''1s'' = Some second"
  "ParseDuration ''2s'' = Some (2 * second)" "ParseDuration ''30s'' = Some (30 * second)" "ParseDuration ''100ms'' = Some (100 * millisecond)"
  "ParseDuration ''5s'' = Some (5 * second)"
  by (simp_all add: ParseDuration_def unsigned_def HasPrefix_def duration_sum.simps duration_part_def is_dec_def byte_def unit_of_def with_fraction_def)

lemma plain_mysql: "load_mysql plain_env = Inr \<lparr>MaxOpenConns = 40, MaxIdleConns = 20, ConnMaxLifetime = 30 * minute\<rparr>"
  by (simp add: load_mysql_def readers must_def env_def plain_env_def default_ints default_durations)

lemma plain_tokens: "load_tokens plain_env = Inr (0, 60 * minute, 5 * minute, 1440 * minute)"
  by (simp add: load_tokens_def readers must_def env_def plain_env_def default_ints default_durations)

lemma plain_engagement: "load_engagement plain_env = Inr \<lparr>ViewerTTL = 90 * second, StatsInterval = 200 * millisecond,
    ActiveRoomWindow = 3 * minute, ActiveRoomBatch = 1000, ActiveRoomShards = 16, LikeSnapshotInterval = 10 * second\<rparr>"
  by (simp add: load_engagement_def readers must_def env_def plain_env_def default_ints default_durations)

lemma plain_like: "load_like plain_env = Inr \<lparr>lcfg_rate = 300, lcfg_window = second, lcfg_room_ttl = 2 * second, lcfg_ban_ttl = second\<rparr>"
  by (simp add: load_like_def readers must_def env_def plain_env_def default_ints default_durations)

lemma plain_danmaku: "load_danmaku plain_env = Inr \<lparr>SensitiveWords = load_words plain_env, dcfg_rate = 5, dcfg_window = 10 * second\<rparr>"
  by (simp add: load_danmaku_def readers must_def env_def plain_env_def default_ints default_durations)

lemma plain_gift: "load_gift plain_env = Inr \<lparr>MaxCountPerRequest = 100, gcfg_rate = 10, gcfg_window = second\<rparr>"
  by (simp add: load_gift_def readers must_def env_def plain_env_def default_ints default_durations)

lemma plain_roles: "load_roles ascii_only plain_env = Inr allowedWorkerRoles"
proof -
  have "splitCSV ''stats,like-snapshot,outbox,gift-consumer,danmaku-consumer'' = allowedWorkerRoles" by code_simp
  moreover have "check_roles ascii_only [] allowedWorkerRoles = Inr allowedWorkerRoles" by code_simp
  ultimately show ?thesis by (simp add: load_roles_def env_def plain_env_def allowedWorkerRoles_def)
qed

lemma plain_kafka: "\<exists>k. load_kafka ascii_only plain_env roles = Inr k"
proof -
  have "splitCSV ''kafka:9092'' = [''kafka:9092'']" by code_simp
  then show ?thesis
    by (simp add: load_kafka_def readers must_def env_def plain_env_def default_durations ParseBool_def)
qed

lemma plain_outbox: "load_outbox plain_env = Inr \<lparr>PollInterval = 100 * millisecond, BatchSize = 100, Lease = 30 * second, ProduceTimeout = 5 * second\<rparr>"
  by (simp add: load_outbox_def readers must_def env_def plain_env_def default_ints default_durations)

lemma plain_observability: "\<exists>k. loadObservability plain_env = Inr k"
  by (simp add: loadObservability_def readers must_def env_def plain_env_def ParseBool_def ParseFloat_one)

lemma plain_traffic: "\<exists>k. load_traffic plain_env = Inr k"
  by (simp add: load_traffic_def readers must_def env_def plain_env_def default_ints default_durations ParseBool_def ParseFloat_one f_le_def)

text \<open>A rate that is not a number passes the tests.\<close>

lemma nan_rate_loads:
  "\<exists>g. load_traffic (plain_env(''DANMAKU_HOT_SAMPLE_RATE'' := ''nan'')) = Inr g \<and> HotSampleRate g = NaN"
proof -
  have "ParseFloat ''nan'' = Some NaN"
    by (simp add: ParseFloat_def unsigned_def HasPrefix_def lower_byte_def byte_def)
  then show ?thesis
    by (simp add: load_traffic_def readers must_def env_def plain_env_def default_ints default_durations ParseBool_def ParseFloat_one f_le_def)
qed

lemma plain_loads: "\<exists>c. Load ascii_only plain_env = Inr c \<and> cfg_Roles c = allowedWorkerRoles"
proof -
  obtain k obs tr where "load_kafka ascii_only plain_env allowedWorkerRoles = Inr k" "loadObservability plain_env = Inr obs"
    "load_traffic plain_env = Inr tr"
    using plain_kafka plain_observability plain_traffic by blast
  moreover have "read_bool plain_env ''ENABLE_DEV_WALLET_CREDIT'' ''false'' f = f False" for f :: "bool \<Rightarrow> config_error + Config"
    by (simp add: readers must_def env_def plain_env_def ParseBool_def)
  ultimately show ?thesis
    by (simp add: Load_def assemble_def andThen_def plain_mysql plain_tokens plain_engagement plain_like plain_danmaku plain_gift plain_roles plain_outbox)
qed

section \<open>Property\<close>

text \<open>
  C38. A configuration that loads is well formed, whatever the environment. Every limit, interval,
  lease, batch and window that is tested is positive; the pool of idle connections fits the pool, the window
  of active rooms is longer than the life of a viewer, batches and shards are within their bounds, a
  gift is of at most ten thousand; the worker has a role, each role is known and none is given twice;
  the broker's mechanism is none or one of the three allowed, and a role that needs the broker has
  credentials when one is set; no sensitive word or broker is empty. The trace ratio is in \<open>[0,1]\<close>, the
  hot and the least sample rate in \<open>(0,1]\<close>, the protected one positive and at most the hot one, the target
  fan-out positive and at most the hot fan-out, and that at most the protected one, and likewise for
  viewers and messages, except that \<^verbatim>\<open>nan\<close> passes every test on a floating point number.
\<close>

theorem config_well_formed:
  assumes "Load U E = Inr c"
  shows "0 < MaxOpenConns (cfg_MySQL c) \<and> MaxIdleConns (cfg_MySQL c) \<in> {0..MaxOpenConns (cfg_MySQL c)} \<and> 0 < ConnMaxLifetime (cfg_MySQL c)
    \<and> 0 < ViewerTTL (cfg_Engagement c) \<and> ViewerTTL (cfg_Engagement c) < ActiveRoomWindow (cfg_Engagement c)
    \<and> 0 < StatsInterval (cfg_Engagement c) \<and> 0 < LikeSnapshotInterval (cfg_Engagement c)
    \<and> 0 < ActiveRoomBatch (cfg_Engagement c) \<and> ActiveRoomShards (cfg_Engagement c) \<in> {1..1024}
    \<and> 0 < lcfg_rate (cfg_Like c) \<and> 0 < lcfg_window (cfg_Like c) \<and> 0 < lcfg_room_ttl (cfg_Like c) \<and> 0 < lcfg_ban_ttl (cfg_Like c)
    \<and> 0 < dcfg_rate (cfg_Danmaku c) \<and> 0 < dcfg_window (cfg_Danmaku c) \<and> [] \<notin> set (SensitiveWords (cfg_Danmaku c))
    \<and> MaxCountPerRequest (cfg_Gift c) \<in> {1..10000} \<and> 0 < gcfg_rate (cfg_Gift c) \<and> 0 < gcfg_window (cfg_Gift c)
    \<and> cfg_Roles c \<noteq> [] \<and> distinct (cfg_Roles c) \<and> set (cfg_Roles c) \<subseteq> set allowedWorkerRoles
    \<and> Brokers (cfg_Kafka c) \<noteq> [] \<and> [] \<notin> set (Brokers (cfg_Kafka c)) \<and> 0 < ConsumerLease (cfg_Kafka c)
    \<and> SASLMechanism (cfg_Kafka c) \<in> {[], ''plain'', ''scram-sha-256'', ''scram-sha-512''}
    \<and> (SASLMechanism (cfg_Kafka c) \<noteq> [] \<longrightarrow> set (cfg_Roles c) \<inter> {''outbox'', ''gift-consumer'', ''danmaku-consumer''} \<noteq> {}
         \<longrightarrow> SASLUsername (cfg_Kafka c) \<noteq> [] \<and> SASLPassword (cfg_Kafka c) \<noteq> [])
    \<and> 0 < PollInterval (cfg_Outbox c) \<and> BatchSize (cfg_Outbox c) \<in> {1..1000} \<and> 0 < Lease (cfg_Outbox c) \<and> 0 < ProduceTimeout (cfg_Outbox c)
    \<and> ratio_ok (OTelSampleRatio (cfg_Observability c))
    \<and> 0 < HotViewers (cfg_Traffic c) \<and> HotViewers (cfg_Traffic c) \<le> ProtectViewers (cfg_Traffic c)
    \<and> 0 < HotDanmakuRate (cfg_Traffic c) \<and> HotDanmakuRate (cfg_Traffic c) \<le> ProtectDanmakuRate (cfg_Traffic c)
    \<and> millisecond \<le> RateWindow (cfg_Traffic c) \<and> rate_ok (HotSampleRate (cfg_Traffic c)) \<and> rate_ok (MinSampleRate (cfg_Traffic c))
    \<and> f_positive (ProtectSampleRate (cfg_Traffic c)) \<and> at_most (ProtectSampleRate (cfg_Traffic c)) (HotSampleRate (cfg_Traffic c))
    \<and> f_positive (TargetFanoutRate (cfg_Traffic c)) \<and> at_most (TargetFanoutRate (cfg_Traffic c)) (HotFanoutRate (cfg_Traffic c))
    \<and> at_most (HotFanoutRate (cfg_Traffic c)) (ProtectFanoutRate (cfg_Traffic c))"
proof -
  note p = Load_parts [OF assms]
  show ?thesis
    using load_mysql_ok [OF p(1)] load_engagement_ok [OF p(2)] load_like_ok [OF p(3)] load_danmaku_ok [OF p(4)] load_gift_ok [OF p(5)]
    load_roles_ok [OF p(6)] load_kafka_ok [OF p(7)] load_outbox_ok [OF p(8)] loadObservability_ok [OF p(9)] load_traffic_ok [OF p(10)]
    by simp
qed

text \<open>The defaults load, and so are well formed.\<close>

theorem config_well_formed_witness:
  "\<exists>c. Load ascii_only plain_env = Inr c \<and> ViewerTTL (cfg_Engagement c) < ActiveRoomWindow (cfg_Engagement c)
    \<and> ActiveRoomShards (cfg_Engagement c) \<in> {1..1024} \<and> MaxCountPerRequest (cfg_Gift c) \<in> {1..10000}
    \<and> ratio_ok (OTelSampleRatio (cfg_Observability c)) \<and> at_most (TargetFanoutRate (cfg_Traffic c)) (HotFanoutRate (cfg_Traffic c))
    \<and> cfg_Roles c = [''stats'', ''like-snapshot'', ''outbox'', ''gift-consumer'', ''danmaku-consumer''] \<and> distinct (cfg_Roles c)"
proof -
  obtain c where c: "Load ascii_only plain_env = Inr c" "cfg_Roles c = allowedWorkerRoles"
    using plain_loads by blast
  from config_well_formed [OF c(1)] have "ViewerTTL (cfg_Engagement c) < ActiveRoomWindow (cfg_Engagement c)"
    "ActiveRoomShards (cfg_Engagement c) \<in> {1..1024}" "MaxCountPerRequest (cfg_Gift c) \<in> {1..10000}" "distinct (cfg_Roles c)"
    "ratio_ok (OTelSampleRatio (cfg_Observability c))" "at_most (TargetFanoutRate (cfg_Traffic c)) (HotFanoutRate (cfg_Traffic c))"
    by blast+
  with c show ?thesis by (auto simp: allowedWorkerRoles_def)
qed

end
