(* ===== verification/Migrate.thy ===== *)
theory Migrate
  imports Config Crypto "HOL-Library.List_Lexorder" "HOL-Library.Sublist"
begin

text \<open>
  \<^verbatim>\<open>cmd/migrate\<close>: the process that brings the schema up to date before the others start. The
  database is its table of applied migrations, the texts it was given to run, in order, and its
  accounts with their grants. The files, the DSN parser and what a migration text answers are
  arguments. The properties: an applied migration is never run again, a recorded one keeps its
  checksum, and a run that succeeds leaves every file applied and every account with its own
  grant and no other.
\<close>

section \<open>The database\<close>

record account =
  ac_password :: string
  ac_grants :: "(string \<times> string) list"

record schema_db =
  sc_lock_busy :: bool
  sc_locked :: bool
  sc_versions :: "(string \<times> string \<times> int) list option"
  sc_begun :: "string list"
  sc_accounts :: "string \<Rightarrow> account option"

text \<open>The statements of the process; \<open>ck\<close> is the collation of the table's key.\<close>

definition get_lock :: "(schema_db, int) prog" where
  "get_lock = ext (\<lambda>d w. if sc_lock_busy d then (Inr 0, d) else (Inr 1, d\<lparr>sc_locked := True\<rparr>))"

definition release_lock :: "(schema_db, unit) prog" where
  "release_lock = ext (\<lambda>d w. (Inr (), d\<lparr>sc_locked := False\<rparr>))"

definition create_versions :: "(schema_db, unit) prog" where
  "create_versions = ext (\<lambda>d w. (Inr (), case sc_versions d of None \<Rightarrow> d\<lparr>sc_versions := Some []\<rparr> | Some _ \<Rightarrow> d))"

definition version_checksum :: "(string \<Rightarrow> string) \<Rightarrow> schema_db \<Rightarrow> string \<Rightarrow> string option" where
  "version_checksum ck d v =
     (case sc_versions d of None \<Rightarrow> None | Some rows \<Rightarrow>
        map_option (\<lambda>(_, c, _). c) (find (\<lambda>(u, _). ck u = ck v) rows))"

definition select_checksum :: "(string \<Rightarrow> string) \<Rightarrow> string \<Rightarrow> (schema_db, string) prog" where
  "select_checksum ck v = read_ext (\<lambda>d w.
     if sc_versions d = None then Inl (MySQLError 1146 ''Table doesn't exist'')
     else case version_checksum ck d v of None \<Rightarrow> Inl (Sentinel Sql_ErrNoRows) | Some c \<Rightarrow> Inr c)"

definition run_text :: "(string \<Rightarrow> go_err option) \<Rightarrow> string \<Rightarrow> (schema_db, unit) prog" where
  "run_text sql body = ext (\<lambda>d w. (case sql body of None \<Rightarrow> Inr () | Some err \<Rightarrow> Inl err, d\<lparr>sc_begun := sc_begun d @ [body]\<rparr>))"

definition insert_version :: "(string \<Rightarrow> string) \<Rightarrow> string \<Rightarrow> string \<Rightarrow> (schema_db, unit) prog" where
  "insert_version ck v checksum = ext (\<lambda>d w.
     case sc_versions d of
       None \<Rightarrow> (Inl (MySQLError 1146 ''Table doesn't exist''), d)
     | Some rows \<Rightarrow> if version_checksum ck d v \<noteq> None then (Inl (MySQLError 1062 ''Duplicate entry''), d)
         else (Inr (), d\<lparr>sc_versions := Some (rows @ [(v, checksum, db_now w)])\<rparr>))"

section \<open>Applying migrations\<close>

definition migration_names :: "(string \<times> bool) list \<Rightarrow> string list" where
  "migration_names entries =
     sort_key (map byte) (map fst (filter (\<lambda>(name, is_dir). \<not> is_dir \<and> HasSuffix name ''.sql'') entries))"

definition file_checksum :: "string \<Rightarrow> string" where
  "file_checksum body = hex_encode (sha256 body)"

text \<open>The body of the loop over the names.\<close>

definition apply_migration ::
  "(string \<Rightarrow> string) \<Rightarrow> (string \<Rightarrow> go_err option) \<Rightarrow> (string \<Rightarrow> string option) \<Rightarrow> string \<Rightarrow> (schema_db, unit) prog" where
  "apply_migration ck sql file name =
     (case file name of None \<Rightarrow> fail (Plain ''open migration'')
      | Some body \<Rightarrow>
        let checksum = file_checksum body in
        handle (select_checksum ck name)
          (\<lambda>err. if err \<noteq> Sentinel Sql_ErrNoRows then fail (errorf_pre (''check migration '' @ name) err)
             else handle (run_text sql body) (\<lambda>err. fail (errorf_pre (''apply migration '' @ name) err)) (\<lambda>_.
               handle (insert_version ck name checksum) (\<lambda>err. fail (errorf_pre (''record migration '' @ name) err)) ret))
          (\<lambda>existing. if existing \<noteq> checksum
             then fail (Plain (''migration '' @ name @ '' checksum changed after application'')) else ret ()))"

section \<open>The accounts of the services\<close>

record serviceAccount =
  sa_schema :: string
  sa_user :: string
  sa_passwordEnv :: string
  sa_privileges :: string

definition accounts_of :: "string \<Rightarrow> serviceAccount list" where
  "accounts_of schema =
     (let upper = map (\<lambda>c. if 97 \<le> byte c \<and> byte c \<le> 122 then char_of (of_char c - (32 :: nat)) else c) schema in
      [\<lparr>sa_schema = schema, sa_user = ''live_'' @ schema @ ''_app'', sa_passwordEnv = upper @ ''_MYSQL_APP_PASSWORD'',
        sa_privileges = ''SELECT, INSERT, UPDATE, DELETE''\<rparr>,
       \<lparr>sa_schema = schema, sa_user = ''live_'' @ schema @ ''_migrate'', sa_passwordEnv = upper @ ''_MYSQL_MIGRATION_PASSWORD'',
        sa_privileges = ''ALL PRIVILEGES''\<rparr>,
       \<lparr>sa_schema = schema, sa_user = ''live_'' @ schema @ ''_audit'', sa_passwordEnv = upper @ ''_MYSQL_AUDIT_PASSWORD'',
        sa_privileges = ''SELECT''\<rparr>])"

definition service_accounts :: "serviceAccount list" where
  "service_accounts = concat (map accounts_of [''identity'', ''room'', ''commerce'', ''archive'', ''query''])"

text \<open>A quoted password stands for the text it denotes.\<close>

definition quote_password :: "string \<Rightarrow> (schema_db, string) prog" where
  "quote_password p = read_ext (\<lambda>d w. Inr p)"

definition change_account :: "string \<Rightarrow> (account \<Rightarrow> account) \<Rightarrow> (schema_db, unit) prog" where
  "change_account user f = ext (\<lambda>d w. case sc_accounts d user of
       None \<Rightarrow> (Inl (MySQLError 1396 ''Operation failed for user''), d)
     | Some a \<Rightarrow> (Inr (), d\<lparr>sc_accounts := (sc_accounts d)(user \<mapsto> f a)\<rparr>))"

definition create_user :: "string \<Rightarrow> string \<Rightarrow> (schema_db, unit) prog" where
  "create_user user p = ext (\<lambda>d w. case sc_accounts d user of
       None \<Rightarrow> (Inr (), d\<lparr>sc_accounts := (sc_accounts d)(user \<mapsto> \<lparr>ac_password = p, ac_grants = []\<rparr>)\<rparr>)
     | Some a \<Rightarrow> (Inr (), d))"

definition provision :: "environ \<Rightarrow> serviceAccount \<Rightarrow> (schema_db, unit) prog" where
  "provision E a =
     (let password = TrimSpace (E (sa_passwordEnv a)) in
      if password = [] then fail (Plain (sa_passwordEnv a @ '' is required''))
      else bind (quote_password password) (\<lambda>quoted.
        bind (create_user (sa_user a) quoted) (\<lambda>_.
        bind (change_account (sa_user a) (ac_password_update (\<lambda>_. quoted))) (\<lambda>_.
        bind (change_account (sa_user a) (ac_grants_update (\<lambda>_. []))) (\<lambda>_.
        change_account (sa_user a) (ac_grants_update (\<lambda>g. (sa_privileges a, sa_schema a) # g)))))))"

definition provisionServiceAccounts :: "environ \<Rightarrow> (schema_db, unit) prog" where
  "provisionServiceAccounts E = each (provision E) service_accounts"

section \<open>The run\<close>

definition with_lock :: "(schema_db, unit) prog \<Rightarrow> (schema_db, unit) prog" where
  "with_lock body =
     handle get_lock (\<lambda>err. fail (errorf_pre ''acquire migration lock'' err)) (\<lambda>locked.
     if locked \<noteq> 1 then fail (Plain ''migration lock timeout'')
     else bind (attempt body) (\<lambda>r. bind (ignore release_lock) (\<lambda>_. lift r)))"

definition migrate_run ::
  "(string \<Rightarrow> string) \<Rightarrow> (string \<Rightarrow> go_err option) \<Rightarrow> (string \<Rightarrow> go_err + string) \<Rightarrow> environ
   \<Rightarrow> (string \<Rightarrow> (string \<times> bool) list option) \<Rightarrow> (string \<Rightarrow> string \<Rightarrow> string option) \<Rightarrow> string \<Rightarrow> string \<Rightarrow> (schema_db, unit) prog" where
  "migrate_run ck sql ParseDSN E readdir readfile dsn dir =
     (case ParseDSN dsn of Inl err \<Rightarrow> fail (errorf_pre ''parse mysql dsn'' err)
      | Inr _ \<Rightarrow>
        handle (ext (\<lambda>d w. (Inr (), d))) (\<lambda>err. fail (errorf_pre ''reserve mysql migration connection'' err)) (\<lambda>_.
        handle (ext (\<lambda>d w. (Inr (), d))) (\<lambda>err. fail (errorf_pre ''ping mysql'' err)) (\<lambda>_.
        with_lock (
          handle create_versions (\<lambda>err. fail (errorf_pre ''create schema_migrations'' err)) (\<lambda>_.
          case readdir dir of None \<Rightarrow> fail (Plain ''read migrations dir'')
          | Some entries \<Rightarrow>
              bind (each (apply_migration ck sql (readfile dir)) (migration_names entries)) (\<lambda>_.
              handle (provisionServiceAccounts E) (\<lambda>err. fail (errorf_pre ''provision service accounts'' err)) ret))))))"

text \<open>The exit status of the process.\<close>

definition migrate_main ::
  "(string \<Rightarrow> string) \<Rightarrow> (string \<Rightarrow> go_err option) \<Rightarrow> (string \<Rightarrow> go_err + string) \<Rightarrow> environ
   \<Rightarrow> (string \<Rightarrow> (string \<times> bool) list option) \<Rightarrow> (string \<Rightarrow> string \<Rightarrow> string option) \<Rightarrow> (schema_db, int) prog" where
  "migrate_main ck sql ParseDSN E readdir readfile =
     (let dsn = TrimSpace (E ''MYSQL_DSN'') in
      if dsn = [] then ret 1
      else handle (migrate_run ck sql ParseDSN E readdir readfile dsn (env E ''MIGRATIONS_DIR'' ''/app/migrations''))
        (\<lambda>_. ret 1) (\<lambda>_. ret 0))"

section \<open>What a run does to the table\<close>

text \<open>From one state to another by running and recording some files.\<close>

definition applied_to :: "(string \<Rightarrow> string) \<Rightarrow> (string \<Rightarrow> string option) \<Rightarrow> schema_db \<Rightarrow> string list \<Rightarrow> schema_db \<Rightarrow> bool" where
  "applied_to ck file d rn d' \<longleftrightarrow>
     sc_begun d' = sc_begun d @ map (the \<circ> file) rn
     \<and> (\<forall>n \<in> set rn. version_checksum ck d n = None \<and> file n \<noteq> None)
     \<and> (\<forall>v c. version_checksum ck d v = Some c \<longrightarrow> version_checksum ck d' v = Some c)
     \<and> (\<forall>v c. version_checksum ck d' v = Some c \<longrightarrow> version_checksum ck d v = Some c
          \<or> (\<exists>n \<in> set rn. ck n = ck v \<and> c = file_checksum (the (file n))))"

lemma applied_same:
  "sc_begun d' = sc_begun d \<Longrightarrow> version_checksum ck d' = version_checksum ck d \<Longrightarrow> applied_to ck file d [] d'"
  by (simp add: applied_to_def)

lemma applied_trans:
  assumes "applied_to ck file d r1 d1" and "applied_to ck file d1 r2 d2"
  shows "applied_to ck file d (r1 @ r2) d2"
proof -
  have "version_checksum ck d n = None" if "version_checksum ck d1 n = None" for n
    using assms(1) that by (cases "version_checksum ck d n") (auto simp: applied_to_def)
  with assms show ?thesis
    unfolding applied_to_def set_append map_append by (elim conjE, intro conjI) (simp, blast, blast, blast)
qed

lemma version_checksum_cong: "sc_versions d' = sc_versions d \<Longrightarrow> version_checksum ck d' = version_checksum ck d"
  by (simp add: version_checksum_def fun_eq_iff)

lemma version_checksum_insert:
  assumes "sc_versions d = Some rows" and "version_checksum ck d v = None"
  shows "version_checksum ck (d\<lparr>sc_versions := Some (rows @ [(v, c, t)])\<rparr>) u
    = (if ck u = ck v then Some c else version_checksum ck d u)"
proof -
  have "find (\<lambda>(x, _). ck x = ck v) rows = None" using assms by (auto simp: version_checksum_def split: option.splits)
  then have none: "\<forall>x \<in> set rows. ck (fst x) \<noteq> ck v" by (fastforce simp: find_None_iff)
  have app: "find P (xs @ ys) = (case find P xs of None \<Rightarrow> find P ys | Some x \<Rightarrow> Some x)" for P and xs ys :: "(string \<times> string \<times> int) list"
    by (induction xs) auto
  show ?thesis
  proof (cases "ck u = ck v")
    case True
    with none have "find (\<lambda>(x, _). ck x = ck u) rows = None" by (auto simp: find_None_iff)
    with True show ?thesis using assms(1) by (simp add: version_checksum_def app)
  next
    case False
    then show ?thesis using assms(1) by (simp add: version_checksum_def app split: option.split)
  qed
qed

lemma apply_migration_step:
  assumes "apply_migration ck sql file name (d, w) = (r, (d', w'))"
  shows "\<exists>rn. (rn = [] \<or> rn = [name]) \<and> applied_to ck file d rn d'
    \<and> (r = Inr () \<longrightarrow> (\<exists>body. file name = Some body \<and> version_checksum ck d' name = Some (file_checksum body)))"
proof (cases "file name")
  case None
  with assms show ?thesis by (auto simp: apply_migration_def intro!: exI [of _ "[]"] applied_same)
next
  case (Some body)
  obtain x d1 w1 where sel: "select_checksum ck name (d, w) = (x, (d1, w1))" by (metis prod.collapse)
  then have d1: "d1 = d" and x: "x = Inr c \<Longrightarrow> version_checksum ck d name = Some c"
    "x = Inl (Sentinel Sql_ErrNoRows) \<Longrightarrow> sc_versions d \<noteq> None \<and> version_checksum ck d name = None" for c
    by (auto simp: select_checksum_def dest!: read_ext_D split: if_splits option.splits)
  note run = assms [unfolded apply_migration_def Some Let_def option.case handle_def [of "select_checksum ck name"] sel d1 prod.case]
  show ?thesis
  proof (cases x)
    case (Inr c)
    with run x(1) Some show ?thesis
      by (auto intro!: exI [of _ "[]"] applied_same simp del: append_Cons split: if_splits)
  next
    case (Inl err)
    show ?thesis
    proof (cases "err = Sentinel Sql_ErrNoRows")
      case False
      with run Inl show ?thesis by (auto intro!: exI [of _ "[]"] applied_same simp del: append_Cons)
    next
      case True
      with x(2) Inl have fresh: "sc_versions d \<noteq> None" "version_checksum ck d name = None" by auto
      then obtain rows where rows: "sc_versions d = Some rows" by blast
      let ?d1 = "d\<lparr>sc_begun := sc_begun d @ [body]\<rparr>"
      have fresh1: "version_checksum ck ?d1 name = None" "sc_versions ?d1 = Some rows"
        using fresh(2) rows version_checksum_cong [of ?d1 d ck] by auto
      let ?d2 = "\<lambda>t. ?d1\<lparr>sc_versions := Some (rows @ [(name, file_checksum body, t)])\<rparr>"
      note ins = version_checksum_insert [OF fresh1(2,1)]
      have begun: "applied_to ck file d [name] ?d1"
        using Some fresh(2) version_checksum_cong [of ?d1 d ck] by (auto simp: applied_to_def)
      have kept: "applied_to ck file d [name] (?d2 t)" for t
        unfolding applied_to_def ins using Some fresh(2) version_checksum_cong [of ?d1 d ck]
        by (auto simp: version_checksum_def [of ck d] split: option.splits if_splits)
      have "handle (run_text sql body) (\<lambda>err. fail (errorf_pre (''apply migration '' @ name) err)) (\<lambda>_.
           handle (insert_version ck name (file_checksum body)) (\<lambda>err. fail (errorf_pre (''record migration '' @ name) err)) ret) (d, w1)
           = (r, (d', w'))"
        using run Inl True by simp
      then have "d' = d \<and> r \<noteq> Inr () \<or> d' = ?d1 \<and> r \<noteq> Inr () \<or> (\<exists>t. d' = ?d2 t)"
        using fresh1 unfolding handle_eq run_text_def insert_version_def by (auto dest!: ext_cases simp del: append_Cons split: option.splits)
      then show ?thesis
        using begun kept ins Some by (auto intro: applied_same [of d d])
    qed
  qed
qed

text \<open>Every name in turn; the run stops at the first that fails.\<close>

lemma apply_migrations:
  assumes "each (apply_migration ck sql file) names (d, w) = (r, (d', w'))"
  shows "\<exists>rn. subseq rn names \<and> applied_to ck file d rn d'
    \<and> (r = Inr () \<longrightarrow> (\<forall>n \<in> set names. \<exists>body. file n = Some body \<and> version_checksum ck d' n = Some (file_checksum body)))"
  using assms
proof (induction names arbitrary: d w)
  case Nil
  then show ?case by (auto intro: applied_same)
next
  case (Cons n names)
  obtain x d1 w1 where one: "apply_migration ck sql file n (d, w) = (x, (d1, w1))" by (metis prod.collapse)
  obtain r1 where r1: "r1 = [] \<or> r1 = [n]" "applied_to ck file d r1 d1"
    "x = Inr () \<longrightarrow> (\<exists>body. file n = Some body \<and> version_checksum ck d1 n = Some (file_checksum body))"
    using apply_migration_step [OF one] by blast
  show ?case
  proof (cases x)
    case (Inl e)
    with Cons.prems one have "d' = d1" "r = Inl e" by (auto simp: bind_def)
    with r1 show ?thesis by (intro exI [of _ r1]) auto
  next
    case (Inr u)
    with Cons.prems one have rest: "each (apply_migration ck sql file) names (d1, w1) = (r, (d', w'))" by (simp add: bind_def)
    obtain r2 where r2: "subseq r2 names" "applied_to ck file d1 r2 d'"
      "r = Inr () \<longrightarrow> (\<forall>n \<in> set names. \<exists>body. file n = Some body \<and> version_checksum ck d' n = Some (file_checksum body))"
      using Cons.IH [OF rest] by blast
    have "subseq (r1 @ r2) (n # names)" using r1(1) r2(1) by auto
    moreover have "applied_to ck file d (r1 @ r2) d'" by (rule applied_trans [OF r1(2) r2(2)])
    moreover have "\<forall>v c. version_checksum ck d1 v = Some c \<longrightarrow> version_checksum ck d' v = Some c"
      using r2(2) by (simp add: applied_to_def)
    ultimately show ?thesis using r1(3) r2(3) Inr by (intro exI [of _ "r1 @ r2"]) auto
  qed
qed

text \<open>Everything else leaves the table and the texts alone.\<close>

definition same_versions :: "schema_db \<Rightarrow> schema_db \<Rightarrow> bool" where
  "same_versions d0 d \<longleftrightarrow> sc_versions d = sc_versions d0 \<and> sc_begun d = sc_begun d0"

lemma keeps_versions:
  "keeps (same_versions d0) get_lock" "keeps (same_versions d0) release_lock" "keeps (same_versions d0) (quote_password p)"
  "keeps (same_versions d0) (create_user u p)" "keeps (same_versions d0) (change_account u f)"
  unfolding get_lock_def release_lock_def quote_password_def create_user_def change_account_def
  by (auto intro!: keeps_ext keeps_intro simp: same_versions_def split: option.splits)

lemma keeps_provision: "keeps (same_versions d0) (provisionServiceAccounts E)"
  unfolding provisionServiceAccounts_def provision_def Let_def by (intro keeps_intro keeps_versions)

lemma provision_step:
  assumes "provision E a (d, w) = (Inr (), (d', w'))"
  shows "sc_accounts d' = (sc_accounts d)(sa_user a \<mapsto>
    \<lparr>ac_password = TrimSpace (E (sa_passwordEnv a)), ac_grants = [(sa_privileges a, sa_schema a)]\<rparr>)"
proof -
  have change: "sc_accounts d2 = (sc_accounts d1)(u \<mapsto> f (the (sc_accounts d1 u))) \<and> sc_accounts d1 u \<noteq> None"
    if "change_account u f (d1, w1) = (Inr (), (d2, w2))" for u f d1 w1 d2 w2
    using that by (auto simp: change_account_def elim!: ext_InrE split: option.splits)
  have create: "sc_accounts d2 = (sc_accounts d1)(u \<mapsto> the (sc_accounts d2 u))"
    if "create_user u p (d1, w1) = (Inr (), (d2, w2))" for u p d1 w1 d2 w2
    using that by (auto simp: create_user_def fun_eq_iff elim!: ext_InrE split: option.splits)
  from assms obtain w1 d2 w2 d3 w3 d4 w4 where steps:
    "create_user (sa_user a) (TrimSpace (E (sa_passwordEnv a))) (d, w1) = (Inr (), (d2, w2))"
    "change_account (sa_user a) (ac_password_update (\<lambda>_. TrimSpace (E (sa_passwordEnv a)))) (d2, w2) = (Inr (), (d3, w3))"
    "change_account (sa_user a) (ac_grants_update (\<lambda>_. [])) (d3, w3) = (Inr (), (d4, w4))"
    "change_account (sa_user a) (ac_grants_update (\<lambda>g. (sa_privileges a, sa_schema a) # g)) (d4, w4) = (Inr (), (d', w'))"
    by (auto simp: provision_def Let_def bind_Inr quote_password_def elim!: read_ext_InrE split: if_splits)
  from create [OF steps(1)] change [OF steps(2)] change [OF steps(3)] change [OF steps(4)]
  show ?thesis
    by (cases "the (sc_accounts d2 (sa_user a))") (auto simp: fun_eq_iff split: if_splits)
qed

lemma provision_accounts:
  assumes "each (provision E) as (d, w) = (Inr (), (d', w'))" and "distinct (map sa_user as)" and "a \<in> set as"
  shows "sc_accounts d' (sa_user a)
    = Some \<lparr>ac_password = TrimSpace (E (sa_passwordEnv a)), ac_grants = [(sa_privileges a, sa_schema a)]\<rparr>"
  using assms
proof (induction as arbitrary: d w)
  case (Cons b as)
  from Cons.prems(1) obtain d1 w1 where one: "provision E b (d, w) = (Inr (), (d1, w1))"
    and rest: "each (provision E) as (d1, w1) = (Inr (), (d', w'))" by (auto simp: bind_Inr)
  have others: "sc_accounts d' u = sc_accounts d1 u" if "u \<notin> sa_user ` set as" for u
    using rest that
  proof (induction as arbitrary: d1 w1)
    case (Cons c as)
    from Cons.prems(1) obtain d2 w2 where "provision E c (d1, w1) = (Inr (), (d2, w2))"
      and "each (provision E) as (d2, w2) = (Inr (), (d', w'))" by (auto simp: bind_Inr)
    with Cons.IH [of d2 w2] Cons.prems(2) provision_step show ?case by fastforce
  qed simp
  show ?case
  proof (cases "a \<in> set as")
    case True
    with Cons.IH [OF rest] Cons.prems(2) show ?thesis by simp
  next
    case False
    with Cons.prems(2,3) have "a = b" "sa_user b \<notin> sa_user ` set as" by auto
    with others [of "sa_user b"] provision_step [OF one] show ?thesis by simp
  qed
qed simp

lemma service_accounts_distinct: "distinct (map sa_user service_accounts)"
  by code_simp

section \<open>The whole run\<close>

definition up_to_date :: "(string \<Rightarrow> string) \<Rightarrow> (string \<Rightarrow> string option) \<Rightarrow> environ \<Rightarrow> (string \<times> bool) list \<Rightarrow> schema_db \<Rightarrow> bool" where
  "up_to_date ck file E entries d \<longleftrightarrow>
     (\<forall>n \<in> set (migration_names entries). \<exists>body. file n = Some body \<and> version_checksum ck d n = Some (file_checksum body))
     \<and> (\<forall>a \<in> set service_accounts. sc_accounts d (sa_user a)
          = Some \<lparr>ac_password = TrimSpace (E (sa_passwordEnv a)), ac_grants = [(sa_privileges a, sa_schema a)]\<rparr>)"

text \<open>The locking and the probing of the connection change nothing a run is judged by.\<close>

definition aside :: "schema_db \<Rightarrow> schema_db \<Rightarrow> bool" where
  "aside d0 d \<longleftrightarrow> sc_versions d = sc_versions d0 \<and> sc_begun d = sc_begun d0 \<and> sc_accounts d = sc_accounts d0"

lemma keeps_aside:
  "keeps (aside d0) get_lock" "keeps (aside d0) release_lock" "keeps (aside d0) (ext (\<lambda>d w. (Inr (), d)))"
  unfolding get_lock_def release_lock_def by (auto intro!: keeps_ext simp: aside_def)

lemma applied_aside: "aside d d1 \<Longrightarrow> applied_to ck file d [] d1"
  using version_checksum_cong [of d1 d ck] by (intro applied_same) (auto simp: aside_def)

lemma up_to_date_aside: "aside d1 d2 \<Longrightarrow> up_to_date ck file E entries d1 \<Longrightarrow> up_to_date ck file E entries d2"
  using version_checksum_cong [of d2 d1 ck] by (auto simp: up_to_date_def aside_def)

lemma aside_run: "keeps (aside d) m \<Longrightarrow> m (d, w) = (r, (d', w')) \<Longrightarrow> aside d d'"
  by (erule keepsD) (simp_all add: aside_def)

lemma create_versions_applies:
  "create_versions (d, w) = (r, (d', w')) \<Longrightarrow> applied_to ck file d [] d'"
  by (intro applied_same)
    (auto simp: create_versions_def version_checksum_def fun_eq_iff dest!: ext_cases split: option.splits)

definition judged :: "(string \<Rightarrow> string) \<Rightarrow> (string \<Rightarrow> string option) \<Rightarrow> environ \<Rightarrow> (string \<times> bool) list option \<Rightarrow> schema_db
   \<Rightarrow> go_err + unit \<Rightarrow> schema_db \<Rightarrow> bool" where
  "judged ck file E listing d r d' \<longleftrightarrow>
     (\<exists>rn. subseq rn (case listing of None \<Rightarrow> [] | Some entries \<Rightarrow> migration_names entries) \<and> applied_to ck file d rn d')
     \<and> (r = Inr () \<longrightarrow> (\<exists>entries. listing = Some entries \<and> up_to_date ck file E entries d'))"

lemma judged_error: "applied_to ck file d [] d' \<Longrightarrow> r \<noteq> Inr () \<Longrightarrow> judged ck file E listing d r d'"
  by (auto simp: judged_def)

lemma judged_after: "applied_to ck file d [] d1 \<Longrightarrow> judged ck file E listing d1 r d' \<Longrightarrow> judged ck file E listing d r d'"
  using applied_trans [of _ _ _ "[]"] by (fastforce simp: judged_def)

lemma judged_before: "judged ck file E listing d r d1 \<Longrightarrow> aside d1 d' \<Longrightarrow> judged ck file E listing d r d'"
  using applied_trans [OF _ applied_aside] up_to_date_aside
  unfolding judged_def by (metis append_Nil2)

lemma locked_run:
  assumes run: "with_lock body (d, w) = (r, (d', w'))"
    and body: "\<And>d w r d' w'. body (d, w) = (r, (d', w')) \<Longrightarrow> judged ck file E listing d r d'"
  shows "judged ck file E listing d r d'"
proof -
  obtain x d1 w1 where lock: "get_lock (d, w) = (x, (d1, w1))" by (metis prod.collapse)
  note a = applied_aside [OF aside_run [OF keeps_aside(1) lock]]
  show ?thesis
  proof (cases "x = Inr 1")
    case False
    with run lock have "d' = d1" "r \<noteq> Inr ()" by (cases x; auto simp: with_lock_def handle_def)+
    with judged_error [OF a] show ?thesis by simp
  next
    case True
    obtain y d2 w2 where b: "body (d1, w1) = (y, (d2, w2))" by (metis prod.collapse)
    obtain z d3 w3 where f: "release_lock (d2, w2) = (z, (d3, w3))" by (metis prod.collapse)
    from True run lock b f have "d' = d3" "r = y"
      by (auto simp: with_lock_def handle_def bind_def attempt_def ignore_def lift_def)
    with judged_before [OF body [OF b] aside_run [OF keeps_aside(2) f]] judged_after [OF a] show ?thesis by simp
  qed
qed

lemma migrating:
  assumes run: "bind (each (apply_migration ck sql file) (migration_names entries)) (\<lambda>_.
      handle (provisionServiceAccounts E) (\<lambda>err. fail (errorf_pre ''provision service accounts'' err)) ret) (d, w) = (r, (d', w'))"
  shows "judged ck file E (Some entries) d r d'"
proof -
  obtain x d1 w1 where each: "each (apply_migration ck sql file) (migration_names entries) (d, w) = (x, (d1, w1))" by (metis prod.collapse)
  obtain rn where rn: "subseq rn (migration_names entries)" "applied_to ck file d rn d1"
    "x = Inr () \<longrightarrow> (\<forall>n \<in> set (migration_names entries). \<exists>body. file n = Some body \<and> version_checksum ck d1 n = Some (file_checksum body))"
    using apply_migrations [OF each] by blast
  show ?thesis
  proof (cases x)
    case (Inl e)
    with run each have "d' = d1" "r = Inl e" by (auto simp: bind_def)
    with rn show ?thesis by (auto simp: judged_def)
  next
    case (Inr u)
    obtain y d2 w2 where p: "provisionServiceAccounts E (d1, w1) = (y, (d2, w2))" by (metis prod.collapse)
    have d': "d' = d2" "r = Inr () \<longrightarrow> y = Inr ()" using Inr run each p by (cases y; auto simp: bind_def handle_def)+
    have "same_versions d1 d2" by (rule keepsD [OF keeps_provision _ p]) (simp add: same_versions_def)
    then have vc: "version_checksum ck d2 = version_checksum ck d1" and b: "sc_begun d2 = sc_begun d1"
      using version_checksum_cong [of d2 d1 ck] by (auto simp: same_versions_def)
    have "applied_to ck file d rn d2" using applied_trans [OF rn(2) applied_same [OF b vc]] by simp
    moreover have "up_to_date ck file E entries d2" if "y = Inr ()"
      using rn(3) Inr vc provision_accounts [OF _ service_accounts_distinct] p that
      by (auto simp: up_to_date_def provisionServiceAccounts_def)
    ultimately show ?thesis using rn(1) d' by (auto simp: judged_def)
  qed
qed

lemma migrate_judged:
  assumes "migrate_run ck sql ParseDSN E readdir readfile dsn dir (d, w) = (r, (d', w'))"
  shows "judged ck (readfile dir) E (readdir dir) d r d'"
proof -
  let ?J = "judged ck (readfile dir) E (readdir dir)"
  let ?body = "handle create_versions (\<lambda>err. fail (errorf_pre ''create schema_migrations'' err)) (\<lambda>_.
          case readdir dir of None \<Rightarrow> fail (Plain ''read migrations dir'')
          | Some entries \<Rightarrow>
              bind (each (apply_migration ck sql (readfile dir)) (migration_names entries)) (\<lambda>_.
              handle (provisionServiceAccounts E) (\<lambda>err. fail (errorf_pre ''provision service accounts'' err)) ret))"
  have body: "?J d r d'" if "?body (d, w) = (r, (d', w'))" for d w r d' w'
  proof -
    obtain x d1 w1 where cv: "create_versions (d, w) = (x, (d1, w1))" by (metis prod.collapse)
    note a = create_versions_applies [OF cv, of ck "readfile dir"]
    show ?thesis
    proof (cases "x = Inr () \<and> readdir dir \<noteq> None")
      case True
      then obtain entries where e: "readdir dir = Some entries" "x = Inr ()" by auto
      with that cv have "?J d1 r d'" by (auto simp: handle_def [of create_versions] intro: migrating)
      then show ?thesis by (rule judged_after [OF a])
    next
      case False
      with that cv have "d' = d1" "r \<noteq> Inr ()" by (cases x; auto simp: handle_def split: option.splits)+
      with judged_error [OF a] show ?thesis by simp
    qed
  qed
  have probe: "?J d r d'" if "handle (ext (\<lambda>d w. (Inr (), d))) (\<lambda>err. fail (g err)) (\<lambda>_. m) (d, w) = (r, (d', w'))"
    and "\<And>d w r d' w'. m (d, w) = (r, (d', w')) \<Longrightarrow> ?J d r d'" for g m d w r d' w'
  proof -
    obtain x d1 w1 where pg: "ext (\<lambda>d w. (Inr (), d)) (d, w) = (x, (d1, w1))" by (metis prod.collapse)
    note a = applied_aside [OF aside_run [OF keeps_aside(3) pg]]
    show ?thesis
      using that pg judged_error [OF a] judged_after [OF a] by (cases x) (auto simp: handle_def)
  qed
  have quiet: "?J d (Inl e) d" for e by (intro judged_error applied_same) simp_all
  from assms show ?thesis
    unfolding migrate_run_def
    by (auto simp: quiet split: sum.splits simp del: append_Cons elim!: probe locked_run body)
qed

section \<open>Property\<close>

text \<open>
  C40. Migrations run once. Whatever calls fail, a run starts only texts of files that are not
  recorded, in the order of their names and each at most once; every record of before is still
  there with its checksum; and a new record is that of a file this run started, with the
  checksum of its text. A run that succeeds leaves every file of the directory recorded with the
  checksum of its text, so a file that was changed after it was applied stops the run, and every
  account of the services with its password from the environment and exactly its own grant.
\<close>

theorem migrations_run_once:
  assumes "migrate_run ck sql ParseDSN E readdir readfile dsn dir (d, w) = (r, (d', w'))"
  shows "(\<exists>rn. subseq rn (case readdir dir of None \<Rightarrow> [] | Some entries \<Rightarrow> migration_names entries)
      \<and> (\<forall>n \<in> set rn. version_checksum ck d n = None)
      \<and> sc_begun d' = sc_begun d @ map (\<lambda>n. the (readfile dir n)) rn
      \<and> (\<forall>v c. version_checksum ck d' v = Some c \<longrightarrow> version_checksum ck d v = Some c
           \<or> (\<exists>n \<in> set rn. ck n = ck v \<and> c = file_checksum (the (readfile dir n)))))
    \<and> (\<forall>v c. version_checksum ck d v = Some c \<longrightarrow> version_checksum ck d' v = Some c)
    \<and> (r = Inr () \<longrightarrow> (\<exists>entries. readdir dir = Some entries
         \<and> (\<forall>n \<in> set (migration_names entries). \<exists>body. readfile dir n = Some body \<and> version_checksum ck d' n = Some (file_checksum body))
         \<and> (\<forall>a \<in> set service_accounts. sc_accounts d' (sa_user a)
              = Some \<lparr>ac_password = TrimSpace (E (sa_passwordEnv a)), ac_grants = [(sa_privileges a, sa_schema a)]\<rparr>)))"
proof -
  from migrate_judged [OF assms] obtain rn where "subseq rn (case readdir dir of None \<Rightarrow> [] | Some entries \<Rightarrow> migration_names entries)"
    and "applied_to ck (readfile dir) d rn d'" and "r = Inr () \<longrightarrow> (\<exists>entries. readdir dir = Some entries \<and> up_to_date ck (readfile dir) E entries d')"
    unfolding judged_def by blast
  then show ?thesis
    unfolding applied_to_def up_to_date_def comp_def by (intro conjI exI [of _ rn]) blast+
qed

text \<open>
  Two files, of which the first is recorded: the run applies the second only, and sets up the
  accounts.
\<close>

definition sample_schema :: schema_db where
  "sample_schema = \<lparr>sc_lock_busy = False, sc_locked = False, sc_versions = Some [(''001.sql'', file_checksum ''one'', 0)],
     sc_begun = [], sc_accounts = (\<lambda>_. None)\<rparr>"

definition sample_files :: "string \<Rightarrow> string option" where
  "sample_files name = (if name = ''001.sql'' then Some ''one'' else if name = ''002.sql'' then Some ''two'' else None)"

abbreviation sample_listing :: "(string \<times> bool) list" where
  "sample_listing \<equiv> [(''002.sql'', False), (''README'', False), (''001.sql'', False), (''old.sql'', True)]"

lemma provision_quiet:
  assumes "faults w = []" and "\<forall>a \<in> set as. TrimSpace (E (sa_passwordEnv a)) \<noteq> []"
  shows "\<exists>d'. each (provision E) as (d, w) = (Inr (), (d', w))"
  using assms
proof (induction as arbitrary: d)
  case (Cons a as)
  have "\<exists>d1. provision E a (d, w) = (Inr (), (d1, w))"
    using Cons.prems
    by (simp add: provision_def Let_def quote_password_def create_user_def change_account_def bind_def read_ext_quiet ext_quiet split: option.split)
  with Cons show ?case by (fastforce simp: bind_def)
qed simp

theorem migrations_run_once_witness:
  "\<exists>d'. migrate_run id (\<lambda>_. None) Inr (\<lambda>_. ''secret'') (\<lambda>_. Some sample_listing) (\<lambda>_. sample_files) ''dsn'' ''/app/migrations''
       (sample_schema, calm) = (Inr (), (d', calm))
     \<and> sc_begun d' = [''two''] \<and> version_checksum id d' ''002.sql'' = Some (file_checksum ''two'')"
proof -
  have names: "migration_names sample_listing = [''001.sql'', ''002.sql'']" by code_simp
  let ?d1 = "sample_schema\<lparr>sc_locked := True\<rparr>"
  let ?d2 = "?d1\<lparr>sc_begun := [''two''], sc_versions := Some [(''001.sql'', file_checksum ''one'', 0), (''002.sql'', file_checksum ''two'', db_now calm)]\<rparr>"
  have calm: "faults calm = []" by (simp add: calm_def)
  have applied: "each (apply_migration id (\<lambda>_. None) sample_files) [''001.sql'', ''002.sql''] (?d1, calm) = (Inr (), (?d2, calm))"
    by (simp add: apply_migration_def sample_files_def sample_schema_def bind_def handle_def select_checksum_def run_text_def insert_version_def
        version_checksum_def read_ext_quiet ext_quiet calm Let_def ret_def)
  have "TrimSpace ''secret'' \<noteq> []" by code_simp
  then obtain d3 where accounts: "each (provision (\<lambda>_. ''secret'')) service_accounts (?d2, calm) = (Inr (), (d3, calm))"
    using provision_quiet [OF calm, of service_accounts "\<lambda>_. ''secret''"] by blast
  have "migrate_run id (\<lambda>_. None) Inr (\<lambda>_. ''secret'') (\<lambda>_. Some sample_listing) (\<lambda>_. sample_files) ''dsn'' ''/app/migrations''
       (sample_schema, calm) = (Inr (), (d3\<lparr>sc_locked := False\<rparr>, calm))"
    using applied accounts
    by (simp add: migrate_run_def with_lock_def get_lock_def release_lock_def create_versions_def provisionServiceAccounts_def names
        handle_def bind_def attempt_def ignore_def lift_def ret_def ext_quiet calm sample_schema_def)
  note run = this and all = migrations_run_once [OF this]
  from all obtain rn where rn: "subseq rn [''001.sql'', ''002.sql'']" "\<forall>n \<in> set rn. version_checksum id sample_schema n = None"
    "sc_begun (d3\<lparr>sc_locked := False\<rparr>) = sc_begun sample_schema @ map (\<lambda>n. the (sample_files n)) rn"
    "\<forall>v c. version_checksum id (d3\<lparr>sc_locked := False\<rparr>) v = Some c \<longrightarrow> version_checksum id sample_schema v = Some c
       \<or> (\<exists>n \<in> set rn. id n = id v \<and> c = file_checksum (the (sample_files n)))"
    by (auto simp: names)
  from all have two: "version_checksum id (d3\<lparr>sc_locked := False\<rparr>) ''002.sql'' = Some (file_checksum ''two'')"
    by (auto simp: names sample_files_def)
  have "version_checksum id sample_schema ''001.sql'' \<noteq> None" "version_checksum id sample_schema ''002.sql'' = None"
    by (simp_all add: version_checksum_def sample_schema_def)
  moreover from this rn(4) two have "''002.sql'' \<in> set rn" by force
  moreover have "rn \<in> set (subseqs [''001.sql'', ''002.sql''])" using rn(1) by (simp only: in_set_subseqs)
  ultimately have "rn = [''002.sql'']" using rn(2) by (auto simp: Let_def)
  with rn(3) have "sc_begun (d3\<lparr>sc_locked := False\<rparr>) = [''two'']" by (simp add: sample_schema_def sample_files_def)
  with run two show ?thesis by blast
qed

end
