(* ===== verification/Worker.thy ===== *)
theory Worker
  imports Config
begin

text \<open>
  \<^verbatim>\<open>cmd/worker\<close>: which stores and clients the process opens for the roles it is given, and
  which components it starts with them. A component is described by its handles and settings; the
  rounds they repeat are those of \<open>Stats\<close>, \<open>Like_Snapshot\<close>, \<open>Outbox\<close>, \<open>Gift_Consumer\<close> and
  \<open>Danmaku_Store\<close>. Which openings succeed is an argument. Tracing, signals and the orderly
  shutdown are left out.
\<close>

section \<open>Starting the process\<close>

datatype resource =
    MySQLStore string string
  | RedisStore RedisConfig int
  | CentrifugoClient string string
  | KafkaProducer KafkaConfig
  | KafkaConsumer KafkaConfig string string

datatype component =
    StatsAggregator "resource option" "resource option" int int int
  | LikeSnapshot "resource option" "resource option" int int int
  | OutboxPublisher "resource option" "resource option" string int int int int
  | GiftConsumer "resource option" string "resource option" "resource option" int "resource option"
  | DanmakuConsumer "resource option" "resource option" "resource option"

definition roleSet :: "string list \<Rightarrow> string \<Rightarrow> bool" where
  "roleSet roles role \<longleftrightarrow> role \<in> set roles"

text \<open>\<open>Inl\<close> names the resource whose opening failed, upon which the process exits.\<close>

definition open_if :: "(resource \<Rightarrow> bool) \<Rightarrow> bool \<Rightarrow> resource \<Rightarrow> resource + resource option" where
  "open_if opens needed r = (if \<not> needed then Inr None else if opens r then Inr (Some r) else Inl r)"

definition and_open :: "resource + 'a \<Rightarrow> ('a \<Rightarrow> resource + 'b) \<Rightarrow> resource + 'b" where
  "and_open r k = (case r of Inl x \<Rightarrow> Inl x | Inr v \<Rightarrow> k v)"

definition run_if :: "bool \<Rightarrow> component \<Rightarrow> component list" where
  "run_if needed c = (if needed then [c] else [])"

text \<open>The first half opens the stores; what was opened comes in order.\<close>

definition open_stores :: "(resource \<Rightarrow> bool) \<Rightarrow> Config
    \<Rightarrow> resource + resource option \<times> resource option \<times> resource option \<times> resource option \<times> resource option" where
  "open_stores opens cfg =
     (let roles = roleSet (cfg_Roles cfg);
          needsRedis = (roles ''stats'' \<or> roles ''like-snapshot'');
          needsPublisher = (roles ''stats'' \<or> roles ''gift-consumer'') in
      and_open (open_if opens (roles ''outbox'') (MySQLStore ''commerce-mysql'' (CommerceDSN (cfg_Databases cfg)))) (\<lambda>commerceDB.
      and_open (open_if opens (roles ''gift-consumer'' \<or> roles ''danmaku-consumer'') (MySQLStore ''archive-mysql'' (ArchiveDSN (cfg_Databases cfg)))) (\<lambda>archiveDB.
      and_open (open_if opens (roles ''like-snapshot'') (MySQLStore ''query-mysql'' (QueryWriterDSN (cfg_Databases cfg)))) (\<lambda>queryDB.
      and_open (open_if opens needsRedis (RedisStore (cfg_Redis cfg) (ActiveRoomShards (cfg_Engagement cfg)))) (\<lambda>redis.
      Inr (commerceDB, archiveDB, queryDB, redis,
        if needsPublisher then Some (CentrifugoClient (APIURL (cfg_Centrifugo cfg)) (APIKey (cfg_Centrifugo cfg))) else None))))))"

definition worker_main :: "(resource \<Rightarrow> bool) \<Rightarrow> string \<Rightarrow> Config \<Rightarrow> resource + resource list \<times> component list" where
  "worker_main opens workerID cfg =
     (let roles = roleSet (cfg_Roles cfg); en = cfg_Engagement cfg; kf = cfg_Kafka cfg; ob = cfg_Outbox cfg in
      and_open (open_stores opens cfg) (\<lambda>(commerceDB, archiveDB, queryDB, redis, publisher).
      let stats = run_if (roles ''stats'')
            (StatsAggregator redis publisher (StatsInterval en) (ActiveRoomWindow en) (ActiveRoomBatch en));
          likes = run_if (roles ''like-snapshot'')
            (LikeSnapshot redis queryDB (LikeSnapshotInterval en) (ActiveRoomWindow en) (ActiveRoomBatch en)) in
      and_open (open_if opens (roles ''outbox'' \<or> roles ''gift-consumer'' \<or> roles ''danmaku-consumer'') (KafkaProducer kf)) (\<lambda>producer.
      let outbox = run_if (roles ''outbox'')
            (OutboxPublisher commerceDB producer (''worker-'' @ workerID) (PollInterval ob) (BatchSize ob) (Lease ob) (ProduceTimeout ob)) in
      and_open (open_if opens (roles ''gift-consumer'') (KafkaConsumer kf (GiftConsumerGroup kf) (GiftTopic kf))) (\<lambda>giftConsumer.
      let gifts = run_if (roles ''gift-consumer'')
            (GiftConsumer giftConsumer (GiftConsumerGroup kf) archiveDB publisher (ConsumerLease kf) producer) in
      and_open (open_if opens (roles ''danmaku-consumer'') (KafkaConsumer kf (DanmakuConsumerGroup kf) (DanmakuTopic kf))) (\<lambda>danmakuConsumer.
      let danmaku = run_if (roles ''danmaku-consumer'') (DanmakuConsumer danmakuConsumer archiveDB producer) in
      Inr (List.map_filter id [commerceDB, archiveDB, queryDB, redis, publisher, producer, giftConsumer, danmakuConsumer],
        stats @ likes @ outbox @ gifts @ danmaku))))))"

text \<open>The page both probes of the worker answer.\<close>

fun comma_join :: "string list \<Rightarrow> string" where
  "comma_join [] = []"
| "comma_join [x] = x"
| "comma_join (x # xs) = x @ '','' @ comma_join xs"

definition worker_health :: "string list \<Rightarrow> string" where
  "worker_health roles =
     ''{\"status\":\"ok\",\"service\":\"live-worker\",\"milestone\":\"M8\",\"roles\":\"''
     @ comma_join roles @ ''\"}''"

section \<open>What is started\<close>

fun component_role :: "component \<Rightarrow> string" where
  "component_role (StatsAggregator _ _ _ _ _) = ''stats''"
| "component_role (LikeSnapshot _ _ _ _ _) = ''like-snapshot''"
| "component_role (OutboxPublisher _ _ _ _ _ _ _) = ''outbox''"
| "component_role (GiftConsumer _ _ _ _ _ _) = ''gift-consumer''"
| "component_role (DanmakuConsumer _ _ _) = ''danmaku-consumer''"

fun component_handles :: "component \<Rightarrow> resource option list" where
  "component_handles (StatsAggregator redis publisher _ _ _) = [redis, publisher]"
| "component_handles (LikeSnapshot redis db _ _ _) = [redis, db]"
| "component_handles (OutboxPublisher db producer _ _ _ _ _) = [db, producer]"
| "component_handles (GiftConsumer consumer _ db publisher _ producer) = [consumer, db, publisher, producer]"
| "component_handles (DanmakuConsumer consumer db producer) = [consumer, db, producer]"

text \<open>The periods a component waits; a timer of no length would stop the process.\<close>

fun component_periods :: "component \<Rightarrow> int list" where
  "component_periods (StatsAggregator _ _ interval window _) = [interval, window]"
| "component_periods (LikeSnapshot _ _ interval window _) = [interval, window]"
| "component_periods (OutboxPublisher _ _ _ poll _ lease timeout) = [poll, lease, timeout]"
| "component_periods (GiftConsumer _ _ _ _ lease _) = [lease]"
| "component_periods (DanmakuConsumer _ _ _) = []"

text \<open>A process that starts has all of its handles, opened by name.\<close>

definition handle_for :: "bool \<Rightarrow> resource \<Rightarrow> resource option" where
  "handle_for needed r = (if needed then Some r else None)"

lemma opened_step: "and_open (open_if opens needed r) k = Inr v \<Longrightarrow> k (handle_for needed r) = Inr v"
  by (auto simp: and_open_def open_if_def handle_for_def split: if_splits)

lemma and_open_pure: "and_open (Inr x) k = k x"
  by (simp add: and_open_def)

lemma and_open_assoc: "and_open (and_open m k) h = and_open m (\<lambda>x. and_open (k x) h)"
  by (auto simp: and_open_def split: sum.split)

lemma worker_started:
  assumes "worker_main opens workerID cfg = Inr (opened, comps)"
  defines "roles \<equiv> (\<lambda>r. r \<in> set (cfg_Roles cfg))" and "en \<equiv> cfg_Engagement cfg" and "kf \<equiv> cfg_Kafka cfg" and "ob \<equiv> cfg_Outbox cfg"
  defines "commerce \<equiv> handle_for (roles ''outbox'') (MySQLStore ''commerce-mysql'' (CommerceDSN (cfg_Databases cfg)))"
    and "archive \<equiv> handle_for (roles ''gift-consumer'' \<or> roles ''danmaku-consumer'') (MySQLStore ''archive-mysql'' (ArchiveDSN (cfg_Databases cfg)))"
    and "query \<equiv> handle_for (roles ''like-snapshot'') (MySQLStore ''query-mysql'' (QueryWriterDSN (cfg_Databases cfg)))"
    and "redis \<equiv> handle_for (roles ''stats'' \<or> roles ''like-snapshot'') (RedisStore (cfg_Redis cfg) (ActiveRoomShards en))"
    and "publisher \<equiv> handle_for (roles ''stats'' \<or> roles ''gift-consumer'') (CentrifugoClient (APIURL (cfg_Centrifugo cfg)) (APIKey (cfg_Centrifugo cfg)))"
    and "producer \<equiv> handle_for (roles ''outbox'' \<or> roles ''gift-consumer'' \<or> roles ''danmaku-consumer'') (KafkaProducer kf)"
    and "giftC \<equiv> handle_for (roles ''gift-consumer'') (KafkaConsumer kf (GiftConsumerGroup kf) (GiftTopic kf))"
    and "danmakuC \<equiv> handle_for (roles ''danmaku-consumer'') (KafkaConsumer kf (DanmakuConsumerGroup kf) (DanmakuTopic kf))"
  shows "opened = List.map_filter id [commerce, archive, query, redis, publisher, producer, giftC, danmakuC]"
    and "comps = run_if (roles ''stats'') (StatsAggregator redis publisher (StatsInterval en) (ActiveRoomWindow en) (ActiveRoomBatch en))
      @ run_if (roles ''like-snapshot'') (LikeSnapshot redis query (LikeSnapshotInterval en) (ActiveRoomWindow en) (ActiveRoomBatch en))
      @ run_if (roles ''outbox'') (OutboxPublisher commerce producer (''worker-'' @ workerID) (PollInterval ob) (BatchSize ob) (Lease ob) (ProduceTimeout ob))
      @ run_if (roles ''gift-consumer'') (GiftConsumer giftC (GiftConsumerGroup kf) archive publisher (ConsumerLease kf) producer)
      @ run_if (roles ''danmaku-consumer'') (DanmakuConsumer danmakuC archive producer)"
proof -
  note run = assms(1) [unfolded worker_main_def open_stores_def Let_def and_open_assoc roleSet_def]
  note stores = opened_step [OF opened_step [OF opened_step [OF opened_step [OF run]]], unfolded and_open_pure prod.case]
  note started = opened_step [OF opened_step [OF opened_step [OF stores]], unfolded sum.inject prod.inject]
  show "opened = List.map_filter id [commerce, archive, query, redis, publisher, producer, giftC, danmakuC]"
    unfolding started [THEN conjunct1, symmetric] assms(2-) by (simp only: handle_for_def)
  show "comps = run_if (roles ''stats'') (StatsAggregator redis publisher (StatsInterval en) (ActiveRoomWindow en) (ActiveRoomBatch en))
      @ run_if (roles ''like-snapshot'') (LikeSnapshot redis query (LikeSnapshotInterval en) (ActiveRoomWindow en) (ActiveRoomBatch en))
      @ run_if (roles ''outbox'') (OutboxPublisher commerce producer (''worker-'' @ workerID) (PollInterval ob) (BatchSize ob) (Lease ob) (ProduceTimeout ob))
      @ run_if (roles ''gift-consumer'') (GiftConsumer giftC (GiftConsumerGroup kf) archive publisher (ConsumerLease kf) producer)
      @ run_if (roles ''danmaku-consumer'') (DanmakuConsumer danmakuC archive producer)"
    unfolding started [THEN conjunct2, symmetric] assms(2-) by (simp only: handle_for_def)
qed

text \<open>Which handles the five components have, for each choice of roles.\<close>

lemma components_equipped:
  fixes s l b g m :: bool and r1 r2 r3 r4 r5 r6 r7 r8 :: resource and t1 t2 t3 t4 t5 t6 t7 n n' :: int and wid grp :: string
  defines "commerce \<equiv> handle_for b r1" and "archive \<equiv> handle_for (g \<or> m) r2" and "query \<equiv> handle_for l r3"
    and "redis \<equiv> handle_for (s \<or> l) r4" and "publisher \<equiv> handle_for (s \<or> g) r5" and "producer \<equiv> handle_for (b \<or> g \<or> m) r6"
    and "giftC \<equiv> handle_for g r7" and "danmakuC \<equiv> handle_for m r8"
  defines "comps \<equiv> run_if s (StatsAggregator redis publisher t1 t2 n) @ run_if l (LikeSnapshot redis query t3 t2 n)
      @ run_if b (OutboxPublisher commerce producer wid t4 n' t5 t6) @ run_if g (GiftConsumer giftC grp archive publisher t7 producer)
      @ run_if m (DanmakuConsumer danmakuC archive producer)"
  assumes "0 < t1" "0 < t2" "0 < t3" "0 < t4" "0 < t5" "0 < t6" "0 < t7"
  shows "map component_role comps = map snd (filter fst [(s, ''stats''), (l, ''like-snapshot''), (b, ''outbox''), (g, ''gift-consumer''), (m, ''danmaku-consumer'')])"
    and "\<forall>c \<in> set comps. None \<notin> set (component_handles c) \<and> (\<forall>p \<in> set (component_periods c). 0 < p)"
    and "Some ` set (List.map_filter id [commerce, archive, query, redis, publisher, producer, giftC, danmakuC])
      = (\<Union>c \<in> set comps. set (component_handles c))"
proof -
  show "map component_role comps = map snd (filter fst [(s, ''stats''), (l, ''like-snapshot''), (b, ''outbox''), (g, ''gift-consumer''), (m, ''danmaku-consumer'')])"
    by (simp add: comps_def run_if_def)
  show "\<forall>c \<in> set comps. None \<notin> set (component_handles c) \<and> (\<forall>p \<in> set (component_periods c). 0 < p)"
    using assms(10-) by (auto simp: assms(1-9) run_if_def handle_for_def)
  show "Some ` set (List.map_filter id [commerce, archive, query, redis, publisher, producer, giftC, danmakuC])
      = (\<Union>c \<in> set comps. set (component_handles c))"
    by (cases s; cases l; cases b; cases g; cases m) (simp_all add: assms(1-9) run_if_def handle_for_def map_filter_simps insert_commute)
qed

lemma worker_starts:
  assumes "\<And>r. opens r"
  shows "\<exists>opened comps. worker_main opens workerID cfg = Inr (opened, comps)"
proof -
  have step: "and_open (open_if opens needed r) k = k (handle_for needed r)" for needed r and k :: "resource option \<Rightarrow> resource + 'a"
    using assms by (simp add: and_open_def open_if_def handle_for_def)
  show ?thesis
    unfolding worker_main_def open_stores_def Let_def and_open_assoc step and_open_pure prod.case by blast
qed

section \<open>Property\<close>

text \<open>
  C39. The worker runs what it is configured for, fully equipped. With a configuration that loads,
  the process starts when every store and client opens, and then runs one component for each of
  its roles and none else, at least one; each component has every handle it uses and positive
  periods, so that none fails on a missing store or an empty timer; and whatever was opened is
  used by some component.
\<close>

theorem worker_components_equipped:
  assumes "Load U E = Inr cfg"
  shows "((\<forall>r. opens r) \<longrightarrow> (\<exists>opened comps. worker_main opens workerID cfg = Inr (opened, comps)))
    \<and> (\<forall>opened comps. worker_main opens workerID cfg = Inr (opened, comps) \<longrightarrow>
        map component_role comps = filter (\<lambda>role. role \<in> set (cfg_Roles cfg)) allowedWorkerRoles
        \<and> set (map component_role comps) = set (cfg_Roles cfg) \<and> comps \<noteq> []
        \<and> (\<forall>c \<in> set comps. None \<notin> set (component_handles c) \<and> (\<forall>p \<in> set (component_periods c). 0 < p))
        \<and> Some ` set opened = (\<Union>c \<in> set comps. set (component_handles c)))"
proof (intro conjI impI allI)
  assume "\<forall>r. opens r"
  then show "\<exists>opened comps. worker_main opens workerID cfg = Inr (opened, comps)" by (intro worker_starts) simp
next
  fix opened comps
  assume run: "worker_main opens workerID cfg = Inr (opened, comps)"
  note p = Load_parts [OF assms]
  note en = load_engagement_ok [OF p(2)] and kf = load_kafka_ok [OF p(7)] and ob = load_outbox_ok [OF p(8)] and roles = load_roles_ok [OF p(6)]
  have t: "0 < StatsInterval (cfg_Engagement cfg)" "0 < ActiveRoomWindow (cfg_Engagement cfg)" "0 < LikeSnapshotInterval (cfg_Engagement cfg)"
    "0 < PollInterval (cfg_Outbox cfg)" "0 < Lease (cfg_Outbox cfg)" "0 < ProduceTimeout (cfg_Outbox cfg)" "0 < ConsumerLease (cfg_Kafka cfg)"
    using en kf ob by auto
  note eq = worker_started [OF run] and full = components_equipped [OF t]
  show r: "map component_role comps = filter (\<lambda>role. role \<in> set (cfg_Roles cfg)) allowedWorkerRoles"
    unfolding eq(2) full(1) allowedWorkerRoles_def by simp
  show "set (map component_role comps) = set (cfg_Roles cfg)"
    unfolding r using roles by auto
  then show "comps \<noteq> []" using roles by auto
  show "\<forall>c \<in> set comps. None \<notin> set (component_handles c) \<and> (\<forall>p \<in> set (component_periods c). 0 < p)"
    unfolding eq(2) by (rule full(2))
  show "Some ` set opened = (\<Union>c \<in> set comps. set (component_handles c))"
    unfolding eq(1) unfolding eq(2) by (rule full(3))
qed

text \<open>The default configuration runs all five.\<close>

theorem worker_components_equipped_witness:
  "\<exists>cfg opened comps. Load ascii_only plain_env = Inr cfg \<and> worker_main (\<lambda>_. True) ''a1'' cfg = Inr (opened, comps)
     \<and> map component_role comps = [''stats'', ''like-snapshot'', ''outbox'', ''gift-consumer'', ''danmaku-consumer'']"
proof -
  obtain cfg where cfg: "Load ascii_only plain_env = Inr cfg" "cfg_Roles cfg = allowedWorkerRoles" using plain_loads by blast
  note all = worker_components_equipped [OF cfg(1), of "\<lambda>_. True" "''a1''"]
  obtain opened comps where run: "worker_main (\<lambda>_. True) ''a1'' cfg = Inr (opened, comps)" using all by blast
  with all have "map component_role comps = filter (\<lambda>role. role \<in> set (cfg_Roles cfg)) allowedWorkerRoles" by blast
  also have "\<dots> = allowedWorkerRoles" unfolding cfg(2) by simp
  finally show ?thesis using cfg(1) run by (auto simp: allowedWorkerRoles_def)
qed

end
