(* ===== verification/Kafka_Client.thy ===== *)
theory Kafka_Client
  imports Worker Dead_Letters Mq_Consumer
begin

text \<open>
  \<^verbatim>\<open>internal/mq/kafka.go\<close>: the options its clients are made with, and \<^verbatim>\<open>cmd/dlq-replay\<close>, the
  tool that replays an export of dead letters. The client library is an argument: it takes the
  options or refuses them. With a configuration that loads, no client is refused for its options;
  the producer waits for every replica and no consumer commits by itself.
\<close>

section \<open>Clients\<close>

record ClientConfig =
  cl_Brokers :: "string list"
  cl_TLSEnabled :: bool
  cl_SASLMechanism :: string
  cl_SASLUsername :: string
  cl_SASLPassword :: string

datatype kgo_opt =
    SeedBrokers "string list"
  | DialTLS
  | SASLPlain string string
  | SASLScram256 string string
  | SASLScram512 string string
  | ClientID string
  | RequiredAcksAllISR
  | ProducerLinger int
  | RecordRetries int
  | RecordDeliveryTimeout int
  | MaxBufferedRecords int
  | ConsumerGroup string
  | ConsumeTopics "string list"
  | DisableAutoCommit
  | BlockRebalanceOnPoll
  | RebalanceTimeout int
  | ConsumeStartOffsetAtStart
  | ConsumeResetOffsetAtStart

definition clientOptions :: "ClientConfig \<Rightarrow> go_err + kgo_opt list" where
  "clientOptions cfg =
     (let m = cl_SASLMechanism cfg; u = cl_SASLUsername cfg; p = cl_SASLPassword cfg;
          opts = SeedBrokers (cl_Brokers cfg) # (if cl_TLSEnabled cfg then [DialTLS] else []) in
      if cl_Brokers cfg = [] then Inl (Plain ''kafka brokers are required'')
      else if m = [] then Inr opts
      else if m = ''plain'' then Inr (opts @ [SASLPlain u p])
      else if m = ''scram-sha-256'' then Inr (opts @ [SASLScram256 u p])
      else if m = ''scram-sha-512'' then Inr (opts @ [SASLScram512 u p])
      else Inl (Plain (''unsupported kafka SASL mechanism '' @ m)))"

text \<open>\<open>new_client\<close> is \<^verbatim>\<open>kgo.NewClient\<close>; the client it makes is known by its options.\<close>

definition NewProducerWithConfig :: "(kgo_opt list \<Rightarrow> go_err option) \<Rightarrow> ClientConfig \<Rightarrow> go_err + kgo_opt list" where
  "NewProducerWithConfig new_client cfg =
     (case clientOptions cfg of Inl err \<Rightarrow> Inl err
      | Inr opts \<Rightarrow>
        let opts = opts @ [ClientID ''live-producer'', RequiredAcksAllISR, ProducerLinger (5 * millisecond), RecordRetries 10,
                           RecordDeliveryTimeout (10 * second), MaxBufferedRecords 10000]
        in case new_client opts of Some err \<Rightarrow> Inl err | None \<Rightarrow> Inr opts)"

definition NewProducer :: "(kgo_opt list \<Rightarrow> go_err option) \<Rightarrow> string list \<Rightarrow> go_err + kgo_opt list" where
  "NewProducer new_client brokers = NewProducerWithConfig new_client
     \<lparr>cl_Brokers = brokers, cl_TLSEnabled = False, cl_SASLMechanism = [], cl_SASLUsername = [], cl_SASLPassword = []\<rparr>"

definition NewConsumerWithConfig ::
  "(kgo_opt list \<Rightarrow> go_err option) \<Rightarrow> ClientConfig \<Rightarrow> string \<Rightarrow> string list \<Rightarrow> go_err + kgo_opt list" where
  "NewConsumerWithConfig new_client cfg grp topics =
     (if grp = [] \<or> topics = [] then Inl (Plain ''kafka group and topics are required'')
      else case clientOptions cfg of Inl err \<Rightarrow> Inl err
      | Inr opts \<Rightarrow>
        let opts = opts @ [ClientID (''live-consumer-'' @ grp), ConsumerGroup grp, ConsumeTopics topics, DisableAutoCommit,
                           BlockRebalanceOnPoll, RebalanceTimeout (5 * minute), ConsumeStartOffsetAtStart, ConsumeResetOffsetAtStart]
        in case new_client opts of Some err \<Rightarrow> Inl err | None \<Rightarrow> Inr opts)"

definition NewConsumer :: "(kgo_opt list \<Rightarrow> go_err option) \<Rightarrow> string list \<Rightarrow> string \<Rightarrow> string list \<Rightarrow> go_err + kgo_opt list" where
  "NewConsumer new_client brokers = NewConsumerWithConfig new_client
     \<lparr>cl_Brokers = brokers, cl_TLSEnabled = False, cl_SASLMechanism = [], cl_SASLUsername = [], cl_SASLPassword = []\<rparr>"

text \<open>The client configuration the processes build from the loaded one.\<close>

definition kafkaCfg :: "KafkaConfig \<Rightarrow> ClientConfig" where
  "kafkaCfg kf = \<lparr>cl_Brokers = Brokers kf, cl_TLSEnabled = TLSEnabled kf, cl_SASLMechanism = SASLMechanism kf,
     cl_SASLUsername = SASLUsername kf, cl_SASLPassword = SASLPassword kf\<rparr>"

section \<open>Loaded configurations make clients\<close>

lemma loaded_mechanism:
  assumes "load_kafka U E roles = Inr k"
  shows "SASLMechanism k \<in> {[], ''plain'', ''scram-sha-256'', ''scram-sha-512''} \<and> GiftTopic k \<noteq> [] \<and> DanmakuTopic k \<noteq> []
    \<and> GiftConsumerGroup k \<noteq> [] \<and> DanmakuConsumerGroup k \<noteq> []"
proof -
  note facts = assms [unfolded load_kafka_def Let_def kafka_shape]
  then obtain tls lease where k: "k = \<lparr>Brokers = splitCSV (env E ''KAFKA_BROKERS'' ''kafka:9092''),
      DanmakuTopic = env E ''KAFKA_DANMAKU_TOPIC'' ''live.danmaku.v1'', GiftTopic = env E ''KAFKA_GIFT_TOPIC'' ''live.gift.v1'',
      DanmakuConsumerGroup = env E ''KAFKA_DANMAKU_CONSUMER_GROUP'' ''live-danmaku-persist-v1'',
      GiftConsumerGroup = env E ''KAFKA_GIFT_CONSUMER_GROUP'' ''live-gift-realtime-v1'', ConsumerLease = lease,
      TLSEnabled = tls, SASLMechanism = ToLower U (TrimSpace (E ''KAFKA_SASL_MECHANISM'')), SASLUsername = E ''KAFKA_SASL_USERNAME'',
      SASLPassword = E ''KAFKA_SASL_PASSWORD''\<rparr>"
    by blast
  have "env E key (c # cs) \<noteq> []" for key c cs by (simp add: env_def)
  moreover from facts have "ToLower U (TrimSpace (E ''KAFKA_SASL_MECHANISM'')) \<in> {[], ''plain'', ''scram-sha-256'', ''scram-sha-512''}" by blast
  ultimately show ?thesis unfolding k KafkaConfig.select_convs by blast
qed

lemma client_options_known:
  "cl_Brokers cfg \<noteq> [] \<Longrightarrow> cl_SASLMechanism cfg \<in> {[], ''plain'', ''scram-sha-256'', ''scram-sha-512''} \<Longrightarrow> \<exists>opts. clientOptions cfg = Inr opts"
  by (auto simp: clientOptions_def Let_def)

lemma loaded_clients:
  assumes "Load U E = Inr c" and "\<And>opts. new_client opts = None"
  shows "\<exists>p g m. NewProducerWithConfig new_client (kafkaCfg (cfg_Kafka c)) = Inr p \<and> RequiredAcksAllISR \<in> set p
    \<and> NewConsumerWithConfig new_client (kafkaCfg (cfg_Kafka c)) (GiftConsumerGroup (cfg_Kafka c)) [GiftTopic (cfg_Kafka c)] = Inr g
    \<and> NewConsumerWithConfig new_client (kafkaCfg (cfg_Kafka c)) (DanmakuConsumerGroup (cfg_Kafka c)) [DanmakuTopic (cfg_Kafka c)] = Inr m
    \<and> DisableAutoCommit \<in> set g \<and> DisableAutoCommit \<in> set m"
proof -
  note k = Load_parts(7) [OF assms(1)]
  obtain opts where "clientOptions (kafkaCfg (cfg_Kafka c)) = Inr opts"
    using client_options_known [of "kafkaCfg (cfg_Kafka c)"] load_kafka_ok [OF k] loaded_mechanism [OF k] by (auto simp: kafkaCfg_def)
  then show ?thesis
    using loaded_mechanism [OF k] assms(2) by (simp add: NewProducerWithConfig_def NewConsumerWithConfig_def)
qed

section \<open>The replay tool\<close>

definition dlq_env :: "environ \<Rightarrow> string \<Rightarrow> string \<Rightarrow> string" where
  "dlq_env E key fallback = (let v = TrimSpace (E key) in if v \<noteq> [] then v else fallback)"

definition openInput :: "(string \<Rightarrow> go_err + string) \<Rightarrow> string \<Rightarrow> string \<Rightarrow> go_err + string" where
  "openInput open_file stdin path =
     (if path = ''-'' then Inr stdin
      else case open_file path of Inl err \<Rightarrow> Inl (errorf_pre ''open input'' err) | Inr txt \<Rightarrow> Inr txt)"

text \<open>The flags are \<open>None\<close> where they were not given; the answer is the exit status.\<close>

definition dlq_main ::
  "environ \<Rightarrow> (string \<Rightarrow> go_err + string) \<Rightarrow> string \<Rightarrow> (kgo_opt list \<Rightarrow> go_err option) \<Rightarrow> string option \<Rightarrow> string option \<Rightarrow> string option
   \<Rightarrow> (replay_state, int) prog" where
  "dlq_main E open_file stdin new_client brokers input actor =
     (let brokers = (case brokers of Some b \<Rightarrow> b | None \<Rightarrow> dlq_env E ''KAFKA_BROKERS'' ''localhost:19092'');
          input = (case input of Some p \<Rightarrow> p | None \<Rightarrow> ''-''); actor = (case actor of Some a \<Rightarrow> a | None \<Rightarrow> []) in
      if TrimSpace actor = [] then ret 2
      else case openInput open_file stdin input of Inl _ \<Rightarrow> ret 1
      | Inr txt \<Rightarrow>
        (case NewProducer new_client (Split (CHR '','') brokers) of Inl _ \<Rightarrow> ret 1
         | Inr _ \<Rightarrow> bind (ReplayJSONLines (Some ProduceRawSync) actor True txt) (\<lambda>(count, err).
             ret (case err of Some _ \<Rightarrow> 1 | None \<Rightarrow> 0))))"

text \<open>No operator, no replay.\<close>

lemma dlq_needs_actor:
  "dlq_main E open_file stdin new_client brokers input None (d, w) = (Inr 2, (d, w))"
  by (simp add: dlq_main_def)

end
