(* ===== verification/Commerce_Runs.thy ===== *)
theory Commerce_Runs
  imports Outbox_Delivery
begin

text \<open>
  The commerce database under all of its operations, those of \<^verbatim>\<open>internal/wallet\<close>, \<^verbatim>\<open>internal/gift\<close>
  and \<^verbatim>\<open>internal/outbox\<close>, in any order and each under any failures: the books balance, and an
  event that a worker was given stays with that worker.
\<close>

section \<open>Runs\<close>

datatype commerce_op =
    OpBalance int | OpTransactions int nat | OpCredit int int string string | OpDevCredit WalletService int int
  | OpGifts | OpByOrderNo string | OpByRequestID string | OpCreate "(string \<times> string) list" CreateParams
  | OpClaim "string \<Rightarrow> string" string int int | OpPublished int string | OpFailed int string int "go_err option"
  | OpPendingCount | OpPendingStats

fun run_commerce :: "unicode \<Rightarrow> (string \<Rightarrow> string) \<Rightarrow> commerce_op \<Rightarrow> (commerce_db, unit) prog" where
  "run_commerce U ck (OpBalance u) = bind (Repo_Balance u) (\<lambda>_. ret ())"
| "run_commerce U ck (OpTransactions u n) = bind (Transactions u n) (\<lambda>_. ret ())"
| "run_commerce U ck (OpCredit u a no biz) = bind (Credit ck u a no biz) (\<lambda>_. ret ())"
| "run_commerce U ck (OpDevCredit s u a) = bind (DevCredit ck s u a) (\<lambda>_. ret ())"
| "run_commerce U ck OpGifts = bind ListActive (\<lambda>_. ret ())"
| "run_commerce U ck (OpByOrderNo no) = bind (ByOrderNo ck no) (\<lambda>_. ret ())"
| "run_commerce U ck (OpByRequestID i) = bind (ByRequestID ck i) (\<lambda>_. ret ())"
| "run_commerce U ck (OpCreate trace p) = bind (Create U ck trace p) (\<lambda>_. ret ())"
| "run_commerce U ck (OpClaim js u b l) = bind (Claim js u b l) (\<lambda>_. ret ())"
| "run_commerce U ck (OpPublished i u) = MarkPublished ck i u"
| "run_commerce U ck (OpFailed i u d c) = MarkFailed ck i u d c"
| "run_commerce U ck OpPendingCount = bind PendingCount (\<lambda>_. ret ())"
| "run_commerce U ck OpPendingStats = bind PendingStats (\<lambda>_. ret ())"

text \<open>Each operation starts in a world of its own: any time, any failures.\<close>

inductive commerce_run ::
  "unicode \<Rightarrow> (string \<Rightarrow> string) \<Rightarrow> commerce_db \<Rightarrow> (commerce_op \<times> io) list \<Rightarrow> commerce_db \<Rightarrow> bool" for U ck where
  none: "commerce_run U ck db [] db"
| one: "run_commerce U ck c (db, w) = (r, (db1, w1)) \<Longrightarrow> commerce_run U ck db1 ops db2 \<Longrightarrow>
     commerce_run U ck db ((c, w) # ops) db2"

lemma commerce_run_keeps:
  assumes "commerce_run U ck db ops db'" and "I db" and "\<forall>(c, w) \<in> set ops. P c w"
    and "\<And>c w db r db' w'. run_commerce U ck c (db, w) = (r, (db', w')) \<Longrightarrow> P c w \<Longrightarrow> I db \<Longrightarrow> I db'"
  shows "I db'"
  using assms(1-3)
proof (induction rule: commerce_run.induct)
  case (one c db w r db1 w1 ops db2)
  have "I db1" using assms(4) [OF one.hyps(1)] one.prems by simp
  with one.IH one.prems(2) show ?case by simp
qed simp

section \<open>The books\<close>

lemma keeps_books: "(\<And>db0. keeps (same_but_outbox db0) m) \<Longrightarrow> keeps (commerce_ok ck) m"
  by (rule keepsI) (blast dest: keepsD intro: same_but_outbox_refl same_but_outbox_commerce_ok)

lemma keeps_run_books: "keeps (commerce_ok ck) (run_commerce U ck c)"
  by (cases c; simp only: run_commerce.simps Transactions_def ListActive_def ByOrderNo_def ByRequestID_def PendingCount_def;
      intro keeps_intro keeps_Create keeps_Balance keeps_Credit keeps_DevCredit keeps_books keeps_Claim keeps_MarkPublished
        keeps_MarkFailed keeps_PendingStats keeps_read_ext)

section \<open>Leases\<close>

text \<open>The events \<open>E\<close> were given to worker \<open>u\<close> at time \<open>t\<close>: each is published, or locked by it since then.\<close>

definition leased_row :: "(string \<Rightarrow> string) \<Rightarrow> string \<Rightarrow> int \<Rightarrow> outbox_row \<Rightarrow> bool" where
  "leased_row ck u t r \<longleftrightarrow> ob_status r = 1
     \<or> (ob_status r = 2 \<and> ob_locked_at r = Some t \<and> map_option ck (ob_locked_by r) = Some (ck u))"

definition leased_to :: "(string \<Rightarrow> string) \<Rightarrow> int set \<Rightarrow> string \<Rightarrow> int \<Rightarrow> outbox_row list \<Rightarrow> bool" where
  "leased_to ck E u t rows \<longleftrightarrow> E \<subseteq> ob_id ` set rows \<and> (\<forall>r \<in> set rows. ob_id r \<in> E \<longrightarrow> leased_row ck u t r)"

lemma leased_not_due:
  assumes "leased_row ck u t r" and "stale \<le> t"
  shows "\<not> claimable nw (stale div 1000 * 1000) r"
proof -
  have "stale div 1000 * 1000 \<le> stale" using pos_mod_sign [of 1000 stale] mult_div_mod_eq [of 1000 stale] by linarith
  with assms show ?thesis by (auto simp: leased_row_def claimable_def)
qed

lemma leased_claim:
  assumes "leased_to ck E u t (outbox_events db)" and "go_now w - l \<le> t"
    and "events = map (event_of js) (take n (due_rows (NOW3 w) (go_now w - l) db))"
  shows "oe_id ` set events \<inter> E = {}"
proof -
  have "ob_id r \<notin> E" if "r \<in> set (due_rows (NOW3 w) (go_now w - l) db)" for r
    using that assms(1) leased_not_due [OF _ assms(2)] by (auto simp: due_rows_def leased_to_def)
  then show ?thesis by (auto simp: assms(3) event_of_def dest!: in_set_takeD)
qed

lemma leased_map:
  assumes "leased_to ck E u t rows" and "\<And>r. ob_id (f r) = ob_id r"
    and "\<And>r. r \<in> set rows \<Longrightarrow> ob_id r \<in> E \<Longrightarrow> leased_row ck u t r \<Longrightarrow> leased_row ck u t (f r)"
  shows "leased_to ck E u t (map f rows)"
proof -
  have "ob_id ` f ` set rows = ob_id ` set rows" using assms(2) by (simp add: image_comp)
  with assms show ?thesis by (auto simp: leased_to_def)
qed

lemma keeps_leased_update:
  assumes "\<And>nw r. ob_id (f nw r) = ob_id r"
    and "\<And>nw r. p r \<Longrightarrow> ob_id r \<in> E \<Longrightarrow> leased_row ck u t r \<Longrightarrow> leased_row ck u t (f nw r)"
  shows "keeps (\<lambda>db. leased_to ck E u t (outbox_events db)) (outbox_update p f)"
  unfolding outbox_update_def
proof (rule keeps_ext, goal_cases)
  case (1 db w)
  from leased_map [OF 1, of "\<lambda>r. if p r then f (NOW3 w) r else r"] assms show ?case
    by (simp add: sql_update_def)
qed

lemma keeps_events_money:
  "keeps (\<lambda>db. J (outbox_events db)) (Repo_Balance i)"
  "keeps (\<lambda>db. J (outbox_events db)) (Credit ck i a no biz)"
  "keeps (\<lambda>db. J (outbox_events db)) (DevCredit ck s i a)"
proof -
  have e: "keeps (\<lambda>db. J (outbox_events db)) (wallet_ensure i)" "keeps (\<lambda>db. J (outbox_events db)) (wallet_add i a q)"
    "keeps (\<lambda>db. J (outbox_events db)) (wallet_tx_insert ck g)" for q g
    unfolding wallet_ensure_def wallet_add_def wallet_tx_insert_def
    by (rule keeps_ext, auto simp: Let_def split: option.splits)+
  show b: "keeps (\<lambda>db. J (outbox_events db)) (Repo_Balance i)"
    unfolding Repo_Balance_def wallet_balance_def by (intro keeps_intro e)
  show "keeps (\<lambda>db. J (outbox_events db)) (Credit ck i a no biz)" for no biz
    unfolding Credit_def wallet_balance_def Let_def by (intro keeps_in_tx keeps_intro e)
  then show "keeps (\<lambda>db. J (outbox_events db)) (DevCredit ck s i a)"
    unfolding DevCredit_def by (intro keeps_intro)
qed

text \<open>
  The worker keeps its events as long as it does not report one of them as failed, and every claim
  has a lease that reaches back no further than to \<open>t\<close>.
\<close>

fun lease_kept :: "(string \<Rightarrow> string) \<Rightarrow> int set \<Rightarrow> string \<Rightarrow> int \<Rightarrow> commerce_op \<Rightarrow> io \<Rightarrow> bool" where
  "lease_kept ck E u t (OpClaim js u' b l) w = (go_now w - l \<le> t)"
| "lease_kept ck E u t (OpFailed i u' d c) w = (i \<notin> E \<or> ck u' \<noteq> ck u)"
| "lease_kept ck E u t _ w = True"

lemma leased_step:
  assumes "run_commerce U ck c (db, w) = (r, (db', w'))" and "lease_kept ck E u t c w"
    and "ledger_ok db" and "leased_to ck E u t (outbox_events db)"
  shows "leased_to ck E u t (outbox_events db')"
proof -
  let ?I = "\<lambda>db. leased_to ck E u t (outbox_events db)"
  have by_keeps: "?I db'" if "keeps ?I (run_commerce U ck c)" using keepsD [OF that assms(4,1)] .
  show ?thesis
  proof (cases c)
    case (OpCreate trace p)
    with assms(1) obtain x where "Create U ck trace p (db, w) = (x, (db', w'))" by (auto simp: bind_eq)
    then show ?thesis using ledger_ok_balance(2) [OF assms(3)]
    proof (cases rule: Create_cases)
      case (placed g payload)
      have "next_id ob_id (outbox_events db) \<notin> ob_id ` set (outbox_events db)"
        using next_id_fresh [where key = ob_id and rows = "outbox_events db"] by force
      then have "next_id ob_id (outbox_events db) \<notin> E" using assms(4) by (auto simp: leased_to_def)
      with assms(4) show ?thesis by (auto simp: placed(3) leased_to_def gift_event_def)
    qed (simp add: assms(4))
  next
    case (OpClaim js u' b l)
    with assms(1) obtain x where "Claim js u' b l (db, w) = (x, (db', w'))" by (auto simp: bind_eq)
    then show ?thesis
    proof (cases rule: Claim_cases)
      case (claimed events)
      have "oe_id ` set events \<inter> E = {}" using leased_claim [OF assms(4) _ claimed(1)] assms(2) OpClaim by simp
      then have "leased_to ck E u t (map (\<lambda>r. if ob_id r \<in> oe_id ` set events then locked_row u' (NOW3 w) r else r) (outbox_events db))"
        by (intro leased_map [OF assms(4)]) (auto simp: locked_row_def)
      then show ?thesis by (simp add: claimed(2) lock_rows_def)
    qed (simp add: assms(4))
  next
    case (OpPublished i u')
    have "keeps ?I (MarkPublished ck i u')"
      unfolding MarkPublished_def by (intro keeps_intro keeps_leased_update) (auto simp: leased_row_def)
    with by_keeps OpPublished show ?thesis by simp
  next
    case (OpFailed i u' d cause)
    have "\<not> (held_by ck i u' r \<and> ob_id r \<in> E \<and> leased_row ck u t r)" for r
      using assms(2) OpFailed by (auto simp: held_by_def leased_row_def)
    then have "keeps ?I (MarkFailed ck i u' d cause)"
      unfolding MarkFailed_def Let_def by (intro keeps_intro keeps_leased_update) auto
    with by_keeps OpFailed show ?thesis by simp
  qed (rule by_keeps; simp only: run_commerce.simps Transactions_def ListActive_def ByOrderNo_def ByRequestID_def PendingCount_def;
       intro keeps_intro keeps_events_money keeps_PendingStats keeps_read_ext)+
qed

lemma claim_leases:
  assumes "Claim js u b l (db, w) = (Inr es, (db1, w1))"
  shows "leased_to ck (oe_id ` set es) u (NOW3 w) (outbox_events db1)"
  using assms
proof (cases rule: Claim_cases)
  case (claimed events)
  have es: "es = events" using claimed(3) by simp
  have "oe_id ` set es \<subseteq> ob_id ` set (outbox_events db)"
    by (auto simp: es claimed(1) due_rows_def event_of_def dest!: in_set_takeD)
  moreover have "map ob_id (outbox_events db1) = map ob_id (outbox_events db)"
    by (simp add: claimed(2) lock_rows_def locked_row_def)
  then have "ob_id ` set (outbox_events db1) = ob_id ` set (outbox_events db)" by (metis list.set_map)
  ultimately show ?thesis
    by (auto simp: leased_to_def claimed(2) es lock_rows_def leased_row_def locked_row_def)
qed simp

section \<open>A concrete shop\<close>

text \<open>A second order by the same user.\<close>

definition second_request :: CreateParams where
  "second_request = sample_request\<lparr>p_OrderNo := ''Gcd'', p_RequestID := ''req-0002'', p_TransactionNo := ''WTcd'', p_EventID := ''ev2''\<rparr>"

lemma sold_shop_ok: "commerce_ok id sample_shop" "commerce_ok id sample_shop_sold"
proof -
  have b: "order_book_ok id sample_shop"
    by (simp add: order_book_ok_def sample_shop_def posting_def credit_tx_def)
  from order_placed_book [OF b sample_orderable, of "''{}''" 0] sample_shop_sold_ok
  show "commerce_ok id sample_shop_sold"
    by (simp add: commerce_ok_def sample_shop_sold_def sample_gift_def sample_request_def)
  from b sample_shop_ok show "commerce_ok id sample_shop" by (simp add: commerce_ok_def)
qed

definition claimed_shop :: commerce_db where
  "claimed_shop = lock_rows ''w1'' 0 {1} sample_shop_sold"

lemma sold_due:
  "outbox_events sample_shop_sold = [gift_event sample_request ''{}'' 1 0]"
  by (simp add: sample_shop_sold_def sample_shop_def next_id_def)

lemma first_claim:
  "Claim id ''w1'' 10 second (sample_shop_sold, quiet_world) =
     (Inr [event_of id (gift_event sample_request ''{}'' 1 0)], (claimed_shop, quiet_world))"
proof -
  have q: "faults quiet_world = []" by (simp add: quiet_world_def)
  have due: "due_events (sample_publisher\<lparr>op_batch := 10\<rparr>) quiet_world sample_shop_sold = [event_of id (gift_event sample_request ''{}'' 1 0)]"
    by (simp add: due_events_def due_rows_def sold_due claimable_def gift_event_def quiet_world_def NOW3_def)
  from Claim_quiet [OF q, of "sample_publisher\<lparr>op_batch := 10\<rparr>" sample_shop_sold] show ?thesis
    unfolding due by (simp add: claimed_shop_def event_of_def gift_event_def quiet_world_def NOW3_def)
qed

lemma second_order:
  "\<exists>r raw db w. Create ascii_only id [] second_request (claimed_shop, quiet_world) = (r, (db, w))
     \<and> db = order_placed second_request sample_gift 200 raw 0 claimed_shop"
proof -
  have q: "faults quiet_world = []" by (simp add: quiet_world_def)
  have t: "utf8_ok (messageID ''Gcd'') \<and> utf8_ok ''Gcd''"
    by (simp add: utf8_ok_def rune_segs_ascii byte_def rune_error_def messageID_def TrimSpace_def is_space_def Let_def)
  have "event_encodable second_request sample_gift quiet_world"
    using sample_encodable t
    by (simp add: event_encodable_def gift_payload_def second_request_def sample_request_def sample_gift_def)
  from event_encodable_marshal [OF this, of "[]"] obtain raw where
    m: "marshal_envelope (gift_envelope [] second_request sample_gift (gift_price sample_gift * p_Count second_request) (go_now quiet_world)) = Inr raw"
    by blast
  have ids: "fresh_ids id second_request claimed_shop"
    by (simp add: fresh_ids_def claimed_shop_def lock_rows_def sold_due locked_row_def gift_event_def second_request_def
        sample_request_def sample_shop_sold_def sample_shop_def credit_tx_def gift_tx_def success_order_def pending_order_def)
  have o: "orderable id second_request sample_gift claimed_shop"
    by (simp add: orderable_def claimed_shop_def lock_rows_def sold_due locked_row_def gift_event_def second_request_def
        sample_request_def sample_shop_sold_def sample_shop_def credit_tx_def gift_by_id_def sample_gift_def max_int64_def
        success_order_def pending_order_def balance_of_def order_placed_def charged_def posting_def gift_tx_def)
  have "ledger_ok claimed_shop"
    using sample_shop_sold_ok by (simp add: claimed_shop_def lock_rows_def ledger_ok_def txs_of_def)
  from accepted_order [OF q this ids o m, of ascii_only] show ?thesis
    by (auto simp: sample_gift_def second_request_def sample_request_def quiet_world_def NOW3_def)
qed

lemma both_orders_run:
  "\<exists>raw db. commerce_run ascii_only id claimed_shop [(OpCreate [] second_request, quiet_world)] db
     \<and> db = order_placed second_request sample_gift 200 raw 0 claimed_shop"
proof -
  obtain r raw db w where c: "Create ascii_only id [] second_request (claimed_shop, quiet_world) = (r, (db, w))"
    and db: "db = order_placed second_request sample_gift 200 raw 0 claimed_shop"
    using second_order by blast
  obtain x where "run_commerce ascii_only id (OpCreate [] second_request) (claimed_shop, quiet_world) = (x, (db, w))"
    using c by (cases r) (auto simp: bind_def ret_def)
  from commerce_run.one [OF this commerce_run.none] db show ?thesis by blast
qed

section \<open>Properties\<close>

text \<open>
  C3. The books balance, always. Whatever operations of the wallet, gift and outbox repositories are
  run on the commerce database, in whatever order, at whatever times and with whatever failures:
  each wallet is the run of its ledger entries from zero, never negative, its version their number;
  order numbers and request identifiers stay unique; and orders, gift ledger entries and gift events
  correspond one to one, in order, with matching user and amount.
\<close>

theorem commerce_books_balance:
  assumes "commerce_ok ck db" and "commerce_run U ck db ops db'"
  shows "commerce_ok ck db'"
proof (rule commerce_run_keeps [where I = "commerce_ok ck" and P = "\<lambda>_ _. True", OF assms(2,1)])
  fix c w d r d' w'
  assume "run_commerce U ck c (d, w) = (r, (d', w'))" and "commerce_ok ck d"
  with keepsD [OF keeps_run_books] show "commerce_ok ck d'" by blast
qed simp

theorem commerce_books_balance_witness:
  "\<exists>db. commerce_run ascii_only id sample_shop_sold
       [(OpClaim id ''w1'' 10 second, quiet_world), (OpCreate [] second_request, quiet_world)] db
     \<and> length (gift_orders db) = 2 \<and> commerce_ok id db"
proof -
  obtain raw db where run: "commerce_run ascii_only id claimed_shop [(OpCreate [] second_request, quiet_world)] db"
    and db: "db = order_placed second_request sample_gift 200 raw 0 claimed_shop"
    using both_orders_run by blast
  have "run_commerce ascii_only id (OpClaim id ''w1'' 10 second) (sample_shop_sold, quiet_world) = (Inr (), (claimed_shop, quiet_world))"
    by (simp add: bind_def first_claim ret_def)
  from commerce_run.one [OF this run] have r: "commerce_run ascii_only id sample_shop_sold
      [(OpClaim id ''w1'' 10 second, quiet_world), (OpCreate [] second_request, quiet_world)] db" .
  have "length (gift_orders db) = 2"
    by (simp add: db claimed_shop_def lock_rows_def sample_shop_sold_def sample_shop_def)
  with r commerce_books_balance [OF sold_shop_ok(2) r] show ?thesis by blast
qed

text \<open>
  C12. A claimed event stays with its worker. The events one claim gave to a worker are given to no
  claim after it, whatever other operations on the database are run in between, in whatever order
  and with whatever failures, unless the worker itself reports the event as failed or a claim's
  lease reaches back to before the time of the first claim, which is then taken to be abandoned.
\<close>

theorem outbox_claims_exclusive:
  assumes "commerce_ok ck db" and "Claim js1 u1 b1 l1 (db, w) = (Inr es1, (db1, w1))"
    and "commerce_run U ck db1 ops db2" and "\<forall>(c, v) \<in> set ops. lease_kept ck (oe_id ` set es1) u1 (NOW3 w) c v"
    and "Claim js2 u2 b2 l2 (db2, v) = (Inr es2, (db3, v1))" and "go_now v - l2 \<le> NOW3 w"
  shows "oe_id ` set es1 \<inter> oe_id ` set es2 = {}"
proof -
  let ?I = "\<lambda>db. commerce_ok ck db \<and> leased_to ck (oe_id ` set es1) u1 (NOW3 w) (outbox_events db)"
  have "run_commerce U ck (OpClaim js1 u1 b1 l1) (db, w) = (Inr (), (db1, w1))"
    using assms(2) by (simp add: bind_def ret_def)
  from keepsD [OF keeps_run_books assms(1) this] claim_leases [OF assms(2)] have "?I db1" by simp
  then have "?I db2"
  proof (rule commerce_run_keeps [where I = ?I, OF assms(3) _ assms(4)])
    fix c x d r d' x'
    assume c: "run_commerce U ck c (d, x) = (r, (d', x'))" and "lease_kept ck (oe_id ` set es1) u1 (NOW3 w) c x" and "?I d"
    with leased_step [OF c] keepsD [OF keeps_run_books _ c] show "?I d'" by (simp add: commerce_ok_def)
  qed
  from assms(5) show ?thesis
  proof (cases rule: Claim_cases)
    case (claimed events)
    have "es2 = events" using claimed(3) by simp
    with leased_claim [OF conjunct2 [OF \<open>?I db2\<close>] assms(6) claimed(1)] show ?thesis by (simp add: Int_commute)
  qed simp
qed

theorem outbox_claims_exclusive_witness:
  "\<exists>db es db2. commerce_run ascii_only id claimed_shop [(OpCreate [] second_request, quiet_world)] db
     \<and> Claim id ''w2'' 10 second (db, quiet_world) = (Inr es, (db2, quiet_world))
     \<and> map oe_event_id es = [''ev2''] \<and> 1 \<notin> oe_id ` set es"
proof -
  obtain raw db where run: "commerce_run ascii_only id claimed_shop [(OpCreate [] second_request, quiet_world)] db"
    and db: "db = order_placed second_request sample_gift 200 raw 0 claimed_shop"
    using both_orders_run by blast
  have q: "faults quiet_world = []" by (simp add: quiet_world_def)
  let ?p = "sample_publisher\<lparr>op_batch := 10, op_workerID := ''w2''\<rparr>"
  have rows: "outbox_events db = [locked_row ''w1'' 0 (gift_event sample_request ''{}'' 1 0), gift_event second_request raw 2 0]"
    by (simp add: db claimed_shop_def lock_rows_def sold_due next_id_def locked_row_def gift_event_def)
  have due: "due_events ?p quiet_world db = [event_of id (gift_event second_request raw 2 0)]"
    by (simp add: due_events_def due_rows_def rows claimable_def locked_row_def gift_event_def quiet_world_def NOW3_def)
  note c = Claim_quiet [OF q, of ?p db, unfolded due]
  have "go_now quiet_world - second \<le> NOW3 quiet_world" by (simp add: quiet_world_def NOW3_def)
  moreover have "\<forall>(c, v) \<in> set [(OpCreate [] second_request, quiet_world)]. lease_kept id
      (oe_id ` set [event_of id (gift_event sample_request ''{}'' 1 0)]) ''w1'' (NOW3 quiet_world) c v"
    by simp
  ultimately have "1 \<notin> oe_id ` set [event_of id (gift_event second_request raw 2 0)]"
    using outbox_claims_exclusive [OF sold_shop_ok(2) first_claim run, of id "''w2''" 10 second quiet_world] c
    by (simp add: event_of_def gift_event_def)
  with run c show ?thesis
    by (intro exI conjI) (auto simp: event_of_def gift_event_def second_request_def)
qed

end
