(* ===== verification/Spec2Isabelle.thy ===== *)
theory Spec2Isabelle
  imports Gift_End_To_End Dead_Letters Room_Lifecycle Redis_Limits
    Gift_Admission Like_Counting Like_Recovery Stats_Rounds Auth Traffic
    Danmaku_Live Danmaku_Store Whole_Program Migrate Kafka_Client Commerce_Runs
begin

text \<open>
  LUMI LIVE: a verification library for the live-streaming platform in \<^verbatim>\<open>src\<close>.

  \<^bold>\<open>The program.\<close> A public gateway (\<^verbatim>\<open>cmd/api\<close>, \<^verbatim>\<open>internal/gateway\<close>) forwards requests to
  four HTTP services. Identity and rooms (\<^verbatim>\<open>cmd/identityroom\<close>) keeps accounts, rooms, bans and
  mutes in MySQL and issues the tokens. Interaction (\<^verbatim>\<open>cmd/interaction\<close>) takes joins, messages
  (danmaku), likes and heartbeats; it reads the identity service over HTTP, keeps its counters in
  Redis, publishes to the realtime server (Centrifugo) and produces messages to Kafka. Commerce
  (\<^verbatim>\<open>cmd/commerce\<close>) keeps wallets, gifts, orders and the outbox. Query (\<^verbatim>\<open>cmd/query\<close>) reads views
  of the others' databases. The worker (\<^verbatim>\<open>cmd/worker\<close>) publishes the outbox to Kafka, consumes gift
  and message events, aggregates room statistics and checkpoints the likes. \<^verbatim>\<open>cmd/migrate\<close> brings
  the schemas up to date and \<^verbatim>\<open>cmd/dlq-replay\<close> replays dead letters.

  \<^bold>\<open>How code is modelled.\<close> A Go function that touches a store is a \<open>prog\<close> (theory \<open>Effects\<close>): it
  passes the stores and the world along and returns an error or a value. The world holds the clocks
  and a list of faults, one consumed by each call of a database, Redis, Kafka or HTTP server: a call
  is done, lost before it took effect, or late, that is, it took effect and was reported as failed.
  The properties hold for every list of faults unless they say otherwise. A transaction restores
  the store when it ends other than by a commit. Integers are Go's 64-bit integers, with \<open>i64\<close>
  where an operation may wrap; floats are IEEE doubles (\<open>Go_Float\<close>); strings are bytes and runes
  are decoded from them (\<open>Go_Text\<close>). Stores are records of tables, lists of rows in the order of
  their keys, and the SQL and Lua of the source are functions on them.

  \<^bold>\<open>The theories.\<close>
  \<^item> Go and its library: \<open>Prelude\<close>, \<open>Go_Errors\<close>, \<open>Go_Text\<close>, \<open>Go_Float\<close>, \<open>Effects\<close>; JSON with its
    round trips in \<open>Json\<close>, \<open>Json_Struct\<close>, \<open>Json_Roundtrip\<close>, \<open>Json_Time\<close>, \<open>Json_Compact\<close>; \<open>Base64\<close>;
    SHA-256, HMAC and PBKDF2 in \<open>Crypto\<close>.
  \<^item> Commerce (\<^verbatim>\<open>internal/wallet\<close>, \<^verbatim>\<open>internal/gift\<close>, \<^verbatim>\<open>internal/commerceapi\<close>): \<open>Commerce_Schema\<close>,
    \<open>Wallet\<close>, \<open>Gift_Repo\<close>, \<open>Gift_Service\<close> and \<open>Commerce_Api\<close> are the code; \<open>Gift_Ledger\<close> shows that
    an order is all or nothing and keeps the books balanced, \<open>Gift_Admission\<close> who is charged and how
    often, \<open>Commerce_Authority\<close> which requests move money; \<open>Commerce_Runs\<close> has the database under any
    run of its operations, those of the outbox included: the books balance, and a claimed event
    stays with its worker.
  \<^item> Events (\<^verbatim>\<open>internal/mq\<close>, \<^verbatim>\<open>internal/outbox\<close>, \<^verbatim>\<open>internal/eventdedup\<close>, \<^verbatim>\<open>internal/realtime\<close>):
    \<open>Mq_Message\<close>, \<open>Mq_Kafka\<close>, \<open>Mq_Consumer\<close>, \<open>Kafka_Client\<close>, \<open>Dedup\<close>, \<open>Realtime\<close>, \<open>Outbox\<close> and
    \<open>Gift_Consumer\<close>; \<open>Outbox_Delivery\<close> shows that what is published was produced, \<open>Gift_Delivery\<close>
    that an event is published until it is recorded as processed and never after (delivery is at
    least once), \<open>Gift_End_To_End\<close> that an accepted order passes all three stages, \<open>Dead_Letters\<close>
    that dead letters replay as the records they were.
  \<^item> Rooms and identity (\<^verbatim>\<open>internal/room\<close>, \<^verbatim>\<open>internal/auth\<close>, \<^verbatim>\<open>internal/token\<close>): \<open>Room_Repo\<close>,
    \<open>Room_Service\<close>, \<open>Identity\<close>, \<open>Tokens\<close>, \<open>Auth\<close>; \<open>Room_Lifecycle\<close> has the step relation of rooms
    and its invariants, \<open>Access_Tokens\<close> which tokens are accepted.
  \<^item> Engagement (\<^verbatim>\<open>internal/store/redisstore\<close>, \<^verbatim>\<open>internal/like\<close>, \<^verbatim>\<open>internal/stats\<close>,
    \<^verbatim>\<open>internal/viewer\<close>, \<^verbatim>\<open>internal/traffic\<close>, \<^verbatim>\<open>internal/danmaku\<close>): \<open>Redis_Store\<close>, \<open>Like\<close>,
    \<open>Like_Snapshot\<close>, \<open>Stats\<close>, \<open>Traffic\<close>, \<open>Danmaku_Filter\<close>, \<open>Danmaku\<close>; \<open>Redis_Limits\<close> bounds what
    the limiter lets through, \<open>Like_Counting\<close>, \<open>Like_Recovery\<close> and \<open>Stats_Rounds\<close> account for every
    like, \<open>Danmaku_Live\<close> and \<open>Danmaku_Store\<close> for every message. \<open>Platform\<close> is the state of all
    stores together.
  \<^item> HTTP (\<^verbatim>\<open>internal/httpapi\<close>, \<^verbatim>\<open>internal/identityclient\<close>, \<^verbatim>\<open>internal/gateway\<close>): \<open>Http\<close>,
    \<open>Http_Views\<close>, \<open>Http_Server\<close>, \<open>Http_Calls\<close>, \<open>Identity_Client\<close>, \<open>Interaction\<close> (with
    \<^verbatim>\<open>internal/querymodel\<close>) and \<open>Gateway\<close>; \<open>Http_Authority\<close> is about the identity service, and
    \<open>Whole_Program\<close> puts the gateway in front of the four services and states who may change what.
  \<^item> Processes (\<^verbatim>\<open>internal/config\<close>, \<^verbatim>\<open>cmd\<close>): \<open>Config\<close>, \<open>Worker\<close>, \<open>Migrate\<close>.

  \<^bold>\<open>Interfaces.\<close> Locales state what a component relies on, and are interpreted on the model's own
  definitions: \<open>dedup_store\<close>, \<open>publisher\<close> and their union \<open>event_delivery\<close> (delivery of an
  event until it is recorded), \<open>record_handler\<close> (a consumer's handler with its dead letters), \<open>gift_ports\<close>,
  \<open>like_ports\<close>, \<open>danmaku_ports\<close> and \<open>stats_ports\<close> (what a service needs of its repository and
  its neighbours), and \<open>quiet_services\<close>, \<open>quiet_commerce\<close>, \<open>quiet_pages\<close> and \<open>behind_client\<close> (pages
  that leave a predicate alone, whatever the request).

  \<^bold>\<open>Bounds and fuel.\<close> Every loop of the program is structural recursion or a \<open>function\<close> with its
  termination proof, except the paging of the like recovery: it has fuel, and
  \<open>like_recovery_ends\<close> shows that one more than the number of checkpoints is always enough. The
  consumer and the rooms run for ever as step relations. Some properties of counters ask that the
  numbers stay within \<open>2 ^ 53\<close>, beyond which Redis' Lua rounds them.

  \<^bold>\<open>Two wirings.\<close> The worlds \<open>gift_live\<close>, \<open>like_live\<close> and \<open>danmaku_live\<close> connect a service to the
  room service in its own process, which shows what the service decides when every error keeps its
  identity. The processes use the HTTP client instead, which turns refusals into plain errors
  (\<open>identity_client_agrees\<close>, \<open>interaction_join_refused\<close>); \<open>Whole_Program\<close> uses that wiring.

  \<^bold>\<open>Not under \<^verbatim>\<open>src\<close>, and so arguments.\<close> The tables of Unicode beyond ASCII, the collation of
  MySQL, the realtime server, the trace carrier, the Kafka client library and the parser of a DSN.
  Where a property needs the realtime server to take a message it assumes \<open>takes_all\<close>: every request
  is answered with status 200 and a JSON object with a result, as its API documents success.

  \<^bold>\<open>Not modelled.\<close> Log lines, spans and metrics (\<^verbatim>\<open>internal/observability\<close>): they decide nothing.
  The opening of connections, signals and the orderly shutdown of the processes; the timer loops
  that only repeat a round; \<^verbatim>\<open>internal/store/mysqlstore\<close>, which wraps the driver; the web pages
  (\<^verbatim>\<open>webui\<close>), which are files; and the load generators under \<^verbatim>\<open>tools\<close>, which are not part of the
  program.
\<close>

end
